(* ===== verification/Json.thy ===== *)
theory Json
  imports Prelude
begin

text \<open>
  The documents the program keeps: JSON values, as \<open>serde_json::Value\<close> holds them. An
  object is a \<open>BTreeMap<String, Value>\<close> (the crate is built without insertion order), so
  it is an association list in the order of its keys; \<open>obj_insert\<close> keeps that order and
  replaces, \<open>obj_remove\<close> and \<open>obj_retain\<close> drop. \<open>jget\<close>, \<open>jindex\<close> and \<open>jindex_set\<close> are
  \<open>Value::get\<close>, \<open>value[key]\<close> read (null when there is nothing) and \<open>value[key] = v\<close>
  (which makes an object of null and panics on anything else: \<^const>\<open>None\<close>).
  Parsing and printing JSON text is not modelled: documents enter and leave as values.
\<close>

datatype json =
    JNull
  | JBool bool
  | JUInt u64
  | JNegInt int
  | JFloat u64
  | JStr string
  | JArr "json list"
  | JObj "(string \<times> json) list"

type_synonym obj = "(string \<times> json) list"

section \<open>Objects: ordered maps from text\<close>

text \<open>What the code relies on of the map inside an object, whatever its values are.\<close>

locale string_map =
  fixes lookup :: "'m \<Rightarrow> string \<Rightarrow> 'v option"
    and insert :: "string \<Rightarrow> 'v \<Rightarrow> 'm \<Rightarrow> 'm"
    and remove :: "string \<Rightarrow> 'm \<Rightarrow> 'm"
    and retain :: "(string \<Rightarrow> 'v \<Rightarrow> bool) \<Rightarrow> 'm \<Rightarrow> 'm"
    and invar :: "'m \<Rightarrow> bool"
  assumes lookup_insert: "lookup (insert k v m) = (lookup m)(k \<mapsto> v)"
    and lookup_remove: "lookup (remove k m) = (lookup m)(k := None)"
    and lookup_retain:
      "invar m \<Longrightarrow> lookup (retain p m) k =
         (case lookup m k of Some v \<Rightarrow> if p k v then Some v else None | None \<Rightarrow> None)"
    and invar_insert: "invar m \<Longrightarrow> invar (insert k v m)"
    and invar_remove: "invar m \<Longrightarrow> invar (remove k m)"
    and invar_retain: "invar m \<Longrightarrow> invar (retain p m)"
begin

lemma lookup_insert_same: "lookup (insert k v m) k = Some v"
  by (simp add: lookup_insert)

lemma lookup_insert_other: "k \<noteq> k' \<Longrightarrow> lookup (insert k v m) k' = lookup m k'"
  by (simp add: lookup_insert)

lemma lookup_remove_same: "lookup (remove k m) k = None"
  by (simp add: lookup_remove)

lemma lookup_remove_other: "k \<noteq> k' \<Longrightarrow> lookup (remove k m) k' = lookup m k'"
  by (simp add: lookup_remove)

lemma lookup_remove_insert: "lookup m k = None \<Longrightarrow> lookup (remove k (insert k v m)) = lookup m"
  by (auto simp: lookup_remove lookup_insert)

lemma lookup_retain_Some:
  "invar m \<Longrightarrow> lookup (retain p m) k = Some v \<longleftrightarrow> lookup m k = Some v \<and> p k v"
  by (auto simp: lookup_retain split: option.splits)

lemma lookup_retain_idem: "invar m \<Longrightarrow> lookup (retain p (retain p m)) = lookup (retain p m)"
  by (rule ext) (auto simp: lookup_retain invar_retain split: option.splits)

lemma lookup_retain_insert:
  "invar m \<Longrightarrow> p k v \<Longrightarrow> lookup (retain p (insert k v m)) = (lookup (retain p m))(k \<mapsto> v)"
  by (rule ext) (auto simp: lookup_retain lookup_insert invar_insert split: option.splits)

end

text \<open>\<open>BTreeMap::insert\<close> on the ordered association list.\<close>

fun map_insert :: "string \<Rightarrow> 'v \<Rightarrow> (string \<times> 'v) list \<Rightarrow> (string \<times> 'v) list" where
  "map_insert k v [] = [(k, v)]"
| "map_insert k v ((k', v') # m) =
     (if k = k' then (k, v) # m else if k < k' then (k, v) # (k', v') # m
      else (k', v') # map_insert k v m)"

definition map_remove :: "string \<Rightarrow> (string \<times> 'v) list \<Rightarrow> (string \<times> 'v) list" where
  "map_remove k m = filter (\<lambda>(k', v). k' \<noteq> k) m"

definition map_retain :: "(string \<Rightarrow> 'v \<Rightarrow> bool) \<Rightarrow> (string \<times> 'v) list \<Rightarrow> (string \<times> 'v) list" where
  "map_retain p m = filter (\<lambda>(k, v). p k v) m"

definition ordered :: "(string \<times> 'v) list \<Rightarrow> bool" where
  "ordered m \<longleftrightarrow> sorted_wrt (<) (map fst m)"

lemma map_of_map_insert: "map_of (map_insert k v m) = (map_of m)(k \<mapsto> v)"
  by (induction m rule: map_insert.induct) auto

lemma map_of_map_remove: "map_of (map_remove k m) = (map_of m)(k := None)"
  by (induction m) (auto simp: map_remove_def)

lemma set_map_insert: "set (map_insert k v m) \<subseteq> insert (k, v) (set m)"
  by (induction k v m rule: map_insert.induct) auto

lemma keys_map_insert: "fst ` set (map_insert k v m) = insert k (fst ` set m)"
  by (induction k v m rule: map_insert.induct) auto

lemma ordered_map_insert: "ordered m \<Longrightarrow> ordered (map_insert k v m)"
proof (induction k v m rule: map_insert.induct)
  case (1 k v)
  show ?case by (simp add: ordered_def)
next
  case (2 k v k' v' m)
  have rest: "ordered m" using "2.prems" by (simp add: ordered_def)
  have above: "x \<in> fst ` set m \<Longrightarrow> k' < x" for x
    using "2.prems" by (auto simp: ordered_def)
  consider "k = k'" | "k \<noteq> k'" "k < k'" | "k \<noteq> k'" "\<not> k < k'" by blast
  then show ?case
  proof cases
    case 1
    with "2.prems" show ?thesis by (simp add: ordered_def)
  next
    case 2
    with above have "x \<in> fst ` set m \<Longrightarrow> k < x" for x
      using less_trans by blast
    with 2 "2.prems" show ?thesis by (auto simp: ordered_def)
  next
    case 3
    then have "k' < k" by (simp add: not_less order.order_iff_strict)
    with 3 above "2.IH" rest have "x \<in> fst ` set (map_insert k v m) \<Longrightarrow> k' < x" for x
      by (auto simp: keys_map_insert)
    with 3 "2.IH" rest show ?thesis
      by (auto simp: ordered_def)
  qed
qed

lemma ordered_map_retain: "ordered m \<Longrightarrow> ordered (map_retain p m)"
proof (induction m)
  case Nil
  then show ?case by (simp add: map_retain_def)
next
  case (Cons a m)
  then show ?case by (cases a) (auto simp: ordered_def map_retain_def)
qed

lemma map_of_ordered_None:
  "ordered ((k, v) # m) \<Longrightarrow> map_of m k = None"
  by (induction m) (auto simp: ordered_def)

lemma ordered_distinct: "ordered m \<Longrightarrow> distinct (map fst m)"
  by (induction m) (auto simp: ordered_def)

lemma map_of_map_retain:
  "distinct (map fst m) \<Longrightarrow>
     map_of (map_retain p m) k =
       (case map_of m k of Some v \<Rightarrow> if p k v then Some v else None | None \<Rightarrow> None)"
proof (induction m)
  case Nil
  then show ?case by (simp add: map_retain_def)
next
  case (Cons a m)
  obtain k' v' where a: "a = (k', v')" by (cases a)
  with Cons have IH: "map_of (map_retain p m) k =
     (case map_of m k of Some v \<Rightarrow> if p k v then Some v else None | None \<Rightarrow> None)"
    and new: "map_of m k' = None"
    by (auto simp: map_of_eq_None_iff)
  show ?case
    using IH new a by (cases "k = k'") (auto simp: map_retain_def split: option.splits)
qed

lemma ordered_map_remove: "ordered m \<Longrightarrow> ordered (map_remove k m)"
  using ordered_map_retain [of m "\<lambda>k' v. k' \<noteq> k"]
  by (simp add: map_remove_def map_retain_def)

interpretation btree:
  string_map "map_of :: (string \<times> 'v) list \<Rightarrow> string \<Rightarrow> 'v option" map_insert map_remove map_retain ordered
  by unfold_locales
     (auto simp: map_of_map_insert map_of_map_remove map_of_map_retain ordered_distinct
        ordered_map_insert ordered_map_remove ordered_map_retain)

section \<open>Reading and writing a value\<close>

definition jget :: "json \<Rightarrow> string \<Rightarrow> json option" where
  "jget j k = (case j of JObj m \<Rightarrow> map_of m k | _ \<Rightarrow> None)"

definition jindex :: "json \<Rightarrow> string \<Rightarrow> json" where
  "jindex j k = (case jget j k of Some v \<Rightarrow> v | None \<Rightarrow> JNull)"

definition as_str :: "json \<Rightarrow> string option" where
  "as_str j = (case j of JStr s \<Rightarrow> Some s | _ \<Rightarrow> None)"

definition as_u64 :: "json \<Rightarrow> u64 option" where
  "as_u64 j = (case j of JUInt n \<Rightarrow> Some n | _ \<Rightarrow> None)"

definition as_bool :: "json \<Rightarrow> bool option" where
  "as_bool j = (case j of JBool b \<Rightarrow> Some b | _ \<Rightarrow> None)"

definition as_array :: "json \<Rightarrow> json list option" where
  "as_array j = (case j of JArr xs \<Rightarrow> Some xs | _ \<Rightarrow> None)"

definition as_object :: "json \<Rightarrow> obj option" where
  "as_object j = (case j of JObj m \<Rightarrow> Some m | _ \<Rightarrow> None)"

definition is_number :: "json \<Rightarrow> bool" where
  "is_number j \<longleftrightarrow> (case j of JUInt _ \<Rightarrow> True | JNegInt _ \<Rightarrow> True | JFloat _ \<Rightarrow> True | _ \<Rightarrow> False)"

lemmas json_reads = jget_def as_str_def as_u64_def as_bool_def as_array_def as_object_def

text \<open>\<open>value.get(key).and_then(Value::as_str)\<close> and its kin, the reads the code is made of.\<close>

definition get_str :: "json \<Rightarrow> string \<Rightarrow> string option" where
  "get_str j k = Option.bind (jget j k) as_str"

definition get_u64 :: "json \<Rightarrow> string \<Rightarrow> u64 option" where
  "get_u64 j k = Option.bind (jget j k) as_u64"

definition get_array :: "json \<Rightarrow> string \<Rightarrow> json list option" where
  "get_array j k = Option.bind (jget j k) as_array"

definition get_object :: "json \<Rightarrow> string \<Rightarrow> obj option" where
  "get_object j k = Option.bind (jget j k) as_object"

lemmas get_defs = get_str_def get_u64_def get_array_def get_object_def

text \<open>\<open>value[key] = v\<close> and \<open>value[key1][key2] = v\<close>; \<^const>\<open>None\<close> is the panic.\<close>

definition jindex_set :: "json \<Rightarrow> string \<Rightarrow> json \<Rightarrow> json option" where
  "jindex_set j k v =
     (case j of JObj m \<Rightarrow> Some (JObj (map_insert k v m)) | JNull \<Rightarrow> Some (JObj [(k, v)]) | _ \<Rightarrow> None)"

definition jindex_set2 :: "json \<Rightarrow> string \<Rightarrow> string \<Rightarrow> json \<Rightarrow> json option" where
  "jindex_set2 j k1 k2 v =
     Option.bind (jindex_set (jindex j k1) k2 v) (\<lambda>inner. jindex_set j k1 inner)"

text \<open>An object literal: \<open>json!({..})\<close>, entries inserted into an empty ordered map.\<close>

definition mk_obj :: "(string \<times> json) list \<Rightarrow> json" where
  "mk_obj kvs = JObj (fold (\<lambda>(k, v). map_insert k v) kvs [])"

definition json_opt :: "('a \<Rightarrow> json) \<Rightarrow> 'a option \<Rightarrow> json" where
  "json_opt f x = (case x of Some a \<Rightarrow> f a | None \<Rightarrow> JNull)"

lemma jget_JObj [simp]: "jget (JObj m) k = map_of m k"
  by (simp add: jget_def)

lemma as_simps [simp]:
  "as_str (JStr s) = Some s" "as_u64 (JUInt n) = Some n" "as_bool (JBool b) = Some b"
  "as_array (JArr xs) = Some xs" "as_object (JObj m) = Some m"
  "as_str JNull = None" "as_u64 JNull = None" "as_array JNull = None" "as_object JNull = None"
  by (simp_all add: json_reads)

lemma as_Some [simp]:
  "as_str j = Some s \<longleftrightarrow> j = JStr s"
  "as_u64 j = Some n \<longleftrightarrow> j = JUInt n"
  "as_bool j = Some b \<longleftrightarrow> j = JBool b"
  "as_array j = Some xs \<longleftrightarrow> j = JArr xs"
  "as_object j = Some m \<longleftrightarrow> j = JObj m"
  by (cases j; simp add: json_reads)+

lemma get_Some [simp]:
  "get_str j k = Some s \<longleftrightarrow> jget j k = Some (JStr s)"
  "get_u64 j k = Some n \<longleftrightarrow> jget j k = Some (JUInt n)"
  "get_array j k = Some xs \<longleftrightarrow> jget j k = Some (JArr xs)"
  "get_object j k = Some m \<longleftrightarrow> jget j k = Some (JObj m)"
  by (auto simp: get_defs bind_eq_Some_conv)

lemma jget_mk_obj_fold:
  "map_of (fold (\<lambda>(k, v). map_insert k v) kvs m) = map_of m ++ map_of (rev kvs)"
  by (induction kvs arbitrary: m) (auto simp: map_of_map_insert fun_eq_iff map_add_def split: option.splits)

lemma jget_mk_obj [simp]: "jget (mk_obj kvs) k = map_of (rev kvs) k"
  by (simp add: mk_obj_def jget_mk_obj_fold)

lemma ordered_mk_obj: "ordered (fold (\<lambda>(k, v). map_insert k v) kvs m)" if "ordered m"
  using that by (induction kvs arbitrary: m) (auto intro: ordered_map_insert)

lemma jindex_set_get:
  "jindex_set j k v = Some j' \<Longrightarrow> jget j' = (jget j)(k \<mapsto> v)"
  by (cases j) (auto simp: jindex_set_def jget_def map_of_map_insert fun_eq_iff)

lemma jindex_set2_get:
  "jindex_set2 j k1 k2 v = Some j' \<Longrightarrow>
     \<exists>inner. jindex_set (jindex j k1) k2 v = Some inner \<and> jget j' = (jget j)(k1 \<mapsto> inner)"
  by (auto simp: jindex_set2_def bind_eq_Some_conv dest: jindex_set_get)

end
