(* ===== verification/Schema.thy ===== *)
theory Schema
  imports Json
begin

text \<open>
  The canonical item contract, \<open>src/core/schema\<close>: exact names (\<open>mod.rs\<close>), the item kinds
  and what each declares of its fields (\<open>kinds.rs\<close>), building and checking one payload
  (\<open>payload.rs\<close>) and the registered tag namespaces (\<open>tags.rs\<close>). A refusal is a
  constructor of \<open>schema_error\<close>, one per sentence of the code.
\<close>

section \<open>Exact names\<close>

definition ITEM_SCHEMA :: string where
  "ITEM_SCHEMA = ''skarbiec.item.v2''"

definition IDENTITY_REFERENCE :: string where
  "IDENTITY_REFERENCE = ''identity''"

definition exact_token :: "string \<Rightarrow> bool" where
  "exact_token value \<longleftrightarrow>
     value \<noteq> [] \<and> CHR 0x00 \<notin> set value \<and> CHR 0x0A \<notin> set value \<and> CHR 0x0D \<notin> set value"

definition is_placeholder :: "string \<Rightarrow> bool" where
  "is_placeholder value \<longleftrightarrow>
     CHR ''_'' \<in> set value
   \<and> (case value of c # _ \<Rightarrow> is_upper c | [] \<Rightarrow> False)
   \<and> list_all (\<lambda>b. is_upper b \<or> is_digit b \<or> b = CHR ''_'') value"

definition component_byte :: "char \<Rightarrow> bool" where
  "component_byte b \<longleftrightarrow> is_alnum b \<or> b = CHR ''.'' \<or> b = CHR ''_'' \<or> b = CHR ''-''"

definition exact_component :: "string \<Rightarrow> bool" where
  "exact_component value \<longleftrightarrow> value \<noteq> [] \<and> list_all component_byte value"

lemma component_byte_plain:
  "component_byte b \<Longrightarrow>
     b \<noteq> CHR 0x00 \<and> b \<noteq> CHR 0x0A \<and> b \<noteq> CHR 0x0D \<and> b \<noteq> CHR ''#'' \<and> b \<noteq> CHR '':'' \<and>
     b \<noteq> CHR '','' \<and> b \<noteq> CHR ''/''"
  by (auto simp: component_byte_def char_class_defs less_eq_char_def)

lemma exact_component_avoids:
  assumes "exact_component s"
  shows "CHR 0x00 \<notin> set s" "CHR ''#'' \<notin> set s" "CHR '':'' \<notin> set s" "CHR '','' \<notin> set s"
    "CHR ''/'' \<notin> set s"
  using assms component_byte_plain by (auto simp: exact_component_def list_all_iff)

lemma exact_component_token: "exact_component s \<Longrightarrow> exact_token s"
  using component_byte_plain by (auto simp: exact_component_def exact_token_def list_all_iff)

section \<open>Item kinds\<close>

datatype shape = Text | TextOrList | TextOrObject | AnyShape

record field_decl =
  fname :: string
  frequired :: bool
  fone_of :: "string option"
  fshape :: shape

definition required_field :: "string \<Rightarrow> shape \<Rightarrow> field_decl" where
  "required_field name sh = \<lparr>fname = name, frequired = True, fone_of = None, fshape = sh\<rparr>"

definition optional_field :: "string \<Rightarrow> shape \<Rightarrow> field_decl" where
  "optional_field name sh = \<lparr>fname = name, frequired = False, fone_of = None, fshape = sh\<rparr>"

definition one_of_field :: "string \<Rightarrow> string \<Rightarrow> shape \<Rightarrow> field_decl" where
  "one_of_field name grp sh = \<lparr>fname = name, frequired = False, fone_of = Some grp, fshape = sh\<rparr>"

lemmas field_decl_defs = required_field_def optional_field_def one_of_field_def

definition FACTOR :: string where "FACTOR = ''authentication factor''"
definition NAME :: string where "NAME = ''address or phone number''"

definition NOTE :: "field_decl list" where
  "NOTE = [required_field ''value'' Text]"

definition LOGIN :: "field_decl list" where
  "LOGIN =
    [required_field ''username'' Text,
     one_of_field ''password'' FACTOR Text,
     one_of_field ''totp_secret'' FACTOR Text,
     one_of_field ''recovery_codes'' FACTOR TextOrList]"

definition IDENTITY :: "field_decl list" where
  "IDENTITY =
    [one_of_field ''email'' NAME Text,
     one_of_field ''phone'' NAME Text,
     optional_field ''password'' Text,
     optional_field ''totp_secret'' Text,
     optional_field ''recovery_codes'' TextOrList]"

definition HOST_ACCOUNT :: "field_decl list" where
  "HOST_ACCOUNT = [required_field ''username'' Text, required_field ''password'' Text]"

definition API_KEY :: "field_decl list" where
  "API_KEY =
    [required_field ''api_key'' Text,
     optional_field ''api_user'' Text,
     optional_field ''username'' Text,
     optional_field ''client_ip'' Text]"

definition ACCESS_KEY :: "field_decl list" where
  "ACCESS_KEY =
    [required_field ''access_key_id'' Text,
     required_field ''secret_access_key'' Text,
     optional_field ''session_token'' Text]"

definition TOKEN :: "field_decl list" where
  "TOKEN = [required_field ''token'' Text]"

definition OAUTH_CLIENT :: "field_decl list" where
  "OAUTH_CLIENT = [required_field ''client_id'' Text, required_field ''client_secret'' Text]"

definition PROXY :: "field_decl list" where
  "PROXY =
    [required_field ''username'' Text,
     required_field ''password'' Text,
     optional_field ''host'' Text,
     optional_field ''ports'' TextOrList,
     optional_field ''zone'' Text]"

definition KEY_PAIR :: "field_decl list" where
  "KEY_PAIR =
    [required_field ''private_key'' Text,
     optional_field ''public_key'' Text,
     optional_field ''passphrase'' Text,
     optional_field ''key_id'' Text,
     optional_field ''issuer_id'' Text,
     optional_field ''team_id'' Text]"

definition CERTIFICATE :: "field_decl list" where
  "CERTIFICATE =
    [required_field ''certificate'' Text,
     required_field ''private_key'' Text,
     optional_field ''chain'' TextOrList,
     optional_field ''passphrase'' Text]"

definition SERVICE_ACCOUNT :: "field_decl list" where
  "SERVICE_ACCOUNT = [required_field ''credential_json'' TextOrObject]"

definition PAYMENT_CARD :: "field_decl list" where
  "PAYMENT_CARD =
    [required_field ''number'' Text,
     optional_field ''cardholder'' Text,
     optional_field ''expiry'' Text,
     optional_field ''security_code'' Text,
     optional_field ''pin'' Text,
     optional_field ''brand'' Text]"

definition RECORD :: "field_decl list" where
  "RECORD = [required_field ''value'' AnyShape]"

lemmas kind_tables =
  NOTE_def LOGIN_def IDENTITY_def HOST_ACCOUNT_def API_KEY_def ACCESS_KEY_def TOKEN_def
  OAUTH_CLIENT_def PROXY_def KEY_PAIR_def CERTIFICATE_def SERVICE_ACCOUNT_def
  PAYMENT_CARD_def RECORD_def

datatype declared = Unknown | Open | Fields "field_decl list"

definition declared :: "string \<Rightarrow> declared" where
  "declared kind =
    (if kind = ''note'' then Fields NOTE
     else if kind = ''login'' then Fields LOGIN
     else if kind = ''identity'' then Fields IDENTITY
     else if kind = ''host-account'' then Fields HOST_ACCOUNT
     else if kind = ''api-key'' then Fields API_KEY
     else if kind = ''access-key'' then Fields ACCESS_KEY
     else if kind = ''token'' then Fields TOKEN
     else if kind = ''oauth-client'' then Fields OAUTH_CLIENT
     else if kind = ''proxy'' then Fields PROXY
     else if kind = ''key-pair'' then Fields KEY_PAIR
     else if kind = ''certificate'' then Fields CERTIFICATE
     else if kind = ''service-account'' then Fields SERVICE_ACCOUNT
     else if kind = ''payment-card'' then Fields PAYMENT_CARD
     else if kind = ''credential-operation'' \<or> kind = ''credential-directory-seal'' then Fields RECORD
     else if kind = ''bundle'' \<or> kind = ''stado-secret'' \<or> kind = ''internal-authority'' then Open
     else Unknown)"

definition supported_kind :: "string \<Rightarrow> bool" where
  "supported_kind kind \<longleftrightarrow> declared kind \<noteq> Unknown"

definition kind_names :: "string \<Rightarrow> string list" where
  "kind_names kind = (case declared kind of Fields fs \<Rightarrow> map fname fs | _ \<Rightarrow> [])"

text \<open>Every kind declares each field once, and a name is an exact component.\<close>

definition kind_declarations :: "field_decl list list" where
  "kind_declarations =
    [NOTE, LOGIN, IDENTITY, HOST_ACCOUNT, API_KEY, ACCESS_KEY, TOKEN, OAUTH_CLIENT, PROXY,
     KEY_PAIR, CERTIFICATE, SERVICE_ACCOUNT, PAYMENT_CARD, RECORD]"

lemma declared_in_declarations: "declared kind = Fields fs \<Longrightarrow> fs \<in> set kind_declarations"
  by (simp add: declared_def kind_declarations_def split: if_splits)

lemma declarations_sound:
  "list_all (\<lambda>fs. distinct (map fname fs) \<and> list_all (\<lambda>f. exact_component (fname f)) fs)
     kind_declarations"
  by code_simp

lemma declared_names_distinct: "declared kind = Fields fs \<Longrightarrow> distinct (map fname fs)"
  using declared_in_declarations declarations_sound by (auto simp: list_all_iff)

lemma declared_names_exact: "declared kind = Fields fs \<Longrightarrow> f \<in> set fs \<Longrightarrow> exact_component (fname f)"
  using declared_in_declarations declarations_sound by (auto simp: list_all_iff)

section \<open>Payloads\<close>

datatype (plugins only: code size) schema_error =
    FieldNotAllowed string string
  | FieldType string string
  | RequiresField string string
  | RequiresOneOf string string "string list"
  | UnsupportedKind string
  | PayloadNotObject
  | UnknownProperty string
  | WrongSchema
  | KindMismatch
  | FieldsNotObject
  | FieldsEmpty
  | InvalidFieldName string
  | ContextNotObject
  | AccountRefMissing
  | CardExpiry
  | IdentityNotText
  | IdentityNotId string
  | IdentityOfIdentity
  | ExtensionsNotObject
  | NoFieldsObject
  | NoContext
  | NoField string
  | TagNotText json
  | TagRefused string

definition holds :: "shape \<Rightarrow> json \<Rightarrow> bool" where
  "holds sh v =
    (case sh of
       Text \<Rightarrow> as_str v \<noteq> None
     | TextOrList \<Rightarrow> as_str v \<noteq> None \<or> as_array v \<noteq> None
     | TextOrObject \<Rightarrow> as_str v \<noteq> None \<or> as_object v \<noteq> None
     | AnyShape \<Rightarrow> True)"

definition find_field :: "field_decl list \<Rightarrow> string \<Rightarrow> field_decl option" where
  "find_field decl name = find (\<lambda>f. fname f = name) decl"

definition contains_key :: "obj \<Rightarrow> string \<Rightarrow> bool" where
  "contains_key m k \<longleftrightarrow> map_of m k \<noteq> None"

fun check_values :: "string \<Rightarrow> field_decl list \<Rightarrow> obj \<Rightarrow> schema_error + unit" where
  "check_values kind decl [] = Inr ()"
| "check_values kind decl ((name, v) # rest) =
     (case find_field decl name of
        None \<Rightarrow> Inl (FieldNotAllowed name kind)
      | Some f \<Rightarrow>
          if \<not> holds (fshape f) v then Inl (FieldType kind name)
          else check_values kind decl rest)"

fun check_presence :: "string \<Rightarrow> field_decl list \<Rightarrow> obj \<Rightarrow> field_decl list \<Rightarrow> schema_error + unit" where
  "check_presence kind decl m [] = Inr ()"
| "check_presence kind decl m (f # fs) =
     (if frequired f \<and> \<not> contains_key m (fname f) then Inl (RequiresField kind (fname f))
      else case fone_of f of
        None \<Rightarrow> check_presence kind decl m fs
      | Some grp \<Rightarrow>
          (let members = filter (\<lambda>g. fone_of g = Some grp) decl
           in if \<not> list_ex (\<lambda>g. contains_key m (fname g)) members
              then Inl (RequiresOneOf kind grp (map fname members))
              else check_presence kind decl m fs))"

definition check_declared :: "string \<Rightarrow> field_decl list \<Rightarrow> obj \<Rightarrow> schema_error + unit" where
  "check_declared kind decl m =
     bindR (check_values kind decl m) (\<lambda>_. check_presence kind decl m decl)"

definition year_month :: "string \<Rightarrow> bool" where
  "year_month text =
    (case split_once (CHR ''-'') text of
       None \<Rightarrow> False
     | Some (year, month) \<Rightarrow>
         length year = 4 \<and> length month = 2 \<and> list_all is_digit (year @ month)
       \<and> 1 \<le> digits_val month \<and> digits_val month \<le> 12)"

definition envelope_keys :: "string list" where
  "envelope_keys = [''schema'', ''kind'', ''fields'', ''context'', ''extensions'']"

definition check_identity :: "string \<Rightarrow> json \<Rightarrow> schema_error + unit" where
  "check_identity kind payload =
    (case Option.bind (jget payload ''context'') (\<lambda>c. jget c IDENTITY_REFERENCE) of
       None \<Rightarrow> Inr ()
     | Some r \<Rightarrow>
         bindR (ok_or IdentityNotText (as_str r)) (\<lambda>reference.
           if \<not> exact_component reference then Inl (IdentityNotId reference)
           else if kind = ''identity'' then Inl IdentityOfIdentity
           else Inr ()))"

definition check_kind_rules :: "string \<Rightarrow> json \<Rightarrow> obj \<Rightarrow> schema_error + unit" where
  "check_kind_rules kind payload m =
    (if kind = ''host-account''
      \<and> \<not> (case Option.bind (jget payload ''context'') (\<lambda>c. get_str c ''account_ref'') of
             Some r \<Rightarrow> CHR ''@'' \<in> set r | None \<Rightarrow> False)
     then Inl AccountRefMissing
     else if kind = ''payment-card''
      \<and> (case Option.bind (map_of m ''expiry'') as_str of Some e \<Rightarrow> \<not> year_month e | None \<Rightarrow> False)
     then Inl CardExpiry
     else Inr ())"

definition check_fields :: "string \<Rightarrow> obj \<Rightarrow> schema_error + unit" where
  "check_fields kind m =
    (case declared kind of
       Unknown \<Rightarrow> Inl (UnsupportedKind kind)
     | Open \<Rightarrow>
         (case find (\<lambda>(n, v). \<not> exact_component n) m of
            Some (n, v) \<Rightarrow> Inl (InvalidFieldName n)
          | None \<Rightarrow> Inr ())
     | Fields decl \<Rightarrow> check_declared kind decl m)"

definition validate_payload :: "json \<Rightarrow> string \<Rightarrow> schema_error + unit" where
  "validate_payload payload kind =
    (if declared kind = Unknown then Inl (UnsupportedKind kind)
     else bindR (ok_or PayloadNotObject (as_object payload)) (\<lambda>object.
      case find (\<lambda>(k, v). k \<notin> set envelope_keys) object of
        Some (k, v) \<Rightarrow> Inl (UnknownProperty k)
      | None \<Rightarrow>
        if get_str payload ''schema'' \<noteq> Some ITEM_SCHEMA then Inl WrongSchema
        else if get_str payload ''kind'' \<noteq> Some kind then Inl KindMismatch
        else bindR (ok_or FieldsNotObject (get_object payload ''fields'')) (\<lambda>m.
          if m = [] then Inl FieldsEmpty
          else bindR (check_fields kind m) (\<lambda>_.
            if get_object payload ''context'' = None then Inl ContextNotObject
            else bindR (check_kind_rules kind payload m) (\<lambda>_.
              bindR (check_identity kind payload) (\<lambda>_.
                if (case jget payload ''extensions'' of
                      Some e \<Rightarrow> as_object e = None | None \<Rightarrow> False)
                then Inl ExtensionsNotObject
                else Inr ()))))))"

definition payload :: "string \<Rightarrow> obj \<Rightarrow> obj \<Rightarrow> schema_error + json" where
  "payload kind m ctx =
    (let v = mk_obj [(''schema'', JStr ITEM_SCHEMA), (''kind'', JStr kind),
                     (''fields'', JObj m), (''context'', JObj ctx)]
     in bindR (validate_payload v kind) (\<lambda>_. Inr v))"

definition fields :: "json \<Rightarrow> schema_error + obj" where
  "fields p = ok_or NoFieldsObject (get_object p ''fields'')"

definition kind_allows_field :: "string \<Rightarrow> string \<Rightarrow> bool" where
  "kind_allows_field kind name =
    (if name = ''context'' then True
     else case declared kind of
            Fields decl \<Rightarrow> list_ex (\<lambda>f. fname f = name) decl
          | _ \<Rightarrow> exact_component name)"

definition kind_declares_field :: "string \<Rightarrow> string \<Rightarrow> bool" where
  "kind_declares_field kind name =
    (case declared kind of Fields decl \<Rightarrow> list_ex (\<lambda>f. fname f = name) decl | _ \<Rightarrow> False)"

definition allows_field :: "json \<Rightarrow> string \<Rightarrow> bool" where
  "allows_field p name =
    (if name = ''context'' then True
     else case get_str p ''kind'' of None \<Rightarrow> False | Some kind \<Rightarrow> kind_allows_field kind name)"

definition field :: "json \<Rightarrow> string \<Rightarrow> schema_error + json" where
  "field p name =
    (if name = ''context'' then ok_or NoContext (jget p ''context'')
     else bindR (fields p) (\<lambda>m. ok_or (NoField name) (map_of m name)))"

subsection \<open>What a validated payload holds\<close>

lemma find_field_Some: "find_field decl n = Some f \<Longrightarrow> f \<in> set decl \<and> fname f = n"
  by (auto simp: find_field_def find_Some_iff)

lemma check_values_ok:
  "check_values kind decl m = Inr u \<Longrightarrow> (n, v) \<in> set m \<Longrightarrow>
     \<exists>f \<in> set decl. fname f = n \<and> holds (fshape f) v"
  by (induction kind decl m rule: check_values.induct)
     (auto dest: find_field_Some split: option.splits if_splits)

lemma check_presence_ok:
  "check_presence kind decl m fs = Inr u \<Longrightarrow> f \<in> set fs \<Longrightarrow>
     (frequired f \<longrightarrow> contains_key m (fname f)) \<and>
     (\<forall>grp. fone_of f = Some grp \<longrightarrow>
        (\<exists>g \<in> set decl. fone_of g = Some grp \<and> contains_key m (fname g)))"
  by (induction kind decl m fs rule: check_presence.induct)
     (auto simp: list_ex_iff Let_def split: option.splits if_splits)

lemma validate_payload_shape:
  assumes "validate_payload p kind = Inr u"
  shows "declared kind \<noteq> Unknown" "get_str p ''schema'' = Some ITEM_SCHEMA"
    "get_str p ''kind'' = Some kind"
    "\<exists>m. get_object p ''fields'' = Some m \<and> m \<noteq> [] \<and> check_fields kind m = Inr ()"
    "\<exists>c. get_object p ''context'' = Some c"
  using assms
  by (auto simp: validate_payload_def result_simps split: if_splits option.splits)

lemma check_fields_allows:
  assumes "check_fields kind m = Inr u" and "(n, v) \<in> set m"
  shows "kind_allows_field kind n"
  using assms
  by (auto simp: check_fields_def kind_allows_field_def check_declared_def list_ex_iff
        find_None_iff result_simps dest: check_values_ok split: declared.splits option.splits)

lemma kind_declares_allows: "kind_declares_field kind name \<Longrightarrow> kind_allows_field kind name"
  by (auto simp: kind_declares_field_def kind_allows_field_def split: declared.splits)

end
