(* ===== verification/Tags.thy ===== *)
theory Tags
  imports Schema
begin

text \<open>
  Tag namespaces, \<open>src/core/schema/tags.rs\<close>: the registry, the judgement of one tag, the
  gate every write passes with the sentence it refuses in, and the inventory
  \<open>skarbiec tags\<close> prints.
\<close>

datatype tag_namespace = Exact string | Valued string string

definition TAG_NAMESPACES :: "tag_namespace list" where
  "TAG_NAMESPACES =
    [Exact ''managed:weles'',
     Exact ''brama:subscription'',
     Valued ''brama:agent:'' ''agent'',
     Valued ''brama:provider:'' ''provider'',
     Valued ''brama:id:'' ''id'',
     Valued ''brama:login:'' ''login'',
     Valued ''brama:account:'' ''account'',
     Exact ''fleet:host-account'',
     Valued ''fleet:target:'' ''name'',
     Exact ''fleet:tailnet-tls'',
     Valued ''stado:role:'' ''role'',
     Exact ''lifecycle:quarantined'',
     Exact ''skrzynka:mailbox'',
     Valued ''weles:record:'' ''kind'',
     Valued ''weles:login-method:'' ''method'']"

definition namespace_text :: "string \<Rightarrow> string \<Rightarrow> string" where
  "namespace_text prefix ph = prefix @ ''<'' @ ph @ ''>''"

fun shown :: "tag_namespace \<Rightarrow> string" where
  "shown (Exact tag) = tag"
| "shown (Valued prefix ph) = namespace_text prefix ph"

text \<open>The loop over the registry: the first namespace whose prefix the tag carries decides.\<close>

fun valued_refusal :: "tag_namespace list \<Rightarrow> string \<Rightarrow> string + unit" where
  "valued_refusal [] tag = Inl ''claims a namespace that is not registered''"
| "valued_refusal (Exact _ # rest) tag = valued_refusal rest tag"
| "valued_refusal (Valued prefix ph # rest) tag =
     (case strip_prefix prefix tag of
        None \<Rightarrow> valued_refusal rest tag
      | Some carried \<Rightarrow>
          if exact_token carried then Inr ()
          else Inl (''claims the '' @ namespace_text prefix ph @ '' namespace without a usable '' @ ph @
            '': the value must be non-empty and carry no NUL, newline or carriage return''))"

definition is_exact_of :: "string \<Rightarrow> tag_namespace \<Rightarrow> bool" where
  "is_exact_of tag n \<longleftrightarrow> (case n of Exact e \<Rightarrow> tag = e | Valued _ _ \<Rightarrow> False)"

definition tag_refusal :: "string \<Rightarrow> string + unit" where
  "tag_refusal tag =
    (if CHR '':'' \<notin> set tag then Inr ()
     else if list_ex (is_exact_of tag) TAG_NAMESPACES then Inr ()
     else valued_refusal TAG_NAMESPACES tag)"

definition tag_refused :: "string \<Rightarrow> string \<Rightarrow> string" where
  "tag_refused tag reason =
     ''tag `'' @ tag @ ''` '' @ reason @ ''. Registered namespaces: '' @
     join_with '', '' (map shown TAG_NAMESPACES) @
     ''. Register a namespace before anything writes it; a tag with no colon claims no namespace and stays the operator'' @ [CHR 0x27] @ ''s own label.''"

fun ensure_registered_tags :: "json list \<Rightarrow> json list \<Rightarrow> schema_error + unit" where
  "ensure_registered_tags carried [] = Inr ()"
| "ensure_registered_tags carried (w # ws) =
     (if w \<in> set carried then ensure_registered_tags carried ws
      else case as_str w of
        None \<Rightarrow> Inl (TagNotText w)
      | Some tag \<Rightarrow> bindR (map_err (TagRefused \<circ> tag_refused tag) (tag_refusal tag)) (\<lambda>_. ensure_registered_tags carried ws))"

text \<open>The tag inventory: an ordered map from tag to the ids that carry it, in listing order.\<close>

definition note_tag :: "string \<Rightarrow> (string \<times> string list) list \<Rightarrow> string \<Rightarrow> (string \<times> string list) list" where
  "note_tag ident m tag =
     map_insert tag ((case map_of m tag of Some ids \<Rightarrow> ids | None \<Rightarrow> []) @ [ident]) m"

definition note_item :: "(string \<times> string list) list \<Rightarrow> json \<Rightarrow> (string \<times> string list) list" where
  "note_item m item =
     (case get_str item ''id'' of
        None \<Rightarrow> m
      | Some ident \<Rightarrow>
          foldl (note_tag ident) m
            (List.map_filter as_str (case get_array item ''tags'' of Some ts \<Rightarrow> ts | None \<Rightarrow> [])))"

definition tag_row :: "string \<times> string list \<Rightarrow> json" where
  "tag_row ti =
     mk_obj [(''tag'', JStr (fst ti)), (''items'', JArr (map JStr (snd ti))),
             (''covered'', JBool (case tag_refusal (fst ti) of Inr _ \<Rightarrow> True | Inl _ \<Rightarrow> False)),
             (''reason'', case tag_refusal (fst ti) of Inr _ \<Rightarrow> JNull | Inl reason \<Rightarrow> JStr reason)]"

definition tag_inventory :: "json list \<Rightarrow> json" where
  "tag_inventory items =
     mk_obj [(''namespaces'', JArr (map (JStr \<circ> shown) TAG_NAMESPACES)),
             (''tags'', JArr (map tag_row (foldl note_item [] items)))]"

text \<open>What it is for a tag to be covered, said without the loop.\<close>

definition tag_covered :: "string \<Rightarrow> bool" where
  "tag_covered tag \<longleftrightarrow>
     CHR '':'' \<notin> set tag \<or> Exact tag \<in> set TAG_NAMESPACES \<or>
     (\<exists>prefix value r. Valued prefix value \<in> set TAG_NAMESPACES \<and> tag = prefix @ r \<and> exact_token r)"

fun valued_prefixes :: "tag_namespace list \<Rightarrow> string list" where
  "valued_prefixes [] = []"
| "valued_prefixes (Exact _ # rest) = valued_prefixes rest"
| "valued_prefixes (Valued prefix _ # rest) = prefix # valued_prefixes rest"

lemma valued_prefixes_set: "Valued p v \<in> set ns \<Longrightarrow> p \<in> set (valued_prefixes ns)"
  by (induction ns rule: valued_prefixes.induct) auto

text \<open>No registered prefix is a prefix of another, so the order of the registry decides nothing.\<close>

lemma prefixes_incomparable:
  "list_all (\<lambda>p. list_all (\<lambda>q. p = q \<or> \<not> starts_with p q) (valued_prefixes TAG_NAMESPACES))
     (valued_prefixes TAG_NAMESPACES)"
  by code_simp

lemma common_prefix_unique:
  assumes "Valued p v \<in> set TAG_NAMESPACES" "Valued q w \<in> set TAG_NAMESPACES"
    and "tag = p @ r" "tag = q @ s"
  shows "p = q"
proof -
  have "p \<in> set (valued_prefixes TAG_NAMESPACES)" "q \<in> set (valued_prefixes TAG_NAMESPACES)"
    using assms(1,2) by (auto intro: valued_prefixes_set)
  then have *: "p = q \<or> \<not> starts_with p q" "q = p \<or> \<not> starts_with q p"
    using prefixes_incomparable by (auto simp: list_all_iff)
  from assms(3,4) have "p @ r = q @ s" by simp
  then have "starts_with p q \<or> starts_with q p"
    by (auto simp: starts_with_iff append_eq_append_conv2)
  with * show ?thesis by auto
qed

lemma valued_refusal_ok:
  assumes "set ns \<subseteq> set TAG_NAMESPACES"
  shows "valued_refusal ns tag = Inr () \<longleftrightarrow>
    (\<exists>prefix value r. Valued prefix value \<in> set ns \<and> tag = prefix @ r \<and> exact_token r)"
  using assms
proof (induction ns tag rule: valued_refusal.induct)
  case (1 tag)
  then show ?case by simp
next
  case (2 e rest tag)
  then show ?case by auto
next
  case (3 prefix ph rest tag)
  show ?case
  proof (cases "strip_prefix prefix tag")
    case None
    then have "\<nexists>r. tag = prefix @ r" by auto
    with 3 None show ?thesis by auto
  next
    case (Some carried)
    then have tag: "tag = prefix @ carried" by (simp add: str_simps)
    have uniq: "r = carried"
      if "Valued q w \<in> set (Valued prefix ph # rest)" "tag = q @ r" for q w r
    proof -
      have "Valued q w \<in> set TAG_NAMESPACES" "Valued prefix ph \<in> set TAG_NAMESPACES"
        using that(1) "3.prems" by auto
      then have "q = prefix" using that(2) tag by (rule common_prefix_unique)
      with that(2) tag show ?thesis by simp
    qed
    have "valued_refusal (Valued prefix ph # rest) tag = Inr () \<longleftrightarrow> exact_token carried"
      using Some by simp
    also have "\<dots> \<longleftrightarrow> (\<exists>p v r. Valued p v \<in> set (Valued prefix ph # rest) \<and> tag = p @ r \<and> exact_token r)"
    proof
      assume "exact_token carried"
      with tag show "\<exists>p v r. Valued p v \<in> set (Valued prefix ph # rest) \<and> tag = p @ r \<and> exact_token r"
        by (intro exI [of _ prefix] exI [of _ ph] exI [of _ carried]) simp
    next
      assume "\<exists>p v r. Valued p v \<in> set (Valued prefix ph # rest) \<and> tag = p @ r \<and> exact_token r"
      then show "exact_token carried" using uniq by blast
    qed
    finally show ?thesis .
  qed
qed

lemma tag_refusal_covered: "tag_refusal tag = Inr () \<longleftrightarrow> tag_covered tag"
proof -
  have "list_ex (is_exact_of tag) ns \<longleftrightarrow> Exact tag \<in> set ns" for ns
    by (induction ns) (auto simp: is_exact_of_def split: tag_namespace.splits)
  then show ?thesis
    using valued_refusal_ok [of TAG_NAMESPACES tag]
    by (simp add: tag_refusal_def tag_covered_def)
qed

text \<open>The tag gate is exact: a write is accepted if and only if every tag it
  introduces is text that claims no namespace, is a registered exact tag, or carries a usable
  value after a registered prefix; tags the item already carries are never judged.\<close>

theorem ensure_registered_tags_exact:
  "ensure_registered_tags carried written = Inr () \<longleftrightarrow>
     (\<forall>w \<in> set written. w \<in> set carried \<or> (\<exists>tag. w = JStr tag \<and> tag_covered tag))"
proof (induction carried written rule: ensure_registered_tags.induct)
  case (1 carried)
  then show ?case by simp
next
  case (2 carried w ws)
  then show ?case
    by (cases "as_str w") (auto simp: result_simps tag_refusal_covered)
qed

theorem ensure_registered_tags_exact_witness:
  "ensure_registered_tags [] [JStr ''onboarding'', JStr ''stado:role:mail''] = Inr ()
   \<and> tag_covered ''onboarding'' \<and> tag_covered ''stado:role:mail''
   \<and> ensure_registered_tags [] [JStr ''brama:agent:''] \<noteq> Inr () \<and> \<not> tag_covered ''brama:agent:''"
proof -
  have a: "ensure_registered_tags [] [JStr ''onboarding'', JStr ''stado:role:mail''] = Inr ()"
    by code_simp
  have b: "ensure_registered_tags [] [JStr ''brama:agent:''] \<noteq> Inr ()"
    by code_simp
  show ?thesis
    using a b ensure_registered_tags_exact [of "[]" "[JStr ''onboarding'', JStr ''stado:role:mail'']"]
      ensure_registered_tags_exact [of "[]" "[JStr ''brama:agent:'']"]
    by auto
qed

end
