(* ===== verification/Traces.thy ===== *)
theory Traces
  imports Prelude
begin

text \<open>
  Runs of a step function over a list of events, and the contracts a stateful component
  can promise about every run: an invariant (\<open>preserving\<close>), a bound on what it hands out
  (\<open>budgeted\<close>, which gives the first), and that what it accepts once it never accepts again
  (\<open>replay_guarded\<close>, which gives the second with a budget of one).
\<close>

fun run :: "('s \<Rightarrow> 'e \<Rightarrow> 's \<times> 'o) \<Rightarrow> 's \<Rightarrow> 'e list \<Rightarrow> 's \<times> 'o list" where
  "run step s [] = (s, [])"
| "run step s (e # es) =
     (let (s', r) = step s e; (s'', rs) = run step s' es in (s'', r # rs))"

fun count_events :: "('e \<Rightarrow> 'o \<Rightarrow> bool) \<Rightarrow> 'e list \<Rightarrow> 'o list \<Rightarrow> nat" where
  "count_events p (e # es) (r # rs) = (if p e r then 1 else 0) + count_events p es rs"
| "count_events p _ _ = 0"

lemma run_append:
  "run step s (es @ fs) =
     (let (s', rs) = run step s es; (s'', qs) = run step s' fs in (s'', rs @ qs))"
  by (induction es arbitrary: s) (auto simp: Let_def split: prod.splits)

lemma run_length: "run step s es = (s', rs) \<Longrightarrow> length rs = length es"
  by (induction es arbitrary: s rs) (auto simp: Let_def split: prod.splits)

locale preserving =
  fixes step :: "'s \<Rightarrow> 'e \<Rightarrow> 's \<times> 'o"
    and inv :: "'s \<Rightarrow> bool"
    and admissible :: "'e \<Rightarrow> bool"
  assumes step_keeps_inv: "inv s \<Longrightarrow> admissible e \<Longrightarrow> step s e = (s', r) \<Longrightarrow> inv s'"
begin

lemma run_inv: "inv s \<Longrightarrow> list_all admissible es \<Longrightarrow> run step s es = (s', rs) \<Longrightarrow> inv s'"
proof (induction es arbitrary: s s' rs)
  case Nil
  then show ?case by simp
next
  case (Cons e es)
  obtain s1 r where s1: "step s e = (s1, r)" by (cases "step s e")
  obtain s2 qs where s2: "run step s1 es = (s2, qs)" by (cases "run step s1 es")
  from Cons.prems s1 have "inv s1" by (auto intro: step_keeps_inv)
  with Cons.IH [of s1 s2 qs] Cons.prems s1 s2 show ?case by auto
qed

end

locale budgeted =
  fixes step :: "'s \<Rightarrow> 'e \<Rightarrow> 's \<times> 'o"
    and spends :: "'e \<Rightarrow> 'o \<Rightarrow> bool"
    and left :: "'s \<Rightarrow> nat"
    and inv :: "'s \<Rightarrow> bool"
    and admissible :: "'e \<Rightarrow> bool"
  assumes step_inv: "inv s \<Longrightarrow> admissible e \<Longrightarrow> step s e = (s', r) \<Longrightarrow> inv s'"
    and step_keeps: "inv s \<Longrightarrow> admissible e \<Longrightarrow> step s e = (s', r) \<Longrightarrow> left s' \<le> left s"
    and step_spends:
      "inv s \<Longrightarrow> admissible e \<Longrightarrow> step s e = (s', r) \<Longrightarrow> spends e r \<Longrightarrow> left s' < left s"
begin

lemma spent_within_budget:
  "inv s \<Longrightarrow> list_all admissible es \<Longrightarrow> run step s es = (s', rs) \<Longrightarrow>
     count_events spends es rs + left s' \<le> left s"
proof (induction es arbitrary: s s' rs)
  case Nil
  then show ?case by simp
next
  case (Cons e es)
  obtain s1 r where s1: "step s e = (s1, r)" by (cases "step s e")
  obtain s2 qs where s2: "run step s1 es = (s2, qs)" by (cases "run step s1 es")
  from Cons.prems s1 s2 have adm: "admissible e" "list_all admissible es"
    and rs: "rs = r # qs" "s' = s2"
    by auto
  have "inv s1" using Cons.prems(1) adm(1) s1 by (rule step_inv)
  then have "count_events spends es qs + left s2 \<le> left s1"
    using adm(2) s2 by (rule Cons.IH)
  moreover have "left s1 \<le> left s"
    using Cons.prems(1) adm(1) s1 by (rule step_keeps)
  moreover have "spends e r \<Longrightarrow> left s1 < left s"
    using Cons.prems(1) adm(1) s1 by (rule step_spends)
  ultimately show ?case using rs by auto
qed

end

sublocale budgeted \<subseteq> preserving step inv admissible
  by unfold_locales (rule step_inv)

locale replay_guarded =
  fixes step :: "'s \<Rightarrow> 'e \<Rightarrow> 's \<times> 'o"
    and accepts :: "'e \<Rightarrow> 'o \<Rightarrow> bool"
    and closed :: "'s \<Rightarrow> bool"
    and inv :: "'s \<Rightarrow> bool"
    and admissible :: "'e \<Rightarrow> bool"
  assumes guard_inv: "inv s \<Longrightarrow> admissible e \<Longrightarrow> step s e = (s', r) \<Longrightarrow> inv s'"
    and stays_closed:
      "inv s \<Longrightarrow> admissible e \<Longrightarrow> step s e = (s', r) \<Longrightarrow> closed s \<Longrightarrow> closed s'"
    and accept_opens:
      "inv s \<Longrightarrow> admissible e \<Longrightarrow> step s e = (s', r) \<Longrightarrow> accepts e r \<Longrightarrow> \<not> closed s \<and> closed s'"

sublocale replay_guarded \<subseteq> one: budgeted step accepts "\<lambda>s. if closed s then 0 else 1" inv admissible
  by unfold_locales (auto dest: guard_inv stays_closed accept_opens)

context replay_guarded
begin

lemma accepted_at_most_once:
  assumes "inv s" and "list_all admissible es" and "run step s es = (s', rs)"
  shows "count_events accepts es rs \<le> 1"
  using one.spent_within_budget [OF assms] by (simp split: if_splits)

lemma never_after_closed:
  assumes "inv s" and "list_all admissible es" and "run step s es = (s', rs)" and "closed s"
  shows "count_events accepts es rs = 0"
  using one.spent_within_budget [OF assms(1-3)] assms(4) by simp

end

end
