(* ===== verification/Vault.thy ===== *)
theory Vault
  imports Tags Traces
begin

text \<open>
  The vault document and its file: \<open>src/core/vault/mod.rs\<close>, \<open>document.rs\<close>,
  \<open>recipients.rs\<close>, \<open>fence.rs\<close> (the write check) and the readers of
  \<open>items/lifecycle.rs\<close>.

  A \<open>vault\<close> is an open handle: the document in memory, the generation it was read at and
  the two names read once. A \<open>host\<close> is what the handle writes to: the persisted document
  and the conditions a save meets there (another process holding the write lock, a standing
  fence this thread does not pass, a write the file system refuses). \<open>save\<close> and every
  operation that saves return the result, the handle and the host, so a failed save says what
  it left behind. What the code gets from elsewhere is the record \<open>env\<close>: the clock's
  stamps, minted identities, \<open>crypto::encrypt_to\<close>, \<open>crypto::decrypt\<close> followed by the JSON
  parser, the SHA-256 digest and the JSON printer.
\<close>

datatype (plugins only: code size) vault_error =
    NoItem string
  | LegacyEnvelope string
  | InTrash string
  | NoKind
  | NoCiphertext
  | DecryptFailed string
  | EncryptFailed string
  | SchemaE schema_error
  | SectionDamaged string
  | SectionMissing string
  | TextsNotText string string
  | TextsNotList string string
  | BadGeneration json
  | UnchosenCopy string
  | WriteLocked
  | FenceHeld string
  | PersistedUnparsable
  | ChangedConcurrently "u64 option" "u64 option"
  | Disappeared
  | GenerationOverflow
  | DocumentNotObject
  | WriteFailed
  | IdentityNotActive string
  | IdentityAbsent string
  | OtherAuthority string
  | ProtectedItem string
  | HistoryNotList string
  | NoManagement string
  | NoRevision string
  | RevisionOverflow
  | NoCreated string
  | NoSalt
  | DuplicateOf string
  | MintFailed
  | DuplicateInBatch string
  | NotOwnerControlled string
  | UnderLifecycle string
  | ManagedByWeles string
  | SameId string
  | NotExactId
  | IdTaken string
  | NoVersion string string
  | OwnerUnknown
  | RecoveryUnknown
  | NotActive string
  | RevisionMoved
  | NotExactWriter string
  | OtherPending string
  | PendingNoRevision
  | NoFieldsInPayload
  | HasPending string
  | NoPending
  | NotYourPending
  | NoCurrent
  | PanickedV

record vault =
  doc :: json
  base_generation :: "u64 option"
  owner :: string
  recovery :: string

record host =
  persisted :: "json option"
  copy_refusal :: "string option"
  write_locked :: bool
  fence :: "string option"
  write_refused :: bool

record env =
  now_iso :: string
  mint_item_uid :: "vault_error + string"
  encrypt_to :: "string list \<Rightarrow> json \<Rightarrow> vault_error + string"
  decrypt :: "string \<Rightarrow> vault_error + json"
  digest :: "string \<Rightarrow> string"
  json_text :: "json \<Rightarrow> string"
  process :: "(string \<times> json) list"

section \<open>Management modes and the envelope\<close>

datatype management_mode = ModeOwner | ModeManaged | ModeExternal

fun mode_str :: "management_mode \<Rightarrow> string" where
  "mode_str ModeOwner = ''owner''"
| "mode_str ModeManaged = ''managed''"
| "mode_str ModeExternal = ''external''"

definition mode_parse :: "string \<Rightarrow> management_mode option" where
  "mode_parse name = find (\<lambda>m. mode_str m = name) [ModeOwner, ModeManaged, ModeExternal]"

definition mode_of :: "json \<Rightarrow> management_mode option" where
  "mode_of item =
     Option.bind (Option.bind (jget item ''management'') (\<lambda>m. get_str m ''mode'')) mode_parse"

lemma mode_parse_str: "mode_parse (mode_str m) = Some m"
  by (cases m) (simp_all add: mode_parse_def)

lemma mode_parse_Some: "mode_parse s = Some m \<longleftrightarrow> s = mode_str m"
  by (cases m) (auto simp: mode_parse_def split: if_splits)

definition current_envelope :: u64 where
  "current_envelope = 2"

definition entry_item_uid :: "json \<Rightarrow> string option" where
  "entry_item_uid entry =
     (case get_str entry ''item_uid'' of Some u \<Rightarrow> if u \<noteq> [] then Some u else None | None \<Rightarrow> None)"

definition entry_texts :: "string \<Rightarrow> json \<Rightarrow> string \<Rightarrow> vault_error + string list" where
  "entry_texts ident entry name =
     (case jget entry name of
        None \<Rightarrow> Inr []
      | Some JNull \<Rightarrow> Inr []
      | Some (JArr listed) \<Rightarrow> mapR (\<lambda>each. ok_or (TextsNotText ident name) (as_str each)) listed
      | Some _ \<Rightarrow> Inl (TextsNotList ident name))"

definition document_generation :: "json \<Rightarrow> vault_error + u64 option" where
  "document_generation d =
     (case jget d ''generation'' of
        None \<Rightarrow> Inr None
      | Some r \<Rightarrow>
          (case as_u64 r of
             Some g \<Rightarrow> if g = 0 then Inl (BadGeneration r) else Inr (Some g)
           | None \<Rightarrow> Inl (BadGeneration r)))"

definition obj_mut :: "json \<Rightarrow> string \<Rightarrow> vault_error + obj" where
  "obj_mut d key = ok_or (SectionDamaged key) (get_object d key)"

text \<open>Writing a section back under its key: what a \<open>&mut Map\<close> into the document does.\<close>

definition put_section :: "string \<Rightarrow> obj \<Rightarrow> vault \<Rightarrow> vault" where
  "put_section key m v =
     (case doc v of JObj d \<Rightarrow> v\<lparr>doc := JObj (map_insert key (JObj m) d)\<rparr> | _ \<Rightarrow> v)"

definition section_of :: "vault \<Rightarrow> string \<Rightarrow> vault_error + obj" where
  "section_of v name =
     (case jget (doc v) name of
        Some (JObj m) \<Rightarrow> Inr m
      | Some _ \<Rightarrow> Inl (SectionDamaged name)
      | None \<Rightarrow> Inl (SectionMissing name))"

definition item_entry :: "vault \<Rightarrow> string \<Rightarrow> json option" where
  "item_entry v ident = Option.bind (jget (doc v) ''items'') (\<lambda>items. jget items ident)"

section \<open>Opening and saving\<close>

definition open_vault :: "host \<Rightarrow> vault_error + vault" where
  "open_vault h =
     (case copy_refusal h of
        Some r \<Rightarrow> Inl (UnchosenCopy r)
      | None \<Rightarrow>
          bindR (ok_or Disappeared (persisted h)) (\<lambda>d.
          bindR (document_generation d) (\<lambda>g.
          bindR (case jget d ''owner'' of
                   Some (JStr o') \<Rightarrow> if o' \<noteq> [] then Inr o' else Inl OwnerUnknown
                 | _ \<Rightarrow> Inl OwnerUnknown) (\<lambda>own.
          bindR (case jget d ''recovery'' of
                   Some (JStr r) \<Rightarrow> Inr r | _ \<Rightarrow> Inl RecoveryUnknown) (\<lambda>rec.
          if get_object d ''items'' = None then Inl (SectionDamaged ''items'')
          else if get_object d ''recipients'' = None then Inl (SectionDamaged ''recipients'')
          else Inr \<lparr>doc = d, base_generation = g, owner = own, recovery = rec\<rparr>)))))"

text \<open>
  What \<open>save\<close> checks under the write lock before it writes: the fence, and that the
  persisted generation is still the one this handle was read at.
\<close>

definition check_write :: "host \<Rightarrow> vault_error + unit" where
  "check_write h = (case fence h of None \<Rightarrow> Inr () | Some t \<Rightarrow> Inl (FenceHeld t))"

definition check_generation :: "vault \<Rightarrow> host \<Rightarrow> vault_error + unit" where
  "check_generation v h =
     (case persisted h of
        Some d \<Rightarrow>
          bindR (document_generation d) (\<lambda>g.
            if g \<noteq> base_generation v then Inl (ChangedConcurrently (base_generation v) g)
            else Inr ())
      | None \<Rightarrow> if base_generation v \<noteq> None then Inl Disappeared else Inr ())"

definition next_generation :: "vault \<Rightarrow> vault_error + u64" where
  "next_generation v =
     (case base_generation v of
        None \<Rightarrow> Inr 1
      | Some g \<Rightarrow> ok_or GenerationOverflow (checked_add g 1))"

definition ready_to_save :: "vault \<Rightarrow> host \<Rightarrow> vault_error + u64" where
  "ready_to_save v h =
     (case copy_refusal h of
        Some r \<Rightarrow> Inl (UnchosenCopy r)
      | None \<Rightarrow>
          bindR (ensureR (\<not> write_locked h) WriteLocked) (\<lambda>_.
          bindR (check_write h) (\<lambda>_.
          bindR (check_generation v h) (\<lambda>_.
          next_generation v))))"

definition save :: "vault \<Rightarrow> host \<Rightarrow> (vault_error + unit) \<times> vault \<times> host" where
  "save v h =
     (case ready_to_save v h of
        Inl e \<Rightarrow> (Inl e, v, h)
      | Inr g \<Rightarrow>
          (case doc v of
             JObj d \<Rightarrow>
               (let d' = map_insert ''generation'' (JUInt g) d
                in if write_refused h then
                     (Inl WriteFailed,
                      v\<lparr>doc := JObj (case map_of d ''generation'' of
                                       Some loaded \<Rightarrow> map_insert ''generation'' loaded d'
                                     | None \<Rightarrow> map_remove ''generation'' d')\<rparr>,
                      h)
                   else
                     (Inr (), v\<lparr>doc := JObj d', base_generation := Some g\<rparr>,
                      h\<lparr>persisted := Some (JObj d')\<rparr>))
           | _ \<Rightarrow> (Inl DocumentNotObject, v, h)))"

text \<open>An operation's change to the document, then the save.\<close>

definition save_changed :: "vault_error + vault \<Rightarrow> vault \<Rightarrow> host \<Rightarrow> (vault_error + unit) \<times> vault \<times> host"
  where
  "save_changed changed v h = (case changed of Inl e \<Rightarrow> (Inl e, v, h) | Inr v' \<Rightarrow> save v' h)"

definition creatable :: "host \<Rightarrow> vault_error + unit" where
  "creatable h =
     (case copy_refusal h of
        Some r \<Rightarrow> Inl (UnchosenCopy r)
      | None \<Rightarrow> ensureR (persisted h = None) (IdTaken ''vault''))"

definition create :: "env \<Rightarrow> string \<Rightarrow> string \<Rightarrow> string \<Rightarrow> host \<Rightarrow> (vault_error + vault) \<times> host" where
  "create E owner_uid owner_fpr recovery_fpr h =
     (case creatable h of
        Inl e \<Rightarrow> (Inl e, h)
      | Inr _ \<Rightarrow>
          (let d = mk_obj
                 [(''version'', JStr ''v1''), (''owner'', JStr owner_uid),
                  (''recovery'', JStr recovery_fpr),
                  (''recipients'', mk_obj [(owner_uid,
                     mk_obj [(''fingerprint'', JStr owner_fpr), (''role'', JStr ''owner''),
                             (''added_at'', JStr (now_iso E))])]),
                  (''items'', mk_obj []), (''tokens'', mk_obj []), (''policy'', mk_obj [])];
               v = \<lparr>doc = d, base_generation = None, owner = owner_uid, recovery = recovery_fpr\<rparr>
           in case save v h of
                (Inl e, _, h') \<Rightarrow> (Inl e, h')
              | (Inr _, v', h') \<Rightarrow> (Inr v', h')))"

section \<open>Recipients\<close>

definition recipient_fpr :: "vault \<Rightarrow> string \<Rightarrow> string option" where
  "recipient_fpr v uid =
     Option.bind (Option.bind (jget (doc v) ''recipients'') (\<lambda>r. jget r uid))
       (\<lambda>r. get_str r ''fingerprint'')"

fun push_fprs :: "vault \<Rightarrow> string list \<Rightarrow> string list \<Rightarrow> string list" where
  "push_fprs v fprs [] = fprs"
| "push_fprs v fprs (uid # want) =
     push_fprs v
       (case recipient_fpr v uid of
          Some fpr \<Rightarrow> if fpr \<in> set fprs then fprs else fprs @ [fpr]
        | None \<Rightarrow> fprs) want"

definition fprs_for :: "vault \<Rightarrow> string list \<Rightarrow> string list" where
  "fprs_for v uids =
     (let fprs = push_fprs v [] (uids @ [owner v])
      in if recovery v \<noteq> [] \<and> recovery v \<notin> set fprs then fprs @ [recovery v] else fprs)"

definition register_recipient ::
  "env \<Rightarrow> string \<Rightarrow> string \<Rightarrow> string \<Rightarrow> vault \<Rightarrow> host \<Rightarrow> (vault_error + unit) \<times> vault \<times> host" where
  "register_recipient E uid fpr role v h =
     save_changed
       (bindR (obj_mut (doc v) ''recipients'') (\<lambda>m.
          Inr (put_section ''recipients''
            (map_insert uid (mk_obj [(''fingerprint'', JStr fpr), (''role'', JStr role),
                                     (''added_at'', JStr (now_iso E))]) m) v))) v h"

definition ensure_owner_controlled :: "vault \<Rightarrow> string \<Rightarrow> vault_error + unit" where
  "ensure_owner_controlled v ident =
     bindR (ok_or (NoItem ident) (item_entry v ident)) (\<lambda>item.
     bindR (ok_or (NoManagement ident) (get_object item ''management'')) (\<lambda>management.
       ensureR (mode_of item = Some ModeOwner
              \<and> get_str (JObj management) ''controller'' = Some (owner v))
         (NotOwnerControlled ident)))"

definition item_recipient_uids :: "vault \<Rightarrow> string \<Rightarrow> vault_error + string list" where
  "item_recipient_uids v ident =
     (case item_entry v ident of
        Some item \<Rightarrow> entry_texts ident item ''recipients''
      | None \<Rightarrow> Inr [])"

section \<open>Reading an item\<close>

definition get_item :: "env \<Rightarrow> vault \<Rightarrow> string \<Rightarrow> vault_error + json" where
  "get_item E v ident =
     bindR (ok_or (NoItem ident) (item_entry v ident)) (\<lambda>item.
       if get_u64 item ''format'' \<noteq> Some current_envelope then Inl (LegacyEnvelope ident)
       else if get_str item ''state'' = Some ''trashed'' then Inl (InTrash ident)
       else bindR (ok_or NoKind (get_str item ''kind'')) (\<lambda>kind.
         bindR (ok_or NoCiphertext
                 (Option.bind (jget item ''current'') (\<lambda>c. get_str c ''ciphertext''))) (\<lambda>cipher.
         bindR (decrypt E cipher) (\<lambda>p.
         bindR (map_err SchemaE (validate_payload p kind)) (\<lambda>_. Inr p)))))"

definition list_row :: "bool \<Rightarrow> string \<times> json \<Rightarrow> json option" where
  "list_row include_deleted e =
     (case e of (ident, item) \<Rightarrow>
       let state = (if get_u64 item ''format'' = Some current_envelope then get_str item ''state''
                    else Some ''legacy'');
           deleted = (state = Some ''trashed'')
       in if deleted \<and> \<not> include_deleted then None
          else Some (mk_obj
            [(''id'', JStr ident),
             (''item_uid'', jindex item ''item_uid''),
             (''kind'', jindex item ''kind''),
             (''state'', json_opt JStr state),
             (''revision'', jindex item ''revision''),
             (''management'', jindex item ''management''),
             (''tags'', jindex item ''tags''),
             (''recipients'', jindex item ''recipients''),
             (''updated_at'', jindex item ''updated_at''),
             (''deleted'', JBool deleted),
             (''versions'', JUInt (of_nat
                (length (case get_array item ''history'' of Some hs \<Rightarrow> hs | None \<Rightarrow> []) +
                 (if jget item ''current'' = None then 0 else 1))))]))"

definition list_items :: "vault \<Rightarrow> bool \<Rightarrow> json list" where
  "list_items v include_deleted =
     List.map_filter (list_row include_deleted)
       (case get_object (doc v) ''items'' of Some m \<Rightarrow> m | None \<Rightarrow> [])"

section \<open>What a save promises\<close>

lemma save_ok_iff:
  "fst (save v h) = Inr () \<longleftrightarrow>
     (\<exists>g d. ready_to_save v h = Inr g \<and> doc v = JObj d \<and> \<not> write_refused h)"
  by (auto simp: save_def Let_def split: sum.splits json.splits)

lemma save_ok:
  assumes "save v h = (Inr u, v', h')"
  obtains g d where "ready_to_save v h = Inr g" "doc v = JObj d" "\<not> write_refused h"
    "v' = v\<lparr>doc := JObj (map_insert ''generation'' (JUInt g) d), base_generation := Some g\<rparr>"
    "h' = h\<lparr>persisted := Some (JObj (map_insert ''generation'' (JUInt g) d))\<rparr>"
  using assms by (auto simp: save_def Let_def split: sum.splits json.splits if_splits)

lemma save_error_host: "save v h = (Inl e, v', h') \<Longrightarrow> h' = h"
  by (auto simp: save_def Let_def split: sum.splits json.splits if_splits)

lemma save_error_doc:
  "save v h = (Inl e, v', h') \<Longrightarrow>
     jget (doc v') = jget (doc v) \<and> base_generation v' = base_generation v \<and>
     owner v' = owner v \<and> recovery v' = recovery v"
  by (auto simp: save_def Let_def map_of_map_insert map_of_map_remove fun_eq_iff jget_def
      split: sum.splits json.splits if_splits option.splits)

lemma save_ok_get:
  "save v h = (Inr u, v', h') \<Longrightarrow> k \<noteq> ''generation'' \<Longrightarrow> jget (doc v') k = jget (doc v) k"
  by (erule save_ok) (auto simp: map_of_map_insert)

lemma save_ok_persisted: "save v h = (Inr u, v', h') \<Longrightarrow> persisted h' = Some (doc v')"
  by (erule save_ok) auto

lemma save_frame: "save v h = (r, v', h') \<Longrightarrow> owner v' = owner v \<and> recovery v' = recovery v"
  by (auto simp: save_def Let_def split: sum.splits json.splits if_splits)

lemma check_generation_ok:
  "check_generation v h = Inr u \<Longrightarrow>
     (case persisted h of Some d \<Rightarrow> document_generation d = Inr (base_generation v)
      | None \<Rightarrow> base_generation v = None)"
  by (auto simp: check_generation_def result_simps split: option.splits if_splits)

lemma next_generation_gt: "next_generation v = Inr g \<Longrightarrow> base_generation v = Some b \<Longrightarrow> b < g"
  by (auto simp: next_generation_def result_simps dest: checked_add_gt)

lemma next_generation_pos: "next_generation v = Inr g \<Longrightarrow> g \<noteq> 0"
proof (cases "base_generation v")
  case None
  then show "next_generation v = Inr g \<Longrightarrow> g \<noteq> 0" by (simp add: next_generation_def)
next
  case (Some b)
  assume "next_generation v = Inr g"
  then have "b < g" using Some by (rule next_generation_gt)
  then show "g \<noteq> 0" by auto
qed

lemma ready_to_save_next: "ready_to_save v h = Inr g \<Longrightarrow> next_generation v = Inr g"
  by (auto simp: ready_to_save_def result_simps split: option.splits)

lemma ready_to_save_generation: "ready_to_save v h = Inr g \<Longrightarrow> check_generation v h = Inr ()"
  by (auto simp: ready_to_save_def result_simps split: option.splits)

lemma saved_generation:
  assumes "save v h = (Inr u, v', h')"
  shows "document_generation (doc v') = Inr (base_generation v')"
    "base_generation v' \<noteq> base_generation v"
proof -
  from assms obtain g d where g: "ready_to_save v h = Inr g"
    and v': "v' = v\<lparr>doc := JObj (map_insert ''generation'' (JUInt g) d), base_generation := Some g\<rparr>"
    by (rule save_ok)
  from g have n: "next_generation v = Inr g" by (rule ready_to_save_next)
  then have "g \<noteq> 0" by (rule next_generation_pos)
  then show "document_generation (doc v') = Inr (base_generation v')"
    by (simp add: v' document_generation_def map_of_map_insert)
  show "base_generation v' \<noteq> base_generation v"
  proof (cases "base_generation v")
    case (Some b)
    with n have "b < g" by (rule next_generation_gt)
    with Some v' show ?thesis by auto
  qed (simp add: v')
qed

text \<open>C3: no lost update: of two handles read at the same generation of the vault file,
  once one has saved the other's save is refused (the generation moved) and leaves the file
  as the first save wrote it, whatever the second handle changed in memory.\<close>

theorem save_no_lost_update:
  assumes "save v h = (Inr u, v', h')"
    and "base_generation w = base_generation v"
  shows "\<exists>e w'. save w h' = (Inl e, w', h')"
proof -
  from assms(1) have p: "persisted h' = Some (doc v')" by (rule save_ok_persisted)
  have g: "document_generation (doc v') = Inr (base_generation v')"
    "base_generation v' \<noteq> base_generation v"
    using saved_generation [OF assms(1)] by simp_all
  have "check_generation w h' = Inl (ChangedConcurrently (base_generation w) (base_generation v'))"
    using p g assms(2) by (simp add: check_generation_def)
  then have "\<exists>e. ready_to_save w h' = Inl e"
    by (auto simp: ready_to_save_def bindR_def ensureR_def split: option.splits sum.splits)
  then show ?thesis by (auto simp: save_def)
qed

text \<open>A failed save changes nothing: the file is as it was, and the document in memory
  reads as before the save (its generation included), so the handle can be retried.\<close>

theorem save_failure_restores:
  assumes "save v h = (Inl e, v', h')"
  shows "h' = h \<and> jget (doc v') = jget (doc v) \<and> base_generation v' = base_generation v"
  using save_error_host [OF assms] save_error_doc [OF assms] by simp

end
