(* ===== verification/VaultItems.thy ===== *)
theory VaultItems
  imports Vault
begin

text \<open>
  Item writes and the states between in use and gone: \<open>src/core/vault/items\<close>. The
  duplicate check (\<open>duplicates/mod.rs\<close>), the envelope a write builds (\<open>envelope.rs\<close>), the
  atomic writes (\<open>writes.rs\<close>), trash, reclaim, restore and purge (\<open>lifecycle.rs\<close>), renames
  and saved versions (\<open>identity.rs\<close>, \<open>versions/mod.rs\<close>). An item write's audit line is
  built and handed back; appending it is best effort in the code and never fails the write.
\<close>

section \<open>Duplicates\<close>

definition SALT_KEY :: string where "SALT_KEY = ''fingerprint_salt''"
definition FINGERPRINT_KEY :: string where "FINGERPRINT_KEY = ''payload_fingerprint''"

function canonical :: "json \<Rightarrow> json" where
  "canonical (JObj m) = JObj (fold (\<lambda>(k, v). map_insert k v) (map (\<lambda>(k, v). (k, canonical v)) m) [])"
| "canonical (JArr xs) = JArr (map canonical xs)"
| "canonical JNull = JNull"
| "canonical (JBool b) = JBool b"
| "canonical (JUInt n) = JUInt n"
| "canonical (JNegInt i) = JNegInt i"
| "canonical (JFloat f) = JFloat f"
| "canonical (JStr s) = JStr s"
  by pat_completeness auto
termination
  by size_change

definition fingerprint :: "env \<Rightarrow> string \<Rightarrow> json \<Rightarrow> string" where
  "fingerprint E salt p = digest E (salt @ [CHR 0x00] @ json_text E (canonical p))"

definition active_entry :: "json \<Rightarrow> bool" where
  "active_entry entry \<longleftrightarrow> get_str entry ''state'' = Some ''active''"

definition holder_of :: "obj \<Rightarrow> string \<Rightarrow> string \<Rightarrow> string option" where
  "holder_of items print ident =
     map_option fst
       (find (\<lambda>(other, entry). other \<noteq> ident \<and> active_entry entry
                \<and> get_str entry FINGERPRINT_KEY = Some print) items)"

definition group_step :: "(string \<times> string list) list \<Rightarrow> string \<times> json \<Rightarrow> (string \<times> string list) list" where
  "group_step m e =
     (case e of (ident, entry) \<Rightarrow>
       if \<not> active_entry entry then m
       else case get_str entry FINGERPRINT_KEY of
         None \<Rightarrow> m
       | Some print \<Rightarrow>
           map_insert print ((case map_of m print of Some ids \<Rightarrow> ids | None \<Rightarrow> []) @ [ident]) m)"

definition groups :: "obj \<Rightarrow> (string \<times> string list) list" where
  "groups items =
     sort_key (\<lambda>g. hd (snd g))
       (map (\<lambda>(print, ids). (print, sort ids))
         (filter (\<lambda>(print, ids). 1 < length ids) (foldl group_step [] items)))"

lemma holder_of_None:
  "holder_of items print ident = None \<longleftrightarrow>
     (\<forall>(other, entry) \<in> set items. other \<noteq> ident \<longrightarrow> active_entry entry \<longrightarrow>
        get_str entry FINGERPRINT_KEY \<noteq> Some print)"
  by (auto simp: holder_of_def find_None_iff)

section \<open>The envelope a write builds\<close>

record managed_write =
  mw_controller :: string
  mw_writer :: string
  mw_operation_id :: "string option"

record write_policy =
  wp_writer :: "string option"
  wp_managed :: "managed_write option"
  wp_item_uid :: "string option"

definition no_policy :: write_policy where
  "no_policy = \<lparr>wp_writer = None, wp_managed = None, wp_item_uid = None\<rparr>"

definition stored_tags :: "string \<Rightarrow> json \<Rightarrow> vault_error + json list" where
  "stored_tags ident entry = bindR (entry_texts ident entry ''tags'') (\<lambda>ts. Inr (map JStr ts))"

definition stored_history :: "string \<Rightarrow> json \<Rightarrow> vault_error + json list" where
  "stored_history ident entry =
     (case jget entry ''history'' of
        None \<Rightarrow> Inr []
      | Some JNull \<Rightarrow> Inr []
      | Some (JArr versions) \<Rightarrow> Inr versions
      | Some _ \<Rightarrow> Inl (HistoryNotList ident))"

text \<open>A login's \<open>context.identity\<close> must name an active identity item of this vault.\<close>

definition check_identity_reference :: "vault \<Rightarrow> json \<Rightarrow> vault_error + unit" where
  "check_identity_reference v p =
     (case Option.bind (jget p ''context'') (\<lambda>c. get_str c IDENTITY_REFERENCE) of
        None \<Rightarrow> Inr ()
      | Some reference \<Rightarrow>
          (case Option.bind (get_object (doc v) ''items'') (\<lambda>m. map_of m reference) of
             Some entry \<Rightarrow>
               ensureR (active_entry entry \<and> get_str entry ''kind'' = Some ''identity'')
                 (IdentityNotActive reference)
           | None \<Rightarrow> Inl (IdentityAbsent reference)))"

definition mk_management :: "management_mode \<Rightarrow> string \<Rightarrow> json" where
  "mk_management m c = mk_obj [(''mode'', JStr (mode_str m)), (''controller'', JStr c)]"

text \<open>Who may write over the item that is there.\<close>

definition check_authority ::
  "env \<Rightarrow> vault \<Rightarrow> string \<Rightarrow> string \<Rightarrow> json \<Rightarrow> string list \<Rightarrow> json option \<Rightarrow> json option \<Rightarrow> vault_error + unit"
  where
  "check_authority E v ident kind p tags previous requested =
     (case previous of
        None \<Rightarrow> Inr ()
      | Some entry \<Rightarrow>
          if get_u64 entry ''format'' \<noteq> Some current_envelope then Inl (LegacyEnvelope ident)
          else case requested of
            Some req \<Rightarrow>
              (case jget entry ''management'' of
                 Some existing \<Rightarrow> ensureR (existing = req) (OtherAuthority ident)
               | None \<Rightarrow> Inr ())
          | None \<Rightarrow>
              if mode_of entry = Some ModeOwner then Inr ()
              else bindR (get_item E v ident) (\<lambda>current_payload.
                   bindR (stored_tags ident entry) (\<lambda>current_tags.
                     ensureR (active_entry entry \<and> get_str entry ''kind'' = Some kind
                            \<and> current_payload = p \<and> current_tags = map JStr tags)
                       (ProtectedItem ident))))"

definition effective_recipients ::
  "string \<Rightarrow> string list \<Rightarrow> bool \<Rightarrow> json option \<Rightarrow> vault_error + string list" where
  "effective_recipients ident uids preserve previous =
     (case previous of
        Some entry \<Rightarrow>
          if preserve \<and> (case jget entry ''recipients'' of None \<Rightarrow> False | Some r \<Rightarrow> r \<noteq> JNull)
          then entry_texts ident entry ''recipients'' else Inr uids
      | None \<Rightarrow> Inr uids)"

definition carried_tags :: "string \<Rightarrow> json option \<Rightarrow> vault_error + json list" where
  "carried_tags ident previous =
     (case previous of Some entry \<Rightarrow> stored_tags ident entry | None \<Rightarrow> Inr [])"

definition effective_tags ::
  "string \<Rightarrow> string list \<Rightarrow> bool \<Rightarrow> json option \<Rightarrow> vault_error + json list" where
  "effective_tags ident tags preserve previous =
     (if preserve \<and> previous \<noteq> None then carried_tags ident previous else Inr (map JStr tags))"

definition item_uid_for :: "env \<Rightarrow> json option \<Rightarrow> string option \<Rightarrow> vault_error + string" where
  "item_uid_for E previous supplied =
     (case Option.bind previous entry_item_uid of
        Some existing \<Rightarrow> Inr existing
      | None \<Rightarrow> (case supplied of Some s \<Rightarrow> Inr s | None \<Rightarrow> mint_item_uid E))"

definition management_for ::
  "vault \<Rightarrow> string \<Rightarrow> string \<Rightarrow> json option \<Rightarrow> json option \<Rightarrow> vault_error + json" where
  "management_for v ident controller previous requested =
     (case requested of
        Some req \<Rightarrow> Inr req
      | None \<Rightarrow>
          (case previous of
             Some entry \<Rightarrow> ok_or (NoManagement ident) (jget entry ''management'')
           | None \<Rightarrow>
               Inr (mk_management (if controller = owner v then ModeOwner else ModeExternal) controller)))"

definition revision_for :: "string \<Rightarrow> json option \<Rightarrow> vault_error + u64" where
  "revision_for ident previous =
     (case previous of
        Some entry \<Rightarrow>
          bindR (ok_or (NoRevision ident) (get_u64 entry ''revision'')) (\<lambda>r.
            ok_or RevisionOverflow (checked_add r 1))
      | None \<Rightarrow> Inr 1)"

definition history_for :: "string \<Rightarrow> json option \<Rightarrow> vault_error + json list" where
  "history_for ident previous =
     (case previous of
        Some entry \<Rightarrow>
          bindR (stored_history ident entry) (\<lambda>hs.
            Inr (hs @ (case jget entry ''current'' of Some c \<Rightarrow> [c] | None \<Rightarrow> [])))
      | None \<Rightarrow> Inr [])"

definition created_for :: "env \<Rightarrow> string \<Rightarrow> json option \<Rightarrow> vault_error + json" where
  "created_for E ident previous =
     (case previous of
        Some entry \<Rightarrow> ok_or (NoCreated ident) (jget entry ''created_at'')
      | None \<Rightarrow> Inr (JStr (now_iso E)))"

definition check_duplicate :: "vault \<Rightarrow> string \<Rightarrow> string \<Rightarrow> vault_error + unit" where
  "check_duplicate v print ident =
     (case get_object (doc v) ''items'' of
        Some items \<Rightarrow>
          (case holder_of items print ident of Some h \<Rightarrow> Inl (DuplicateOf h) | None \<Rightarrow> Inr ())
      | None \<Rightarrow> Inr ())"

definition mk_envelope ::
  "env \<Rightarrow> string \<Rightarrow> string \<Rightarrow> u64 \<Rightarrow> json \<Rightarrow> json \<Rightarrow> string list \<Rightarrow> json list \<Rightarrow> string \<Rightarrow> string \<Rightarrow>
   string option \<Rightarrow> string \<Rightarrow> json list \<Rightarrow> json option \<Rightarrow> json" where
  "mk_envelope E uid kind revision management created recipients tags print written_by operation_id
      cipher history import_source =
     mk_obj ([(''format'', JUInt current_envelope),
       (''item_uid'', JStr uid),
       (''kind'', JStr kind),
       (''state'', JStr ''active''),
       (''revision'', JUInt revision),
       (''management'', management),
       (''created_at'', created),
       (''updated_at'', JStr (now_iso E)),
       (''recipients'', JArr (map JStr recipients)),
       (''tags'', JArr tags),
       (FINGERPRINT_KEY, JStr print),
       (''current'', mk_obj
          [(''revision'', JUInt revision),
           (''kind'', JStr kind),
           (''created_at'', JStr (now_iso E)),
           (''written_by'', JStr written_by),
           (''operation_id'', json_opt JStr operation_id),
           (''ciphertext'', JStr cipher)]),
       (''history'', JArr history)]
      @ (case import_source of Some s \<Rightarrow> [(''import_source'', s)] | None \<Rightarrow> []))"

definition prepare_item ::
  "env \<Rightarrow> vault \<Rightarrow> string \<Rightarrow> string \<Rightarrow> json \<Rightarrow> string list \<Rightarrow> string list \<Rightarrow> write_policy \<Rightarrow>
   vault_error + json \<times> json" where
  "prepare_item E v ident kind p uids tags policy =
     (let requested = map_option (\<lambda>w. mk_management ModeManaged (mw_controller w)) (wp_managed policy);
          preserve = (wp_managed policy \<noteq> None);
          operation_id = Option.bind (wp_managed policy) mw_operation_id;
          previous = Option.bind (get_object (doc v) ''items'') (\<lambda>m. map_of m ident);
          controller = (case wp_writer policy of Some w \<Rightarrow> w | None \<Rightarrow> owner v)
      in bindR (map_err SchemaE (validate_payload p kind)) (\<lambda>_.
         bindR (check_identity_reference v p) (\<lambda>_.
         bindR (check_authority E v ident kind p tags previous requested) (\<lambda>_.
         bindR (effective_recipients ident uids preserve previous) (\<lambda>recipients.
         bindR (effective_tags ident tags preserve previous) (\<lambda>etags.
         bindR (carried_tags ident previous) (\<lambda>ctags.
         bindR (map_err SchemaE (ensure_registered_tags ctags etags)) (\<lambda>_.
         bindR (item_uid_for E previous (wp_item_uid policy)) (\<lambda>uid.
         bindR (management_for v ident controller previous requested) (\<lambda>management.
         bindR (revision_for ident previous) (\<lambda>revision.
         bindR (encrypt_to E (fprs_for v recipients) p) (\<lambda>cipher.
         bindR (history_for ident previous) (\<lambda>history.
         bindR (created_for E ident previous) (\<lambda>created.
         bindR (ok_or NoSalt (get_str (doc v) SALT_KEY)) (\<lambda>salt.
         bindR (check_duplicate v (fingerprint E salt p) ident) (\<lambda>_.
           Inr (mk_envelope E uid kind revision management created recipients etags
                  (fingerprint E salt p) controller operation_id cipher history
                  (Option.bind previous (\<lambda>i. jget i ''import_source'')),
                mk_obj ([(''item'', JStr ident), (''kind'', JStr kind), (''revision'', JUInt revision),
                         (''tags'', JUInt (of_nat (length etags))),
                         (''tags_requested'', JUInt (of_nat (length tags)))] @ process E))))))))))))))))))"


section \<open>Writing\<close>

definition ensure_fingerprint_salt :: "env \<Rightarrow> vault \<Rightarrow> vault_error + vault" where
  "ensure_fingerprint_salt E v =
     (if (case get_str (doc v) SALT_KEY of Some s \<Rightarrow> s \<noteq> [] | None \<Rightarrow> False) then Inr v
      else bindR (mint_item_uid E) (\<lambda>salt.
        case doc v of
          JObj d \<Rightarrow> Inr (v\<lparr>doc := JObj (map_insert SALT_KEY (JStr salt) d)\<rparr>)
        | _ \<Rightarrow> Inl DocumentNotObject))"

text \<open>Putting back what a failed save must not leave in memory.\<close>

definition roll_back :: "vault \<Rightarrow> (string \<times> json option) list \<Rightarrow> vault" where
  "roll_back v previous =
     (case get_object (doc v) ''items'' of
        None \<Rightarrow> v
      | Some items \<Rightarrow>
          put_section ''items''
            (fold (\<lambda>(ident, old) m. case old of Some e \<Rightarrow> map_insert ident e m | None \<Rightarrow> map_remove ident m)
               previous items) v)"

definition set_item_with_writer ::
  "env \<Rightarrow> string \<Rightarrow> string \<Rightarrow> json \<Rightarrow> string list \<Rightarrow> string list \<Rightarrow> write_policy \<Rightarrow> vault \<Rightarrow> host \<Rightarrow>
   (vault_error + json) \<times> vault \<times> host" where
  "set_item_with_writer E ident kind p uids tags policy v h =
     (case ensure_fingerprint_salt E v of
        Inl e \<Rightarrow> (Inl e, v, h)
      | Inr v1 \<Rightarrow>
          (case prepare_item E v1 ident kind p uids tags policy of
             Inl e \<Rightarrow> (Inl e, v1, h)
           | Inr (entry, audit) \<Rightarrow>
               (case obj_mut (doc v1) ''items'' of
                  Inl e \<Rightarrow> (Inl e, v1, h)
                | Inr items \<Rightarrow>
                    (case save (put_section ''items'' (map_insert ident entry items) v1) h of
                       (Inl e, v2, h2) \<Rightarrow> (Inl e, roll_back v2 [(ident, map_of items ident)], h2)
                     | (Inr _, v2, h2) \<Rightarrow> (Inr audit, v2, h2)))))"

definition set_item ::
  "env \<Rightarrow> string \<Rightarrow> string \<Rightarrow> json \<Rightarrow> string list \<Rightarrow> string list \<Rightarrow> vault \<Rightarrow> host \<Rightarrow>
   (vault_error + json) \<times> vault \<times> host" where
  "set_item E ident kind p uids tags = set_item_with_writer E ident kind p uids tags no_policy"

definition set_item_written_by ::
  "env \<Rightarrow> string \<Rightarrow> string \<Rightarrow> json \<Rightarrow> string list \<Rightarrow> string list \<Rightarrow> string \<Rightarrow> vault \<Rightarrow> host \<Rightarrow>
   (vault_error + json) \<times> vault \<times> host" where
  "set_item_written_by E ident kind p uids tags writer =
     set_item_with_writer E ident kind p uids tags
       \<lparr>wp_writer = Some writer, wp_managed = None, wp_item_uid = None\<rparr>"

definition set_managed_item ::
  "env \<Rightarrow> string \<Rightarrow> string \<Rightarrow> json \<Rightarrow> string list \<Rightarrow> string list \<Rightarrow> managed_write \<Rightarrow> vault \<Rightarrow> host \<Rightarrow>
   (vault_error + json) \<times> vault \<times> host" where
  "set_managed_item E ident kind p uids tags write =
     set_item_with_writer E ident kind p uids tags
       \<lparr>wp_writer = Some (mw_writer write), wp_managed = Some write, wp_item_uid = None\<rparr>"

definition set_migrated_item ::
  "env \<Rightarrow> string \<Rightarrow> string \<Rightarrow> json \<Rightarrow> string list \<Rightarrow> string list \<Rightarrow> string option \<Rightarrow> vault \<Rightarrow> host \<Rightarrow>
   (vault_error + json) \<times> vault \<times> host" where
  "set_migrated_item E ident kind p uids tags item_uid =
     set_item_with_writer E ident kind p uids tags
       \<lparr>wp_writer = None, wp_managed = None, wp_item_uid = item_uid\<rparr>"

record item_write =
  iw_id :: string
  iw_kind :: string
  iw_payload :: json
  iw_recipients :: "string list"
  iw_tags :: "string list"
  iw_import_source :: "string option"

text \<open>The preparation loop of the batch: every write against the document as it was opened.\<close>

fun prepare_all ::
  "env \<Rightarrow> vault \<Rightarrow> string set \<Rightarrow> item_write list \<Rightarrow> vault_error + (string \<times> json \<times> json) list" where
  "prepare_all E v seen [] = Inr []"
| "prepare_all E v seen (w # ws) =
     (if iw_id w \<in> seen then Inl (DuplicateInBatch (iw_id w))
      else bindR (prepare_item E v (iw_id w) (iw_kind w) (iw_payload w) (iw_recipients w)
                    (iw_tags w) no_policy) (\<lambda>(entry, audit).
           bindR (case iw_import_source w of
                    Some s \<Rightarrow> ok_or PanickedV (jindex_set entry ''import_source'' (JStr s))
                  | None \<Rightarrow> Inr entry) (\<lambda>entry'.
           bindR (prepare_all E v (insert (iw_id w) seen) ws) (\<lambda>rest.
             Inr ((iw_id w, entry', audit) # rest)))))"

fun insert_all :: "(string \<times> json \<times> json) list \<Rightarrow> obj \<Rightarrow> obj \<times> (string \<times> json option) list" where
  "insert_all [] items = (items, [])"
| "insert_all ((ident, entry, audit) # ps) items =
     (let (items', olds) = insert_all ps (map_insert ident entry items)
      in (items', (ident, map_of items ident) # olds))"

definition set_items_atomic ::
  "env \<Rightarrow> item_write list \<Rightarrow> vault \<Rightarrow> host \<Rightarrow> (vault_error + json list) \<times> vault \<times> host" where
  "set_items_atomic E writes v h =
     (if writes = [] then (Inr [], v, h)
      else case ensure_fingerprint_salt E v of
        Inl e \<Rightarrow> (Inl e, v, h)
      | Inr v1 \<Rightarrow>
          (case prepare_all E v1 {} writes of
             Inl e \<Rightarrow> (Inl e, v1, h)
           | Inr prepared \<Rightarrow>
               (case obj_mut (doc v1) ''items'' of
                  Inl e \<Rightarrow> (Inl e, v1, h)
                | Inr items \<Rightarrow>
                    (let (items', olds) = insert_all prepared items
                     in case save (put_section ''items'' items' v1) h of
                          (Inl e, v2, h2) \<Rightarrow> (Inl e, roll_back v2 olds, h2)
                        | (Inr _, v2, h2) \<Rightarrow> (Inr (map (snd \<circ> snd) prepared), v2, h2)))))"

section \<open>Trash, reclaim, restore, purge\<close>

text \<open>An in-place change of one stored entry: \<open>obj_mut(items).get_mut(id).as_object_mut()\<close>.\<close>

definition edit_entry :: "string \<Rightarrow> (obj \<Rightarrow> obj) \<Rightarrow> vault \<Rightarrow> vault_error + vault" where
  "edit_entry ident f v =
     bindR (obj_mut (doc v) ''items'') (\<lambda>items.
     bindR (ok_or (NoItem ident) (Option.bind (map_of items ident) as_object)) (\<lambda>e.
       Inr (put_section ''items'' (map_insert ident (JObj (f e)) items) v)))"

definition delete_item :: "env \<Rightarrow> string \<Rightarrow> vault \<Rightarrow> host \<Rightarrow> (vault_error + unit) \<times> vault \<times> host" where
  "delete_item E ident v h =
     save_changed
       (edit_entry ident (\<lambda>e. map_insert ''updated_at'' (JStr (now_iso E))
          (map_insert ''state'' (JStr ''trashed'') e)) v) v h"

definition restore_item :: "env \<Rightarrow> string \<Rightarrow> vault \<Rightarrow> host \<Rightarrow> (vault_error + unit) \<times> vault \<times> host" where
  "restore_item E ident v h =
     save_changed
       (edit_entry ident (\<lambda>e. map_insert ''updated_at'' (JStr (now_iso E))
          (map_insert ''state'' (JStr ''active'') e)) v) v h"

definition purge_item :: "string \<Rightarrow> vault \<Rightarrow> host \<Rightarrow> (vault_error + unit) \<times> vault \<times> host" where
  "purge_item ident v h =
     save_changed
       (bindR (obj_mut (doc v) ''items'') (\<lambda>items.
        bindR (ok_or (NoItem ident) (map_of items ident)) (\<lambda>_.
          Inr (put_section ''items'' (map_remove ident items) v)))) v h"

text \<open>
  Returning an item to owner control. The first result is whether anything was written: an
  item the owner already controls is left as it is, without a save.
\<close>

definition reclaim_check :: "string \<Rightarrow> vault \<Rightarrow> vault_error + bool" where
  "reclaim_check ident v =
     bindR (ok_or (NoItem ident) (item_entry v ident)) (\<lambda>entry.
     bindR (ok_or (NoManagement ident) (get_object entry ''management'')) (\<lambda>management.
       if mode_of entry = Some ModeManaged then Inl (UnderLifecycle ident)
       else bindR (entry_texts ident entry ''tags'') (\<lambda>tags.
         if ''managed:weles'' \<in> set tags then Inl (ManagedByWeles ident)
         else Inr (\<not> (mode_of entry = Some ModeOwner
                    \<and> get_str (JObj management) ''controller'' = Some (owner v))))))"

definition reclaim_item :: "env \<Rightarrow> string \<Rightarrow> vault \<Rightarrow> host \<Rightarrow> (vault_error + unit) \<times> vault \<times> host" where
  "reclaim_item E ident v h =
     (case reclaim_check ident v of
        Inl e \<Rightarrow> (Inl e, v, h)
      | Inr False \<Rightarrow> (Inr (), v, h)
      | Inr True \<Rightarrow>
          save_changed
            (edit_entry ident (\<lambda>e. map_insert ''updated_at'' (JStr (now_iso E))
               (map_insert ''management'' (mk_management ModeOwner (owner v)) e)) v) v h)"

section \<open>Renames, tags and saved versions\<close>

definition id_for_item_uid :: "vault \<Rightarrow> string \<Rightarrow> string option" where
  "id_for_item_uid v uid =
     (if uid = [] then None
      else Option.bind (get_object (doc v) ''items'')
        (\<lambda>items. map_option fst (find (\<lambda>(i, e). entry_item_uid e = Some uid) items)))"

definition item_revision :: "vault \<Rightarrow> string \<Rightarrow> vault_error + u64" where
  "item_revision v ident =
     bindR (ok_or (NoItem ident) (Option.bind (get_object (doc v) ''items'') (\<lambda>m. map_of m ident)))
       (\<lambda>e. ok_or (NoRevision ident) (get_u64 e ''revision''))"

definition renamed_entry :: "env \<Rightarrow> json \<Rightarrow> vault_error + string \<times> json" where
  "renamed_entry E entry =
     (case entry_item_uid entry of
        Some existing \<Rightarrow>
          bindR (ok_or PanickedV (jindex_set entry ''updated_at'' (JStr (now_iso E)))) (\<lambda>e.
            Inr (existing, e))
      | None \<Rightarrow>
          bindR (mint_item_uid E) (\<lambda>minted.
          bindR (ok_or PanickedV (jindex_set entry ''item_uid'' (JStr minted))) (\<lambda>e1.
          bindR (ok_or PanickedV (jindex_set e1 ''updated_at'' (JStr (now_iso E)))) (\<lambda>e.
            Inr (minted, e)))))"

definition rename_item ::
  "env \<Rightarrow> string \<Rightarrow> string \<Rightarrow> vault \<Rightarrow> host \<Rightarrow> (vault_error + string) \<times> vault \<times> host" where
  "rename_item E from to v h =
     (case (if from = to then Inl (SameId from)
            else if \<not> exact_token to then Inl NotExactId
            else bindR (ok_or (SectionMissing ''items'') (get_object (doc v) ''items'')) (\<lambda>items.
              if map_of items to \<noteq> None then Inl (IdTaken to)
              else bindR (ok_or (NoItem from) (map_of items from)) (\<lambda>entry.
                if get_u64 entry ''format'' \<noteq> Some current_envelope then Inl (LegacyEnvelope from)
                else bindR (renamed_entry E entry) (\<lambda>(uid, e).
                  Inr (uid, put_section ''items'' (map_insert to e (map_remove from items)) v))))) of
        Inl e \<Rightarrow> (Inl e, v, h)
      | Inr (uid, v1) \<Rightarrow>
          (case save v1 h of (r, v2, h2) \<Rightarrow> (bindR r (\<lambda>_. Inr uid), v2, h2)))"

definition set_item_tags ::
  "env \<Rightarrow> string \<Rightarrow> string list \<Rightarrow> vault \<Rightarrow> host \<Rightarrow> (vault_error + unit) \<times> vault \<times> host" where
  "set_item_tags E ident tags v h =
     save_changed
       (bindR (ok_or (NoItem ident) (Option.bind (get_object (doc v) ''items'') (\<lambda>m. map_of m ident)))
         (\<lambda>entry.
          if get_u64 entry ''format'' \<noteq> Some current_envelope then Inl (LegacyEnvelope ident)
          else bindR (stored_tags ident entry) (\<lambda>carried.
               bindR (map_err SchemaE (ensure_registered_tags carried (map JStr tags))) (\<lambda>_.
               bindR (ok_or PanickedV (Option.bind (jindex_set entry ''tags'' (JArr (map JStr tags)))
                        (\<lambda>e. jindex_set e ''updated_at'' (JStr (now_iso E))))) (\<lambda>e1.
               bindR (if entry_item_uid e1 = None
                      then bindR (mint_item_uid E) (\<lambda>u. ok_or PanickedV (jindex_set e1 ''item_uid'' (JStr u)))
                      else Inr e1) (\<lambda>e2.
               bindR (obj_mut (doc v) ''items'') (\<lambda>items.
                 Inr (put_section ''items'' (map_insert ident e2 items) v)))))))) v h"

definition find_version :: "json list \<Rightarrow> string \<Rightarrow> json option" where
  "find_version history at = find (\<lambda>ver. get_str ver ''created_at'' = Some at) history"

definition restore_version ::
  "env \<Rightarrow> string \<Rightarrow> string \<Rightarrow> vault \<Rightarrow> host \<Rightarrow> (vault_error + json) \<times> vault \<times> host" where
  "restore_version E ident at v h =
     (case bindR (ok_or (NoItem ident) (item_entry v ident)) (\<lambda>item.
             if get_str item ''state'' = Some ''trashed'' then Inl (InTrash ident)
             else bindR (ok_or NoKind (get_str item ''kind'')) (\<lambda>envelope_kind.
               bindR (stored_history ident item) (\<lambda>history.
               bindR (ok_or (NoVersion ident at) (find_version history at)) (\<lambda>chosen.
               let kind = (case get_str chosen ''kind'' of Some k \<Rightarrow> k | None \<Rightarrow> envelope_kind) in
               bindR (ok_or NoCiphertext (get_str chosen ''ciphertext'')) (\<lambda>cipher.
               bindR (decrypt E cipher) (\<lambda>p.
               bindR (map_err SchemaE (validate_payload p kind)) (\<lambda>_.
               bindR (item_recipient_uids v ident) (\<lambda>uids.
               bindR (entry_texts ident item ''tags'') (\<lambda>tags.
                 Inr (kind, p, uids, tags)))))))))) of
        Inl e \<Rightarrow> (Inl e, v, h)
      | Inr (kind, p, uids, tags) \<Rightarrow> set_item E ident kind p uids tags v h)"

definition version_payload :: "env \<Rightarrow> vault \<Rightarrow> string \<Rightarrow> string \<Rightarrow> vault_error + json" where
  "version_payload E v ident at =
     bindR (ok_or (NoItem ident) (item_entry v ident)) (\<lambda>item.
     bindR (stored_history ident item) (\<lambda>history.
     bindR (ok_or (NoVersion ident at) (find_version history at)) (\<lambda>chosen.
     bindR (ok_or NoCiphertext (get_str chosen ''ciphertext'')) (\<lambda>cipher.
       decrypt E cipher))))"

definition older_version :: "string \<Rightarrow> json \<Rightarrow> bool" where
  "older_version before ver =
     (case get_str ver ''created_at'' of Some at \<Rightarrow> at < before | None \<Rightarrow> False)"

definition forget_versions_before ::
  "string \<Rightarrow> string \<Rightarrow> vault \<Rightarrow> vault_error + string list \<times> vault" where
  "forget_versions_before ident before v =
     bindR (ok_or (NoItem ident) (item_entry v ident)) (\<lambda>item.
     bindR (stored_history ident item) (\<lambda>history.
       let forgotten = List.map_filter (\<lambda>ver. get_str ver ''created_at'')
                         (filter (older_version before) history)
       in if forgotten = [] then Inr ([], v)
          else bindR (edit_entry ident (map_insert ''history''
                       (JArr (filter (\<lambda>ver. \<not> older_version before ver) history))) v) (\<lambda>v'.
               Inr (forgotten, v'))))"

end
