(* ===== verification/Fixtures.thy ===== *)
theory Fixtures
  imports VaultItems
begin

text \<open>
  The concrete vault the witnesses run on: an owner, one registered agent, a plain text
  encryption that \<open>decrypt\<close> opens, a digest that is the identity, and one note written by the
  owner. Nothing here models code; it instantiates the parameters of the model.
\<close>

fun demo_text :: "json \<Rightarrow> string" where
  "demo_text JNull = ''n''"
| "demo_text (JBool b) = (if b then ''t'' else ''f'')"
| "demo_text (JUInt n) = ''u''"
| "demo_text (JNegInt i) = ''i''"
| "demo_text (JFloat f) = ''d''"
| "demo_text (JStr s) = CHR ''s'' # s"
| "demo_text (JArr xs) = CHR ''['' # concat (map demo_text xs) @ '']''"
| "demo_text (JObj m) = CHR ''{'' # concat (map (\<lambda>(k, v). k @ '':'' @ demo_text v) m) @ ''}''"

definition demo_note :: "string \<Rightarrow> json" where
  "demo_note t = mk_obj [(''schema'', JStr ITEM_SCHEMA), (''kind'', JStr ''note''),
     (''fields'', mk_obj [(''value'', JStr t)]), (''context'', mk_obj [])]"

definition demo_encrypt :: "string list \<Rightarrow> json \<Rightarrow> vault_error + string" where
  "demo_encrypt rs p =
     (case get_str (jindex p ''fields'') ''value'' of
        Some t \<Rightarrow> if p = demo_note t then Inr t else Inl (EncryptFailed ''demo'')
      | None \<Rightarrow> Inl (EncryptFailed ''demo''))"

definition demo_env :: env where
  "demo_env = \<lparr>now_iso = ''2026-01-01T00:00:00Z'', mint_item_uid = Inr ''0123456789abcdef'',
     encrypt_to = demo_encrypt, decrypt = (\<lambda>c. Inr (demo_note c)), digest = id,
     json_text = demo_text, process = []\<rparr>"

definition demo_start :: "vault \<times> host" where
  "demo_start =
     (case create demo_env ''ada'' ''FPR-ADA'' ''FPR-REC''
             \<lparr>persisted = None, copy_refusal = None, write_locked = False, fence = None,
              write_refused = False\<rparr> of
        (Inr v, h) \<Rightarrow> (v, h)
      | (Inl e, h) \<Rightarrow> (\<lparr>doc = JNull, base_generation = None, owner = [], recovery = []\<rparr>, h))"

definition demo_one :: "vault \<times> host" where
  "demo_one =
     (case demo_start of (v, h) \<Rightarrow>
        snd (set_item demo_env ''a'' ''note'' (demo_note ''x'') [''ada''] [] v h))"

text \<open>The same vault after a machine write of \<open>m\<close> under a lifecycle controller, and after a
  service's own write of \<open>s\<close>.\<close>

definition demo_write :: managed_write where
  "demo_write = \<lparr>mw_controller = ''weles'', mw_writer = ''worker'', mw_operation_id = None\<rparr>"

definition demo_managed :: "vault \<times> host" where
  "demo_managed =
     (case demo_one of (v, h) \<Rightarrow>
        snd (set_managed_item demo_env ''m'' ''note'' (demo_note ''y'') [''ada''] [] demo_write v h))"

definition demo_external :: "vault \<times> host" where
  "demo_external =
     (case demo_one of (v, h) \<Rightarrow>
        snd (set_item_written_by demo_env ''s'' ''note'' (demo_note ''z'') [''ada''] [] ''bob'' v h))"

lemma demo_roundtrip: "demo_encrypt rs q = Inr c \<Longrightarrow> demo_note c = q"
  by (auto simp: demo_encrypt_def split: option.splits if_splits)

text \<open>Reading the outcome of an operation off its evaluated success flag.\<close>

definition succeeded :: "('e + 'a) \<times> 's \<times> 't \<Rightarrow> bool" where
  "succeeded r = (case r of (Inr _, _, _) \<Rightarrow> True | (Inl _, _, _) \<Rightarrow> False)"

lemma succeededE:
  assumes "succeeded r" obtains x s t where "r = (Inr x, s, t)"
  using assms by (cases r; cases "fst r") (auto simp: succeeded_def)

lemma failedE:
  assumes "\<not> succeeded r" obtains x s t where "r = (Inl x, s, t)"
  using assms by (cases r; cases "fst r") (auto simp: succeeded_def)

end
