(* ===== verification/VaultProps.thy ===== *)
theory VaultProps
  imports Fixtures
begin

text \<open>
  What the item operations promise: the identity, revision and history an envelope carries
  forward, reading back what was written, the frame around one item, rollback of a failed
  save, the protection of managed items, and the duplicate refusal.
\<close>

section \<open>Lookups through the document\<close>

lemma get_object_put:
  "get_object (doc v) key = Some m \<Longrightarrow> jget (doc (put_section key m' v)) = (jget (doc v))(key \<mapsto> JObj m')"
  by (cases "doc v") (auto simp: put_section_def jget_def map_of_map_insert)

lemma put_section_frame [simp]:
  "base_generation (put_section key m v) = base_generation v"
  "owner (put_section key m v) = owner v"
  "recovery (put_section key m v) = recovery v"
  by (simp_all add: put_section_def split: json.splits)

lemma put_section_JObj: "doc v = JObj d \<Longrightarrow> doc (put_section key m v) = JObj (map_insert key (JObj m) d)"
  by (simp add: put_section_def)

lemma item_entry_items:
  "get_object (doc v) ''items'' = Some m \<Longrightarrow> item_entry v ident = map_of m ident"
  by (simp add: item_entry_def)

lemma obj_mut_ok [simp]: "obj_mut d key = Inr m \<longleftrightarrow> get_object d key = Some m"
  by (simp add: obj_mut_def ok_or_eq_Inr)

lemma item_entry_put:
  assumes "get_object (doc v) ''items'' = Some m"
  shows "item_entry (put_section ''items'' m' v) = map_of m'"
  using get_object_put [OF assms] by (simp add: item_entry_def fun_eq_iff)

lemma item_entry_cong: "jget (doc v') ''items'' = jget (doc v) ''items'' \<Longrightarrow> item_entry v' = item_entry v"
  by (simp add: item_entry_def fun_eq_iff)

lemma item_entry_save: "save v h = (r, v', h') \<Longrightarrow> item_entry v' = item_entry v"
proof (cases r)
  case (Inl e)
  assume "save v h = (r, v', h')"
  with Inl show ?thesis
    using save_error_doc [of v h e v' h'] by (simp add: item_entry_def fun_eq_iff)
next
  case (Inr u)
  assume "save v h = (r, v', h')"
  with Inr show ?thesis
    using save_ok_get [of v h u v' h' "''items''"] by (intro item_entry_cong) simp
qed

lemma get_object_save:
  assumes "save v h = (r, v', h')" and "k \<noteq> ''generation''"
  shows "get_object (doc v') k = get_object (doc v) k"
proof (cases r)
  case (Inl e)
  with assms show ?thesis
    using save_error_doc [of v h e v' h'] by (simp add: get_object_def)
next
  case (Inr u)
  with assms show ?thesis
    using save_ok_get [of v h u v' h' k] by (simp add: get_object_def)
qed

section \<open>The envelope\<close>

lemma mk_envelope_get:
  "jget (mk_envelope E uid kind rv man cr rs tags pr wb op ci hist src) ''format'' = Some (JUInt current_envelope)"
  "jget (mk_envelope E uid kind rv man cr rs tags pr wb op ci hist src) ''item_uid'' = Some (JStr uid)"
  "jget (mk_envelope E uid kind rv man cr rs tags pr wb op ci hist src) ''kind'' = Some (JStr kind)"
  "jget (mk_envelope E uid kind rv man cr rs tags pr wb op ci hist src) ''state'' = Some (JStr ''active'')"
  "jget (mk_envelope E uid kind rv man cr rs tags pr wb op ci hist src) ''revision'' = Some (JUInt rv)"
  "jget (mk_envelope E uid kind rv man cr rs tags pr wb op ci hist src) ''management'' = Some man"
  "jget (mk_envelope E uid kind rv man cr rs tags pr wb op ci hist src) ''created_at'' = Some cr"
  "jget (mk_envelope E uid kind rv man cr rs tags pr wb op ci hist src) ''recipients'' = Some (JArr (map JStr rs))"
  "jget (mk_envelope E uid kind rv man cr rs tags pr wb op ci hist src) ''tags'' = Some (JArr tags)"
  "jget (mk_envelope E uid kind rv man cr rs tags pr wb op ci hist src) FINGERPRINT_KEY = Some (JStr pr)"
  "jget (mk_envelope E uid kind rv man cr rs tags pr wb op ci hist src) ''history'' = Some (JArr hist)"
  "jget (mk_envelope E uid kind rv man cr rs tags pr wb op ci hist src) ''pending'' = None"
  by (simp_all add: mk_envelope_def map_add_def FINGERPRINT_KEY_def split: option.splits)

lemma mk_envelope_ciphertext:
  "Option.bind (jget (mk_envelope E uid kind rv man cr rs tags pr wb op ci hist src) ''current'')
     (\<lambda>c. get_str c ''ciphertext'') = Some ci"
  by (simp add: mk_envelope_def map_add_def FINGERPRINT_KEY_def get_str_def split: option.splits)

lemmas envelope_simps [simp] = mk_envelope_get mk_envelope_ciphertext

lemma get_of_jget:
  "jget j k = Some (JStr s) \<Longrightarrow> get_str j k = Some s"
  "jget j k = Some (JUInt n) \<Longrightarrow> get_u64 j k = Some n"
  "jget j k = Some (JArr xs) \<Longrightarrow> get_array j k = Some xs"
  "jget j k = Some (JObj m) \<Longrightarrow> get_object j k = Some m"
  by simp_all

text \<open>Everything a successful preparation has checked and chosen.\<close>

lemma prepare_item_ok:
  assumes "prepare_item E v ident kind p uids tags policy = Inr (entry, audit)"
  obtains uid man rv cr rs etags ctags ci hist salt requested previous where
    "requested = map_option (\<lambda>w. mk_management ModeManaged (mw_controller w)) (wp_managed policy)"
    "previous = Option.bind (get_object (doc v) ''items'') (\<lambda>m. map_of m ident)"
    "validate_payload p kind = Inr ()"
    "check_authority E v ident kind p tags previous requested = Inr ()"
    "effective_recipients ident uids (wp_managed policy \<noteq> None) previous = Inr rs"
    "effective_tags ident tags (wp_managed policy \<noteq> None) previous = Inr etags"
    "carried_tags ident previous = Inr ctags"
    "ensure_registered_tags ctags etags = Inr ()"
    "item_uid_for E previous (wp_item_uid policy) = Inr uid"
    "management_for v ident (case wp_writer policy of Some w \<Rightarrow> w | None \<Rightarrow> owner v) previous requested = Inr man"
    "revision_for ident previous = Inr rv"
    "encrypt_to E (fprs_for v rs) p = Inr ci"
    "history_for ident previous = Inr hist"
    "created_for E ident previous = Inr cr"
    "get_str (doc v) SALT_KEY = Some salt"
    "check_duplicate v (fingerprint E salt p) ident = Inr ()"
    "entry = mk_envelope E uid kind rv man cr rs etags (fingerprint E salt p)
       (case wp_writer policy of Some w \<Rightarrow> w | None \<Rightarrow> owner v)
       (Option.bind (wp_managed policy) mw_operation_id) ci hist
       (Option.bind previous (\<lambda>i. jget i ''import_source''))"
  using assms
  by (simp add: prepare_item_def Let_def bindR_eq_Inr ok_or_eq_Inr map_err_eq_Inr) blast

lemma ensure_salt_ok:
  assumes "ensure_fingerprint_salt E v = Inr v1"
  shows "k \<noteq> SALT_KEY \<Longrightarrow> jget (doc v1) k = jget (doc v) k"
    "base_generation v1 = base_generation v" "owner v1 = owner v" "recovery v1 = recovery v"
  using assms
  by (cases "doc v"; auto simp: ensure_fingerprint_salt_def bindR_eq_Inr map_of_map_insert split: if_splits)+

lemma salt_items: "ensure_fingerprint_salt E v = Inr v1 \<Longrightarrow> item_entry v1 = item_entry v"
  by (rule item_entry_cong) (simp add: ensure_salt_ok(1) SALT_KEY_def)

lemma set_item_ok:
  assumes "set_item_with_writer E ident kind p uids tags policy v h = (Inr audit, v', h')"
  obtains v1 entry items v2 where
    "ensure_fingerprint_salt E v = Inr v1"
    "prepare_item E v1 ident kind p uids tags policy = Inr (entry, audit)"
    "get_object (doc v1) ''items'' = Some items"
    "v2 = put_section ''items'' (map_insert ident entry items) v1"
    "save v2 h = (Inr (), v', h')"
  using assms
  by (auto simp: set_item_with_writer_def split: sum.splits prod.splits)

lemma set_item_entry:
  assumes "set_item_with_writer E ident kind p uids tags policy v h = (Inr audit, v', h')"
  obtains v1 entry where
    "ensure_fingerprint_salt E v = Inr v1"
    "prepare_item E v1 ident kind p uids tags policy = Inr (entry, audit)"
    "item_entry v' = (item_entry v)(ident \<mapsto> entry)"
    "item_entry v1 = item_entry v"
proof -
  from assms obtain v1 entry items v2 where
    s: "ensure_fingerprint_salt E v = Inr v1"
    and p: "prepare_item E v1 ident kind p uids tags policy = Inr (entry, audit)"
    and i: "get_object (doc v1) ''items'' = Some items"
    and v2: "v2 = put_section ''items'' (map_insert ident entry items) v1"
    and sv: "save v2 h = (Inr (), v', h')"
    by (rule set_item_ok)
  have "item_entry v' = item_entry v2" using sv by (rule item_entry_save)
  also have "\<dots> = (map_of items)(ident \<mapsto> entry)"
    unfolding v2 using item_entry_put [OF i] by (simp add: map_of_map_insert)
  also have "map_of items = item_entry v1"
    by (rule ext) (simp add: item_entry_items [OF i])
  also have "\<dots> = item_entry v" using s by (rule salt_items)
  finally show ?thesis using that s p salt_items [OF s] by blast
qed

lemma previous_entry:
  "Option.bind (get_object (doc v) ''items'') (\<lambda>m. map_of m ident) = item_entry v ident"
proof (cases "jget (doc v) ''items''")
  case None
  then show ?thesis by (simp add: item_entry_def get_object_def)
next
  case (Some j)
  then show ?thesis by (cases j) (simp_all add: item_entry_def get_object_def jget_def as_object_def)
qed

text \<open>The frame of an item write: every other item of the vault keeps its envelope.\<close>

theorem set_item_frame:
  assumes "set_item_with_writer E ident kind p uids tags policy v h = (Inr audit, v', h')"
    and "other \<noteq> ident"
  shows "item_entry v' other = item_entry v other"
  by (rule set_item_entry [OF assms(1)]) (simp add: assms(2))

text \<open>C4: a write carries the item's past forward: an existing item keeps its permanent
  identity and its creation time, its revision grows by exactly one, and the revision it
  replaces is appended to its history.\<close>

theorem set_item_carries_forward:
  assumes "set_item_with_writer E ident kind p uids tags policy v h = (Inr audit, v', h')"
    and "item_entry v ident = Some old"
  shows "\<exists>new r. item_entry v' ident = Some new
     \<and> (\<forall>u. entry_item_uid old = Some u \<longrightarrow> entry_item_uid new = Some u)
     \<and> get_u64 old ''revision'' = Some r \<and> get_u64 new ''revision'' = Some (r + 1)
     \<and> unat (r + 1) = unat r + 1
     \<and> jget new ''created_at'' = jget old ''created_at''
     \<and> (\<exists>hs. stored_history ident old = Inr hs \<and>
          jget new ''history'' = Some (JArr (hs @ (case jget old ''current'' of Some c \<Rightarrow> [c] | None \<Rightarrow> []))))"
proof -
  from assms(1) obtain v1 entry where
    p: "prepare_item E v1 ident kind p uids tags policy = Inr (entry, audit)"
    and e: "item_entry v' = (item_entry v)(ident \<mapsto> entry)"
    and v1: "item_entry v1 = item_entry v"
    by (rule set_item_entry)
  have prev: "Option.bind (get_object (doc v1) ''items'') (\<lambda>m. map_of m ident) = Some old"
    by (simp only: previous_entry v1 assms(2))
  from p obtain uid rv hist cr where
    u: "item_uid_for E (Some old) (wp_item_uid policy) = Inr uid"
    and r: "revision_for ident (Some old) = Inr rv"
    and h: "history_for ident (Some old) = Inr hist"
    and c: "created_for E ident (Some old) = Inr cr"
    and en: "jget entry ''item_uid'' = Some (JStr uid)" "jget entry ''revision'' = Some (JUInt rv)"
       "jget entry ''history'' = Some (JArr hist)" "jget entry ''created_at'' = Some cr"
    using prev by (elim prepare_item_ok) simp
  from r obtain old_rev where r': "get_u64 old ''revision'' = Some old_rev" "checked_add old_rev 1 = Some rv"
    by (auto simp: revision_for_def bindR_eq_Inr ok_or_eq_Inr)
  have rv: "rv = old_rev + 1"
    using r'(2) by (auto simp: checked_add_def split: if_splits)
  have urv: "unat rv = unat old_rev + 1"
    using checked_add_unat [OF r'(2)] by simp
  have uid: "entry_item_uid old = Some u \<Longrightarrow> entry_item_uid entry = Some u" for u
    using u en(1) by (auto simp: item_uid_for_def entry_item_uid_def get_of_jget split: option.splits if_splits)
  have hist: "\<exists>hs. stored_history ident old = Inr hs \<and>
      hist = hs @ (case jget old ''current'' of Some c \<Rightarrow> [c] | None \<Rightarrow> [])"
    using h by (auto simp: history_for_def bindR_eq_Inr)
  have "jget old ''created_at'' = Some cr"
    using c by (simp add: created_for_def ok_or_eq_Inr)
  with e r' rv urv uid hist en show ?thesis
    by (intro exI [of _ entry] exI [of _ old_rev]) (auto simp: get_of_jget)
qed

section \<open>Reading back, rolling back, protecting\<close>

text \<open>C1: what was written is what is read: when decryption opens what encryption sealed, a
  successful write of a payload is followed by a read of exactly that payload.\<close>

theorem set_item_read_back:
  assumes "set_item_with_writer E ident kind p uids tags policy v h = (Inr audit, v', h')"
    and "\<And>rs q c. encrypt_to E rs q = Inr c \<Longrightarrow> decrypt E c = Inr q"
  shows "get_item E v' ident = Inr p"
proof -
  from assms(1) obtain v1 entry where
    p: "prepare_item E v1 ident kind p uids tags policy = Inr (entry, audit)"
    and e: "item_entry v' = (item_entry v)(ident \<mapsto> entry)"
    by (rule set_item_entry)
  from p obtain rs ci where
    val: "validate_payload p kind = Inr ()"
    and enc: "encrypt_to E (fprs_for v1 rs) p = Inr ci"
    and en: "jget entry ''format'' = Some (JUInt current_envelope)"
      "jget entry ''state'' = Some (JStr ''active'')" "jget entry ''kind'' = Some (JStr kind)"
      "Option.bind (jget entry ''current'') (\<lambda>c. get_str c ''ciphertext'') = Some ci"
    by (elim prepare_item_ok) simp
  have "decrypt E ci = Inr p" using enc by (rule assms(2))
  with e en val show ?thesis
    by (simp add: get_item_def get_of_jget)
qed

lemma roll_back_one:
  assumes "get_object (doc v) ''items'' = Some items"
    and "map_of items = m0(ident \<mapsto> entry)"
    and "old = m0 ident"
  shows "item_entry (roll_back v [(ident, old)]) = m0"
proof -
  have "roll_back v [(ident, old)]
      = put_section ''items'' (case old of Some entry \<Rightarrow> map_insert ident entry items
          | None \<Rightarrow> map_remove ident items) v"
    using assms(1) by (cases old) (simp_all add: roll_back_def del: get_Some)
  then show ?thesis
    using item_entry_put [OF assms(1)] assms(2)
    by (cases "m0 ident") (simp_all add: assms(3) map_of_map_insert map_of_map_remove fun_eq_iff)
qed

lemma roll_back_frame [simp]: "base_generation (roll_back v olds) = base_generation v"
  by (simp add: roll_back_def split: option.splits)


text \<open>An item under another authority is protected: an ordinary write (no lifecycle
  authority) to an item that is not owner-managed succeeds only if it changes neither the
  payload nor the kind nor the tags of the active item.\<close>

theorem protected_item_unchanged:
  assumes "set_item_with_writer E ident kind p uids tags policy v h = (Inr audit, v', h')"
    and "wp_managed policy = None"
    and "item_entry v ident = Some old" and "mode_of old \<noteq> Some ModeOwner"
  shows "\<exists>v1. item_entry v1 = item_entry v \<and> get_item E v1 ident = Inr p
     \<and> get_str old ''kind'' = Some kind \<and> get_str old ''state'' = Some ''active''
     \<and> stored_tags ident old = Inr (map JStr tags)"
proof -
  from assms(1) obtain v1 entry where
    p: "prepare_item E v1 ident kind p uids tags policy = Inr (entry, audit)"
    and v1: "item_entry v1 = item_entry v"
    by (rule set_item_entry)
  have prev: "Option.bind (get_object (doc v1) ''items'') (\<lambda>m. map_of m ident) = Some old"
    by (simp only: previous_entry v1 assms(3))
  from p have "check_authority E v1 ident kind p tags (Some old) None = Inr ()"
    using prev assms(2) by (elim prepare_item_ok) simp
  with assms(4) v1 show ?thesis
    by (intro exI [of _ v1])
       (auto simp: check_authority_def bindR_eq_Inr ensureR_eq_Inr active_entry_def split: if_splits)
qed

text \<open>A lifecycle write keeps the protected metadata: the tags and the recipients of an
  existing item are the ones it already carried, whatever the writer asked for.\<close>

theorem managed_write_keeps_metadata:
  assumes "set_managed_item E ident kind p uids tags write v h = (Inr audit, v', h')"
    and "item_entry v ident = Some old" and "jget old ''recipients'' = Some (JArr rs)"
  shows "\<exists>new ts. item_entry v' ident = Some new
     \<and> stored_tags ident old = Inr ts \<and> jget new ''tags'' = Some (JArr ts)
     \<and> jget new ''recipients'' = jget old ''recipients''
     \<and> jget new ''management'' = Some (mk_management ModeManaged (mw_controller write))"
proof -
  let ?policy = "\<lparr>wp_writer = Some (mw_writer write), wp_managed = Some write, wp_item_uid = None\<rparr>"
  from assms(1) have "set_item_with_writer E ident kind p uids tags ?policy v h = (Inr audit, v', h')"
    by (simp add: set_managed_item_def)
  then obtain v1 entry where
    p: "prepare_item E v1 ident kind p uids tags ?policy = Inr (entry, audit)"
    and e: "item_entry v' = (item_entry v)(ident \<mapsto> entry)"
    and v1: "item_entry v1 = item_entry v"
    by (rule set_item_entry)
  have prev: "Option.bind (get_object (doc v1) ''items'') (\<lambda>m. map_of m ident) = Some old"
    by (simp only: previous_entry v1 assms(2))
  from p obtain ers etags where
    r: "effective_recipients ident uids True (Some old) = Inr ers"
    and t: "effective_tags ident tags True (Some old) = Inr etags"
    and en: "jget entry ''tags'' = Some (JArr etags)"
      "jget entry ''recipients'' = Some (JArr (map JStr ers))"
      "jget entry ''management'' = Some (mk_management ModeManaged (mw_controller write))"
    using prev by (elim prepare_item_ok) (simp add: management_for_def)
  have "mapR (\<lambda>each. ok_or (TextsNotText ident ''recipients'') (as_str each)) rs = Inr ers"
    using r assms(3) by (simp add: effective_recipients_def entry_texts_def)
  then have "rs = map JStr ers"
    by (induction rs arbitrary: ers) (auto simp: bindR_eq_Inr ok_or_eq_Inr)
  with e en t assms(3) show ?thesis
    by (auto simp: effective_tags_def carried_tags_def)
qed

section \<open>Who an item is encrypted to\<close>

lemma push_fprs_grows: "set fprs \<subseteq> set (push_fprs v fprs want)"
  by (induction v fprs want rule: push_fprs.induct) (auto split: option.splits if_splits)

lemma push_fprs_has: "uid \<in> set want \<Longrightarrow> recipient_fpr v uid = Some f \<Longrightarrow> f \<in> set (push_fprs v fprs want)"
proof (induction v fprs want rule: push_fprs.induct)
  case (1 v fprs)
  then show ?case by simp
next
  case (2 v fprs uid' want)
  let ?next = "case recipient_fpr v uid' of
      Some fpr \<Rightarrow> if fpr \<in> set fprs then fprs else fprs @ [fpr] | None \<Rightarrow> fprs"
  show ?case
  proof (cases "uid = uid'")
    case True
    with 2 have "f \<in> set ?next" by simp
    then show ?thesis using push_fprs_grows [of ?next v want] by auto
  next
    case False
    with 2 show ?thesis by auto
  qed
qed

lemma push_fprs_distinct: "distinct fprs \<Longrightarrow> distinct (push_fprs v fprs want)"
  by (induction v fprs want rule: push_fprs.induct) (auto split: option.splits if_splits)

text \<open>C5: no ciphertext escapes recovery: the keys an item is encrypted to are each named
  once, and always hold the owner's registered key and the vault's recovery key, beside the
  key of every registered recipient asked for.\<close>

theorem fprs_for_owner_and_recovery:
  "distinct (fprs_for v uids)
   \<and> (\<forall>f. recipient_fpr v (owner v) = Some f \<longrightarrow> f \<in> set (fprs_for v uids))
   \<and> (recovery v \<noteq> [] \<longrightarrow> recovery v \<in> set (fprs_for v uids))
   \<and> (\<forall>uid f. uid \<in> set uids \<longrightarrow> recipient_fpr v uid = Some f \<longrightarrow> f \<in> set (fprs_for v uids))"
  using push_fprs_distinct [of "[]" v "uids @ [owner v]"] push_fprs_has [of _ "uids @ [owner v]" v]
  by (auto simp: fprs_for_def Let_def)

section \<open>The properties at the concrete vault\<close>

abbreviation dv :: "vault \<times> host \<Rightarrow> vault" where "dv \<equiv> fst"
abbreviation dh :: "vault \<times> host \<Rightarrow> host" where "dh \<equiv> snd"

lemma demo_rewrite:
  "succeeded (set_item_with_writer demo_env ''a'' ''note'' (demo_note ''y'') [''ada''] [] no_policy
     (dv demo_one) (dh demo_one))"
  by code_simp

lemma demo_second:
  "succeeded (set_item_with_writer demo_env ''b'' ''note'' (demo_note ''y'') [''ada''] [] no_policy
     (dv demo_one) (dh demo_one))"
  by code_simp

lemma demo_one_entry: "item_entry (dv demo_one) ''a'' \<noteq> None"
  by code_simp

lemma demo_save: "succeeded (save (dv demo_one) (dh demo_one))"
  by code_simp

lemma demo_save_locked: "\<not> succeeded (save (dv demo_one) ((dh demo_one)\<lparr>write_locked := True\<rparr>))"
  by code_simp

theorem save_no_lost_update_witness:
  "\<exists>u v' h'. save (dv demo_one) (dh demo_one) = (Inr u, v', h')
     \<and> (\<exists>e w'. save (dv demo_one) h' = (Inl e, w', h'))"
proof (rule succeededE [OF demo_save])
  fix u v' h' assume s: "save (dv demo_one) (dh demo_one) = (Inr u, v', h')"
  show ?thesis using s save_no_lost_update [OF s refl] by blast
qed

theorem save_failure_restores_witness:
  "\<exists>e v' h'. save (dv demo_one) ((dh demo_one)\<lparr>write_locked := True\<rparr>) = (Inl e, v', h')
     \<and> jget (doc v') = jget (doc (dv demo_one))"
proof (rule failedE [OF demo_save_locked])
  fix e v' h' assume s: "save (dv demo_one) ((dh demo_one)\<lparr>write_locked := True\<rparr>) = (Inl e, v', h')"
  show ?thesis using s save_failure_restores [OF s] by blast
qed

theorem set_item_frame_witness:
  "\<exists>r v' h'. set_item_with_writer demo_env ''b'' ''note'' (demo_note ''y'') [''ada''] [] no_policy
       (dv demo_one) (dh demo_one) = (r, v', h')
     \<and> item_entry v' ''a'' = item_entry (dv demo_one) ''a''"
proof (rule succeededE [OF demo_second])
  fix x v' h'
  assume s: "set_item_with_writer demo_env ''b'' ''note'' (demo_note ''y'') [''ada''] [] no_policy
       (dv demo_one) (dh demo_one) = (Inr x, v', h')"
  show ?thesis using s set_item_frame [OF s, of "''a''"] by simp
qed

theorem set_item_carries_forward_witness:
  "\<exists>old x v' h' new. item_entry (dv demo_one) ''a'' = Some old
     \<and> set_item_with_writer demo_env ''a'' ''note'' (demo_note ''y'') [''ada''] [] no_policy
         (dv demo_one) (dh demo_one) = (Inr x, v', h')
     \<and> item_entry v' ''a'' = Some new \<and> jget new ''created_at'' = jget old ''created_at''"
proof (rule succeededE [OF demo_rewrite])
  fix x v' h'
  assume s: "set_item_with_writer demo_env ''a'' ''note'' (demo_note ''y'') [''ada''] [] no_policy
       (dv demo_one) (dh demo_one) = (Inr x, v', h')"
  obtain old where o: "item_entry (dv demo_one) ''a'' = Some old"
    using demo_one_entry by auto
  show ?thesis using s o set_item_carries_forward [OF s o] by blast
qed

theorem set_item_read_back_witness:
  "\<exists>x v' h'. set_item_with_writer demo_env ''b'' ''note'' (demo_note ''y'') [''ada''] [] no_policy
       (dv demo_one) (dh demo_one) = (Inr x, v', h')
     \<and> get_item demo_env v' ''b'' = Inr (demo_note ''y'')"
proof (rule succeededE [OF demo_second])
  fix x v' h'
  assume s: "set_item_with_writer demo_env ''b'' ''note'' (demo_note ''y'') [''ada''] [] no_policy
       (dv demo_one) (dh demo_one) = (Inr x, v', h')"
  have "get_item demo_env v' ''b'' = Inr (demo_note ''y'')"
    using s by (rule set_item_read_back) (auto simp: demo_env_def demo_roundtrip)
  with s show ?thesis by blast
qed

lemma demo_refused:
  "\<not> succeeded (set_item_with_writer demo_env ''b'' ''note'' (demo_note ''x'') [''ada''] [] no_policy
     (dv demo_one) (dh demo_one))"
  by code_simp


lemma demo_protected:
  "succeeded (set_item_with_writer demo_env ''s'' ''note'' (demo_note ''z'') [''ada''] [] no_policy
     (dv demo_external) (dh demo_external))"
  by code_simp

lemma demo_protected_entry:
  "(case item_entry (dv demo_external) ''s'' of
      Some e \<Rightarrow> mode_of e \<noteq> Some ModeOwner | None \<Rightarrow> False)"
  by code_simp

theorem protected_item_unchanged_witness:
  "\<exists>x v' h' v1. set_item_with_writer demo_env ''s'' ''note'' (demo_note ''z'') [''ada''] [] no_policy
       (dv demo_external) (dh demo_external) = (Inr x, v', h')
     \<and> get_item demo_env v1 ''s'' = Inr (demo_note ''z'')"
proof (rule succeededE [OF demo_protected])
  fix x v' h'
  assume s: "set_item_with_writer demo_env ''s'' ''note'' (demo_note ''z'') [''ada''] [] no_policy
       (dv demo_external) (dh demo_external) = (Inr x, v', h')"
  obtain old where o: "item_entry (dv demo_external) ''s'' = Some old" "mode_of old \<noteq> Some ModeOwner"
    using demo_protected_entry by (auto split: option.splits)
  show ?thesis
    using s protected_item_unchanged [OF s _ o] by (auto simp: no_policy_def)
qed

lemma demo_managed_rewrite:
  "succeeded (set_managed_item demo_env ''m'' ''note'' (demo_note ''w'') [] [''ignored''] demo_write
     (dv demo_managed) (dh demo_managed))"
  by code_simp

lemma demo_managed_entry:
  "(case item_entry (dv demo_managed) ''m'' of
      Some e \<Rightarrow> jget e ''recipients'' = Some (JArr [JStr ''ada'']) | None \<Rightarrow> False)"
  by code_simp

theorem managed_write_keeps_metadata_witness:
  "\<exists>x v' h' new. set_managed_item demo_env ''m'' ''note'' (demo_note ''w'') [] [''ignored''] demo_write
       (dv demo_managed) (dh demo_managed) = (Inr x, v', h')
     \<and> item_entry v' ''m'' = Some new \<and> jget new ''recipients'' = Some (JArr [JStr ''ada''])"
proof (rule succeededE [OF demo_managed_rewrite])
  fix x v' h'
  assume s: "set_managed_item demo_env ''m'' ''note'' (demo_note ''w'') [] [''ignored''] demo_write
       (dv demo_managed) (dh demo_managed) = (Inr x, v', h')"
  obtain old where o: "item_entry (dv demo_managed) ''m'' = Some old"
      "jget old ''recipients'' = Some (JArr [JStr ''ada''])"
    using demo_managed_entry by (auto split: option.splits)
  show ?thesis using s managed_write_keeps_metadata [OF s o] o by fastforce
qed

theorem fprs_for_owner_and_recovery_witness:
  "''FPR-ADA'' \<in> set (fprs_for (dv demo_one) [''ada'']) \<and> ''FPR-REC'' \<in> set (fprs_for (dv demo_one) [''ada''])"
proof -
  have "recipient_fpr (dv demo_one) (owner (dv demo_one)) = Some ''FPR-ADA''"
    "recovery (dv demo_one) = ''FPR-REC''" by code_simp+
  then show ?thesis using fprs_for_owner_and_recovery [of "dv demo_one" "[''ada'']"] by auto
qed

end
