(* ===== verification/Managed.thy ===== *)
theory Managed
  imports VaultItems
begin

text \<open>
  Staged revisions, \<open>src/core/vault/managed.rs\<close>: a lifecycle operation seals a new value of
  one field beside the current revision, and later activates it, discards it, or puts the
  item in the trash. Until it is activated every reader meets the revision it replaces.
\<close>

definition managed_by :: "json \<Rightarrow> string \<Rightarrow> bool" where
  "managed_by item controller \<longleftrightarrow>
     mode_of item = Some ModeManaged
     \<and> Option.bind (jget item ''management'') (\<lambda>m. get_str m ''controller'') = Some controller"

definition written_by :: "json \<Rightarrow> string option" where
  "written_by item = Option.bind (jget item ''current'') (\<lambda>c. get_str c ''written_by'')"

text \<open>What must hold of an item before a revision may be staged on it; with a revision this
  operation already staged, its number is the whole answer.\<close>

definition stage_check :: "string \<Rightarrow> json \<Rightarrow> u64 \<Rightarrow> managed_write \<Rightarrow> vault_error + u64 option" where
  "stage_check ident item expected w =
     (if get_u64 item ''format'' \<noteq> Some current_envelope then Inl (LegacyEnvelope ident)
      else if get_str item ''state'' \<noteq> Some ''active'' then Inl (NotActive ident)
      else if get_u64 item ''revision'' \<noteq> Some expected then Inl RevisionMoved
      else bindR (ok_or (NoManagement ident) (get_object item ''management'')) (\<lambda>_.
        if \<not> managed_by item (mw_controller w) then Inl (OtherAuthority ident)
        else if written_by item \<noteq> Some (mw_writer w) then Inl (NotExactWriter ident)
        else case jget item ''pending'' of
               Some p \<Rightarrow>
                 if get_str p ''operation_id'' = mw_operation_id w
                 then bindR (ok_or PendingNoRevision (get_u64 p ''revision'')) (\<lambda>n. Inr (Some n))
                 else Inl (OtherPending ident)
             | None \<Rightarrow> Inr None))"

text \<open>The current payload with one field replaced, and whether that changed anything.\<close>

definition replaced_field :: "json \<Rightarrow> string \<Rightarrow> json \<Rightarrow> string \<Rightarrow> vault_error + json \<times> bool" where
  "replaced_field p fld x kind =
     bindR (map_err SchemaE (Schema.fields p)) (\<lambda>m.
     bindR (ok_or NoFieldsInPayload (jindex_set p ''fields'' (JObj (map_insert fld x m)))) (\<lambda>p'.
     bindR (map_err SchemaE (validate_payload p' kind)) (\<lambda>_.
       Inr (p', map_of m fld = Some x))))"

definition mk_pending ::
  "env \<Rightarrow> u64 \<Rightarrow> string \<Rightarrow> managed_write \<Rightarrow> string \<Rightarrow> bool \<Rightarrow> string \<Rightarrow> json" where
  "mk_pending E revision kind w fld same cipher =
     mk_obj [(''revision'', JUInt revision), (''created_at'', JStr (now_iso E)), (''kind'', JStr kind),
             (''written_by'', JStr (mw_writer w)), (''operation_id'', json_opt JStr (mw_operation_id w)),
             (''field'', JStr fld), (''same_as_current'', JBool same), (''ciphertext'', JStr cipher)]"

text \<open>The revision a stage answers with, and the changed handle unless it was staged before.\<close>

definition staged ::
  "env \<Rightarrow> string \<Rightarrow> string \<Rightarrow> json \<Rightarrow> u64 \<Rightarrow> managed_write \<Rightarrow> vault \<Rightarrow> vault_error + u64 \<times> vault option"
where
  "staged E ident fld x expected w v =
     bindR (ok_or (NoItem ident) (item_entry v ident)) (\<lambda>item.
     bindR (stage_check ident item expected w) (\<lambda>already.
       case already of
         Some n \<Rightarrow> Inr (n, None)
       | None \<Rightarrow>
           bindR (ok_or NoKind (get_str item ''kind'')) (\<lambda>kind.
           bindR (item_recipient_uids v ident) (\<lambda>uids.
           bindR (get_item E v ident) (\<lambda>p.
           bindR (replaced_field p fld x kind) (\<lambda>(p', same).
           bindR (ok_or RevisionOverflow (checked_add expected 1)) (\<lambda>revision.
           bindR (encrypt_to E (fprs_for v uids) p') (\<lambda>cipher.
           bindR (edit_entry ident (map_insert ''pending'' (mk_pending E revision kind w fld same cipher)) v)
             (\<lambda>v'. Inr (revision, Some v'))))))))))"

definition stage_managed_field ::
  "env \<Rightarrow> string \<Rightarrow> string \<Rightarrow> json \<Rightarrow> u64 \<Rightarrow> managed_write \<Rightarrow> vault \<Rightarrow> host \<Rightarrow>
     (vault_error + u64) \<times> vault \<times> host"
where
  "stage_managed_field E ident fld x expected w v h =
     (case staged E ident fld x expected w v of
        Inl e \<Rightarrow> (Inl e, v, h)
      | Inr (n, None) \<Rightarrow> (Inr n, v, h)
      | Inr (n, Some v1) \<Rightarrow> (case save v1 h of (r, v2, h2) \<Rightarrow> (bindR r (\<lambda>_. Inr n), v2, h2)))"

definition trash_managed_item ::
  "env \<Rightarrow> string \<Rightarrow> string \<Rightarrow> string \<Rightarrow> vault \<Rightarrow> host \<Rightarrow> (vault_error + unit) \<times> vault \<times> host" where
  "trash_managed_item E ident controller writer v h =
     save_changed
       (bindR (ok_or (NoItem ident) (item_entry v ident)) (\<lambda>item.
        bindR (ok_or (NoManagement ident) (get_object item ''management'')) (\<lambda>_.
          if get_str item ''state'' \<noteq> Some ''active'' \<or> \<not> managed_by item controller
             \<or> written_by item \<noteq> Some writer
          then Inl (NotExactWriter ident)
          else if jget item ''pending'' \<noteq> None then Inl (HasPending ident)
          else edit_entry ident (\<lambda>e. map_insert ''deleted_at'' (JStr (now_iso E))
                 (map_insert ''state'' (JStr ''trashed'') e)) v))) v h"

definition pending_of :: "json \<Rightarrow> string \<Rightarrow> string \<Rightarrow> string \<Rightarrow> vault_error + json" where
  "pending_of item operation fld writer =
     bindR (ok_or NoPending (jget item ''pending'')) (\<lambda>p.
       if get_str p ''operation_id'' \<noteq> Some operation \<or> get_str p ''field'' \<noteq> Some fld
          \<or> get_str p ''written_by'' \<noteq> Some writer
       then Inl NotYourPending else Inr p)"

definition activated ::
  "env \<Rightarrow> string \<Rightarrow> string \<Rightarrow> string \<Rightarrow> string \<Rightarrow> vault \<Rightarrow> vault_error + u64 \<times> vault" where
  "activated E ident operation fld writer v =
     bindR (ok_or (NoItem ident) (item_entry v ident)) (\<lambda>item.
     bindR (pending_of item operation fld writer) (\<lambda>p.
     bindR (ok_or PendingNoRevision (get_u64 p ''revision'')) (\<lambda>revision.
     bindR (stored_history ident item) (\<lambda>history.
     bindR (ok_or NoCurrent (jget item ''current'')) (\<lambda>current.
     bindR (edit_entry ident (\<lambda>e. map_remove ''pending''
              (map_insert ''updated_at'' (JStr (now_iso E))
              (map_insert ''revision'' (JUInt revision)
              (map_insert ''history'' (JArr (history @ [current]))
              (map_insert ''current'' p e))))) v) (\<lambda>v'.
       Inr (revision, v')))))))"

definition activate_staged_revision ::
  "env \<Rightarrow> string \<Rightarrow> string \<Rightarrow> string \<Rightarrow> string \<Rightarrow> vault \<Rightarrow> host \<Rightarrow> (vault_error + u64) \<times> vault \<times> host"
where
  "activate_staged_revision E ident operation fld writer v h =
     (case activated E ident operation fld writer v of
        Inl e \<Rightarrow> (Inl e, v, h)
      | Inr (n, v1) \<Rightarrow> (case save v1 h of (r, v2, h2) \<Rightarrow> (bindR r (\<lambda>_. Inr n), v2, h2)))"

definition discard_staged_revision ::
  "string \<Rightarrow> string \<Rightarrow> string \<Rightarrow> string \<Rightarrow> vault \<Rightarrow> host \<Rightarrow> (vault_error + unit) \<times> vault \<times> host" where
  "discard_staged_revision ident operation fld writer v h =
     save_changed
       (bindR (ok_or (NoItem ident) (item_entry v ident)) (\<lambda>item.
        bindR (pending_of item operation fld writer) (\<lambda>_.
          edit_entry ident (map_remove ''pending'') v))) v h"

end
