(* ===== verification/ManagedProps.thy ===== *)
theory ManagedProps
  imports Managed VaultProps
begin

text \<open>
  A staged revision changes nothing a reader meets; activating it puts the staged value in the
  field it was staged for, keeps every other field and moves the replaced revision into the
  history; discarding it leaves the item reading as it did.
\<close>

section \<open>One entry changed in place\<close>

lemma edit_entry_ok:
  assumes "edit_entry ident f v = Inr v'"
  shows "\<exists>e. item_entry v ident = Some (JObj e)
     \<and> item_entry v' = (item_entry v)(ident \<mapsto> JObj (f e))
     \<and> fprs_for v' = fprs_for v"
proof -
  from assms obtain items e where i: "get_object (doc v) ''items'' = Some items" "map_of items ident = Some (JObj e)"
    and v': "v' = put_section ''items'' (map_insert ident (JObj (f e)) items) v"
    by (auto simp: edit_entry_def result_simps bind_eq_Some_conv simp del: get_Some)
  have a: "item_entry v ident = Some (JObj e)" using i by (simp add: item_entry_items)
  have b: "item_entry v' = (item_entry v)(ident \<mapsto> JObj (f e))"
    using item_entry_put [OF i(1)] item_entry_items [OF i(1)]
    unfolding v' by (simp add: map_of_map_insert fun_eq_iff)
  have "recipient_fpr v' = recipient_fpr v"
    using get_object_put [OF i(1)] by (simp add: recipient_fpr_def v' fun_eq_iff)
  then have "push_fprs v' fs want = push_fprs v fs want" for fs want
    by (induction want arbitrary: fs) (simp_all split: option.splits)
  then have "fprs_for v' = fprs_for v" by (simp add: fprs_for_def v' fun_eq_iff Let_def)
  with a b show ?thesis by blast
qed

lemma save_then_ok:
  "(case save v1 h of (r, x) \<Rightarrow> (bindR r (\<lambda>_. Inr n), x)) = (Inr m, v', h')
     \<longleftrightarrow> m = n \<and> save v1 h = (Inr (), v', h')"
  by (cases "save v1 h") (auto simp: bindR_def split: sum.splits)

section \<open>Staging, activating, discarding\<close>

lemma staged_ok:
  assumes "staged E ident fld x expected w v = Inr (n, Some v1)"
  shows "\<exists>e kind p m cipher same. item_entry v ident = Some (JObj e) \<and> map_of e ''pending'' = None
     \<and> get_item E v ident = Inr p \<and> Schema.fields p = Inr m \<and> map_of e ''kind'' = Some (JStr kind)
     \<and> (\<forall>p'. jindex_set p ''fields'' (JObj (map_insert fld x m)) = Some p' \<longrightarrow>
          validate_payload p' kind = Inr () \<and> (\<exists>rs. encrypt_to E rs p' = Inr cipher))
     \<and> checked_add expected 1 = Some n \<and> map_of e ''revision'' = Some (JUInt expected)
     \<and> map_of e ''format'' = Some (JUInt current_envelope) \<and> map_of e ''state'' = Some (JStr ''active'')
     \<and> item_entry v1 = (item_entry v)(ident \<mapsto>
          JObj (map_insert ''pending'' (mk_pending E n kind w fld same cipher) e))"
proof -
  from assms obtain item kind uids p p' same cipher where i: "item_entry v ident = Some item"
    and c: "stage_check ident item expected w = Inr None" and k: "get_str item ''kind'' = Some kind"
    and p: "get_item E v ident = Inr p" and r: "replaced_field p fld x kind = Inr (p', same)"
    and n: "checked_add expected 1 = Some n" and en: "encrypt_to E (fprs_for v uids) p' = Inr cipher"
    and ed: "edit_entry ident (map_insert ''pending'' (mk_pending E n kind w fld same cipher)) v = Inr v1"
    by (auto simp: staged_def result_simps split: option.splits simp del: get_Some)
  obtain e where e: "item_entry v ident = Some (JObj e)"
    and v1: "item_entry v1 = (item_entry v)(ident \<mapsto>
          JObj (map_insert ''pending'' (mk_pending E n kind w fld same cipher) e))"
    using edit_entry_ok [OF ed] by blast
  have ie: "item = JObj e" using i e by simp
  from c have ch: "jget item ''pending'' = None" "get_u64 item ''revision'' = Some expected"
      "get_u64 item ''format'' = Some current_envelope" "get_str item ''state'' = Some ''active''"
    by (auto simp: stage_check_def result_simps split: if_splits option.splits simp del: get_Some)
  from r obtain m where m: "Schema.fields p = Inr m"
      "jindex_set p ''fields'' (JObj (map_insert fld x m)) = Some p'" "validate_payload p' kind = Inr ()"
    by (auto simp: replaced_field_def result_simps)
  show ?thesis
    by (intro exI [of _ e] exI [of _ kind] exI [of _ p] exI [of _ m] exI [of _ cipher] exI [of _ same] conjI allI impI)
       (use e v1 ch k p m n en ie in auto)
qed

lemma mk_pending_get:
  "get_u64 (mk_pending E n kind w fld same cipher) ''revision'' = Some n"
  "get_str (mk_pending E n kind w fld same cipher) ''ciphertext'' = Some cipher"
  by (simp_all add: mk_pending_def)

lemma activate_saved:
  assumes "activate_staged_revision E ident operation fld writer v h = (Inr n, v', h')"
  shows "\<exists>v1. activated E ident operation fld writer v = Inr (n, v1) \<and> save v1 h = (Inr (), v', h')"
proof (cases "activated E ident operation fld writer v")
  case (Inr q)
  with assms show ?thesis by (cases q) (auto simp: activate_staged_revision_def save_then_ok)
qed (use assms in \<open>simp add: activate_staged_revision_def\<close>)

lemma stage_saved:
  assumes "stage_managed_field E ident fld x expected w v h = (Inr n, v', h')"
    and "item_entry v ident = Some old" and "jget old ''pending'' = None"
  shows "\<exists>v1. staged E ident fld x expected w v = Inr (n, Some v1) \<and> save v1 h = (Inr (), v', h')"
proof (cases "staged E ident fld x expected w v")
  case (Inr q)
  obtain m o' where q: "q = (m, o')" by (cases q)
  have "o' \<noteq> None"
    using Inr q assms(2,3)
    by (auto simp: staged_def stage_check_def result_simps split: if_splits option.splits simp del: get_Some)
  with assms(1) Inr q show ?thesis by (auto simp: stage_managed_field_def save_then_ok)
qed (use assms in \<open>simp add: stage_managed_field_def\<close>)

lemma activated_ok:
  assumes "activated E ident operation fld writer v = Inr (n, v1)"
  shows "\<exists>e p hs c. item_entry v ident = Some (JObj e) \<and> map_of e ''pending'' = Some p
     \<and> get_u64 p ''revision'' = Some n \<and> stored_history ident (JObj e) = Inr hs \<and> map_of e ''current'' = Some c
     \<and> item_entry v1 = (item_entry v)(ident \<mapsto> JObj (map_remove ''pending''
              (map_insert ''updated_at'' (JStr (now_iso E))
              (map_insert ''revision'' (JUInt n)
              (map_insert ''history'' (JArr (hs @ [c]))
              (map_insert ''current'' p e))))))"
proof -
  from assms obtain item p hs c where i: "item_entry v ident = Some item"
    and p: "pending_of item operation fld writer = Inr p" and n: "get_u64 p ''revision'' = Some n"
    and hs: "stored_history ident item = Inr hs" and c: "jget item ''current'' = Some c"
    and ed: "edit_entry ident (\<lambda>e. map_remove ''pending''
              (map_insert ''updated_at'' (JStr (now_iso E))
              (map_insert ''revision'' (JUInt n)
              (map_insert ''history'' (JArr (hs @ [c]))
              (map_insert ''current'' p e))))) v = Inr v1"
    by (auto simp: activated_def result_simps simp del: get_Some)
  obtain e where "item_entry v ident = Some (JObj e)"
    and "item_entry v1 = (item_entry v)(ident \<mapsto> JObj (map_remove ''pending''
              (map_insert ''updated_at'' (JStr (now_iso E))
              (map_insert ''revision'' (JUInt n)
              (map_insert ''history'' (JArr (hs @ [c]))
              (map_insert ''current'' p e))))))"
    using edit_entry_ok [OF ed] by blast
  then show ?thesis using i p n hs c
    by (auto simp: pending_of_def result_simps split: if_splits simp del: get_Some)
qed


text \<open>Discarding a staged revision leaves no trace: after a stage and a discard every item
  reads, key by key, as before the stage.\<close>

theorem staged_then_discarded:
  assumes "stage_managed_field E ident fld x expected w v h = (Inr n, v1, h1)"
    and "item_entry v ident = Some old" and "jget old ''pending'' = None"
    and "discard_staged_revision ident operation fld writer v1 h1 = (Inr u, v2, h2)"
  shows "(\<exists>new. item_entry v2 ident = Some new \<and> jget new = jget old)
     \<and> (\<forall>i. i \<noteq> ident \<longrightarrow> item_entry v2 i = item_entry v i) \<and> get_item E v2 = get_item E v"
proof -
  obtain v1' where st: "staged E ident fld x expected w v = Inr (n, Some v1')" "save v1' h = (Inr (), v1, h1)"
    using stage_saved [OF assms(1-3)] by blast
  obtain v2' where ed: "edit_entry ident (map_remove ''pending'') v1 = Inr v2'" "save v2' h1 = (Inr u, v2, h2)"
    using assms(4) by (auto simp: discard_staged_revision_def save_changed_def result_simps split: sum.splits)
  obtain e p where e: "item_entry v ident = Some (JObj e)" "map_of e ''pending'' = None"
      "item_entry v1' = (item_entry v)(ident \<mapsto> JObj (map_insert ''pending'' p e))"
    using staged_ok [OF st(1)] by blast
  have v1: "item_entry v1 = (item_entry v)(ident \<mapsto> JObj (map_insert ''pending'' p e))"
    using item_entry_save [OF st(2)] e(3) by simp
  obtain e' where "item_entry v1 ident = Some (JObj e')"
      "item_entry v2' = (item_entry v1)(ident \<mapsto> JObj (map_remove ''pending'' e'))"
    using edit_entry_ok [OF ed(1)] by blast
  with v1 have v2: "item_entry v2 = (item_entry v)(ident \<mapsto> JObj (map_remove ''pending'' (map_insert ''pending'' p e)))"
    using item_entry_save [OF ed(2)] by simp
  have same: "jget (JObj (map_remove ''pending'' (map_insert ''pending'' p e))) = jget (JObj e)"
    using e(2) by (simp add: fun_eq_iff map_of_map_insert map_of_map_remove)
  have "get_item E v2 i = get_item E v i" for i
    using same e(1) by (simp add: get_item_def v2 get_defs)
  then show ?thesis using v2 same e(1) assms(2) by (auto simp: fun_eq_iff)
qed

section \<open>At the concrete vault\<close>

definition demo_operation :: managed_write where
  "demo_operation = demo_write\<lparr>mw_operation_id := Some ''op''\<rparr>"

definition demo_staged :: "(vault_error + u64) \<times> vault \<times> host" where
  "demo_staged = stage_managed_field demo_env ''m'' ''value'' (JStr ''q'') 1 demo_operation (dv demo_managed) (dh demo_managed)"

lemma demo_staged_runs:
  "(case demo_staged of
      (Inr n, v1, h1) \<Rightarrow>
        succeeded (activate_staged_revision demo_env ''m'' ''op'' ''value'' ''worker'' v1 h1)
        \<and> succeeded (discard_staged_revision ''m'' ''op'' ''value'' ''worker'' v1 h1)
    | (Inl e, v1, h1) \<Rightarrow> False)"
  by code_simp

lemma demo_staged_ok:
  obtains n v1 h1 where "demo_staged = (Inr n, v1, h1)"
    "succeeded (activate_staged_revision demo_env ''m'' ''op'' ''value'' ''worker'' v1 h1)"
    "succeeded (discard_staged_revision ''m'' ''op'' ''value'' ''worker'' v1 h1)"
proof -
  obtain r v1 h1 where d: "demo_staged = (r, v1, h1)" by (cases demo_staged)
  have "\<not> isl r" using demo_staged_runs unfolding d by (cases r) simp_all
  then obtain n where "r = Inr n" by (cases r) simp_all
  with d have e: "demo_staged = (Inr n, v1, h1)" by simp
  have "succeeded (activate_staged_revision demo_env ''m'' ''op'' ''value'' ''worker'' v1 h1)
      \<and> succeeded (discard_staged_revision ''m'' ''op'' ''value'' ''worker'' v1 h1)"
    using demo_staged_runs unfolding e by simp
  then show thesis using that [OF e] by blast
qed

lemma demo_unstaged:
  "(case item_entry (dv demo_managed) ''m'' of Some old \<Rightarrow> jget old ''pending'' = None | None \<Rightarrow> False)"
  by code_simp

lemma demo_staged_old:
  obtains old where "item_entry (dv demo_managed) ''m'' = Some old" "jget old ''pending'' = None"
  using demo_unstaged by (auto split: option.splits)


theorem staged_then_discarded_witness:
  "\<exists>n v1 h1 u v2 h2. demo_staged = (Inr n, v1, h1)
     \<and> discard_staged_revision ''m'' ''op'' ''value'' ''worker'' v1 h1 = (Inr u, v2, h2)
     \<and> get_item demo_env v2 = get_item demo_env (dv demo_managed)"
proof -
  obtain old where old: "item_entry (dv demo_managed) ''m'' = Some old" "jget old ''pending'' = None"
    by (rule demo_staged_old)
  obtain n v1 h1 where st: "demo_staged = (Inr n, v1, h1)"
    and ok: "succeeded (discard_staged_revision ''m'' ''op'' ''value'' ''worker'' v1 h1)"
    by (rule demo_staged_ok)
  obtain u v2 h2 where di: "discard_staged_revision ''m'' ''op'' ''value'' ''worker'' v1 h1 = (Inr u, v2, h2)"
    using ok by (rule succeededE)
  from staged_then_discarded [OF st [unfolded demo_staged_def] old di] have g: "get_item demo_env v2 = get_item demo_env (dv demo_managed)" by simp
  show ?thesis by (intro exI conjI, rule st, rule di, rule g)
qed

end
