(* ===== verification/CredReads.thy ===== *)
theory CredReads
  imports Managed
begin

text \<open>
  What a reader may see of an item a credential operation holds:
  \<open>src/credential/state/records.rs\<close> (the readers), \<open>credential/state/writes.rs\<close>
  (\<open>pending_matches_request\<close>), \<open>credential/wire/mod.rs\<close> (\<open>request_payload\<close>) and
  \<open>credential/adopt/reads.rs\<close>. While an adopt is in flight its candidate is readable only by
  the consumer that verifies it.
\<close>

datatype (plugins only: code size) cred_error =
    CredVault vault_error
  | CredSchema schema_error
  | RequestNotObject
  | NoRequestId string
  | StagedNoKind
  | StagedNoCiphertext

definition CREDENTIAL_WIRE :: string where "CREDENTIAL_WIRE = ''skarbiec.credential-operation.v3''"
definition STATE_ADOPTING :: string where "STATE_ADOPTING = ''adopting''"
definition REQUEST_KIND :: string where "REQUEST_KIND = ''credential-operation''"
definition SEAL_KIND :: string where "SEAL_KIND = ''credential-directory-seal''"
definition REQUEST_WRITER :: string where "REQUEST_WRITER = ''skarbiec-credential-lifecycle''"

section \<open>The records of an operation\<close>

definition request_item_id :: "string \<Rightarrow> string" where
  "request_item_id credential = ''operation:credential/'' @ credential"

definition lifecycle_owned_item :: "vault \<Rightarrow> string \<Rightarrow> bool" where
  "lifecycle_owned_item v ident =
     (case item_entry v ident of
        None \<Rightarrow> False
      | Some item \<Rightarrow>
          get_str item ''kind'' \<in> {Some REQUEST_KIND, Some SEAL_KIND}
          \<and> managed_by item REQUEST_WRITER)"

definition live_item_exists :: "vault \<Rightarrow> string \<Rightarrow> bool" where
  "live_item_exists v ident = list_ex (\<lambda>row. get_str row ''id'' = Some ident) (list_items v False)"

definition request_payload :: "json \<Rightarrow> cred_error + json" where
  "request_payload request =
     bindR (map_err CredSchema (field request ''value'')) (\<lambda>p.
       if as_object p = None then Inl RequestNotObject else Inr p)"

definition recorded_request :: "env \<Rightarrow> vault \<Rightarrow> string \<Rightarrow> cred_error + json option" where
  "recorded_request E v credential =
     (if \<not> live_item_exists v (request_item_id credential) then Inr None
      else bindR (map_err CredVault (get_item E v (request_item_id credential))) (\<lambda>p.
           bindR (request_payload p) (\<lambda>r. Inr (Some r))))"

definition context_block_checked :: "env \<Rightarrow> vault \<Rightarrow> string \<Rightarrow> string \<Rightarrow> cred_error + json option" where
  "context_block_checked E v ident key =
     (if \<not> live_item_exists v ident then Inr None
      else bindR (map_err CredVault (get_item E v ident)) (\<lambda>p.
        Inr (case Option.bind (jget p ''context'') (\<lambda>c. jget c key) of
               Some x \<Rightarrow> if x = JNull then None else Some x
             | None \<Rightarrow> None)))"

definition context_string :: "env \<Rightarrow> vault \<Rightarrow> string \<Rightarrow> string \<Rightarrow> cred_error + string option" where
  "context_string E v ident key =
     bindR (context_block_checked E v ident key) (\<lambda>b. Inr (Option.bind b as_str))"

text \<open>The revision a lifecycle operation is admitted against; none for an item in the trash.\<close>

definition active_revision :: "vault \<Rightarrow> string \<Rightarrow> u64 option" where
  "active_revision v ident =
     Option.bind (item_entry v ident) (\<lambda>item.
       if get_str item ''state'' = Some ''trashed'' then None else get_u64 item ''revision'')"

definition pending_matches_request :: "vault \<Rightarrow> string \<Rightarrow> string \<Rightarrow> string \<Rightarrow> string \<Rightarrow> bool" where
  "pending_matches_request v credential request fld writer =
     (case Option.bind (item_entry v credential) (\<lambda>item. get_object item ''pending'') of
        None \<Rightarrow> False
      | Some m \<Rightarrow>
          get_str (JObj m) ''operation_id'' = Some request
          \<and> get_str (JObj m) ''field'' = Some fld
          \<and> get_str (JObj m) ''written_by'' = Some writer)"

section \<open>What an acquisition read may return\<close>

definition staged_field_value :: "env \<Rightarrow> vault \<Rightarrow> string \<Rightarrow> string \<Rightarrow> cred_error + json option" where
  "staged_field_value E v credential fld =
     (case Option.bind (item_entry v credential) (\<lambda>item. jget item ''pending'') of
        None \<Rightarrow> Inr None
      | Some p \<Rightarrow>
          bindR (ok_or StagedNoKind (get_str p ''kind'')) (\<lambda>kind.
          bindR (ok_or StagedNoCiphertext (get_str p ''ciphertext'')) (\<lambda>cipher.
          bindR (map_err CredVault (decrypt E cipher)) (\<lambda>payload.
          bindR (map_err CredSchema (validate_payload payload kind)) (\<lambda>_.
          bindR (map_err CredSchema (field payload fld)) (\<lambda>x. Inr (Some x)))))))"

datatype (plugins only: code size) read_view = CurrentRead | StagedRead json | RefusedRead

definition adopt_in_flight :: "json \<Rightarrow> string \<Rightarrow> string \<Rightarrow> string \<Rightarrow> bool" where
  "adopt_in_flight request credential fld consumer \<longleftrightarrow>
     get_str request ''version'' = Some CREDENTIAL_WIRE
     \<and> get_str request ''operation'' = Some ''adopt''
     \<and> get_str request ''credential_id'' = Some credential
     \<and> get_str request ''field'' = Some fld
     \<and> get_str request ''consumer'' = Some consumer
     \<and> get_str request ''status'' \<in> {Some ''submitting'', Some ''pending'', Some ''needs_human_approval''}"

text \<open>The writer of the active revision, \<open>src/core/inbox.rs\<close>.\<close>

definition active_writer :: "vault \<Rightarrow> string \<Rightarrow> string option" where
  "active_writer v ident = Option.bind (item_entry v ident) written_by"

definition managed_read :: "env \<Rightarrow> vault \<Rightarrow> string \<Rightarrow> string \<Rightarrow> string \<Rightarrow> cred_error + read_view" where
  "managed_read E v credential fld consumer =
     bindR (context_block_checked E v credential ''lifecycle'') (\<lambda>block.
     (let lifecycle = (case block of Some b \<Rightarrow> b | None \<Rightarrow> JNull);
          candidate = get_str lifecycle ''state'' = Some STATE_ADOPTING
                      \<and> get_str lifecycle ''candidate'' = Some ''current''
      in bindR (recorded_request E v credential) (\<lambda>record.
         case record of
           Some request \<Rightarrow>
             if adopt_in_flight request credential fld consumer then
               bindR (ok_or (NoRequestId credential) (get_str request ''request_id'')) (\<lambda>rid.
               bindR (if pending_matches_request v credential rid fld consumer
                      then staged_field_value E v credential fld else Inr None) (\<lambda>staged.
                 case staged of
                   Some x \<Rightarrow> Inr (StagedRead x)
                 | None \<Rightarrow>
                     if candidate \<and> get_str lifecycle ''request_id'' = Some rid
                        \<and> active_writer v credential = Some consumer
                     then Inr CurrentRead
                     else Inr (if candidate then RefusedRead else CurrentRead)))
             else Inr (if candidate then RefusedRead else CurrentRead)
         | None \<Rightarrow> Inr (if candidate then RefusedRead else CurrentRead))))"

definition candidate_hidden :: "env \<Rightarrow> vault \<Rightarrow> string \<Rightarrow> string \<Rightarrow> string \<Rightarrow> bool" where
  "candidate_hidden E v credential fld consumer =
     (case managed_read E v credential fld consumer of
        Inr CurrentRead \<Rightarrow> False | Inr (StagedRead x) \<Rightarrow> False | _ \<Rightarrow> True)"

section \<open>Who meets a candidate\<close>

text \<open>A staged value is handed only to the consumer that staged it, for the field it staged and
  under the operation recorded as in flight.\<close>

lemma staged_read_only_by_writer:
  assumes "managed_read E v credential fld consumer = Inr (StagedRead x)"
  shows "\<exists>request rid. recorded_request E v credential = Inr (Some request)
     \<and> adopt_in_flight request credential fld consumer
     \<and> get_str request ''request_id'' = Some rid
     \<and> pending_matches_request v credential rid fld consumer"
proof -
  obtain block where b: "context_block_checked E v credential ''lifecycle'' = Inr block"
    using assms by (cases "context_block_checked E v credential ''lifecycle''") (simp_all add: managed_read_def)
  obtain rec where r: "recorded_request E v credential = Inr rec"
    using assms by (cases "recorded_request E v credential") (simp_all add: managed_read_def b)
  obtain request where q: "rec = Some request"
    using assms by (cases rec) (simp_all add: managed_read_def b r Let_def split: if_splits)
  have a: "adopt_in_flight request credential fld consumer"
    using assms by (rule contrapos_pp) (simp add: managed_read_def b r q Let_def)
  obtain rid where i: "get_str request ''request_id'' = Some rid"
    using assms by (cases "get_str request ''request_id''") (simp_all add: managed_read_def b r q a Let_def)
  have p: "pending_matches_request v credential rid fld consumer"
    using assms by (rule contrapos_pp) (simp add: managed_read_def b r q a i Let_def del: get_Some)
  from r q a i p show ?thesis by blast
qed

end
