(* ===== verification/Text.thy ===== *)
theory Text
  imports Prelude
begin

text \<open>
  Text as the code trims and cuts it: the white space of UTF-8 text (\<open>char::is_whitespace\<close>),
  \<open>trim\<close>, \<open>trim_end_matches\<close>, \<open>lines\<close>, \<open>contains\<close> and \<open>ends_with\<close>. A string is its bytes,
  so a white-space character is one, two or three of them.
\<close>

section \<open>White space\<close>

definition ascii_ws :: "char list" where
  "ascii_ws = [CHR 0x09, CHR 0x0A, CHR 0x0B, CHR 0x0C, CHR 0x0D, CHR 0x20]"

definition ws_three :: "char \<Rightarrow> char \<Rightarrow> char \<Rightarrow> bool" where
  "ws_three a b c \<longleftrightarrow>
     (a = CHR 0xE1 \<and> b = CHR 0x9A \<and> c = CHR 0x80)
   \<or> (a = CHR 0xE2 \<and> b = CHR 0x80
        \<and> (CHR 0x80 \<le> c \<and> c \<le> CHR 0x8A \<or> c = CHR 0xA8 \<or> c = CHR 0xA9 \<or> c = CHR 0xAF))
   \<or> (a = CHR 0xE2 \<and> b = CHR 0x81 \<and> c = CHR 0x9F)
   \<or> (a = CHR 0xE3 \<and> b = CHR 0x80 \<and> c = CHR 0x80)"

text \<open>The bytes of the white-space character a text starts with, or ends with; 0 for none.\<close>

definition ws_head :: "string \<Rightarrow> nat" where
  "ws_head s =
     (case s of
        a # r \<Rightarrow>
          if a \<in> set ascii_ws then 1
          else (case r of
                  b # r' \<Rightarrow>
                    if a = CHR 0xC2 \<and> (b = CHR 0x85 \<or> b = CHR 0xA0) then 2
                    else (case r' of c # _ \<Rightarrow> if ws_three a b c then 3 else 0 | [] \<Rightarrow> 0)
                | [] \<Rightarrow> 0)
      | [] \<Rightarrow> 0)"

definition ws_last :: "string \<Rightarrow> nat" where
  "ws_last reversed =
     (case reversed of
        c # r \<Rightarrow>
          if c \<in> set ascii_ws then 1
          else (case r of
                  b # r' \<Rightarrow>
                    if b = CHR 0xC2 \<and> (c = CHR 0x85 \<or> c = CHR 0xA0) then 2
                    else (case r' of a # _ \<Rightarrow> if ws_three a b c then 3 else 0 | [] \<Rightarrow> 0)
                | [] \<Rightarrow> 0)
      | [] \<Rightarrow> 0)"

lemma ws_head_Nil [simp]: "ws_head [] = 0" "ws_last [] = 0"
  by (simp_all add: ws_head_def ws_last_def)

function trim_start :: "string \<Rightarrow> string" where
  "trim_start s = (if ws_head s = 0 then s else trim_start (drop (ws_head s) s))"
  by pat_completeness auto
termination
proof (relation "measure length")
  fix s :: string
  assume "ws_head s \<noteq> 0"
  then show "(drop (ws_head s) s, s) \<in> measure length"
    by (cases s) auto
qed simp

function trim_reversed :: "string \<Rightarrow> string" where
  "trim_reversed s = (if ws_last s = 0 then s else trim_reversed (drop (ws_last s) s))"
  by pat_completeness auto
termination
proof (relation "measure length")
  fix s :: string
  assume "ws_last s \<noteq> 0"
  then show "(drop (ws_last s) s, s) \<in> measure length"
    by (cases s) auto
qed simp

declare trim_start.simps [simp del] trim_reversed.simps [simp del]

definition trim :: "string \<Rightarrow> string" where
  "trim s = rev (trim_reversed (rev (trim_start s)))"

fun has_ws :: "string \<Rightarrow> bool" where
  "has_ws [] = False"
| "has_ws (x # xs) = (ws_head (x # xs) \<noteq> 0 \<or> has_ws xs)"

lemma trim_start_plain: "ws_head s = 0 \<Longrightarrow> trim_start s = s"
  by (subst trim_start.simps) simp

lemma trim_reversed_plain: "ws_last s = 0 \<Longrightarrow> trim_reversed s = s"
  by (subst trim_reversed.simps) simp

lemma ws_head_pos_ws: "ws_head s \<noteq> 0 \<Longrightarrow> has_ws s"
  by (cases s) auto

text \<open>Text of exact-name bytes starts and ends with no white space, so trimming keeps it.\<close>

definition plain_byte :: "char \<Rightarrow> bool" where
  "plain_byte c \<longleftrightarrow> CHR ''!'' \<le> c \<and> c \<le> CHR ''~''"

lemma plain_byte_not_ws:
  "plain_byte c \<Longrightarrow> c \<notin> set ascii_ws"
  "plain_byte c \<Longrightarrow> c \<noteq> CHR 0xC2 \<and> c \<noteq> CHR 0x85 \<and> c \<noteq> CHR 0xA0"
  "plain_byte a \<Longrightarrow> \<not> ws_three a b c"
  "plain_byte c \<Longrightarrow> \<not> ws_three a b c"
  by (auto simp: plain_byte_def ascii_ws_def ws_three_def less_eq_char_def)

lemma plain_head: "plain_byte a \<Longrightarrow> ws_head (a # s) = 0"
  using plain_byte_not_ws [of a] by (auto simp: ws_head_def split: list.splits)

lemma plain_last: "plain_byte c \<Longrightarrow> ws_last (c # s) = 0"
  using plain_byte_not_ws [of c] by (auto simp: ws_last_def split: list.splits)

lemma trim_plain:
  assumes "list_all plain_byte s"
  shows "trim s = s"
proof -
  have "ws_head s = 0" using assms by (cases s) (auto simp: plain_head)
  moreover have "ws_last (rev s) = 0"
  proof (cases "rev s")
    case (Cons c r)
    then have "c \<in> set s" by (metis list.set_intros(1) set_rev)
    with assms Cons show ?thesis by (auto simp: list_all_iff plain_last)
  qed simp
  ultimately show ?thesis by (simp add: trim_def trim_start_plain trim_reversed_plain)
qed

section \<open>Cutting\<close>

fun drop_while_end :: "(char \<Rightarrow> bool) \<Rightarrow> string \<Rightarrow> string" where
  "drop_while_end p s = rev (dropWhile p (rev s))"

definition strip_cr :: "string \<Rightarrow> string" where
  "strip_cr s = (if s \<noteq> [] \<and> last s = CHR 0x0D then butlast s else s)"

definition lines :: "string \<Rightarrow> string list" where
  "lines s =
     (let ps = split_on (CHR 0x0A) s
      in map strip_cr (butlast ps) @ (if last ps = [] then [] else [last ps]))"

fun contains_text :: "string \<Rightarrow> string \<Rightarrow> bool" where
  "contains_text p [] = (p = [])"
| "contains_text p (x # xs) = (starts_with p (x # xs) \<or> contains_text p xs)"

definition ends_with :: "string \<Rightarrow> string \<Rightarrow> bool" where
  "ends_with p s \<longleftrightarrow> starts_with (rev p) (rev s)"

end
