(* ===== verification/Actions.thy ===== *)
theory Actions
  imports Json
begin

text \<open>
  The actions a capability may name and the kinds an access request may have:
  \<open>src/access/actions.rs\<close> and the \<open>Kind\<close> of \<open>src/access/request/file.rs\<close>.
\<close>

datatype action =
    Acquire | Read | Stage | Rotate | Verify | Revoke | Share | Trash | Purge | Admin | Sync
  | Enroll | Donate | Lifecycle | Reseal | Introspect | Call | Offer | Request

definition ALL_ACTIONS :: "action list" where
  "ALL_ACTIONS =
     [Acquire, Read, Stage, Rotate, Verify, Revoke, Share, Trash, Purge, Admin, Sync, Enroll,
      Donate, Lifecycle, Reseal, Introspect, Call, Offer, Request]"

fun action_str :: "action \<Rightarrow> string" where
  "action_str Acquire = ''acquire''"
| "action_str Read = ''read''"
| "action_str Stage = ''stage''"
| "action_str Rotate = ''rotate''"
| "action_str Verify = ''verify''"
| "action_str Revoke = ''revoke''"
| "action_str Share = ''share''"
| "action_str Trash = ''trash''"
| "action_str Purge = ''purge''"
| "action_str Admin = ''admin''"
| "action_str Sync = ''sync''"
| "action_str Enroll = ''enroll''"
| "action_str Donate = ''donate''"
| "action_str Lifecycle = ''lifecycle''"
| "action_str Reseal = ''reseal''"
| "action_str Introspect = ''introspect''"
| "action_str Call = ''call''"
| "action_str Offer = ''offer''"
| "action_str Request = ''request''"

definition action_parse :: "string \<Rightarrow> action option" where
  "action_parse name = find (\<lambda>a. action_str a = name) ALL_ACTIONS"

definition action_of :: "json \<Rightarrow> action option" where
  "action_of capability = Option.bind (get_str capability ''action'') action_parse"

definition action_names :: "string list" where
  "action_names = map action_str ALL_ACTIONS"

definition names_vault_item :: "action \<Rightarrow> bool" where
  "names_vault_item a \<longleftrightarrow> a \<notin> {Call, Sync, Enroll, Introspect, Offer, Request}"

definition needs_field :: "action \<Rightarrow> bool" where
  "needs_field a \<longleftrightarrow> a \<in> {Acquire, Stage, Rotate, Verify}"

definition forbids_field :: "action \<Rightarrow> bool" where
  "forbids_field a \<longleftrightarrow> a \<in> {Lifecycle, Reseal, Request}"

definition names_role :: "action \<Rightarrow> bool" where
  "names_role a \<longleftrightarrow> a \<in> {Acquire, Read, Stage}"

definition may_create :: "action \<Rightarrow> bool" where
  "may_create a \<longleftrightarrow> a \<in> {Acquire, Stage}"

definition needs_item :: "action \<Rightarrow> bool" where
  "needs_item a \<longleftrightarrow> a \<in> {Share, Trash, Purge, Admin, Reseal}"

definition reaches_service :: "action \<Rightarrow> bool" where
  "reaches_service a \<longleftrightarrow> a = Call"

definition files_request :: "action \<Rightarrow> bool" where
  "files_request a \<longleftrightarrow> a = Request"

definition legacy_action :: "action \<Rightarrow> bool" where
  "legacy_action a \<longleftrightarrow> a \<notin> {Lifecycle, Reseal, Introspect, Call, Offer, Request}"

definition per_field :: "action \<Rightarrow> bool" where
  "per_field a \<longleftrightarrow> needs_field a \<or> a = Read"

definition reads_context :: "action \<Rightarrow> bool" where
  "reads_context a \<longleftrightarrow> a = Read"

lemmas action_classes =
  names_vault_item_def needs_field_def forbids_field_def names_role_def may_create_def
  needs_item_def reaches_service_def files_request_def legacy_action_def per_field_def
  reads_context_def

text \<open>A capability's spelling is read back as the action it names, and nothing else is.\<close>

lemma action_str_inj: "action_str a = action_str b \<Longrightarrow> a = b"
  by (cases a; cases b) simp_all

lemma action_parse_str [simp]: "action_parse (action_str a) = Some a"
  by (cases a) (simp_all add: action_parse_def ALL_ACTIONS_def)

lemma action_parse_Some: "action_parse name = Some a \<longleftrightarrow> name = action_str a"
proof
  assume "action_parse name = Some a"
  then show "name = action_str a"
    by (auto simp: action_parse_def find_Some_iff)
qed simp

text \<open>Kinds of access request, and the names the wire gives them.\<close>

datatype request_kind = SecretKind | DeviceKind | MembershipKind

fun kind_name :: "request_kind \<Rightarrow> string" where
  "kind_name SecretKind = ''secret''"
| "kind_name DeviceKind = ''device''"
| "kind_name MembershipKind = ''membership''"

definition kind_named :: "string \<Rightarrow> request_kind option" where
  "kind_named word = find (\<lambda>k. kind_name k = word) [SecretKind, DeviceKind, MembershipKind]"

lemma kind_named_Some: "kind_named w = Some k \<longleftrightarrow> w = kind_name k"
  by (cases k) (auto simp: kind_named_def split: if_splits)

end
