(* ===== verification/Grants.thy ===== *)
theory Grants
  imports CredReads Text Actions
begin

text \<open>
  Reading consumer grants and parsing what they declare: \<open>src/access/grant/lookup.rs\<close> and
  \<open>src/access/grant/rules\<close>. A grant is the entry of a consumer in the vault's \<open>tokens\<close>
  section. What the host answers (the clock, the owner's files, minted bearers, the Ed25519
  key reader) is the record \<open>host_env\<close>.
\<close>

datatype (plugins only: code size) grant_error =
    VaultG vault_error
  | ManagedG cred_error
  | SchemaG schema_error
  | CapabilitiesMissing
  | CapabilityShape
  | UnsupportedAction string
  | NotExactNames
  | NeedsField string
  | ForbidsField string
  | RoleNotNamed string
  | DuplicateCapability string
  | RequestNamesField
  | RequestKindUnknown string
  | ContextForRead
  | MissingField string string
  | MissingItem string
  | KeyFile
  | KeyNotPem
  | KeyNotEd25519
  | TokenFile
  | TokenShape
  | CatalogFile
  | CatalogRow string
  | CatalogDuplicate string
  | CatalogConsumerTwice
  | CatalogEmpty
  | NotV2
  | ChangesCapabilities
  | MixedAcquire
  | LifecycleWithRead
  | AcquireNeedsKey
  | KeyWithoutAcquire
  | ExclusiveLifetime
  | AcquireNeedsTtl
  | BadTtl
  | NoTtl
  | ClockBroken
  | ExpiryOverflow
  | AcquireTokenFile
  | NoBearer
  | TokensMissing
  | JournalRefused
  | NoGrant string
  | GrantInactive
  | WrongBearer
  | NoHash string
  | NoExpiry string
  | AcquireKept string
  | SameTarget
  | NoAction
  | GrantPanic
  | UsageG string
  | MalformedGrant string

record file_view =
  regular :: bool
  owned :: bool
  shared :: bool
  content :: string

record host_env =
  venv :: env
  vault_file :: string
  clock :: "u64 option"
  files :: "string \<Rightarrow> file_view option"
  key_readable :: "string \<Rightarrow> bool"
  mint_token :: "grant_error + string"
  journal_refuses :: bool

section \<open>Names and files a grant may use\<close>

definition resource_byte :: "char \<Rightarrow> bool" where
  "resource_byte b \<longleftrightarrow> component_byte b \<or> b = CHR '':'' \<or> b = CHR ''/''"

definition exact_resource :: "string \<Rightarrow> bool" where
  "exact_resource value \<longleftrightarrow> value \<noteq> [] \<and> list_all resource_byte value"

definition exact_route :: "string \<Rightarrow> bool" where
  "exact_route value \<longleftrightarrow>
     value \<noteq> [] \<and> list_all exact_component (split_on (CHR ''/'') value)
     \<and> \<not> list_ex (\<lambda>c. c = ''..'') (split_on (CHR ''/'') value)"

definition read_workload_public_key :: "host_env \<Rightarrow> string \<Rightarrow> grant_error + string" where
  "read_workload_public_key G path =
     (case files G path of
        None \<Rightarrow> Inl KeyFile
      | Some f \<Rightarrow>
          if \<not> regular f \<or> \<not> owned f \<or> shared f then Inl KeyFile
          else if content f = [] \<or> \<not> contains_text ''-----BEGIN PUBLIC KEY-----'' (content f)
                  \<or> \<not> contains_text ''-----END PUBLIC KEY-----'' (content f)
          then Inl KeyNotPem
          else if \<not> key_readable G (content f) then Inl KeyNotEd25519
          else Inr (content f))"

definition read_fixed_token :: "host_env \<Rightarrow> string \<Rightarrow> grant_error + string" where
  "read_fixed_token G path =
     (case files G path of
        None \<Rightarrow> Inl TokenFile
      | Some f \<Rightarrow>
          if \<not> regular f \<or> \<not> owned f \<or> shared f then Inl TokenFile
          else let token = drop_while_end (\<lambda>c. c = CHR 0x0D \<or> c = CHR 0x0A) (content f)
               in if token = [] \<or> has_ws token then Inl TokenShape else Inr token)"

section \<open>Who holds what\<close>

definition active :: "u64 option \<Rightarrow> json \<Rightarrow> bool" where
  "active now entry =
     (case get_u64 entry ''expires_at'' of
        None \<Rightarrow> False
      | Some until \<Rightarrow> (case now of Some t \<Rightarrow> t < until | None \<Rightarrow> False))"

definition grant_of :: "vault \<Rightarrow> string \<Rightarrow> json option" where
  "grant_of v consumer = Option.bind (jget (doc v) ''tokens'') (\<lambda>t. jget t consumer)"

definition capabilities_for_hash :: "u64 option \<Rightarrow> vault \<Rightarrow> string \<Rightarrow> string \<Rightarrow> json list option" where
  "capabilities_for_hash now v consumer hash =
     Option.bind (grant_of v consumer) (\<lambda>entry.
       if \<not> active now entry \<or> get_str entry ''hash'' \<noteq> Some hash then None
       else get_array entry ''capabilities'')"

definition presented_hash :: "env \<Rightarrow> string \<Rightarrow> string" where
  "presented_hash E presented = digest E presented"

definition capabilities_for :: "env \<Rightarrow> u64 option \<Rightarrow> vault \<Rightarrow> string \<Rightarrow> string \<Rightarrow> json list option" where
  "capabilities_for E now v consumer presented =
     capabilities_for_hash now v consumer (presented_hash E presented)"

definition live_grants :: "u64 option \<Rightarrow> vault \<Rightarrow> (string \<times> json list) list" where
  "live_grants now v =
     (case get_object (doc v) ''tokens'' of
        None \<Rightarrow> []
      | Some tokens \<Rightarrow>
          List.map_filter (\<lambda>(consumer, entry). map_option (Pair consumer) (get_array entry ''capabilities''))
            (filter (\<lambda>(_, entry). active now entry) tokens))"

definition token_valid :: "env \<Rightarrow> u64 option \<Rightarrow> vault \<Rightarrow> string \<Rightarrow> string \<Rightarrow> bool" where
  "token_valid E now v consumer presented \<longleftrightarrow> capabilities_for E now v consumer presented \<noteq> None"

definition token_valid_hash :: "u64 option \<Rightarrow> vault \<Rightarrow> string \<Rightarrow> string \<Rightarrow> bool" where
  "token_valid_hash now v consumer hash \<longleftrightarrow> capabilities_for_hash now v consumer hash \<noteq> None"

definition capability_matches :: "json \<Rightarrow> string \<Rightarrow> string \<Rightarrow> string option \<Rightarrow> bool" where
  "capability_matches capability action item fld \<longleftrightarrow>
     get_str capability ''action'' = Some action
     \<and> get_str capability ''item'' = Some item
     \<and> get_str capability ''field'' = fld"

definition token_allows_field_action ::
  "env \<Rightarrow> u64 option \<Rightarrow> vault \<Rightarrow> string \<Rightarrow> string \<Rightarrow> string \<Rightarrow> string \<Rightarrow> string \<Rightarrow> bool" where
  "token_allows_field_action E now v consumer presented action item fld =
     (case capabilities_for E now v consumer presented of
        Some caps \<Rightarrow> list_ex (\<lambda>c. capability_matches c action item (Some fld)) caps
      | None \<Rightarrow> False)"

definition token_allows_action ::
  "env \<Rightarrow> u64 option \<Rightarrow> vault \<Rightarrow> string \<Rightarrow> string \<Rightarrow> string \<Rightarrow> string \<Rightarrow> bool" where
  "token_allows_action E now v consumer presented action item =
     (case capabilities_for E now v consumer presented of
        Some caps \<Rightarrow> list_ex (\<lambda>c. capability_matches c action item None) caps
      | None \<Rightarrow> False)"

definition token_allows_any_item_hash ::
  "u64 option \<Rightarrow> vault \<Rightarrow> string \<Rightarrow> string \<Rightarrow> string \<Rightarrow> string \<Rightarrow> bool" where
  "token_allows_any_item_hash now v consumer hash action item =
     (case capabilities_for_hash now v consumer hash of
        Some caps \<Rightarrow>
          list_ex (\<lambda>c. get_str c ''action'' = Some action \<and> get_str c ''item'' = Some item) caps
      | None \<Rightarrow> False)"

text \<open>What a bearer is, asked without being told whose it is: the first entry of its hash.\<close>

definition inactive_answer :: json where
  "inactive_answer = mk_obj [(''active'', JBool False)]"

definition introspect :: "env \<Rightarrow> u64 option \<Rightarrow> vault \<Rightarrow> string \<Rightarrow> grant_error + json" where
  "introspect E now v presented =
     (if presented = [] then Inr inactive_answer
      else case get_object (doc v) ''tokens'' of
        None \<Rightarrow> Inr inactive_answer
      | Some tokens \<Rightarrow>
          (case find (\<lambda>(_, entry). get_str entry ''hash'' = Some (presented_hash E presented)) tokens of
             None \<Rightarrow> Inr inactive_answer
           | Some (consumer, entry) \<Rightarrow>
               if \<not> active now entry then Inr inactive_answer
               else (case (jget entry ''audience'', get_array entry ''capabilities'') of
                       (Some audience, Some caps) \<Rightarrow>
                         Inr (mk_obj [(''active'', JBool True), (''consumer'', JStr consumer),
                                      (''audience'', audience), (''capabilities'', JArr caps),
                                      (''expires_at'', jindex entry ''expires_at'')])
                     | _ \<Rightarrow> Inl (MalformedGrant consumer))))"

end
