(* ===== verification/GrantRules.thy ===== *)
theory GrantRules
  imports Grants
begin

text \<open>
  What a grant may declare: \<open>parse_capabilities\<close>, the acquisition catalog and the
  redemption contract of \<open>src/access/grant/rules/capabilities.rs\<close>, and the names a live
  vault answers (\<open>rules/answered.rs\<close>).
\<close>

section \<open>Parsing capabilities\<close>

definition mk_capability :: "string \<Rightarrow> string \<Rightarrow> string option \<Rightarrow> json" where
  "mk_capability action item fld =
     mk_obj [(''action'', JStr action), (''item'', JStr item), (''field'', json_opt JStr fld)]"

definition split_target :: "string \<Rightarrow> string \<times> string option" where
  "split_target target =
     (case split_once (CHR ''#'') target of
        Some (item, fld) \<Rightarrow> (item, Some fld) | None \<Rightarrow> (target, None))"

text \<open>The shape of one capability: exact names, the field its action takes, a role only where
  the action resolves one.\<close>

definition field_shape :: "action \<Rightarrow> string option \<Rightarrow> bool" where
  "field_shape a fld =
     (case fld of None \<Rightarrow> True
      | Some f \<Rightarrow> if reaches_service a then exact_route f else exact_component f)"

definition check_shape :: "action \<Rightarrow> string \<Rightarrow> string option \<Rightarrow> grant_error + unit" where
  "check_shape a item fld =
     (if \<not> exact_resource item \<or> \<not> field_shape a fld then Inl NotExactNames
      else if needs_field a \<and> fld = None then Inl (NeedsField (action_str a))
      else if forbids_field a \<and> fld \<noteq> None then Inl (ForbidsField (action_str a))
      else if starts_with ''role:'' item \<and> \<not> names_role a then Inl (RoleNotNamed (action_str a))
      else Inr ())"

text \<open>What must exist in the vault for a capability this mint introduces.\<close>

definition check_target :: "env \<Rightarrow> vault \<Rightarrow> action \<Rightarrow> string \<Rightarrow> string option \<Rightarrow> grant_error + unit"
  where
  "check_target E v a item fld =
     (case fld of
        Some f \<Rightarrow>
          if (case get_object (doc v) ''items'' of Some items \<Rightarrow> map_of items item \<noteq> None | None \<Rightarrow> False)
          then bindR (map_err VaultG (get_item E v item)) (\<lambda>p.
                 if isl (field p f) \<and> \<not> (may_create a \<and> allows_field p f)
                 then Inl (MissingField item f) else Inr ())
          else if \<not> may_create a then Inl (MissingItem item) else Inr ()
      | None \<Rightarrow>
          if needs_item a then bindR (ok_or (MissingItem item) (item_entry v item)) (\<lambda>_. Inr ())
          else Inr ())"

definition parse_one ::
  "env \<Rightarrow> vault \<Rightarrow> json list \<Rightarrow> json list \<Rightarrow> string \<Rightarrow> grant_error + json" where
  "parse_one E v preserved acc encoded =
     bindR (ok_or CapabilityShape (split_once (CHR '':'') encoded)) (\<lambda>(action_name, target).
     bindR (ok_or (UnsupportedAction action_name) (action_parse action_name)) (\<lambda>a.
       let (item, fld) = split_target target;
           capability = mk_capability action_name item fld;
           is_preserved = capability \<in> set preserved
       in bindR (check_shape a item fld) (\<lambda>_.
          if capability \<in> set acc then Inl (DuplicateCapability encoded)
          else if reaches_service a then Inr capability
          else if files_request a then
            (if fld \<noteq> None then Inl RequestNamesField
             else bindR (ok_or (RequestKindUnknown item) (kind_named item)) (\<lambda>_. Inr capability))
          else if \<not> is_preserved \<and> fld = Some ''context'' \<and> \<not> reads_context a then Inl ContextForRead
          else if \<not> is_preserved \<and> \<not> starts_with ''role:'' item
            then bindR (check_target E v a item fld) (\<lambda>_. Inr capability)
          else Inr capability)))"

fun parse_each ::
  "env \<Rightarrow> vault \<Rightarrow> json list \<Rightarrow> json list \<Rightarrow> string list \<Rightarrow> grant_error + json list" where
  "parse_each E v preserved acc [] = Inr acc"
| "parse_each E v preserved acc (e # es) =
     bindR (parse_one E v preserved acc e) (\<lambda>c. parse_each E v preserved (acc @ [c]) es)"

definition parse_capabilities ::
  "env \<Rightarrow> vault \<Rightarrow> string \<Rightarrow> json list \<Rightarrow> grant_error + json list" where
  "parse_capabilities E v raw preserved =
     (if trim raw = [] then Inl CapabilitiesMissing
      else parse_each E v preserved [] (split_on (CHR '','') raw))"

section \<open>The acquisition catalog\<close>

definition exact_coordinate :: "string \<Rightarrow> bool" where
  "exact_coordinate value =
     (case strip_prefix ''role:'' value of
        Some role \<Rightarrow> exact_component role | None \<Rightarrow> exact_component value)"

definition catalog_row :: "string \<Rightarrow> grant_error + string \<times> string \<times> string" where
  "catalog_row line =
     (case split_on (CHR ''|'') line of
        [consumer, item, fld] \<Rightarrow>
          if exact_component consumer \<and> exact_coordinate item \<and> exact_component fld
          then Inr (consumer, item, fld) else Inl (CatalogRow line)
      | _ \<Rightarrow> Inl (CatalogRow line))"

definition catalog_step ::
  "(string \<times> string \<times> string) list \<Rightarrow> string \<Rightarrow> grant_error + (string \<times> string \<times> string) list" where
  "catalog_step rows raw =
     (let line = trim raw
      in if line = [] \<or> starts_with ''#'' line then Inr rows
         else bindR (catalog_row line) (\<lambda>row.
           if row \<in> set rows then Inl (CatalogDuplicate line)
           else if list_ex (\<lambda>r. fst r = fst row) rows then Inl CatalogConsumerTwice
           else Inr (rows @ [row])))"

definition read_acquisition_catalog ::
  "host_env \<Rightarrow> string \<Rightarrow> grant_error + (string \<times> string \<times> string) list" where
  "read_acquisition_catalog G path =
     (if \<not> starts_with ''/'' path then Inl CatalogFile
      else case files G path of
        None \<Rightarrow> Inl CatalogFile
      | Some f \<Rightarrow>
          if \<not> regular f \<or> \<not> owned f then Inl CatalogFile
          else bindR (foldR catalog_step [] (lines (content f))) (\<lambda>rows.
            if rows = [] then Inl CatalogEmpty else Inr rows))"

section \<open>Acquire grants\<close>

record acquisition_grant =
  ag_public_key :: string
  ag_expires_at :: u64

definition acquisition_grant ::
  "u64 option \<Rightarrow> vault \<Rightarrow> string \<Rightarrow> string \<Rightarrow> string \<Rightarrow> acquisition_grant option" where
  "acquisition_grant now v consumer item fld =
     Option.bind (grant_of v consumer) (\<lambda>entry.
       if \<not> active now entry then None
       else if \<not> (case get_array entry ''capabilities'' of
                     Some caps \<Rightarrow>
                       list_ex (\<lambda>c. capability_matches c (action_str Acquire) item (Some fld)) caps
                   | None \<Rightarrow> False) then None
       else Option.bind (get_str entry ''workload_public_key'') (\<lambda>key.
            Option.bind (get_u64 entry ''expires_at'') (\<lambda>until.
              Some \<lparr>ag_public_key = key, ag_expires_at = until\<rparr>)))"

definition redemption_text :: "string \<Rightarrow> string \<Rightarrow> string \<Rightarrow> string" where
  "redemption_text consumer item fld =
     ''sign an acquisition proof, then run: skarbiec acquisition request '' @ consumer @ '' '' @ item
     @ '' '' @ fld @ '' --workload-id ID --workload-timestamp EPOCH --workload-nonce NONCE ''
     @ ''--workload-signature HEX; consume its token once with acquisition read''"

definition redemption_row :: "string \<Rightarrow> json \<Rightarrow> json option" where
  "redemption_row consumer capability =
     (case (get_str capability ''item'', get_str capability ''field'') of
        (Some item, Some fld) \<Rightarrow>
          Some (mk_obj [(''item'', JStr item), (''field'', JStr fld),
                        (''how'', JStr (redemption_text consumer item fld))])
      | _ \<Rightarrow> None)"

definition redemption_contract :: "string \<Rightarrow> json list \<Rightarrow> json list" where
  "redemption_contract consumer caps =
     List.map_filter (redemption_row consumer) (filter (\<lambda>c. action_of c = Some Acquire) caps)"

section \<open>Names nothing live answers\<close>

definition role_names :: "string list \<Rightarrow> string list" where
  "role_names tags =
     List.map_filter (\<lambda>t. map_option (\<lambda>r. ''role:'' @ r) (strip_prefix ''stado:role:'' t)) tags"

definition answer_step :: "vault \<Rightarrow> string set \<Rightarrow> json \<Rightarrow> grant_error + string set" where
  "answer_step v names entry =
     (case get_str entry ''id'' of
        None \<Rightarrow> Inr names
      | Some ident \<Rightarrow>
          (case item_entry v ident of
             None \<Rightarrow> Inr (insert ident names)
           | Some held \<Rightarrow>
               bindR (map_err VaultG (entry_texts ident held ''tags'')) (\<lambda>tags.
                 Inr (insert ident names \<union> set (role_names tags)))))"

definition answerable :: "vault \<Rightarrow> grant_error + string set" where
  "answerable v = foldR (answer_step v) {} (list_items v False)"

definition unanswered :: "string set \<Rightarrow> json \<Rightarrow> string list" where
  "unanswered names grant =
     filter (\<lambda>n. n \<notin> names)
       (sort (remdups (List.map_filter (\<lambda>c. get_str c ''item'')
         (case get_array grant ''capabilities'' of Some caps \<Rightarrow> caps | None \<Rightarrow> []))))"

end
