(* ===== verification/Migrate.thy ===== *)
theory Migrate
  imports GrantRules
begin

text \<open>
  Reading a v2 vault back: \<open>validate_v2\<close> of \<open>src/core/migrate/validate.rs\<close>, which every item,
  every saved revision and every grant must pass before a migration is called done.
\<close>

datatype (plugins only: code size) invalid =
    NotObject string
  | NotV2Envelope string
  | ItemNoKind
  | NoCurrentRevision
  | CurrentKindDiffers string
  | CurrentUnreadable vault_error
  | PayloadInvalid schema_error
  | ManagementMissing
  | ManagementMode string
  | ManagementController
  | NotLifecycleManaged string
  | RevisionUnnumbered
  | RevisionZero string
  | RevisionsNotIncreasing string
  | RevisionNoKind
  | EnvelopeRevision string
  | LegacyScopes string
  | GrantNoCapabilities
  | AcquireNoKey string
  | UnsupportedCapability string
  | MixedGrant string
  | CapabilityNoAction
  | CapabilityNoItem
  | NonExactResource string
  | FieldActionNoField string
  | NamesMissingField string
  | NoCanonicalContract string
  | MutatesContext string
  | NamesMissingItem string

definition revision_payload :: "env \<Rightarrow> json \<Rightarrow> invalid + json" where
  "revision_payload E revision =
     bindR (ok_or (CurrentUnreadable NoCiphertext) (get_str revision ''ciphertext'')) (\<lambda>cipher.
       map_err CurrentUnreadable (decrypt E cipher))"

definition valid_payload :: "env \<Rightarrow> json \<Rightarrow> string \<Rightarrow> invalid + unit" where
  "valid_payload E revision kind =
     bindR (revision_payload E revision) (\<lambda>p. map_err PayloadInvalid (validate_payload p kind))"

definition credential_record_kind :: "string \<Rightarrow> bool" where
  "credential_record_kind kind \<longleftrightarrow> kind = ''credential-operation'' \<or> kind = ''credential-directory-seal''"

definition validate_management :: "string \<Rightarrow> string \<Rightarrow> json \<Rightarrow> invalid + unit" where
  "validate_management ident kind item =
     bindR (ok_or ManagementMissing (get_object item ''management'')) (\<lambda>management.
     bindR (ok_or ManagementMissing (get_str (JObj management) ''mode'')) (\<lambda>mode.
     bindR (ensureR (mode_parse mode \<noteq> None) (ManagementMode ident)) (\<lambda>_.
     bindR (case get_str (JObj management) ''controller'' of
              Some c \<Rightarrow> if c \<noteq> [] then Inr c else Inl ManagementController
            | None \<Rightarrow> Inl ManagementController) (\<lambda>controller.
       ensureR (\<not> (credential_record_kind kind
                   \<and> (mode \<noteq> mode_str ModeManaged \<or> controller \<noteq> ''skarbiec-credential-lifecycle'')))
         (NotLifecycleManaged ident)))))"

text \<open>The revisions in order, each numbered above the one before; \<open>previous\<close> is the last seen.\<close>

fun validate_revisions ::
  "env \<Rightarrow> string \<Rightarrow> u64 option \<Rightarrow> json list \<Rightarrow> invalid + u64 option" where
  "validate_revisions E ident previous [] = Inr previous"
| "validate_revisions E ident previous (r # rs) =
     bindR (ok_or RevisionUnnumbered (get_u64 r ''revision'')) (\<lambda>number.
     bindR (ensureR (number \<noteq> 0) (RevisionZero ident)) (\<lambda>_.
     bindR (ensureR (case previous of Some p \<Rightarrow> p < number | None \<Rightarrow> True)
              (RevisionsNotIncreasing ident)) (\<lambda>_.
     bindR (ok_or RevisionNoKind (get_str r ''kind'')) (\<lambda>kind.
     bindR (valid_payload E r kind) (\<lambda>_.
       validate_revisions E ident (Some number) rs)))))"

definition item_history :: "json \<Rightarrow> json list" where
  "item_history item = (case get_array item ''history'' of Some hs \<Rightarrow> hs | None \<Rightarrow> [])"

definition validate_item :: "env \<Rightarrow> string \<Rightarrow> json \<Rightarrow> invalid + unit" where
  "validate_item E ident item =
     (if get_u64 item ''format'' \<noteq> Some current_envelope then Inl (NotV2Envelope ident)
      else bindR (ok_or ItemNoKind (get_str item ''kind'')) (\<lambda>kind.
           bindR (ok_or NoCurrentRevision (get_object item ''current'')) (\<lambda>current.
           bindR (ensureR (get_str (JObj current) ''kind'' = Some kind) (CurrentKindDiffers ident)) (\<lambda>_.
           bindR (valid_payload E (JObj current) kind) (\<lambda>_.
           bindR (validate_management ident kind item) (\<lambda>_.
           bindR (validate_revisions E ident None (item_history item @ [JObj current])) (\<lambda>lastrev.
             ensureR (get_u64 item ''revision'' = lastrev) (EnvelopeRevision ident))))))))"

definition future_contract_field :: "string \<Rightarrow> string option \<Rightarrow> string option" where
  "future_contract_field item requested =
     (if starts_with ''weles-microsoft-'' item \<and> ends_with ''-password'' item
         \<and> (case requested of None \<Rightarrow> True
            | Some f \<Rightarrow> f \<in> {''password'', ''login_password'', ''login-password''})
      then Some ''password'' else None)"

definition validate_capability ::
  "env \<Rightarrow> obj \<Rightarrow> string \<Rightarrow> json \<Rightarrow> invalid + unit" where
  "validate_capability E items consumer capability =
     bindR (ok_or CapabilityNoAction (get_str capability ''action'')) (\<lambda>name.
     bindR (ok_or (UnsupportedCapability consumer) (action_parse name)) (\<lambda>a.
     bindR (ok_or CapabilityNoItem (get_str capability ''item'')) (\<lambda>item.
       if \<not> exact_resource item \<or> CHR ''*'' \<in> set item \<or> CHR ''?'' \<in> set item
       then Inl (NonExactResource consumer)
       else if needs_field a \<and> get_str capability ''field'' = None then Inl (FieldActionNoField consumer)
       else case (if reaches_service a then None else get_str capability ''field'') of
         Some f \<Rightarrow>
           bindR (case Option.bind (map_of items item) (\<lambda>e. jget e ''current'') of
                    Some current \<Rightarrow>
                      bindR (revision_payload E current) (\<lambda>p.
                        ensureR (\<not> isl (field p f)) (NamesMissingField consumer))
                  | None \<Rightarrow>
                      ensureR (future_contract_field item (Some f) = Some f) (NoCanonicalContract consumer))
             (\<lambda>_. ensureR (f \<noteq> ''context'' \<or> reads_context a) (MutatesContext consumer))
       | None \<Rightarrow> ensureR (\<not> (needs_item a \<and> map_of items item = None)) (NamesMissingItem consumer))))"

definition validate_grant :: "env \<Rightarrow> obj \<Rightarrow> string \<times> json \<Rightarrow> invalid + unit" where
  "validate_grant E items e =
     (case e of (consumer, entry) \<Rightarrow>
        if jget entry ''scopes'' \<noteq> None \<or> jget entry ''acquisition_scopes'' \<noteq> None
        then Inl (LegacyScopes consumer)
        else bindR (ok_or GrantNoCapabilities (get_array entry ''capabilities'')) (\<lambda>caps.
          let acquire = (\<lambda>c. action_of c = Some Acquire) in
          if list_ex acquire caps \<and> get_str entry ''workload_public_key'' = None
          then Inl (AcquireNoKey consumer)
          else if list_ex (\<lambda>c. case get_str c ''action'' of
                                  Some n \<Rightarrow> action_parse n = None | None \<Rightarrow> False) caps
          then Inl (UnsupportedCapability consumer)
          else if list_ex acquire caps \<and> \<not> list_all acquire caps then Inl (MixedGrant consumer)
          else bindR (mapR (validate_capability E items consumer) caps) (\<lambda>_. Inr ())))"

definition validate_v2 :: "env \<Rightarrow> vault \<Rightarrow> invalid + unit" where
  "validate_v2 E v =
     bindR (ok_or (NotObject ''items'') (get_object (doc v) ''items'')) (\<lambda>items.
     bindR (mapR (\<lambda>(ident, item). validate_item E ident item) items) (\<lambda>_.
     bindR (ok_or (NotObject ''tokens'') (get_object (doc v) ''tokens'')) (\<lambda>tokens.
     bindR (mapR (validate_grant E items) tokens) (\<lambda>_. Inr ()))))"

lemma mapR_Inr_all: "mapR f xs = Inr ys \<Longrightarrow> x \<in> set xs \<Longrightarrow> \<exists>y. f x = Inr y"
  by (induction xs arbitrary: ys) (auto simp: result_simps)

lemma validate_v2_grants:
  assumes "validate_v2 E v = Inr ()" and "get_object (doc v) ''tokens'' = Some tokens"
    and "(consumer, entry) \<in> set tokens" and "get_array entry ''capabilities'' = Some caps" and "c \<in> set caps"
  shows "\<exists>items. get_object (doc v) ''items'' = Some items
           \<and> validate_capability E items consumer c = Inr ()"
proof -
  from assms(1,2) obtain items ys where i: "get_object (doc v) ''items'' = Some items"
    and m: "mapR (validate_grant E items) tokens = Inr ys"
    by (auto simp: validate_v2_def result_simps simp del: get_Some)
  obtain u where "validate_grant E items (consumer, entry) = Inr u"
    using mapR_Inr_all [OF m assms(3)] by auto
  with assms(4) obtain zs where "mapR (validate_capability E items consumer) caps = Inr zs"
    by (auto simp: validate_grant_def result_simps Let_def simp del: get_Some split: if_splits)
  with i assms(5) mapR_Inr_all show ?thesis by fastforce
qed

lemma validate_v2_items:
  assumes "validate_v2 E v = Inr ()" and "item_entry v ident = Some item"
  shows "validate_item E ident item = Inr ()"
proof -
  from assms(1) obtain items ys where i: "get_object (doc v) ''items'' = Some items"
    and m: "mapR (\<lambda>(ident, item). validate_item E ident item) items = Inr ys"
    by (auto simp: validate_v2_def result_simps simp del: get_Some)
  have "(ident, item) \<in> set items"
    using assms(2) i by (auto simp: item_entry_def map_of_SomeD)
  from mapR_Inr_all [OF m this] show ?thesis by auto
qed

end
