(* ===== verification/GrantOps.thy ===== *)
theory GrantOps
  imports GrantRules
begin

text \<open>
  Writing grants: \<open>src/access/grant/issue.rs\<close>, \<open>change/*.rs\<close> and \<open>register_catalog\<close> of
  \<open>mod.rs\<close>. Every operation opens the vault of the host, changes the \<open>tokens\<close> section,
  saves and journals; it returns its answer and the host it leaves. An operation that loses a
  race is one whose save answers \<^const>\<open>ChangedConcurrently\<close>; the command retries it.
\<close>

definition UNTIL_REVOKED :: u64 where
  "UNTIL_REVOKED = - 1"

type_synonym flags = "(string \<times> string) list"

definition flag_set :: "flags \<Rightarrow> string \<Rightarrow> bool" where
  "flag_set fl name \<longleftrightarrow> map_of fl name = Some ''true''"

text \<open>The save and the journal line that end a write; the answer is given when both succeed.\<close>

definition saved ::
  "host_env \<Rightarrow> vault \<Rightarrow> host \<Rightarrow> json \<Rightarrow> (grant_error + json) \<times> host" where
  "saved G v h answer =
     (case save v h of
        (Inl e, _, h') \<Rightarrow> (Inl (VaultG e), h')
      | (Inr _, _, h') \<Rightarrow> (if journal_refuses G then (Inl JournalRefused, h') else (Inr answer, h')))"

definition with_vault ::
  "host \<Rightarrow> (vault \<Rightarrow> (grant_error + json) \<times> host) \<Rightarrow> (grant_error + json) \<times> host" where
  "with_vault h f = (case open_vault h of Inl e \<Rightarrow> (Inl (VaultG e), h) | Inr v \<Rightarrow> f v)"

definition answerR ::
  "host \<Rightarrow> grant_error + 'a \<Rightarrow> ('a \<Rightarrow> (grant_error + json) \<times> host) \<Rightarrow> (grant_error + json) \<times> host"
  where
  "answerR h r f = (case r of Inl e \<Rightarrow> (Inl e, h) | Inr a \<Rightarrow> f a)"

definition put_grant :: "string \<Rightarrow> json \<Rightarrow> vault \<Rightarrow> grant_error + vault" where
  "put_grant consumer entry v =
     bindR (ok_or TokensMissing (get_object (doc v) ''tokens'')) (\<lambda>tokens.
       Inr (put_section ''tokens'' (map_insert consumer entry tokens) v))"

definition mk_grant :: "string option \<Rightarrow> json list \<Rightarrow> string option \<Rightarrow> string \<Rightarrow> u64 \<Rightarrow> json" where
  "mk_grant hash caps key audience until =
     mk_obj [(''hash'', json_opt JStr hash), (''capabilities'', JArr caps),
             (''workload_public_key'', json_opt JStr key), (''audience'', JStr audience),
             (''expires_at'', JUInt until)]"

section \<open>Issuing\<close>

definition existing_capabilities :: "vault \<Rightarrow> string \<Rightarrow> grant_error + json list option" where
  "existing_capabilities v consumer =
     (case Option.bind (get_object (doc v) ''tokens'') (\<lambda>t. map_of t consumer) of
        None \<Rightarrow> Inr None
      | Some existing \<Rightarrow>
          bindR (ok_or NotV2 (get_array existing ''capabilities'')) (\<lambda>caps. Inr (Some caps)))"

definition check_unchanged :: "flags \<Rightarrow> json list option \<Rightarrow> json list \<Rightarrow> grant_error + unit" where
  "check_unchanged fl existing caps =
     (case existing of
        None \<Rightarrow> Inr ()
      | Some old \<Rightarrow>
          ensureR (length old = length caps \<and> list_all (\<lambda>c. c \<in> set caps) old
                   \<or> flag_set fl ''replace-capabilities'') ChangesCapabilities)"

definition is_acquire :: "json \<Rightarrow> bool" where
  "is_acquire c \<longleftrightarrow> action_of c = Some Acquire"

definition has_action :: "string \<Rightarrow> json list \<Rightarrow> bool" where
  "has_action name caps = list_ex (\<lambda>c. get_str c ''action'' = Some name) caps"

definition check_mix :: "json list \<Rightarrow> grant_error + unit" where
  "check_mix caps =
     (if list_ex is_acquire caps \<and> \<not> list_all is_acquire caps then Inl MixedAcquire
      else if has_action ''lifecycle'' caps \<and> has_action ''read'' caps then Inl LifecycleWithRead
      else Inr ())"

definition workload_key :: "host_env \<Rightarrow> flags \<Rightarrow> bool \<Rightarrow> grant_error + string option" where
  "workload_key G fl has_acquire =
     (case map_of fl ''workload-public-key-file'' of
        Some path \<Rightarrow>
          bindR (read_workload_public_key G path) (\<lambda>k.
            if has_acquire then Inr (Some k) else Inl KeyWithoutAcquire)
      | None \<Rightarrow> if has_acquire then Inl AcquireNeedsKey else Inr None)"

definition expiry_after :: "host_env \<Rightarrow> u64 \<Rightarrow> grant_error + u64" where
  "expiry_after G ttl =
     bindR (ok_or ClockBroken (clock G)) (\<lambda>now. ok_or ExpiryOverflow (checked_add now ttl))"

definition grant_expiry :: "host_env \<Rightarrow> flags \<Rightarrow> bool \<Rightarrow> grant_error + u64" where
  "grant_expiry G fl has_acquire =
     (case (map_of fl ''ttl-seconds'', flag_set fl ''until-revoked'') of
        (Some _, True) \<Rightarrow> Inl ExclusiveLifetime
      | (None, True) \<Rightarrow> if has_acquire then Inl AcquireNeedsTtl else Inr UNTIL_REVOKED
      | (Some ttl, False) \<Rightarrow>
          bindR (ok_or BadTtl (parse_nonzero_u64 ttl)) (expiry_after G)
      | (None, False) \<Rightarrow> Inl NoTtl)"

text \<open>The bearer: the one the owner supplies, a fresh one, or none for an acquire grant.\<close>

definition bearer_for :: "host_env \<Rightarrow> flags \<Rightarrow> bool \<Rightarrow> grant_error + string option \<times> string option" where
  "bearer_for G fl has_acquire =
     bindR (case map_of fl ''token-file'' of
              Some path \<Rightarrow> bindR (read_fixed_token G path) (\<lambda>t. Inr (Some t)) | None \<Rightarrow> Inr None)
       (\<lambda>supplied.
        if has_acquire \<and> supplied \<noteq> None then Inl AcquireTokenFile
        else if has_acquire \<or> supplied \<noteq> None then Inr (supplied, None)
        else bindR (mint_token G) (\<lambda>t. Inr (Some t, Some t)))"

definition issue_answer ::
  "string \<Rightarrow> json list \<Rightarrow> string option \<Rightarrow> string \<Rightarrow> u64 \<Rightarrow> bool \<Rightarrow> string option \<Rightarrow> json" where
  "issue_answer consumer caps key audience until until_revoked generated =
     mk_obj ([(''ok'', JBool True), (''consumer'', JStr consumer), (''capabilities'', JArr caps),
              (''workload_bound'', JBool (key \<noteq> None)), (''audience'', JStr audience),
              (''expires_at'', JUInt until), (''until_revoked'', JBool until_revoked),
              (''token'', json_opt JStr generated)]
             @ (case redemption_contract consumer caps of
                  [] \<Rightarrow> [] | rows \<Rightarrow> [(''redeem'', JArr rows)]))"

definition issue_once ::
  "host_env \<Rightarrow> string \<Rightarrow> flags \<Rightarrow> host \<Rightarrow> (grant_error + json) \<times> host" where
  "issue_once G consumer fl h =
     with_vault h (\<lambda>v.
     answerR h (existing_capabilities v consumer) (\<lambda>existing.
     answerR h (ok_or CapabilitiesMissing (map_of fl ''capabilities'')) (\<lambda>raw.
     answerR h (parse_capabilities (venv G) v raw
                  (case existing of Some cs \<Rightarrow> cs | None \<Rightarrow> [])) (\<lambda>caps.
     answerR h (check_unchanged fl existing caps) (\<lambda>_.
     answerR h (check_mix caps) (\<lambda>_.
       let has_acquire = list_ex is_acquire caps
       in answerR h (workload_key G fl has_acquire) (\<lambda>key.
          answerR h (grant_expiry G fl has_acquire) (\<lambda>until.
          answerR h (bearer_for G fl has_acquire) (\<lambda>(stored, generated).
            let audience = (case map_of fl ''audience'' of Some a \<Rightarrow> a | None \<Rightarrow> consumer);
                hash = map_option (presented_hash (venv G)) stored
            in answerR h (put_grant consumer (mk_grant hash caps key audience until) v) (\<lambda>v'.
                 saved G v' h (issue_answer consumer caps key audience until
                                 (flag_set fl ''until-revoked'') generated)))))))))))"

section \<open>Widening and narrowing by one exact read\<close>

definition read_spelling :: "string \<Rightarrow> string \<Rightarrow> string" where
  "read_spelling item fld = ''read:'' @ item @ ''#'' @ fld"

definition one_read :: "env \<Rightarrow> vault \<Rightarrow> string \<Rightarrow> string \<Rightarrow> grant_error + json" where
  "one_read E v item fld =
     bindR (parse_capabilities E v (read_spelling item fld) []) (\<lambda>caps.
       if caps = [] then Inl CapabilitiesMissing else Inr (last caps))"

definition exact_names3 :: "string \<Rightarrow> string \<Rightarrow> string \<Rightarrow> grant_error + unit" where
  "exact_names3 consumer item fld =
     ensureR (exact_component consumer \<and> exact_resource item \<and> exact_component fld) NotExactNames"

definition with_capabilities :: "json \<Rightarrow> json list \<Rightarrow> json" where
  "with_capabilities entry caps =
     (case entry of JObj m \<Rightarrow> JObj (map_insert ''capabilities'' (JArr caps) m) | _ \<Rightarrow> entry)"

definition held_capabilities :: "json \<Rightarrow> grant_error + json list" where
  "held_capabilities entry = ok_or NotV2 (get_array entry ''capabilities'')"

text \<open>What \<open>/v1/items/read\<close> would answer: the bearer's capability, and the lifecycle's view.\<close>

definition read_refusal ::
  "host_env \<Rightarrow> vault \<Rightarrow> string \<Rightarrow> string \<Rightarrow> string \<Rightarrow> string \<Rightarrow> grant_error + string option" where
  "read_refusal G v consumer bearer item fld =
     (if \<not> token_allows_field_action (venv G) (clock G) v consumer bearer (action_str Read) item fld
      then Inr (Some ''consumer not authorized to read item field'')
      else if fld \<noteq> ''context'' then
        bindR (map_err ManagedG (managed_read (venv G) v item fld consumer)) (\<lambda>seen.
          Inr (if seen = RefusedRead then Some ''this revision is not readable by this consumer'' else None))
      else Inr None)"

definition ensure_answer ::
  "host_env \<Rightarrow> string \<Rightarrow> string \<Rightarrow> string \<Rightarrow> string \<Rightarrow> json \<Rightarrow> string \<Rightarrow> host \<Rightarrow>
   (grant_error + json) \<times> host" where
  "ensure_answer G consumer bearer item fld capability status h =
     with_vault h (\<lambda>v.
     answerR h (read_refusal G v consumer bearer item fld) (\<lambda>refusal.
       (Inr (mk_obj ([(''ok'', JBool (refusal = None)), (''consumer'', JStr consumer),
                      (''capability'', capability), (''status'', JStr status),
                      (''effective'', JBool (refusal = None)),
                      (''decided_against_vault'', JStr (vault_file G))]
                     @ (case refusal of Some r \<Rightarrow> [(''refusal'', JStr r)] | None \<Rightarrow> []))), h)))"

definition ensure_read_once ::
  "host_env \<Rightarrow> string \<Rightarrow> string \<Rightarrow> string \<Rightarrow> string \<Rightarrow> host \<Rightarrow> (grant_error + json) \<times> host" where
  "ensure_read_once G consumer item fld token_file h =
     answerR h (exact_names3 consumer item fld) (\<lambda>_.
     with_vault h (\<lambda>v.
     answerR h (one_read (venv G) v item fld) (\<lambda>capability.
     answerR h (read_fixed_token G token_file) (\<lambda>bearer.
     answerR h (ok_or (NoGrant consumer)
                  (Option.bind (get_object (doc v) ''tokens'') (\<lambda>t. map_of t consumer))) (\<lambda>existing.
       if \<not> active (clock G) existing then (Inl GrantInactive, h)
       else if get_str existing ''hash'' \<noteq> Some (presented_hash (venv G) bearer) then (Inl WrongBearer, h)
       else answerR h (held_capabilities existing) (\<lambda>held.
         if capability \<in> set held then ensure_answer G consumer bearer item fld capability ''unchanged'' h
         else answerR h (put_grant consumer (with_capabilities existing (held @ [capability])) v) (\<lambda>v'.
           case saved G v' h JNull of
             (Inl e, h') \<Rightarrow> (Inl e, h')
           | (Inr _, h') \<Rightarrow> ensure_answer G consumer bearer item fld capability ''added'' h')))))))"

definition narrow_answer :: "host_env \<Rightarrow> string \<Rightarrow> json \<Rightarrow> string \<Rightarrow> json" where
  "narrow_answer G consumer capability status =
     mk_obj [(''ok'', JBool True), (''consumer'', JStr consumer), (''capability'', capability),
             (''status'', JStr status), (''decided_against_vault'', JStr (vault_file G))]"

definition narrow_read_once ::
  "host_env \<Rightarrow> string \<Rightarrow> string \<Rightarrow> string \<Rightarrow> host \<Rightarrow> (grant_error + json) \<times> host" where
  "narrow_read_once G consumer item fld h =
     answerR h (exact_names3 consumer item fld) (\<lambda>_.
     with_vault h (\<lambda>v.
     answerR h (one_read (venv G) v item fld) (\<lambda>capability.
     answerR h (ok_or (NoGrant consumer)
                  (Option.bind (get_object (doc v) ''tokens'') (\<lambda>t. map_of t consumer))) (\<lambda>existing.
     answerR h (held_capabilities existing) (\<lambda>held.
       let kept = filter (\<lambda>c. c \<noteq> capability) held
       in if length kept = length held then (Inr (narrow_answer G consumer capability ''absent''), h)
          else answerR h (put_grant consumer (with_capabilities existing kept) v) (\<lambda>v'.
                 saved G v' h (narrow_answer G consumer capability ''removed'')))))))"

section \<open>Keeping and retargeting\<close>

definition keep_once :: "host_env \<Rightarrow> string \<Rightarrow> host \<Rightarrow> (grant_error + json) \<times> host" where
  "keep_once G consumer h =
     answerR h (ensureR (exact_component consumer) NotExactNames) (\<lambda>_.
     with_vault h (\<lambda>v.
     answerR h (ok_or (NoGrant consumer)
                  (Option.bind (get_object (doc v) ''tokens'') (\<lambda>t. map_of t consumer))) (\<lambda>grant.
     answerR h (held_capabilities grant) (\<lambda>held.
       if list_ex is_acquire held then (Inl (AcquireKept consumer), h)
       else if get_str grant ''hash'' = None then (Inl (NoHash consumer), h)
       else answerR h (ok_or (NoExpiry consumer) (jget grant ''expires_at'')) (\<lambda>previous.
         if as_u64 previous = Some UNTIL_REVOKED then
           (Inr (mk_obj [(''ok'', JBool True), (''consumer'', JStr consumer),
                         (''status'', JStr ''unchanged''), (''expires_at'', previous),
                         (''decided_against_vault'', JStr (vault_file G))]), h)
         else
           answerR h (ok_or GrantPanic (jindex_set grant ''expires_at'' (JUInt UNTIL_REVOKED))) (\<lambda>kept.
           answerR h (put_grant consumer kept v) (\<lambda>v'.
             saved G v' h (mk_obj [(''ok'', JBool True), (''consumer'', JStr consumer),
               (''status'', JStr ''kept''), (''previous_expires_at'', previous),
               (''expires_at'', JUInt UNTIL_REVOKED),
               (''decided_against_vault'', JStr (vault_file G))]))))))))"

definition respell :: "string \<Rightarrow> string \<Rightarrow> string option \<Rightarrow> string" where
  "respell action to fld =
     (case fld of Some f \<Rightarrow> action @ '':'' @ to @ ''#'' @ f | None \<Rightarrow> action @ '':'' @ to)"

text \<open>The loop of \<open>retarget_once\<close>: the capabilities moved, and the list that replaces the old.\<close>

fun retarget_each ::
  "env \<Rightarrow> vault \<Rightarrow> string \<Rightarrow> string \<Rightarrow> json list \<Rightarrow> json list \<Rightarrow> json list \<Rightarrow>
   grant_error + json list \<times> json list" where
  "retarget_each E v from to moved rewritten [] = Inr (moved, rewritten)"
| "retarget_each E v from to moved rewritten (c # cs) =
     (if get_str c ''item'' \<noteq> Some from then retarget_each E v from to moved (rewritten @ [c]) cs
      else bindR (ok_or NoAction (get_str c ''action'')) (\<lambda>action.
           bindR (parse_capabilities E v (respell action to (get_str c ''field'')) []) (\<lambda>parsed.
             if parsed = [] then Inl CapabilitiesMissing
             else let r = last parsed
                  in retarget_each E v from to (moved @ [r])
                       (if r \<in> set rewritten then rewritten else rewritten @ [r]) cs)))"

definition retarget_answer :: "host_env \<Rightarrow> string \<Rightarrow> string \<Rightarrow> json list \<Rightarrow> json" where
  "retarget_answer G consumer status moved =
     mk_obj [(''ok'', JBool True), (''consumer'', JStr consumer), (''status'', JStr status),
             (''moved'', JArr moved), (''decided_against_vault'', JStr (vault_file G))]"

definition retarget_once ::
  "host_env \<Rightarrow> string \<Rightarrow> string \<Rightarrow> string \<Rightarrow> host \<Rightarrow> (grant_error + json) \<times> host" where
  "retarget_once G consumer from to h =
     answerR h (ensureR (exact_component consumer \<and> exact_resource from \<and> exact_resource to)
                  NotExactNames) (\<lambda>_.
     if from = to then (Inl SameTarget, h)
     else with_vault h (\<lambda>v.
       answerR h (ok_or (NoGrant consumer) (grant_of v consumer)) (\<lambda>grant.
       answerR h (held_capabilities grant) (\<lambda>held.
       answerR h (retarget_each (venv G) v from to [] [] held) (\<lambda>(moved, rewritten).
         if moved = [] then (Inr (retarget_answer G consumer ''absent'' moved), h)
         else answerR h (put_grant consumer (with_capabilities grant rewritten) v) (\<lambda>v'.
                saved G v' h (retarget_answer G consumer ''moved'' moved)))))))"

section \<open>Revoking\<close>

definition has_expired :: "u64 \<Rightarrow> json \<Rightarrow> bool" where
  "has_expired now entry =
     (case get_u64 entry ''expires_at'' of
        Some until \<Rightarrow> until \<noteq> UNTIL_REVOKED \<and> until \<le> now | None \<Rightarrow> False)"

definition drop_grants :: "string list \<Rightarrow> obj \<Rightarrow> obj" where
  "drop_grants consumers tokens = fold map_remove consumers tokens"

definition revoke_listed ::
  "host_env \<Rightarrow> vault \<Rightarrow> obj \<Rightarrow> host \<Rightarrow> string list \<Rightarrow> json \<Rightarrow> (grant_error + json) \<times> host" where
  "revoke_listed G v tokens h listed answer =
     (if listed = [] then (Inr answer, h)
      else saved G (put_section ''tokens'' (drop_grants listed tokens) v) h answer)"

text \<open>\<open>seen\<close> is what the journal answered for \<open>--idle-since\<close>: the consumers seen since then.\<close>

definition revoke ::
  "host_env \<Rightarrow> (grant_error + string set option) \<Rightarrow> flags \<Rightarrow> string list \<Rightarrow> host \<Rightarrow>
   (grant_error + json) \<times> host" where
  "revoke G seen fl positionals h =
     answerR h seen (\<lambda>seen_since.
     with_vault h (\<lambda>v.
     answerR h (ok_or TokensMissing (get_object (doc v) ''tokens'')) (\<lambda>tokens.
       if flag_set fl ''expired'' then
         (if positionals \<noteq> [] then (Inl (UsageG ''expired''), h)
          else answerR h (ok_or ClockBroken (clock G)) (\<lambda>now.
            let expired = map fst (filter (\<lambda>(_, entry). has_expired now entry) tokens)
            in revoke_listed G v tokens h expired
                 (mk_obj [(''ok'', JBool True), (''revoked'', JArr (map JStr expired))])))
       else case (seen_since, map_of fl ''idle-since'') of
         (Some names, Some moment) \<Rightarrow>
           (if positionals \<noteq> [] then (Inl (UsageG ''idle''), h)
            else if \<not> flag_set fl ''yes'' then (Inl (UsageG ''yes''), h)
            else let idle = filter (\<lambda>c. c \<notin> names) (map fst tokens)
                 in revoke_listed G v tokens h idle
                      (mk_obj [(''ok'', JBool True), (''revoked'', JArr (map JStr idle)),
                               (''idle_since'', JStr moment)]))
       | _ \<Rightarrow>
           (case positionals of
              [] \<Rightarrow> (Inl (UsageG ''revoke''), h)
            | consumer # _ \<Rightarrow>
                let removed = (map_of tokens consumer \<noteq> None);
                    answer = mk_obj [(''ok'', JBool True), (''consumer'', JStr consumer),
                                     (''revoked'', JBool removed)]
                in if removed
                   then saved G (put_section ''tokens'' (map_remove consumer tokens) v) h answer
                   else (Inr answer, h)))))"

section \<open>Registering a catalog\<close>

definition check_registration ::
  "env \<Rightarrow> vault \<Rightarrow> string \<Rightarrow> bool \<Rightarrow> string \<times> string \<times> string \<Rightarrow> grant_error + string \<times> json list"
  where
  "check_registration E v key replace row =
     (case row of (consumer, item, fld) \<Rightarrow>
       bindR (parse_capabilities E v (''acquire:'' @ item @ ''#'' @ fld) []) (\<lambda>caps.
         case Option.bind (get_object (doc v) ''tokens'') (\<lambda>t. map_of t consumer) of
           None \<Rightarrow> Inr (consumer, caps)
         | Some existing \<Rightarrow>
             if (get_array existing ''capabilities'' \<noteq> Some caps
                 \<or> get_str existing ''workload_public_key'' \<noteq> Some key) \<and> \<not> replace
             then Inl ChangesCapabilities else Inr (consumer, caps)))"

definition register_flags :: "string list" where
  "register_flags = [''workload-public-key-file'', ''ttl-seconds'', ''replace-capabilities'']"

definition registered ::
  "string \<Rightarrow> u64 \<Rightarrow> (string \<times> json list) list \<Rightarrow> obj \<Rightarrow> obj" where
  "registered key until rows tokens =
     fold (\<lambda>(consumer, caps). map_insert consumer (mk_grant None caps (Some key) consumer until))
       rows tokens"

definition register_catalog ::
  "host_env \<Rightarrow> flags \<Rightarrow> string list \<Rightarrow> host \<Rightarrow> (grant_error + json) \<times> host" where
  "register_catalog G fl positionals h =
     (case positionals of
        [] \<Rightarrow> (Inl (UsageG ''register''), h)
      | catalog # _ \<Rightarrow>
          if list_ex (\<lambda>(k, _). k \<notin> set register_flags) fl then (Inl (UsageG ''flag''), h)
          else
            answerR h (ok_or (UsageG ''key'') (map_of fl ''workload-public-key-file'')) (\<lambda>path.
            answerR h (read_workload_public_key G path) (\<lambda>key.
            answerR h (ok_or (UsageG ''ttl'') (map_of fl ''ttl-seconds'')) (\<lambda>ttl_text.
            answerR h (ok_or (UsageG ''ttl'') (parse_nonzero_u64 ttl_text)) (\<lambda>ttl.
            answerR h (expiry_after G ttl) (\<lambda>until.
            answerR h (read_acquisition_catalog G catalog) (\<lambda>rows.
            with_vault h (\<lambda>v.
            answerR h (mapR (check_registration (venv G) v key
                               (flag_set fl ''replace-capabilities'')) rows) (\<lambda>registrations.
            answerR h (ok_or TokensMissing (get_object (doc v) ''tokens'')) (\<lambda>tokens.
              saved G (put_section ''tokens'' (registered key until registrations tokens) v) h
                (mk_obj [(''ok'', JBool True),
                         (''registered'', JUInt (of_nat (length registrations))),
                         (''expires_at'', JUInt until)])))))))))))"

section \<open>Listing\<close>

definition reaches :: "string option \<Rightarrow> string list \<Rightarrow> json \<Rightarrow> bool" where
  "reaches item roles entry =
     (case item of
        None \<Rightarrow> True
      | Some i \<Rightarrow>
          (case get_array entry ''capabilities'' of
             Some caps \<Rightarrow>
               list_ex (\<lambda>c. case get_str c ''item'' of
                              Some named \<Rightarrow> named = i \<or> named \<in> set roles | None \<Rightarrow> False) caps
           | None \<Rightarrow> False))"

definition ends_within :: "u64 \<Rightarrow> u64 option \<Rightarrow> json \<Rightarrow> bool" where
  "ends_within now horizon entry =
     (case horizon of
        None \<Rightarrow> True
      | Some hz \<Rightarrow>
          (case get_u64 entry ''expires_at'' of
             Some until \<Rightarrow> until \<noteq> UNTIL_REVOKED \<and> now < until \<and> until \<le> hz | None \<Rightarrow> False))"

definition grant_row :: "u64 \<Rightarrow> string set \<Rightarrow> string \<times> json \<Rightarrow> json" where
  "grant_row now names e =
     (case e of (consumer, entry) \<Rightarrow>
       mk_obj [(''consumer'', JStr consumer),
               (''capabilities'', jindex entry ''capabilities''),
               (''workload_bound'', JBool (get_str entry ''workload_public_key'' \<noteq> None)),
               (''audience'', jindex entry ''audience''),
               (''expires_at'', jindex entry ''expires_at''),
               (''until_revoked'', JBool (get_u64 entry ''expires_at'' = Some UNTIL_REVOKED)),
               (''expired'', JBool (has_expired now entry)),
               (''unanswered'', JArr (map JStr (unanswered names entry)))])"

definition grant_list ::
  "host_env \<Rightarrow> (grant_error + string set option) \<Rightarrow> flags \<Rightarrow> vault \<Rightarrow> grant_error + json list" where
  "grant_list G seen fl v =
     bindR (case map_of fl ''item'' of
              None \<Rightarrow> Inr []
            | Some item \<Rightarrow>
                bindR (ok_or (MissingItem item) (item_entry v item)) (\<lambda>entry.
                bindR (map_err VaultG (entry_texts item entry ''tags'')) (\<lambda>tags. Inr (role_names tags))))
       (\<lambda>roles.
     bindR (ok_or ClockBroken (clock G)) (\<lambda>now.
     bindR (case map_of fl ''expiring-within'' of
              None \<Rightarrow> Inr None
            | Some t \<Rightarrow> bindR (ok_or (UsageG t) (parse_u64 t)) (\<lambda>n. Inr (Some (saturating_add now n))))
       (\<lambda>horizon.
     bindR (answerable v) (\<lambda>names.
     bindR seen (\<lambda>seen_since.
     bindR (ok_or TokensMissing (get_object (doc v) ''tokens'')) (\<lambda>tokens.
       Inr (map (grant_row now names)
         (filter (\<lambda>(consumer, entry).
            reaches (map_of fl ''item'') roles entry
            \<and> (flag_set fl ''expired'' \<longrightarrow> has_expired now entry)
            \<and> ends_within now horizon entry
            \<and> (flag_set fl ''dangling'' \<longrightarrow> unanswered names entry \<noteq> [])
            \<and> (case seen_since of Some s \<Rightarrow> consumer \<notin> s | None \<Rightarrow> True)) tokens))))))))"

end
