(* ===== verification/GrantFrame.thy ===== *)
theory GrantFrame
  imports GrantOps
begin

text \<open>
  What every grant operation keeps: the contract \<open>grant_write\<close> (it touches one consumer's
  grant and no item) and its interpretation for issue, ensure, narrow, keep and retarget;
  and what a successful save leaves on the host.
\<close>

definition host_grant :: "host \<Rightarrow> string \<Rightarrow> json option" where
  "host_grant h consumer =
     Option.bind (persisted h) (\<lambda>d. Option.bind (jget d ''tokens'') (\<lambda>t. jget t consumer))"

definition host_items :: "host \<Rightarrow> json option" where
  "host_items h = Option.bind (persisted h) (\<lambda>d. jget d ''items'')"

section \<open>Reading an operation's steps\<close>

lemma answerR_Inr:
  "answerR h x f = (Inr y, h') \<longleftrightarrow> (\<exists>a. x = Inr a \<and> f a = (Inr y, h'))"
  by (auto simp: answerR_def split: sum.splits)

lemma with_vault_Inr:
  "with_vault h f = (Inr y, h') \<longleftrightarrow> (\<exists>v. open_vault h = Inr v \<and> f v = (Inr y, h'))"
  by (auto simp: with_vault_def split: sum.splits)

lemma if_refused:
  "(if b then (Inl e, s) else X) = (Inr y, t) \<longleftrightarrow> \<not> b \<and> X = (Inr y, t)"
  "(if b then Inl e else Y) = Inr z \<longleftrightarrow> \<not> b \<and> Y = Inr z"
  by auto

lemmas step_ok = answerR_Inr with_vault_Inr if_refused result_simps

lemma open_vault_ok:
  "open_vault h = Inr v \<Longrightarrow>
     persisted h = Some (doc v) \<and> document_generation (doc v) = Inr (base_generation v)"
  by (auto simp: open_vault_def result_simps split: option.splits if_splits)

lemma open_vault_items:
  "open_vault h = Inr v \<Longrightarrow> \<exists>items. get_object (doc v) ''items'' = Some items"
  by (auto simp: open_vault_def result_simps split: option.splits if_splits)

lemma host_grant_open: "open_vault h = Inr v \<Longrightarrow> host_grant h c = grant_of v c"
  using open_vault_ok [of h v] by (simp add: host_grant_def grant_of_def)

lemma grant_of_tokens:
  "get_object (doc v) ''tokens'' = Some tokens \<Longrightarrow> grant_of v c = map_of tokens c"
  by (simp add: grant_of_def)

lemma tokens_grant:
  "Option.bind (get_object (doc v) ''tokens'') (\<lambda>t. map_of t c) = Some e \<Longrightarrow> grant_of v c = Some e"
  by (auto simp: grant_of_def bind_eq_Some_conv)

section \<open>What a save leaves on the host\<close>

lemma saved_ok:
  assumes "saved G v h answer = (Inr a, h')"
  shows "a = answer" and "persisted h' \<noteq> None"
    and "k \<noteq> ''generation'' \<Longrightarrow> Option.bind (persisted h') (\<lambda>d. jget d k) = jget (doc v) k"
proof -
  from assms obtain u v' where s: "save v h = (Inr u, v', h')" and a: "a = answer"
    by (auto simp: saved_def split: prod.splits sum.splits if_splits)
  from s have p: "persisted h' = Some (doc v')" by (rule save_ok_persisted)
  show "a = answer" by (rule a)
  show "persisted h' \<noteq> None" using p by simp
  show "k \<noteq> ''generation'' \<Longrightarrow> Option.bind (persisted h') (\<lambda>d. jget d k) = jget (doc v) k"
    using p save_ok_get [OF s] by simp
qed

lemma saved_cases:
  assumes "saved G v h answer = (r, h')"
  shows "h' = h \<or> (\<forall>k. k \<noteq> ''generation'' \<longrightarrow> Option.bind (persisted h') (\<lambda>d. jget d k) = jget (doc v) k)"
proof -
  obtain q v' h2 where s: "save v h = (q, v', h2)" by (cases "save v h")
  show ?thesis
  proof (cases q)
    case (Inl e)
    with s assms save_error_host [of v h e v' h2] show ?thesis by (auto simp: saved_def)
  next
    case (Inr u)
    with s have s': "save v h = (Inr u, v', h2)" by simp
    from assms s' have "h' = h2" by (auto simp: saved_def split: if_splits)
    with save_ok_persisted [OF s'] save_ok_get [OF s'] show ?thesis by simp
  qed
qed

lemma put_section_get:
  "doc v = JObj m \<Longrightarrow> jget (doc (put_section k x v)) = (jget (doc v))(k \<mapsto> JObj x)"
  by (auto simp: put_section_def map_of_map_insert)

lemma put_section_jget:
  assumes "get_object (doc v) k = Some old"
  shows "jget (doc (put_section k x v)) = (jget (doc v))(k \<mapsto> JObj x)"
proof -
  from assms obtain m where "doc v = JObj m" by (cases "doc v") (auto simp: jget_def)
  then show ?thesis by (rule put_section_get)
qed

lemma put_grant_ok:
  assumes "put_grant c e v = Inr v'"
  shows "grant_of v' = (grant_of v)(c \<mapsto> e)" and "k \<noteq> ''tokens'' \<Longrightarrow> jget (doc v') k = jget (doc v) k"
proof -
  from assms obtain tokens where t: "get_object (doc v) ''tokens'' = Some tokens"
    and v': "v' = put_section ''tokens'' (map_insert c e tokens) v"
    by (auto simp: put_grant_def result_simps)
  have g: "jget (doc v') = (jget (doc v))(''tokens'' \<mapsto> JObj (map_insert c e tokens))"
    unfolding v' using t by (rule put_section_jget)
  show "grant_of v' = (grant_of v)(c \<mapsto> e)"
    using t by (auto simp: grant_of_def g map_of_map_insert fun_eq_iff)
  show "k \<noteq> ''tokens'' \<Longrightarrow> jget (doc v') k = jget (doc v) k"
    by (simp add: g)
qed

lemma host_grant_saved:
  assumes "saved G v h answer = (Inr a, h')"
  shows "host_grant h' c = grant_of v c" and "host_items h' = jget (doc v) ''items''"
proof -
  from saved_ok(2) [OF assms] obtain d where d: "persisted h' = Some d" by auto
  then have "jget d ''tokens'' = jget (doc v) ''tokens''" "jget d ''items'' = jget (doc v) ''items''"
    using saved_ok(3) [OF assms, of "''tokens''"] saved_ok(3) [OF assms, of "''items''"] by simp_all
  then show "host_grant h' c = grant_of v c" "host_items h' = jget (doc v) ''items''"
    by (simp_all add: d host_grant_def grant_of_def host_items_def)
qed

lemma grant_saved:
  assumes "open_vault h = Inr v" and "put_grant c e v = Inr v'" and "saved G v' h answer = (Inr a, h')"
  shows "host_grant h' = (host_grant h)(c \<mapsto> e)" and "host_items h' = host_items h"
proof -
  from open_vault_ok [OF assms(1)] have p: "persisted h = Some (doc v)" by simp
  show "host_grant h' = (host_grant h)(c \<mapsto> e)"
    by (rule ext) (simp add: host_grant_saved(1) [OF assms(3)] put_grant_ok(1) [OF assms(2)]
        host_grant_open [OF assms(1)])
  have "host_items h' = jget (doc v) ''items''"
    using host_grant_saved(2) [OF assms(3)] put_grant_ok(2) [OF assms(2), of "''items''"] by simp
  then show "host_items h' = host_items h" by (simp add: p host_items_def [of h])
qed

section \<open>The contract of a grant write\<close>

locale grant_write =
  fixes op :: "host \<Rightarrow> (grant_error + json) \<times> host"
    and consumer :: string
  assumes frame: "op h = (r, h') \<Longrightarrow> c \<noteq> consumer \<Longrightarrow> host_grant h' c = host_grant h c"
    and items_kept: "op h = (r, h') \<Longrightarrow> host_items h' = host_items h"
begin

lemma frame_snd: "c \<noteq> consumer \<Longrightarrow> host_grant (snd (op h)) c = host_grant h c"
  using frame [of h "fst (op h)" "snd (op h)" c] by simp

lemma items_snd: "host_items (snd (op h)) = host_items h"
  using items_kept [of h "fst (op h)" "snd (op h)"] by simp

text \<open>Retrying any number of times touches nothing else either.\<close>

lemma retries_frame:
  "c \<noteq> consumer \<Longrightarrow> host_grant (((\<lambda>h. snd (op h)) ^^ n) h) c = host_grant h c"
  by (induction n) (simp_all add: frame_snd)

lemma retries_items: "host_items (((\<lambda>h. snd (op h)) ^^ n) h) = host_items h"
  by (induction n) (simp_all add: items_snd)

end

definition keeps_others :: "string \<Rightarrow> host \<Rightarrow> ('a \<times> host) \<Rightarrow> bool" where
  "keeps_others consumer h out \<longleftrightarrow>
     (\<forall>c. c \<noteq> consumer \<longrightarrow> host_grant (snd out) c = host_grant h c)
     \<and> host_items (snd out) = host_items h"

lemma grant_writeI: "(\<And>h. keeps_others consumer h (op h)) \<Longrightarrow> grant_write op consumer"
proof unfold_locales
  fix h r h' c
  assume k: "\<And>h. keeps_others consumer h (op h)" and o: "op h = (r, h')"
  show "c \<noteq> consumer \<Longrightarrow> host_grant h' c = host_grant h c" and "host_items h' = host_items h"
    using k [of h] o by (simp_all add: keeps_others_def)
qed

named_theorems keeping

lemma keeps_same [keeping]: "keeps_others c h (r, h)"
  by (simp add: keeps_others_def)

lemma keeps_answerR [keeping]:
  "(\<And>a. x = Inr a \<Longrightarrow> keeps_others c h (f a)) \<Longrightarrow> keeps_others c h (answerR h x f)"
  by (cases x) (simp_all add: answerR_def keeps_same)

lemma keeps_with_vault [keeping]:
  "(\<And>v. open_vault h = Inr v \<Longrightarrow> keeps_others c h (f v)) \<Longrightarrow> keeps_others c h (with_vault h f)"
  by (cases "open_vault h") (simp_all add: with_vault_def keeps_same)

lemma keeps_if [keeping]:
  "(b \<Longrightarrow> keeps_others c h x) \<Longrightarrow> (\<not> b \<Longrightarrow> keeps_others c h y) \<Longrightarrow>
     keeps_others c h (if b then x else y)"
  by simp

lemma keeps_saved:
  assumes "open_vault h = Inr v" and "put_grant c e v = Inr v'"
  shows "keeps_others c h (saved G v' h answer)"
proof -
  obtain r h' where s: "saved G v' h answer = (r, h')" by (cases "saved G v' h answer")
  from open_vault_ok [OF assms(1)] have p: "persisted h = Some (doc v)" by simp
  from saved_cases [OF s] show ?thesis
  proof
    assume "h' = h"
    with s show ?thesis by (simp add: keeps_others_def)
  next
    assume all: "\<forall>k. k \<noteq> ''generation'' \<longrightarrow> Option.bind (persisted h') (\<lambda>d. jget d k) = jget (doc v') k"
    have "host_grant h' x = grant_of v' x" for x
      using all [rule_format, of "''tokens''"]
      by (cases "persisted h'") (simp_all add: host_grant_def grant_of_def)
    moreover have "host_items h' = jget (doc v') ''items''"
      using all [rule_format, of "''items''"] by (simp add: host_items_def)
    moreover have "host_items h = jget (doc v) ''items''" by (simp add: host_items_def p)
    ultimately show ?thesis
      using s put_grant_ok [OF assms(2)] host_grant_open [OF assms(1)]
      by (simp add: keeps_others_def)
  qed
qed

lemma keeps_put [keeping]:
  "open_vault h = Inr v \<Longrightarrow>
   keeps_others c h (answerR h (put_grant c e v) (\<lambda>v'. saved G v' h answer))"
  by (cases "put_grant c e v") (simp_all add: answerR_def keeps_same keeps_saved)

lemma keeps_trans:
  "keeps_others c h (r, h1) \<Longrightarrow> keeps_others c h1 out \<Longrightarrow> keeps_others c h out"
  by (simp add: keeps_others_def)

section \<open>The operations meet the contract\<close>

lemma issue_keeps: "keeps_others consumer h (issue_once G consumer fl h)"
  unfolding issue_once_def Let_def by (intro keeping) (auto split: prod.splits intro!: keeping)

lemma narrow_keeps: "keeps_others consumer h (narrow_read_once G consumer item fld h)"
  unfolding narrow_read_once_def Let_def by (intro keeping) auto

lemma keep_keeps: "keeps_others consumer h (keep_once G consumer h)"
  unfolding keep_once_def Let_def by (intro keeping) auto

lemma retarget_keeps: "keeps_others consumer h (retarget_once G consumer from to h)"
  unfolding retarget_once_def by (intro keeping) (auto split: prod.splits intro!: keeping)

lemma ensure_answer_host: "snd (ensure_answer G consumer bearer item fld capability status h) = h"
  by (auto simp: ensure_answer_def with_vault_def answerR_def split: sum.splits)

lemma ensure_keeps: "keeps_others consumer h (ensure_read_once G consumer item fld token_file h)"
proof -
  have answered: "keeps_others consumer h (ensure_answer G consumer bearer item fld cap s h)" for bearer cap s
    by (simp add: keeps_others_def ensure_answer_host)
  have added: "keeps_others consumer h
      (answerR h (put_grant consumer e v) (\<lambda>v'. case saved G v' h JNull of
          (Inl e, h') \<Rightarrow> (Inl e, h')
        | (Inr _, h') \<Rightarrow> ensure_answer G consumer bearer item fld cap s h'))"
    if "open_vault h = Inr v" for e v bearer cap s
  proof (rule keeps_answerR)
    fix v' assume p: "put_grant consumer e v = Inr v'"
    have "keeps_others consumer h (saved G v' h JNull)" using that p by (rule keeps_saved)
    then show "keeps_others consumer h (case saved G v' h JNull of
          (Inl e, h') \<Rightarrow> (Inl e, h')
        | (Inr _, h') \<Rightarrow> ensure_answer G consumer bearer item fld cap s h')"
      by (auto simp: keeps_others_def ensure_answer_host split: prod.splits sum.splits)
  qed
  show ?thesis
    unfolding ensure_read_once_def by (intro keeping answered added)
qed

interpretation issue: grant_write "issue_once G consumer fl" consumer for G consumer fl
  by (rule grant_writeI) (rule issue_keeps)

interpretation narrow: grant_write "narrow_read_once G consumer item fld" consumer for G consumer item fld
  by (rule grant_writeI) (rule narrow_keeps)

interpretation keep: grant_write "keep_once G consumer" consumer for G consumer
  by (rule grant_writeI) (rule keep_keeps)

interpretation retarget: grant_write "retarget_once G consumer src dst" consumer for G consumer src dst
  by (rule grant_writeI) (rule retarget_keeps)

interpretation ensure: grant_write "ensure_read_once G consumer item fld token_file" consumer
  for G consumer item fld token_file
  by (rule grant_writeI) (rule ensure_keeps)

end
