(* ===== verification/GrantParse.thy ===== *)
theory GrantParse
  imports GrantFrame Fixtures
begin

text \<open>
  What parsing a grant's capabilities guarantees, and that the text a grant spells is read
  back as the grant.
\<close>

section \<open>What is accepted\<close>

definition well_formed_capability :: "json \<Rightarrow> bool" where
  "well_formed_capability c \<longleftrightarrow>
     (\<exists>a item fld. c = mk_capability (action_str a) item fld \<and> exact_resource item
        \<and> (\<forall>f. fld = Some f \<longrightarrow> (if reaches_service a then exact_route f else exact_component f))
        \<and> (needs_field a \<longrightarrow> fld \<noteq> None) \<and> (forbids_field a \<longrightarrow> fld = None)
        \<and> (starts_with ''role:'' item \<longrightarrow> names_role a)
        \<and> (files_request a \<longrightarrow> fld = None \<and> kind_named item \<noteq> None))"

lemma check_shape_accepts:
  "check_shape a item fld = Inr () \<longleftrightarrow> exact_resource item
     \<and> (\<forall>f. fld = Some f \<longrightarrow> (if reaches_service a then exact_route f else exact_component f))
     \<and> (needs_field a \<longrightarrow> fld \<noteq> None) \<and> (forbids_field a \<longrightarrow> fld = None)
     \<and> (starts_with ''role:'' item \<longrightarrow> names_role a)"
  by (cases fld) (auto simp: check_shape_def field_shape_def)

lemma well_formed_shape:
  "well_formed_capability c \<longleftrightarrow>
     (\<exists>a item fld. c = mk_capability (action_str a) item fld \<and> check_shape a item fld = Inr ()
        \<and> (files_request a \<longrightarrow> fld = None \<and> kind_named item \<noteq> None))"
  unfolding well_formed_capability_def check_shape_accepts by (intro iff_exI) blast

lemma mk_capability_get [simp]:
  "get_str (mk_capability action item fld) ''action'' = Some action"
  "get_str (mk_capability action item fld) ''item'' = Some item"
  "get_str (mk_capability action item fld) ''field'' = fld"
  by (simp_all add: mk_capability_def get_str_def json_opt_def as_str_def split: option.splits)

lemma files_not_service: "files_request a \<Longrightarrow> \<not> reaches_service a"
  by (simp add: action_classes)

lemma mk_capability_inj:
  "mk_capability a i f = mk_capability a' i' f' \<longleftrightarrow> a = a' \<and> i = i' \<and> f = f'"
  by (metis mk_capability_get option.inject)

lemma action_of_mk [simp]: "action_of (mk_capability (action_str a) i f) = Some a"
  by (simp add: action_of_def)

lemma parse_one_ok:
  assumes "parse_one E v preserved acc encoded = Inr c"
  obtains a item fld target where
    "encoded = action_str a @ '':'' @ target" "split_target target = (item, fld)"
    "c = mk_capability (action_str a) item fld" "check_shape a item fld = Inr ()"
    "c \<notin> set acc"
    "files_request a \<Longrightarrow> fld = None \<and> kind_named item \<noteq> None"
    "c \<notin> set preserved \<Longrightarrow> \<not> reaches_service a \<Longrightarrow> \<not> files_request a \<Longrightarrow>
       (fld = Some ''context'' \<longrightarrow> reads_context a)
       \<and> (\<not> starts_with ''role:'' item \<longrightarrow> check_target E v a item fld = Inr ())"
proof -
  from assms obtain name target a where so: "split_once (CHR '':'') encoded = Some (name, target)"
    and ap: "action_parse name = Some a"
    by (auto simp: parse_one_def result_simps)
  obtain item fld where st: "split_target target = (item, fld)" by (cases "split_target target")
  have name: "name = action_str a" using ap by (simp add: action_parse_Some)
  show thesis
  proof (rule that [of a target item fld])
    show "encoded = action_str a @ '':'' @ target" using so name by (auto simp: split_once_Some)
  qed (use assms so ap st name files_not_service [of a] in
      \<open>auto simp: parse_one_def result_simps Let_def split: if_splits\<close>)
qed

lemma parse_one_wf: "parse_one E v preserved acc e = Inr c \<Longrightarrow> well_formed_capability c"
  unfolding well_formed_shape by (elim parse_one_ok) blast

lemma parse_each_ok:
  assumes "parse_each E v preserved acc es = Inr caps"
  shows "\<exists>new. caps = acc @ new \<and> length new = length es
     \<and> list_all well_formed_capability new \<and> (distinct acc \<longrightarrow> distinct caps)"
  using assms
proof (induction es arbitrary: acc)
  case Nil
  then show ?case by simp
next
  case (Cons e es)
  then obtain c where c: "parse_one E v preserved acc e = Inr c"
    and rest: "parse_each E v preserved (acc @ [c]) es = Inr caps"
    by (auto simp: result_simps)
  have "c \<notin> set acc" using c by (elim parse_one_ok)
  with Cons.IH [OF rest] parse_one_wf [OF c] show ?case by auto
qed

text \<open>C18: whatever \<open>grant issue\<close> is asked to declare, what it records is well formed: at
  least one capability, each once, each an action this vault has, on an exact resource, with
  the field its action takes (a route for a service call) and a role only where the action
  resolves one.\<close>

theorem parse_capabilities_sound:
  assumes "parse_capabilities E v raw preserved = Inr caps"
  shows "caps \<noteq> [] \<and> distinct caps \<and> list_all well_formed_capability caps"
proof -
  from assms have "parse_each E v preserved [] (split_on (CHR '','') raw) = Inr caps"
    by (simp add: parse_capabilities_def split: if_splits)
  then obtain new where "caps = [] @ new" "length new = length (split_on (CHR '','') raw)"
    "list_all well_formed_capability new" "distinct caps"
    using parse_each_ok by fastforce
  moreover have "split_on (CHR '','') raw \<noteq> []" by simp
  ultimately show ?thesis by auto
qed

section \<open>Spelling a grant back\<close>

definition spell :: "json \<Rightarrow> string" where
  "spell c =
     respell (case get_str c ''action'' of Some a \<Rightarrow> a | None \<Rightarrow> [])
       (case get_str c ''item'' of Some i \<Rightarrow> i | None \<Rightarrow> []) (get_str c ''field'')"

definition spell_all :: "json list \<Rightarrow> string" where
  "spell_all caps = join_with '','' (map spell caps)"

lemma spell_mk: "spell (mk_capability a i f) = respell a i f"
  by (simp add: spell_def)

lemma plain_bytes [simp]:
  "plain_byte (CHR ''.'')" "plain_byte (CHR ''_'')" "plain_byte (CHR ''-'')" "plain_byte (CHR '':'')"
  "plain_byte (CHR ''#'')" "plain_byte (CHR ''/'')" "plain_byte (CHR '','')"
  by (simp_all add: plain_byte_def less_eq_char_def)

lemma plain_ranges:
  "CHR ''!'' \<le> CHR ''0''" "CHR ''9'' \<le> CHR ''~''" "CHR ''!'' \<le> CHR ''a''" "CHR ''z'' \<le> CHR ''~''"
  "CHR ''!'' \<le> CHR ''A''" "CHR ''Z'' \<le> CHR ''~''"
  by (simp_all add: less_eq_char_def)

lemma alnum_plain: "is_alnum b \<Longrightarrow> plain_byte b"
  unfolding char_class_defs plain_byte_def using plain_ranges by (meson order_trans)

lemma component_plain: "component_byte b \<Longrightarrow> plain_byte b"
  unfolding component_byte_def using alnum_plain by auto

lemma resource_plain: "resource_byte b \<Longrightarrow> plain_byte b"
  unfolding resource_byte_def using component_plain by auto

lemma resource_byte_plain: "resource_byte b \<Longrightarrow> b \<noteq> CHR ''#'' \<and> b \<noteq> CHR '',''"
  by (auto simp: resource_byte_def dest: component_byte_plain)

lemma action_str_plain: "list_all plain_byte (action_str a)" "CHR '':'' \<notin> set (action_str a)"
    "CHR '','' \<notin> set (action_str a)"
  by (cases a; simp add: plain_byte_def less_eq_char_def)+

lemma route_bytes: "exact_route f \<Longrightarrow> list_all (\<lambda>b. component_byte b \<or> b = CHR ''/'') f"
proof -
  assume r: "exact_route f"
  have "c \<in> set f \<Longrightarrow> c = CHR ''/'' \<or> (\<exists>p \<in> set (split_on (CHR ''/'') f). c \<in> set p)" for c
  proof (induction f)
    case (Cons x xs)
    then show ?case by (cases "split_on (CHR ''/'') xs") auto
  qed simp
  moreover have "p \<in> set (split_on (CHR ''/'') f) \<Longrightarrow> c \<in> set p \<Longrightarrow> component_byte c" for p c
    using r by (auto simp: exact_route_def exact_component_def list_all_iff)
  ultimately show ?thesis by (auto simp: list_all_iff)
qed

lemma field_shape_bytes:
  "field_shape a (Some f) \<Longrightarrow> list_all (\<lambda>b. component_byte b \<or> b = CHR ''/'') f"
  using route_bytes [of f]
  by (cases "reaches_service a") (auto simp: field_shape_def exact_component_def list_all_iff)

lemma check_shape_ok:
  assumes "check_shape a item fld = Inr ()"
  shows "list_all resource_byte item" "fld = Some f \<Longrightarrow> list_all (\<lambda>b. component_byte b \<or> b = CHR ''/'') f"
  using assms field_shape_bytes [of a f]
  by (auto simp: check_shape_def exact_resource_def split: if_splits)

lemma spell_bytes:
  assumes "check_shape a item fld = Inr ()"
  shows "list_all plain_byte (respell (action_str a) item fld)" "CHR '','' \<notin> set (respell (action_str a) item fld)"
proof -
  have i: "b \<in> set item \<Longrightarrow> resource_byte b" for b
    using check_shape_ok(1) [OF assms] by (simp add: list_all_iff)
  have f: "fld = Some f \<Longrightarrow> b \<in> set f \<Longrightarrow> component_byte b \<or> b = CHR ''/''" for f b
    using check_shape_ok(2) [OF assms] by (simp add: list_all_iff)
  show "list_all plain_byte (respell (action_str a) item fld)"
    using action_str_plain(1) [of a] i f
    by (fastforce simp: respell_def list_all_iff split: option.splits dest: resource_plain component_plain)
  show "CHR '','' \<notin> set (respell (action_str a) item fld)"
    using action_str_plain(3) [of a] i [of "CHR '',''"] f [of _ "CHR '',''"] resource_byte_plain [of "CHR '',''"]
      component_byte_plain [of "CHR '',''"]
    by (auto simp: respell_def split: option.splits)
qed

lemma split_respell:
  assumes "check_shape a item fld = Inr ()"
  shows "\<exists>target. respell (action_str a) item fld = action_str a @ '':'' @ target
     \<and> split_target target = (item, fld)"
proof -
  have n: "CHR ''#'' \<notin> set item"
    using check_shape_ok(1) [OF assms] resource_byte_plain [of "CHR ''#''"] by (auto simp: list_all_iff)
  show ?thesis
  proof (cases fld)
    case None
    with n show ?thesis
      by (intro exI [of _ item]) (simp add: respell_def split_target_def split_once_None [THEN iffD2])
  next
    case (Some f)
    with n show ?thesis
      by (intro exI [of _ "item @ ''#'' @ f"]) (simp add: respell_def split_target_def)
  qed
qed

lemma parse_one_spell:
  assumes "well_formed_capability c" and "c \<notin> set acc" and "c \<in> set preserved"
  shows "parse_one E v preserved acc (spell c) = Inr c"
proof -
  from assms(1) obtain a item fld where c: "c = mk_capability (action_str a) item fld"
    and sh: "check_shape a item fld = Inr ()"
    and rq: "files_request a \<Longrightarrow> fld = None \<and> kind_named item \<noteq> None"
    by (auto simp: well_formed_shape)
  obtain target where t: "spell c = action_str a @ '':'' @ target" "split_target target = (item, fld)"
    using split_respell [OF sh] c by (auto simp: spell_mk)
  have "split_once (CHR '':'') (spell c) = Some (action_str a, target)"
    using t(1) action_str_plain(2) [of a] by simp
  with t(2) c sh rq assms(2,3) show ?thesis
    by (auto simp: parse_one_def Let_def)
qed

lemma parse_each_spell:
  "list_all well_formed_capability new \<Longrightarrow> distinct (acc @ new) \<Longrightarrow> set new \<subseteq> set preserved \<Longrightarrow>
     parse_each E v preserved acc (map spell new) = Inr (acc @ new)"
  by (induction new arbitrary: acc) (simp_all add: parse_one_spell)

lemma split_join:
  "(\<And>p. p \<in> set ps \<Longrightarrow> c \<notin> set p) \<Longrightarrow> ps \<noteq> [] \<Longrightarrow> split_on c (join_with [c] ps) = ps"
proof (induction "[c]" ps rule: join_with.induct)
  case (3 x y zs)
  then show ?case by (simp add: split_on_append)
qed (simp_all add: split_on_no_sep)

lemma join_plain:
  "(\<And>p. p \<in> set ps \<Longrightarrow> list_all plain_byte p) \<Longrightarrow> list_all plain_byte (join_with '','' ps)"
proof (induction "'',''" ps rule: join_with.induct)
  case (3 x y zs)
  then show ?case by simp
qed simp_all

lemma well_formed_spell:
  "well_formed_capability c \<Longrightarrow> list_all plain_byte (spell c) \<and> CHR '','' \<notin> set (spell c) \<and> spell c \<noteq> []"
proof -
  assume "well_formed_capability c"
  then obtain a i f where c: "spell c = respell (action_str a) i f" and sh: "check_shape a i f = Inr ()"
    by (auto simp: well_formed_shape spell_mk)
  moreover have "respell (action_str a) i f \<noteq> []"
    by (cases f) (simp_all add: respell_def)
  ultimately show ?thesis using spell_bytes [OF sh] by simp
qed

lemma join_not_Nil: "(\<And>p. p \<in> set ps \<Longrightarrow> p \<noteq> []) \<Longrightarrow> ps \<noteq> [] \<Longrightarrow> join_with sep ps \<noteq> []"
  by (induction sep ps rule: join_with.induct) auto

text \<open>Re-minting a bearer never loses a capability: the text a grant spells out, parsed
  against the capabilities the grant holds, is read back as exactly those, whatever has become
  of the items they name (trashed, purged or renamed since they were granted).\<close>

theorem remint_parses:
  assumes "parse_capabilities E v raw preserved = Inr caps"
  shows "parse_capabilities E' v' (spell_all caps) caps = Inr caps"
proof -
  have wf: "caps \<noteq> []" "distinct caps" "list_all well_formed_capability caps"
  proof -
    from assms have pe: "parse_each E v preserved [] (split_on (CHR '','') raw) = Inr caps"
      by (simp add: parse_capabilities_def split: if_splits)
    show "caps \<noteq> []" "distinct caps" "list_all well_formed_capability caps"
      using parse_each_ok [OF pe] by auto
  qed
  have each: "list_all plain_byte p \<and> CHR '','' \<notin> set p \<and> p \<noteq> []" if "p \<in> set (map spell caps)" for p
    using that wf(3) well_formed_spell by (auto simp: list_all_iff)
  have ne: "map spell caps \<noteq> []" using wf(1) by simp
  have "list_all plain_byte (spell_all caps)"
    unfolding spell_all_def by (rule join_plain) (use each in blast)
  then have "trim (spell_all caps) = spell_all caps" by (rule trim_plain)
  moreover have "spell_all caps \<noteq> []"
    unfolding spell_all_def by (rule join_not_Nil) (use each ne in blast)+
  moreover have "split_on (CHR '','') (spell_all caps) = map spell caps"
    unfolding spell_all_def by (rule split_join) (use each ne in blast)+
  moreover have "parse_each E' v' caps [] (map spell caps) = Inr ([] @ caps)"
    by (rule parse_each_spell) (use wf in auto)
  ultimately show ?thesis by (simp add: parse_capabilities_def)
qed

end
