(* ===== verification/GrantProps.thy ===== *)
theory GrantProps
  imports GrantParse
begin

text \<open>
  What the grant operations guarantee of the grants they leave: which capabilities may share a
  bearer, that narrowing undoes ensuring, that keeping outlives every clock, that revoking by
  expiry removes exactly what has expired, and that the two ways of asking about a bearer
  agree.
\<close>

lemma mk_grant_get [simp]:
  "jget (mk_grant hash caps key audience until) ''hash'' = Some (json_opt JStr hash)"
  "jget (mk_grant hash caps key audience until) ''capabilities'' = Some (JArr caps)"
  "jget (mk_grant hash caps key audience until) ''workload_public_key'' = Some (json_opt JStr key)"
  "jget (mk_grant hash caps key audience until) ''audience'' = Some (JStr audience)"
  "jget (mk_grant hash caps key audience until) ''expires_at'' = Some (JUInt until)"
  by (simp_all add: mk_grant_def)

lemma issue_ok:
  assumes "issue_once G consumer fl h = (Inr answer, h')"
  obtains v caps key until stored generated preserved raw where
    "parse_capabilities (venv G) v raw preserved = Inr caps" "check_mix caps = Inr ()"
    "workload_key G fl (list_ex is_acquire caps) = Inr key"
    "grant_expiry G fl (list_ex is_acquire caps) = Inr until"
    "bearer_for G fl (list_ex is_acquire caps) = Inr (stored, generated)"
    "host_grant h' = (host_grant h)(consumer \<mapsto>
        mk_grant (map_option (presented_hash (venv G)) stored) caps key
          (case map_of fl ''audience'' of Some a \<Rightarrow> a | None \<Rightarrow> consumer) until)"
proof -
  let ?audience = "case map_of fl ''audience'' of Some a \<Rightarrow> a | None \<Rightarrow> consumer"
  from assms obtain v existing raw caps key until b v' where
    v: "open_vault h = Inr v"
    and p: "parse_capabilities (venv G) v raw (case existing of Some cs \<Rightarrow> cs | None \<Rightarrow> []) = Inr caps"
    and m: "check_mix caps = Inr ()"
    and k: "workload_key G fl (list_ex is_acquire caps) = Inr key"
    and e: "grant_expiry G fl (list_ex is_acquire caps) = Inr until"
    and b: "bearer_for G fl (list_ex is_acquire caps) = Inr b"
    and put: "put_grant consumer (mk_grant (map_option (presented_hash (venv G)) (fst b)) caps key
                ?audience until) v = Inr v'"
    and s: "saved G v' h (issue_answer consumer caps key ?audience until (flag_set fl ''until-revoked'')
                (snd b)) = (Inr answer, h')"
    by (auto simp: issue_once_def step_ok Let_def split: prod.splits)
  show thesis
    by (rule that [OF p m k e, of "fst b" "snd b"])
       (simp_all add: b grant_saved(1) [OF v put s])
qed

lemma check_mix_ok:
  "check_mix caps = Inr () \<longleftrightarrow>
     (list_ex is_acquire caps \<longrightarrow> list_all is_acquire caps)
     \<and> \<not> (has_action ''lifecycle'' caps \<and> has_action ''read'' caps)"
  by (auto simp: check_mix_def)

lemma workload_key_ok: "workload_key G fl b = Inr key \<Longrightarrow> (key \<noteq> None \<longleftrightarrow> b)"
  by (auto simp: workload_key_def result_simps split: option.splits if_splits)

lemma bearer_ok: "bearer_for G fl b = Inr (stored, generated) \<Longrightarrow> (stored = None \<longleftrightarrow> b)"
  by (auto simp: bearer_for_def result_simps split: option.splits if_splits)

lemma expiry_ok:
  assumes "grant_expiry G fl b = Inr until" and "clock G = Some now" and "now < UNTIL_REVOKED"
  shows "now < until"
  using assms checked_add_gt parse_nonzero_u64_Some
  by (fastforce simp: grant_expiry_def expiry_after_def result_simps
      split: option.splits if_splits bool.splits)

text \<open>C19: no bearer mixes authorities: a grant that is issued either lends itself to acquire
  alone (every capability an acquire, a workload key, no bearer) or holds a bearer and no
  workload key and no acquire; it never joins driving a credential's lifecycle with reading
  values; and it is in force the moment it is issued.\<close>

theorem issued_grant_separates:
  assumes "issue_once G consumer fl h = (Inr answer, h')"
  shows "\<exists>entry caps. host_grant h' consumer = Some entry
     \<and> get_array entry ''capabilities'' = Some caps \<and> caps \<noteq> [] \<and> list_all well_formed_capability caps
     \<and> (if list_ex is_acquire caps
        then list_all is_acquire caps \<and> get_str entry ''workload_public_key'' \<noteq> None
             \<and> jget entry ''hash'' = Some JNull
        else get_str entry ''hash'' \<noteq> None \<and> jget entry ''workload_public_key'' = Some JNull)
     \<and> \<not> (has_action ''lifecycle'' caps \<and> has_action ''read'' caps)
     \<and> (\<forall>now. clock G = Some now \<longrightarrow> now < UNTIL_REVOKED \<longrightarrow> active (clock G) entry)"
proof -
  from assms obtain v caps key until stored generated preserved raw where
    p: "parse_capabilities (venv G) v raw preserved = Inr caps" and m: "check_mix caps = Inr ()"
    and k: "workload_key G fl (list_ex is_acquire caps) = Inr key"
    and e: "grant_expiry G fl (list_ex is_acquire caps) = Inr until"
    and b: "bearer_for G fl (list_ex is_acquire caps) = Inr (stored, generated)"
    and hg: "host_grant h' = (host_grant h)(consumer \<mapsto>
        mk_grant (map_option (presented_hash (venv G)) stored) caps key
          (case map_of fl ''audience'' of Some a \<Rightarrow> a | None \<Rightarrow> consumer) until)"
    by (rule issue_ok)
  let ?entry = "mk_grant (map_option (presented_hash (venv G)) stored) caps key
          (case map_of fl ''audience'' of Some a \<Rightarrow> a | None \<Rightarrow> consumer) until"
  from p have wf: "caps \<noteq> []" "list_all well_formed_capability caps"
    using parse_each_ok by (fastforce simp: parse_capabilities_def split: if_splits)+
  have act: "\<forall>now. clock G = Some now \<longrightarrow> now < UNTIL_REVOKED \<longrightarrow> active (clock G) ?entry"
    using expiry_ok [OF e] by (simp add: active_def get_u64_def)
  have shape: "if list_ex is_acquire caps
        then list_all is_acquire caps \<and> get_str ?entry ''workload_public_key'' \<noteq> None
             \<and> jget ?entry ''hash'' = Some JNull
        else get_str ?entry ''hash'' \<noteq> None \<and> jget ?entry ''workload_public_key'' = Some JNull"
    using m workload_key_ok [OF k] bearer_ok [OF b]
    by (auto simp: check_mix_ok get_str_def json_opt_def split: option.splits)
  have arr: "get_array ?entry ''capabilities'' = Some caps" by simp
  have "\<not> (has_action ''lifecycle'' caps \<and> has_action ''read'' caps)" using m by (simp add: check_mix_ok)
  with hg wf act shape arr show ?thesis
    by (intro exI [of _ ?entry] exI [of _ caps]) (simp del: get_Some mk_grant_get)
qed

section \<open>Ensuring and narrowing\<close>

lemma with_capabilities_get:
  "jget (with_capabilities entry caps) k =
     (if k = ''capabilities'' \<and> (\<exists>m. entry = JObj m) then Some (JArr caps) else jget entry k)"
  by (cases entry) (auto simp: with_capabilities_def map_of_map_insert jget_def)

lemma one_read_capability:
  assumes "one_read E v item fld = Inr cap" and "exact_names3 consumer item fld = Inr u"
  shows "cap = mk_capability ''read'' item (Some fld)"
proof -
  from assms(2) have n: "list_all resource_byte item" "list_all component_byte fld"
    by (auto simp: exact_names3_def exact_resource_def exact_component_def result_simps)
  have sep: "CHR '','' \<notin> set (read_spelling item fld)" "CHR ''#'' \<notin> set item"
    using n resource_byte_plain component_byte_plain
    by (fastforce simp: read_spelling_def list_all_iff)+
  from assms(1) obtain caps where p: "parse_capabilities E v (read_spelling item fld) [] = Inr caps"
    and cap: "caps \<noteq> []" "cap = last caps"
    by (auto simp: one_read_def result_simps split: if_splits)
  then have "parse_each E v [] [] [read_spelling item fld] = Inr caps"
    using sep(1) by (simp add: parse_capabilities_def split_on_no_sep split: if_splits)
  then have "parse_one E v [] [] (read_spelling item fld) = Inr cap"
    using cap by (auto simp: result_simps)
  moreover have "action_parse ''read'' = Some Read" by code_simp
  moreover have "split_once (CHR '':'') (read_spelling item fld) = Some (''read'', item @ ''#'' @ fld)"
    by (simp add: read_spelling_def)
  moreover have "split_target (item @ ''#'' @ fld) = (item, Some fld)"
    using sep(2) by (simp add: split_target_def)
  ultimately show ?thesis
    by (auto simp: parse_one_def Let_def result_simps split: if_splits)
qed

lemma ensure_added:
  assumes "ensure_read_once G consumer item fld token_file h = (Inr answer, h')"
    and "host_grant h consumer = Some entry" and "get_array entry ''capabilities'' = Some held"
    and "mk_capability ''read'' item (Some fld) \<notin> set held"
  shows "host_grant h' consumer = Some (with_capabilities entry (held @ [mk_capability ''read'' item (Some fld)]))"
    and "host_items h' = host_items h"
proof -
  from assms(1) obtain v cap bearer existing held' where v: "open_vault h = Inr v"
    and n: "exact_names3 consumer item fld = Inr ()"
    and one: "one_read (venv G) v item fld = Inr cap"
    and ex: "Option.bind (get_object (doc v) ''tokens'') (\<lambda>t. map_of t consumer) = Some existing"
    and held': "get_array existing ''capabilities'' = Some held'"
    and rest: "(if cap \<in> set held' then ensure_answer G consumer bearer item fld cap ''unchanged'' h
         else answerR h (put_grant consumer (with_capabilities existing (held' @ [cap])) v) (\<lambda>v'.
           case saved G v' h JNull of
             (Inl e, h') \<Rightarrow> (Inl e, h')
           | (Inr _, h') \<Rightarrow> ensure_answer G consumer bearer item fld cap ''added'' h')) = (Inr answer, h')"
    by (auto simp: ensure_read_once_def step_ok held_capabilities_def simp del: get_Some)
  have "existing = entry"
    using tokens_grant [OF ex] host_grant_open [OF v, of consumer] assms(2) by simp
  with held' assms(3) have eh: "existing = entry" "held' = held" by simp_all
  have cap: "cap = mk_capability ''read'' item (Some fld)"
    using one n by (rule one_read_capability)
  from rest cap eh assms(4) obtain v' where
    put: "put_grant consumer (with_capabilities entry (held @ [cap])) v = Inr v'"
    and c: "(case saved G v' h JNull of
             (Inl e, h') \<Rightarrow> (Inl e, h')
           | (Inr _, h') \<Rightarrow> ensure_answer G consumer bearer item fld cap ''added'' h') = (Inr answer, h')"
    by (auto simp: answerR_Inr)
  obtain r h1 where s1: "saved G v' h JNull = (r, h1)" by (cases "saved G v' h JNull")
  with c obtain j where r: "r = Inr j"
    and a: "ensure_answer G consumer bearer item fld cap ''added'' h1 = (Inr answer, h')"
    by (cases r) simp_all
  from s1 r have s: "saved G v' h JNull = (Inr j, h1)" by simp
  have "h' = h1" using a ensure_answer_host [of G consumer bearer item fld cap "''added''" h1] by simp
  with grant_saved [OF v put s] cap
  show "host_grant h' consumer = Some (with_capabilities entry (held @ [mk_capability ''read'' item (Some fld)]))"
    "host_items h' = host_items h"
    by simp_all
qed

lemma narrow_removed:
  assumes "narrow_read_once G consumer item fld h = (Inr answer, h')"
    and "host_grant h consumer = Some entry" and "get_array entry ''capabilities'' = Some held"
  shows "if mk_capability ''read'' item (Some fld) \<in> set held
    then host_grant h' consumer =
           Some (with_capabilities entry (filter (\<lambda>c. c \<noteq> mk_capability ''read'' item (Some fld)) held))
    else h' = h"
proof -
  from assms(1) obtain v cap existing held' where v: "open_vault h = Inr v"
    and n: "exact_names3 consumer item fld = Inr ()"
    and one: "one_read (venv G) v item fld = Inr cap"
    and ex: "Option.bind (get_object (doc v) ''tokens'') (\<lambda>t. map_of t consumer) = Some existing"
    and held': "get_array existing ''capabilities'' = Some held'"
    and rest: "(if length (filter (\<lambda>c. c \<noteq> cap) held') = length held'
          then (Inr (narrow_answer G consumer cap ''absent''), h)
          else answerR h (put_grant consumer (with_capabilities existing (filter (\<lambda>c. c \<noteq> cap) held')) v)
                 (\<lambda>v'. saved G v' h (narrow_answer G consumer cap ''removed''))) = (Inr answer, h')"
    by (auto simp: narrow_read_once_def step_ok held_capabilities_def Let_def simp del: get_Some)
  have eh: "existing = entry" "held' = held"
    using tokens_grant [OF ex] host_grant_open [OF v, of consumer] assms(2,3) held' by simp_all
  have cap: "cap = mk_capability ''read'' item (Some fld)"
    using one n by (rule one_read_capability)
  have len: "length (filter (\<lambda>c. c \<noteq> cap) held) = length held \<longleftrightarrow> cap \<notin> set held"
    by (metis (mono_tags, lifting) filter_True length_filter_less less_irrefl)
  show ?thesis
  proof (cases "cap \<in> set held")
    case False
    with rest len eh have "h' = h" by simp
    with False cap show ?thesis by simp
  next
    case True
    with rest len eh obtain v' where
      put: "put_grant consumer (with_capabilities entry (filter (\<lambda>c. c \<noteq> cap) held)) v = Inr v'"
      and s: "saved G v' h (narrow_answer G consumer cap ''removed'') = (Inr answer, h')"
      by (auto simp: answerR_Inr)
    from grant_saved(1) [OF v put s] True cap show ?thesis by simp
  qed
qed

text \<open>Narrowing is the inverse of ensuring: after a grant is widened by one exact read it
  did not hold and that read is taken out again, the consumer's grant reads exactly as before
  (its bearer, its lifetime and its other capabilities in their order) and so does every other
  grant and every item.\<close>

theorem narrow_undoes_ensure:
  assumes "ensure_read_once G consumer item fld token_file h = (Inr answer, h1)"
    and "narrow_read_once G' consumer item fld h1 = (Inr answer', h2)"
    and "host_grant h consumer = Some entry" and "get_array entry ''capabilities'' = Some held"
    and "mk_capability ''read'' item (Some fld) \<notin> set held"
  shows "(\<exists>again. host_grant h2 consumer = Some again \<and> jget again = jget entry)
     \<and> (\<forall>c. c \<noteq> consumer \<longrightarrow> host_grant h2 c = host_grant h c) \<and> host_items h2 = host_items h"
proof -
  let ?cap = "mk_capability ''read'' item (Some fld)"
  from assms(4) obtain m where m: "entry = JObj m" by (cases entry) (auto simp: jget_def)
  have e1: "host_grant h1 consumer = Some (with_capabilities entry (held @ [?cap]))"
    using assms(1,3,4,5) by (rule ensure_added)
  have a1: "get_array (with_capabilities entry (held @ [?cap])) ''capabilities'' = Some (held @ [?cap])"
    using m by (simp add: with_capabilities_get)
  have f: "filter (\<lambda>c. c \<noteq> ?cap) (held @ [?cap]) = held"
    using assms(5) by (auto simp: filter_id_conv)
  from narrow_removed [OF assms(2) e1 a1] f
  have e2: "host_grant h2 consumer = Some (with_capabilities (with_capabilities entry (held @ [?cap])) held)"
    by simp
  have "jget (with_capabilities (with_capabilities entry (held @ [?cap])) held) = jget entry"
    using assms(4) m by (auto simp: fun_eq_iff with_capabilities_def map_of_map_insert)
  moreover have "host_grant h2 c = host_grant h c" if "c \<noteq> consumer" for c
    using ensure.frame [OF assms(1) that] narrow.frame [OF assms(2) that] by simp
  moreover have "host_items h2 = host_items h"
    using ensure.items_kept [OF assms(1)] narrow.items_kept [OF assms(2)] by simp
  ultimately show ?thesis using e2 by blast
qed

text \<open>Ensuring does not keep the separation issuing enforces: \<open>grant issue\<close> refuses a
  grant that joins driving a credential's lifecycle with reading a value, and \<open>grant ensure\<close>,
  asked to add a read to a grant that drives a lifecycle, succeeds and leaves exactly such a
  grant, which an issue of the same capabilities would refuse.\<close>

theorem ensure_joins_lifecycle_and_read:
  assumes "ensure_read_once G consumer item fld token_file h = (Inr answer, h')"
    and "host_grant h consumer = Some entry" and "get_array entry ''capabilities'' = Some held"
    and "has_action ''lifecycle'' held" and "mk_capability ''read'' item (Some fld) \<notin> set held"
  shows "\<exists>new caps. host_grant h' consumer = Some new \<and> get_array new ''capabilities'' = Some caps
     \<and> has_action ''lifecycle'' caps \<and> has_action ''read'' caps \<and> check_mix caps \<noteq> Inr ()"
proof -
  let ?caps = "held @ [mk_capability ''read'' item (Some fld)]"
  from assms(3) obtain m where "entry = JObj m" by (cases entry) (auto simp: jget_def)
  then have "get_array (with_capabilities entry ?caps) ''capabilities'' = Some ?caps"
    by (simp add: with_capabilities_get)
  moreover have "has_action ''lifecycle'' ?caps" "has_action ''read'' ?caps"
    using assms(4) by (simp_all add: has_action_def del: get_Some)
  moreover have "host_grant h' consumer = Some (with_capabilities entry ?caps)"
    using assms(1,2,3,5) by (rule ensure_added)
  ultimately show ?thesis by (auto simp: check_mix_ok simp del: get_Some)
qed

section \<open>Keeping\<close>

lemma keep_ok:
  assumes "keep_once G consumer h = (Inr answer, h')"
  obtains grant kept where "host_grant h consumer = Some grant"
    "get_str grant ''hash'' \<noteq> None" "\<exists>held. get_array grant ''capabilities'' = Some held \<and> \<not> list_ex is_acquire held"
    "host_grant h' = (host_grant h)(consumer \<mapsto> kept)"
    "jget kept = (jget grant)(''expires_at'' \<mapsto> JUInt UNTIL_REVOKED)"
    "get_u64 grant ''expires_at'' = Some UNTIL_REVOKED \<Longrightarrow> h' = h"
proof -
  from assms obtain v grant held previous a1 ans where v: "open_vault h = Inr v"
    and ex: "Option.bind (get_object (doc v) ''tokens'') (\<lambda>t. map_of t consumer) = Some grant"
    and held: "get_array grant ''capabilities'' = Some held" and na: "\<not> list_ex is_acquire held"
    and hash: "get_str grant ''hash'' \<noteq> None" and prev: "jget grant ''expires_at'' = Some previous"
    and rest: "(if as_u64 previous = Some UNTIL_REVOKED then (Inr a1, h)
        else answerR h (ok_or GrantPanic (jindex_set grant ''expires_at'' (JUInt UNTIL_REVOKED)))
          (\<lambda>kept. answerR h (put_grant consumer kept v) (\<lambda>v'. saved G v' h ans))) = (Inr answer, h')"
    by (auto simp: keep_once_def step_ok held_capabilities_def simp del: get_Some as_Some)
  have hg: "host_grant h consumer = Some grant"
    using tokens_grant [OF ex] host_grant_open [OF v, of consumer] by simp
  show thesis
  proof (cases "as_u64 previous = Some UNTIL_REVOKED")
    case True
    with rest have "h' = h" by simp
    with True prev hg show thesis
      by (intro that [of grant grant] hg hash exI [of _ held] conjI held na) (auto simp: fun_eq_iff)
  next
    case False
    with rest obtain kept v' where
      k: "jindex_set grant ''expires_at'' (JUInt UNTIL_REVOKED) = Some kept"
      and put: "put_grant consumer kept v = Inr v'" and s: "saved G v' h ans = (Inr answer, h')"
      by (auto simp: step_ok)
    show thesis
      by (rule that [OF hg hash _ grant_saved(1) [OF v put s] jindex_set_get [OF k]])
         (use held na False prev in \<open>auto simp: get_u64_def\<close>)
  qed
qed

text \<open>Keeping outlives every clock: after \<open>grant keep\<close> the consumer's grant is in force at
  every instant a clock can read short of the last, with the same bearer and the same
  capabilities, and keeping it again writes nothing.\<close>

theorem keep_until_revoked:
  assumes "keep_once G consumer h = (Inr answer, h')"
  shows "\<exists>old new. host_grant h consumer = Some old \<and> host_grant h' consumer = Some new
     \<and> (\<forall>now. now < UNTIL_REVOKED \<longrightarrow> active (Some now) new)
     \<and> get_str new ''hash'' = get_str old ''hash''
     \<and> get_array new ''capabilities'' = get_array old ''capabilities''
     \<and> (\<forall>G' answer' h''. keep_once G' consumer h' = (Inr answer', h'') \<longrightarrow> h'' = h')"
  using assms
proof (rule keep_ok)
  fix grant kept
  assume g: "host_grant h consumer = Some grant" and hg: "host_grant h' = (host_grant h)(consumer \<mapsto> kept)"
    and jg: "jget kept = (jget grant)(''expires_at'' \<mapsto> JUInt UNTIL_REVOKED)"
  have "h'' = h'" if "keep_once G' consumer h' = (Inr answer', h'')" for G' answer' h''
    using that
  proof (rule keep_ok)
    fix again
    assume "host_grant h' consumer = Some again"
      and "get_u64 again ''expires_at'' = Some UNTIL_REVOKED \<Longrightarrow> h'' = h'"
    with hg jg show "h'' = h'" by (auto simp: get_u64_def)
  qed
  moreover have "\<forall>now. now < UNTIL_REVOKED \<longrightarrow> active (Some now) kept"
    by (simp add: active_def get_u64_def jg)
  ultimately show ?thesis
    using g hg jg by (intro exI [of _ grant] exI [of _ kept]) (auto simp: get_str_def get_array_def)
qed

section \<open>Revoking what has expired\<close>

lemma map_of_drop: "map_of (drop_grants cs tokens) k = (if k \<in> set cs then None else map_of tokens k)"
  unfolding drop_grants_def
  by (induction cs arbitrary: tokens) (simp_all add: map_of_map_remove)

lemma expired_names:
  "distinct (map fst tokens) \<Longrightarrow>
     c \<in> set (map fst (filter (\<lambda>(_, entry). p entry) tokens)) \<longleftrightarrow>
       (\<exists>entry. map_of tokens c = Some entry \<and> p entry)"
  by (force simp: image_iff map_of_eq_Some_iff)

text \<open>\<open>grant revoke --expired\<close> withdraws exactly the grants whose end has passed: a grant
  that still answers is left as it is, one that lives until revoked is never an expired one,
  and none that has expired is left.\<close>

theorem revoke_expired_exact:
  assumes "revoke G seen fl [] h = (Inr answer, h')" and "flag_set fl ''expired''"
    and "clock G = Some now"
    and "get_object d ''tokens'' = Some tokens" and "persisted h = Some d" and "ordered tokens"
  shows "host_grant h' c =
    (case host_grant h c of
       Some entry \<Rightarrow>
         if \<exists>u. get_u64 entry ''expires_at'' = Some u \<and> u \<noteq> UNTIL_REVOKED \<and> u \<le> now
         then None else Some entry
     | None \<Rightarrow> None)"
proof -
  have ex: "has_expired now entry \<longleftrightarrow>
      (\<exists>u. get_u64 entry ''expires_at'' = Some u \<and> u \<noteq> UNTIL_REVOKED \<and> u \<le> now)" for entry
    by (auto simp: has_expired_def split: option.splits simp del: get_Some)
  let ?expired = "map fst (filter (\<lambda>(_, entry). has_expired now entry) tokens)"
  from assms(1) obtain v ans where v: "open_vault h = Inr v"
    and r: "revoke_listed G v tokens h ?expired ans = (Inr answer, h')"
    using assms(2-5) open_vault_ok [of h]
    by (auto simp: revoke_def step_ok)
  have dv: "doc v = d" using open_vault_ok [OF v] assms(5) by simp
  have hg: "host_grant h c = map_of tokens c"
    using assms(4,5) by (simp add: host_grant_def)
  have names: "c \<in> set ?expired \<longleftrightarrow> (\<exists>entry. map_of tokens c = Some entry \<and> has_expired now entry)"
    using expired_names ordered_distinct [OF assms(6)] .
  show ?thesis
  proof (cases "?expired = []")
    case True
    with r have "h' = h" by (simp add: revoke_listed_def)
    with True names hg show ?thesis by (auto simp: ex [symmetric] simp del: get_Some split: option.splits)
  next
    case False
    with r have s: "saved G (put_section ''tokens'' (drop_grants ?expired tokens) v) h ans = (Inr answer, h')"
      unfolding revoke_listed_def by (simp only: if_False)
    have "jget (doc (put_section ''tokens'' (drop_grants ?expired tokens) v)) ''tokens''
        = Some (JObj (drop_grants ?expired tokens))"
      using put_section_jget [of v "''tokens''" tokens] assms(4) dv by simp
    then have "host_grant h' c = map_of (drop_grants ?expired tokens) c"
      using host_grant_saved(1) [OF s] by (simp add: grant_of_def)
    with names hg show ?thesis
      by (auto simp: map_of_drop ex [symmetric] simp del: set_map get_Some split: option.splits)
  qed
qed

section \<open>Asking about a bearer\<close>

text \<open>The two ways of asking about a bearer agree: whatever \<open>introspect\<close> says an unnamed
  bearer is, it is either nothing (inactive) or a consumer for whom the same bearer, presented
  by name, carries exactly the capabilities \<open>introspect\<close> listed.\<close>

theorem introspect_agrees:
  assumes "introspect E now v presented = Inr answer"
    and "get_object (doc v) ''tokens'' = Some tokens" and "ordered tokens"
  shows "answer = inactive_answer
     \<or> (\<exists>consumer caps. get_str answer ''consumer'' = Some consumer
          \<and> get_array answer ''capabilities'' = Some caps
          \<and> capabilities_for E now v consumer presented = Some caps)"
proof (cases "answer = inactive_answer")
  case False
  with assms(1,2) obtain consumer entry audience caps where
    f: "find (\<lambda>(_, entry). get_str entry ''hash'' = Some (presented_hash E presented)) tokens
          = Some (consumer, entry)"
    and act: "active now entry" and caps: "get_array entry ''capabilities'' = Some caps"
    and a: "answer = mk_obj [(''active'', JBool True), (''consumer'', JStr consumer),
          (''audience'', audience), (''capabilities'', JArr caps),
          (''expires_at'', jindex entry ''expires_at'')]"
    by (auto simp: introspect_def simp del: get_Some split: option.splits if_splits prod.splits)
  from f obtain i where i: "i < length tokens" "tokens ! i = (consumer, entry)"
    and hash: "get_str entry ''hash'' = Some (presented_hash E presented)"
    by (auto simp: find_Some_iff simp del: get_Some)
  from i have mem: "(consumer, entry) \<in> set tokens" using nth_mem by fastforce
  have "map_of tokens consumer = Some entry"
    using mem ordered_distinct [OF assms(3)] by simp
  then have "grant_of v consumer = Some entry"
    using assms(2) by (simp add: grant_of_def)
  with act hash caps have "capabilities_for E now v consumer presented = Some caps"
    by (simp add: capabilities_for_def capabilities_for_hash_def del: get_Some)
  moreover have "get_str answer ''consumer'' = Some consumer" "get_array answer ''capabilities'' = Some caps"
    by (simp_all add: a)
  ultimately show ?thesis by blast
qed simp

section \<open>Names nothing answers\<close>

text \<open>\<open>grant list\<close> reports a service call as an item nothing answers: a capability to reach
  a service, or to ask about bearers, names its service where others name an item, so a grant
  holding it is listed as unanswered (and as dangling) unless an item happens to carry the
  service's name. The code's own account is that such a capability is never listed.\<close>

theorem unanswered_lists_services:
  assumes "get_array grant ''capabilities'' = Some caps"
    and "mk_capability (action_str a) service fld \<in> set caps" and "\<not> names_vault_item a"
    and "service \<notin> names"
  shows "service \<in> set (unanswered names grant)"
proof -
  have "\<exists>c \<in> set caps. get_str c ''item'' = Some service"
    using assms(2) mk_capability_get(2) by blast
  then have "service \<in> set (List.map_filter (\<lambda>c. get_str c ''item'') caps)"
    by (auto simp: List.map_filter_def image_iff simp del: get_Some)
  then show ?thesis
    using assms(1,4) by (simp add: unanswered_def del: get_Some)
qed

end
