(* ===== verification/GrantWitness.thy ===== *)
theory GrantWitness
  imports GrantProps
begin

text \<open>The grant properties at a concrete host: the demonstration vault, a clock, two owner files.\<close>

definition demo_genv :: host_env where
  "demo_genv = \<lparr>venv = demo_env, vault_file = ''/v'', clock = Some 100,
     files = (\<lambda>p. if p = ''key'' then Some \<lparr>regular = True, owned = True, shared = False,
                    content = ''-----BEGIN PUBLIC KEY-----k-----END PUBLIC KEY-----''\<rparr>
                  else if p = ''tok'' then Some \<lparr>regular = True, owned = True, shared = False,
                    content = ''bearer''\<rparr> else None),
     key_readable = (\<lambda>k. True), mint_token = Inr ''minted'', journal_refuses = False\<rparr>"

definition demo_flags :: "string \<Rightarrow> flags" where
  "demo_flags caps = [(''capabilities'', caps), (''until-revoked'', ''true''), (''token-file'', ''tok'')]"

definition demo_granted :: host where
  "demo_granted = snd (issue_once demo_genv ''bob'' (demo_flags ''lifecycle:a'') (snd demo_one))"

definition demo_ensured :: "(grant_error + json) \<times> host" where
  "demo_ensured = ensure_read_once demo_genv ''bob'' ''a'' ''value'' ''tok'' demo_granted"

definition ok2 :: "('e + 'a) \<times> 's \<Rightarrow> bool" where
  "ok2 r = (case r of (Inr _, _) \<Rightarrow> True | (Inl _, _) \<Rightarrow> False)"

lemma ok2E: assumes "ok2 r" obtains a where "r = (Inr a, snd r)"
  using assms by (cases r; cases "fst r") (auto simp: ok2_def)

theorem parse_capabilities_sound_witness:
  "\<exists>caps. parse_capabilities demo_env (fst demo_one) ''read:a#value,call:svc#x/y,read:role:mail#value'' []
      = Inr caps \<and> distinct caps \<and> length caps = 3"
proof -
  have ok: "(case parse_capabilities demo_env (fst demo_one)
        ''read:a#value,call:svc#x/y,read:role:mail#value'' [] of Inr c \<Rightarrow> length c = 3 | Inl _ \<Rightarrow> False)"
    by code_simp
  then obtain caps where c: "parse_capabilities demo_env (fst demo_one)
        ''read:a#value,call:svc#x/y,read:role:mail#value'' [] = Inr caps" "length caps = 3"
    by (auto split: sum.splits)
  show ?thesis using parse_capabilities_sound [OF c(1)] c by blast
qed

theorem remint_parses_witness:
  "\<exists>caps. parse_capabilities demo_env (fst demo_one) ''read:a#value'' [] = Inr caps
     \<and> parse_capabilities demo_env (fst demo_start) (spell_all caps) caps = Inr caps
     \<and> isl (parse_capabilities demo_env (fst demo_start) ''read:a#value'' [])"
proof -
  have "\<not> isl (parse_capabilities demo_env (fst demo_one) ''read:a#value'' [])" by code_simp
  then obtain caps where c: "parse_capabilities demo_env (fst demo_one) ''read:a#value'' [] = Inr caps"
    by (cases "parse_capabilities demo_env (fst demo_one) ''read:a#value'' []") auto
  moreover have "isl (parse_capabilities demo_env (fst demo_start) ''read:a#value'' [])" by code_simp
  ultimately show ?thesis using remint_parses [OF c] by blast
qed

lemma demo_issue_ok: "ok2 (issue_once demo_genv ''bob'' (demo_flags ''lifecycle:a'') (snd demo_one))"
  by code_simp

theorem issued_grant_separates_witness:
  "\<exists>entry caps. host_grant demo_granted ''bob'' = Some entry
     \<and> get_array entry ''capabilities'' = Some caps \<and> get_str entry ''hash'' \<noteq> None
     \<and> active (Some 100) entry"
proof (rule ok2E [OF demo_issue_ok])
  fix a
  assume i: "issue_once demo_genv ''bob'' (demo_flags ''lifecycle:a'') (snd demo_one)
      = (Inr a, snd (issue_once demo_genv ''bob'' (demo_flags ''lifecycle:a'') (snd demo_one)))"
  have c: "clock demo_genv = Some 100" by (simp add: demo_genv_def)
  have "(case host_grant demo_granted ''bob'' of
      Some e \<Rightarrow> get_str e ''hash'' \<noteq> None | None \<Rightarrow> False)" by code_simp
  moreover have "(100 :: u64) < UNTIL_REVOKED" by code_simp
  ultimately show ?thesis
    using issued_grant_separates [OF i] c unfolding demo_granted_def [symmetric]
    by (auto simp del: get_Some split: option.splits)
qed

lemma demo_granted_bob:
  "(case host_grant demo_granted ''bob'' of Some e \<Rightarrow>
      get_array e ''capabilities'' = Some [mk_capability ''lifecycle'' ''a'' None] | None \<Rightarrow> False)"
  by code_simp

lemma demo_ensured_ok: "ok2 demo_ensured"
  by code_simp

lemma demo_narrowed_ok: "ok2 (narrow_read_once demo_genv ''bob'' ''a'' ''value'' (snd demo_ensured))"
  by code_simp

lemma demo_new_capability:
  "mk_capability ''read'' ''a'' (Some ''value'') \<notin> set [mk_capability ''lifecycle'' ''a'' None]"
  by (simp add: mk_capability_inj)

theorem narrow_undoes_ensure_witness:
  "\<exists>entry again. host_grant demo_granted ''bob'' = Some entry
     \<and> host_grant (snd (narrow_read_once demo_genv ''bob'' ''a'' ''value'' (snd demo_ensured))) ''bob'' = Some again
     \<and> jget again = jget entry"
proof (rule ok2E [OF demo_ensured_ok], rule ok2E [OF demo_narrowed_ok])
  fix a b
  assume e: "demo_ensured = (Inr a, snd demo_ensured)"
    and n: "narrow_read_once demo_genv ''bob'' ''a'' ''value'' (snd demo_ensured)
      = (Inr b, snd (narrow_read_once demo_genv ''bob'' ''a'' ''value'' (snd demo_ensured)))"
  obtain entry where g: "host_grant demo_granted ''bob'' = Some entry"
      "get_array entry ''capabilities'' = Some [mk_capability ''lifecycle'' ''a'' None]"
    using demo_granted_bob by (auto simp del: get_Some split: option.splits)
  show ?thesis
    using narrow_undoes_ensure [OF e [unfolded demo_ensured_def] n [unfolded demo_ensured_def] g demo_new_capability]
      g(1) unfolding demo_ensured_def by blast
qed

theorem ensure_joins_lifecycle_and_read_witness:
  "\<exists>new caps. host_grant (snd demo_ensured) ''bob'' = Some new \<and> get_array new ''capabilities'' = Some caps
     \<and> has_action ''lifecycle'' caps \<and> has_action ''read'' caps"
proof (rule ok2E [OF demo_ensured_ok])
  fix a
  assume e: "demo_ensured = (Inr a, snd demo_ensured)"
  obtain entry where g: "host_grant demo_granted ''bob'' = Some entry"
      "get_array entry ''capabilities'' = Some [mk_capability ''lifecycle'' ''a'' None]"
    using demo_granted_bob by (auto simp del: get_Some split: option.splits)
  have "has_action ''lifecycle'' [mk_capability ''lifecycle'' ''a'' None]" by code_simp
  then show ?thesis
    using ensure_joins_lifecycle_and_read [OF e [unfolded demo_ensured_def] g _ demo_new_capability]
    unfolding demo_ensured_def by blast
qed

lemma demo_keep_ok: "ok2 (keep_once demo_genv ''bob'' demo_granted)"
  by code_simp

theorem keep_until_revoked_witness:
  "\<exists>new. host_grant (snd (keep_once demo_genv ''bob'' demo_granted)) ''bob'' = Some new
     \<and> active (Some 5000000000) new"
proof (rule ok2E [OF demo_keep_ok])
  fix a
  assume k: "keep_once demo_genv ''bob'' demo_granted = (Inr a, snd (keep_once demo_genv ''bob'' demo_granted))"
  have "(5000000000 :: u64) < UNTIL_REVOKED" by code_simp
  then show ?thesis using keep_until_revoked [OF k] by blast
qed

definition demo_expiring :: host where
  "demo_expiring = snd (issue_once demo_genv ''eve''
     [(''capabilities'', ''read:a#value''), (''ttl-seconds'', ''7''), (''token-file'', ''tok'')] demo_granted)"

definition demo_later :: host_env where
  "demo_later = demo_genv\<lparr>clock := Some 200\<rparr>"

lemma demo_revoke_ok: "ok2 (revoke demo_later (Inr None) [(''expired'', ''true'')] [] demo_expiring)"
  by code_simp

lemma demo_expiring_tokens:
  "(case persisted demo_expiring of Some d \<Rightarrow>
      (case get_object d ''tokens'' of Some t \<Rightarrow> map fst t = [''bob'', ''eve''] | None \<Rightarrow> False)
    | None \<Rightarrow> False)"
  by code_simp

lemma demo_expiring_grants:
  "(case host_grant demo_expiring ''eve'' of Some e \<Rightarrow> has_expired 200 e | None \<Rightarrow> False)"
  "(case host_grant demo_expiring ''bob'' of Some e \<Rightarrow> \<not> has_expired 200 e | None \<Rightarrow> False)"
  by code_simp+

theorem revoke_expired_exact_witness:
  "let h' = snd (revoke demo_later (Inr None) [(''expired'', ''true'')] [] demo_expiring)
   in host_grant h' ''eve'' = None \<and> host_grant h' ''bob'' = host_grant demo_expiring ''bob''"
proof (rule ok2E [OF demo_revoke_ok])
  fix a
  assume r: "revoke demo_later (Inr None) [(''expired'', ''true'')] [] demo_expiring
    = (Inr a, snd (revoke demo_later (Inr None) [(''expired'', ''true'')] [] demo_expiring))"
  obtain d t where d: "persisted demo_expiring = Some d" and t: "get_object d ''tokens'' = Some t"
    and n: "map fst t = [''bob'', ''eve'']"
    using demo_expiring_tokens by (auto simp del: get_Some split: option.splits)
  have "ordered t" unfolding ordered_def n by code_simp
  moreover have "flag_set [(''expired'', ''true'')] ''expired''" by code_simp
  moreover have "clock demo_later = Some 200" by (simp add: demo_later_def)
  ultimately show ?thesis
    using revoke_expired_exact [OF r _ _ t d, of 200 "''eve''"] revoke_expired_exact [OF r _ _ t d, of 200 "''bob''"]
      demo_expiring_grants
    by (auto simp: Let_def has_expired_def simp del: get_Some split: option.splits)
qed

definition demo_open :: vault where
  "demo_open = (case open_vault demo_granted of Inr v \<Rightarrow> v | Inl e \<Rightarrow> fst demo_start)"

lemma demo_introspect_ok:
  "(case introspect demo_env (Some 100) demo_open ''bearer'' of
      Inr a \<Rightarrow> get_str a ''consumer'' = Some ''bob'' \<and> a \<noteq> inactive_answer | Inl _ \<Rightarrow> False)"
  by code_simp

lemma demo_open_tokens:
  "(case get_object (doc demo_open) ''tokens'' of Some t \<Rightarrow> map fst t = [''bob''] | None \<Rightarrow> False)"
  by code_simp

theorem introspect_agrees_witness:
  "\<exists>caps. capabilities_for demo_env (Some 100) demo_open ''bob'' ''bearer'' = Some caps"
proof -
  obtain a where i: "introspect demo_env (Some 100) demo_open ''bearer'' = Inr a"
    and b: "get_str a ''consumer'' = Some ''bob''" "a \<noteq> inactive_answer"
    using demo_introspect_ok by (auto simp del: get_Some split: sum.splits)
  obtain t where t: "get_object (doc demo_open) ''tokens'' = Some t" "map fst t = [''bob'']"
    using demo_open_tokens by (auto simp del: get_Some split: option.splits)
  have "ordered t" unfolding ordered_def t(2) by simp
  with introspect_agrees [OF i t(1)] b show ?thesis by auto
qed

theorem unanswered_lists_services_witness:
  "''brama'' \<in> set (unanswered {''a''}
     (mk_grant None [mk_capability (action_str Call) ''brama'' (Some ''chat/primary'')] None ''bob'' 7))"
  by (rule unanswered_lists_services [of _
        "[mk_capability (action_str Call) ''brama'' (Some ''chat/primary'')]" Call "''brama''" "Some ''chat/primary''"])
     (simp_all add: action_classes)

end
