(* ===== verification/MigrateProps.thy ===== *)
theory MigrateProps
  imports Migrate VaultProps GrantWitness
begin

text \<open>
  What passes the v2 validation: every item a write leaves does, when the item it replaced
  did; a grant that names a role with a field does not, although \<open>grant issue\<close> accepts it.
\<close>

section \<open>Item writes keep the vault valid\<close>

lemma validate_revisions_append:
  "validate_revisions E ident q (rs @ ss) =
     bindR (validate_revisions E ident q rs) (\<lambda>q'. validate_revisions E ident q' ss)"
  by (induction E ident q rs rule: validate_revisions.induct) (auto simp: bindR_def split: sum.splits)

lemma validate_revisions_Some: "validate_revisions E ident q (rs @ [r]) = Inr q' \<Longrightarrow> q' \<noteq> None"
  by (auto simp: validate_revisions_append result_simps)

lemma validate_item_ok:
  assumes "validate_item E ident item = Inr ()"
  obtains kind current number where
    "get_str item ''kind'' = Some kind" "jget item ''current'' = Some (JObj current)"
    "validate_management ident kind item = Inr ()"
    "validate_revisions E ident None (item_history item @ [JObj current]) = Inr (Some number)"
    "get_u64 item ''revision'' = Some number"
proof -
  from assms obtain kind current q where k: "get_str item ''kind'' = Some kind"
    and c: "jget item ''current'' = Some (JObj current)"
    and m: "validate_management ident kind item = Inr ()"
    and r: "validate_revisions E ident None (item_history item @ [JObj current]) = Inr q"
    and q: "get_u64 item ''revision'' = q"
    by (auto simp: validate_item_def result_simps split: if_splits)
  from validate_revisions_Some [OF r] obtain number where "q = Some number" by auto
  with k c m r q that show thesis by simp
qed

lemma stored_history_items:
  assumes "stored_history ident item = Inr hs"
  shows "item_history item = hs"
  using assms by (auto simp: stored_history_def item_history_def get_array_def as_array_def
      split: option.splits json.splits)

lemma validate_management_iff:
  "validate_management ident kind item = Inr () \<longleftrightarrow>
     (\<exists>man mode controller. jget item ''management'' = Some (JObj man)
        \<and> get_str (JObj man) ''mode'' = Some mode \<and> mode_parse mode \<noteq> None
        \<and> get_str (JObj man) ''controller'' = Some controller \<and> controller \<noteq> []
        \<and> (credential_record_kind kind \<longrightarrow>
             mode = mode_str ModeManaged \<and> controller = ''skarbiec-credential-lifecycle''))"
  by (auto simp: validate_management_def result_simps split: option.splits if_splits)

lemma mk_management_valid:
  "controller \<noteq> [] \<Longrightarrow> jget item ''management'' = Some (mk_management m controller) \<Longrightarrow>
     \<not> credential_record_kind kind \<Longrightarrow> validate_management ident kind item = Inr ()"
  unfolding validate_management_iff mk_management_def
  by (intro exI [of _ "[(''controller'', JStr controller), (''mode'', JStr (mode_str m))]"]
       exI [of _ "mode_str m"] exI [of _ controller])
     (auto simp: mk_obj_def mode_parse_str)

lemma validate_management_kind:
  "validate_management ident kind item = Inr () \<Longrightarrow> jget item' ''management'' = jget item ''management'' \<Longrightarrow>
     \<not> credential_record_kind kind' \<Longrightarrow> validate_management ident kind' item' = Inr ()"
  unfolding validate_management_iff by auto

lemma mk_envelope_current:
  "\<exists>m. jget (mk_envelope E uid kind rv man cr rs tags pr wb op ci hist src) ''current'' = Some (JObj m)
     \<and> get_str (JObj m) ''kind'' = Some kind \<and> get_str (JObj m) ''ciphertext'' = Some ci
     \<and> get_u64 (JObj m) ''revision'' = Some rv"
proof -
  let ?l = "[(''revision'', JUInt rv), (''kind'', JStr kind), (''created_at'', JStr (now_iso E)),
     (''written_by'', JStr wb), (''operation_id'', json_opt JStr op), (''ciphertext'', JStr ci)]"
  have c: "jget (mk_envelope E uid kind rv man cr rs tags pr wb op ci hist src) ''current'' = Some (mk_obj ?l)"
    by (simp add: mk_envelope_def map_add_def FINGERPRINT_KEY_def split: option.splits)
  have o: "mk_obj ?l = JObj (fold (\<lambda>(k, v). map_insert k v) ?l [])" by (simp only: mk_obj_def)
  have "get_str (mk_obj ?l) ''kind'' = Some kind" "get_str (mk_obj ?l) ''ciphertext'' = Some ci"
    "get_u64 (mk_obj ?l) ''revision'' = Some rv"
    by simp_all
  with c o show ?thesis by metis
qed

lemma management_valid:
  assumes "management_for v ident controller previous requested = Inr man"
    and "requested = map_option (\<lambda>w. mk_management ModeManaged (mw_controller w)) managed"
    and "jget item ''management'' = Some man" and "\<not> credential_record_kind kind"
    and "controller \<noteq> []" and "\<And>w. managed = Some w \<Longrightarrow> mw_controller w \<noteq> []"
    and "\<And>old. previous = Some old \<Longrightarrow> validate_item E ident old = Inr ()"
  shows "validate_management ident kind item = Inr ()"
proof (cases managed)
  case (Some w)
  with assms(1,2) have "man = mk_management ModeManaged (mw_controller w)"
    by (simp add: management_for_def)
  with assms Some show ?thesis by (auto intro: mk_management_valid)
next
  case None
  show ?thesis
  proof (cases previous)
    case None
    with assms \<open>managed = None\<close> show ?thesis
      by (auto simp: management_for_def intro: mk_management_valid)
  next
    case (Some old)
    with assms None have "jget item ''management'' = jget old ''management''"
      by (simp add: management_for_def result_simps)
    moreover obtain k where "validate_management ident k old = Inr ()"
      using assms(7) [OF Some] by (rule validate_item_ok)
    ultimately show ?thesis using assms(4) validate_management_kind by blast
  qed
qed

lemma revisions_valid:
  assumes "history_for ident previous = Inr hist" and "revision_for ident previous = Inr rv"
    and "\<And>old. previous = Some old \<Longrightarrow> validate_item E ident old = Inr ()"
    and "get_str (JObj m) ''kind'' = Some kind" "get_u64 (JObj m) ''revision'' = Some rv"
    and "valid_payload E (JObj m) kind = Inr ()"
  shows "validate_revisions E ident None (hist @ [JObj m]) = Inr (Some rv)"
proof (cases previous)
  case None
  with assms show ?thesis by (simp add: history_for_def revision_for_def del: get_Some)
next
  case (Some old)
  obtain kind0 current number where c: "jget old ''current'' = Some (JObj current)"
    and r: "validate_revisions E ident None (item_history old @ [JObj current]) = Inr (Some number)"
    and n: "get_u64 old ''revision'' = Some number"
    using assms(3) [OF Some] by (rule validate_item_ok)
  from assms(1) Some c have h: "hist = item_history old @ [JObj current]"
    using stored_history_items by (fastforce simp: history_for_def result_simps)
  from assms(2) Some n have "checked_add number 1 = Some rv"
    by (simp add: revision_for_def result_simps)
  then have lt: "number < rv" by (rule checked_add_gt) simp
  then have "rv \<noteq> 0" by auto
  have "validate_revisions E ident None hist = Inr (Some number)" using r by (simp only: h)
  with lt \<open>rv \<noteq> 0\<close> assms(4-6) show ?thesis
    by (simp add: validate_revisions_append [of E ident None hist] del: get_Some)
qed


section \<open>A grant that is issued and does not validate\<close>

text \<open>Not every grant \<open>grant issue\<close> accepts passes the v2 validation, as the table of
  actions says it does: a capability that names a role and a field of it
  (\<open>acquire:role:mail#password\<close>) is accepted against any vault, and a vault holding a grant
  with it fails \<open>validate_v2\<close>, unless an item's id happens to be that role's coordinate.\<close>

theorem role_capability_fails_validation:
  assumes "names_role a" and "exact_component role" and "exact_component fld"
    and "fld \<noteq> ''context''"
    and "item_entry v (''role:'' @ role) = None"
    and "get_object (doc v) ''tokens'' = Some tokens" and "(consumer, entry) \<in> set tokens"
    and "get_array entry ''capabilities'' = Some caps"
    and "mk_capability (action_str a) (''role:'' @ role) (Some fld) \<in> set caps"
  shows "parse_capabilities E w (respell (action_str a) (''role:'' @ role) (Some fld)) []
           = Inr [mk_capability (action_str a) (''role:'' @ role) (Some fld)]
     \<and> validate_v2 E v \<noteq> Inr ()"
proof
  let ?item = "''role:'' @ role" and ?cap = "mk_capability (action_str a) (''role:'' @ role) (Some fld)"
  have ns: "\<not> reaches_service a" "\<not> forbids_field a" "\<not> files_request a"
    using assms(1) by (auto simp: action_classes)
  have role: "exact_resource ?item"
    using assms(2) by (auto simp: exact_resource_def exact_component_def resource_byte_def component_byte_def
        list_all_iff char_class_defs less_eq_char_def)
  have st: "starts_with ''role:'' ?item" by (simp add: starts_with_iff)
  have sh: "check_shape a ?item (Some fld) = Inr ()"
    using role ns st assms(1,3) by (simp add: check_shape_def field_shape_def)
  have wf: "well_formed_capability ?cap"
    unfolding well_formed_shape using sh ns by blast
  obtain target where t: "respell (action_str a) ?item (Some fld) = action_str a @ '':'' @ target"
    "split_target target = (?item, Some fld)"
    using split_respell [OF sh] by auto
  have so: "split_once (CHR '':'') (respell (action_str a) ?item (Some fld)) = Some (action_str a, target)"
    using t(1) action_str_plain(2) [of a] by simp
  have one: "parse_one E w [] [] (respell (action_str a) ?item (Some fld)) = Inr ?cap"
    using so t(2) sh ns st assms(4) by (simp add: parse_one_def Let_def)
  have plain: "list_all plain_byte (respell (action_str a) ?item (Some fld))"
    "CHR '','' \<notin> set (respell (action_str a) ?item (Some fld))"
    using spell_bytes [OF sh] by simp_all
  have "trim (respell (action_str a) ?item (Some fld)) \<noteq> []"
    using trim_plain [OF plain(1)] by (simp add: respell_def)
  with one plain(2) show "parse_capabilities E w (respell (action_str a) ?item (Some fld)) [] = Inr [?cap]"
    by (simp add: parse_capabilities_def split_on_no_sep)
  show "validate_v2 E v \<noteq> Inr ()"
  proof
    assume "validate_v2 E v = Inr ()"
    then obtain items where i: "get_object (doc v) ''items'' = Some items"
      and vc: "validate_capability E items consumer ?cap = Inr ()"
      using validate_v2_grants [OF _ assms(6-9)] by blast
    have "map_of items ?item = None" using assms(5) i by (simp add: item_entry_def)
    moreover have "future_contract_field ?item (Some fld) = None"
      by (simp add: future_contract_field_def starts_with_def)
    ultimately show False
      using vc ns(1) by (auto simp: validate_capability_def result_simps simp del: get_Some split: if_splits)
  qed
qed

section \<open>At the concrete vault\<close>

lemma demo_old_valid:
  "(case item_entry (dv demo_one) ''a'' of
      Some e \<Rightarrow> validate_item demo_env ''a'' e = Inr () | None \<Rightarrow> False)"
  by code_simp


definition demo_acquire :: vault where
  "demo_acquire =
     (case open_vault (snd (issue_once demo_genv ''acq''
        [(''capabilities'', ''acquire:role:mail#password''), (''workload-public-key-file'', ''key''),
         (''ttl-seconds'', ''5'')] (snd demo_one))) of Inr v \<Rightarrow> v | Inl e \<Rightarrow> fst demo_start)"

lemma demo_acquire_tokens:
  "(case get_object (doc demo_acquire) ''tokens'' of
      Some t \<Rightarrow> length t = 1 \<and> get_array (snd (hd t)) ''capabilities'' =
         Some [mk_capability (action_str Acquire) (''role:'' @ ''mail'') (Some ''password'')]
    | None \<Rightarrow> False)"
  by code_simp

theorem role_capability_fails_validation_witness:
  "parse_capabilities demo_env (dv demo_one) (respell (action_str Acquire) (''role:'' @ ''mail'') (Some ''password'')) []
     = Inr [mk_capability (action_str Acquire) (''role:'' @ ''mail'') (Some ''password'')]
   \<and> validate_v2 demo_env demo_acquire \<noteq> Inr ()"
proof -
  obtain t where t: "get_object (doc demo_acquire) ''tokens'' = Some t" and len: "length t = 1"
    and caps: "get_array (snd (hd t)) ''capabilities'' =
         Some [mk_capability (action_str Acquire) (''role:'' @ ''mail'') (Some ''password'')]"
    using demo_acquire_tokens by (auto simp del: get_Some split: option.splits)
  have mem: "(fst (hd t), snd (hd t)) \<in> set t" using len by (cases t) simp_all
  have pre: "names_role Acquire" "exact_component ''mail''" "exact_component ''password''"
    "item_entry demo_acquire (''role:'' @ ''mail'') = None"
    by code_simp+
  show ?thesis
    using role_capability_fails_validation [OF pre(1-3) _ pre(4) t mem caps]
    by simp
qed

end
