(* ===== verification/Routes.thy ===== *)
theory Routes
  imports VaultItems Text
begin

text \<open>
  Which item and field a resource name reaches: \<open>src/access/route/declaration\<close>,
  \<open>resolution\<close>, \<open>coordinate.rs\<close> and the rows of \<open>table.rs\<close>. Names are answered from what
  the items declare (tags, fields, kind); the table answers what no item can declare. A
  refusal is a sentence in the code and a constructor of \<open>route_refusal\<close> here.
\<close>

datatype (plugins only: code size) route_refusal =
    Several string "string list"
  | NothingDeclares string
  | RowIncomplete string
  | TagUncarried string string
  | TagSeveral string string "string list"
  | ItemUnreadable string vault_error
  | NoFieldsObject string
  | CredentialFields string "string list"
  | AgentUnreadable string vault_error
  | NoVaultItem string
  | NoKindDeclared string
  | NotLogin string string
  | NoLoginField string

definition PROVIDER_TAG :: string where "PROVIDER_TAG = ''brama:provider:''"
definition SUBSCRIPTION_TAG :: string where "SUBSCRIPTION_TAG = ''brama:id:''"
definition AGENT_IDENTITY_KIND :: string where "AGENT_IDENTITY_KIND = ''internal-authority''"
definition AGENT_SECRET_FIELD :: string where "AGENT_SECRET_FIELD = ''agent_auth_secret''"
definition LOGIN_KIND :: string where "LOGIN_KIND = ''login''"
definition PROVIDER_PREFIX :: string where "PROVIDER_PREFIX = ''provider:''"
definition AGENT_PREFIX :: string where "AGENT_PREFIX = ''agent:''"
definition LOGIN_PREFIX :: string where "LOGIN_PREFIX = ''login:''"

definition CREDENTIAL_FIELDS :: "string list" where
  "CREDENTIAL_FIELDS =
     [''api_key'', ''token'', ''access_token'', ''apiKey'', ''key'', ''secret'', ''value'']"

definition LOGIN_FIELDS :: "(string \<times> string) list" where
  "LOGIN_FIELDS =
     [(''username'', ''ADMIN_EMAIL''), (''password'', ''ADMIN_PASSWORD''), (''totp_secret'', ''ADMIN_TOTP'')]"

record target =
  t_item :: string
  t_field :: string
  t_exported :: "string option"
  t_declared_by :: string
  t_item_uid :: "string option"

section \<open>What the items declare\<close>

definition items_of :: "vault \<Rightarrow> obj" where
  "items_of v = (case get_object (doc v) ''items'' of Some m \<Rightarrow> m | None \<Rightarrow> [])"

definition live :: "json \<Rightarrow> bool" where
  "live entry \<longleftrightarrow> get_str entry ''state'' \<noteq> Some ''trashed''"

definition tag_texts :: "json \<Rightarrow> string list" where
  "tag_texts entry = (case get_array entry ''tags'' of Some ts \<Rightarrow> List.map_filter as_str ts | None \<Rightarrow> [])"

definition declared_tags :: "json \<Rightarrow> string \<Rightarrow> string list" where
  "declared_tags entry prefix = List.map_filter (strip_prefix prefix) (tag_texts entry)"

definition carries_tag :: "string \<Rightarrow> json \<Rightarrow> bool" where
  "carries_tag tag entry = list_ex (\<lambda>t. t = tag) (tag_texts entry)"

definition tagged_items :: "vault \<Rightarrow> string \<Rightarrow> string list" where
  "tagged_items v tag =
     sort (map fst (filter (\<lambda>(_, entry). live entry \<and> carries_tag tag entry) (items_of v)))"

text \<open>The provider an item declares, and the subscription beside it; none when its tags are
  not a list of text, or declare no provider, two, or one that is not an exact name.\<close>

definition provider_of :: "string \<Rightarrow> json \<Rightarrow> (string \<times> string option) option" where
  "provider_of ident entry =
     (if isl (entry_texts ident entry ''tags'') then None
      else case declared_tags entry PROVIDER_TAG of
        [provider] \<Rightarrow>
          if \<not> exact_token provider then None
          else (case declared_tags entry SUBSCRIPTION_TAG of
                  [] \<Rightarrow> Some (provider, None)
                | [sub] \<Rightarrow> if exact_token sub then Some (provider, Some sub) else None
                | _ \<Rightarrow> None)
      | _ \<Rightarrow> None)"

definition provider_items :: "vault \<Rightarrow> (string \<times> string \<times> string option) list" where
  "provider_items v =
     sort_key fst
       (List.map_filter (\<lambda>(ident, entry). if live entry then map_option (Pair ident) (provider_of ident entry)
                                          else None) (items_of v))"

definition subscription_matches :: "string option \<Rightarrow> string option \<Rightarrow> bool" where
  "subscription_matches decl asked = (case asked of None \<Rightarrow> True | Some a \<Rightarrow> decl = Some a)"

text \<open>The agent an identity item names, when it carries the agent's secret.\<close>

definition agent_named :: "json \<Rightarrow> string option" where
  "agent_named p =
     Option.bind (get_object p ''fields'') (\<lambda>m.
       if get_str (JObj m) AGENT_SECRET_FIELD = None then None
       else case get_str (JObj m) ''id'' of
         Some n \<Rightarrow> if exact_token n then Some n else None | None \<Rightarrow> None)"

definition is_identity :: "json \<Rightarrow> bool" where
  "is_identity entry \<longleftrightarrow> live entry \<and> get_str entry ''kind'' = Some AGENT_IDENTITY_KIND"

definition agent_step ::
  "env \<Rightarrow> vault \<Rightarrow> string option \<Rightarrow> (string \<times> string) list \<Rightarrow> string \<times> json \<Rightarrow>
   route_refusal + (string \<times> string) list" where
  "agent_step E v asked acc e =
     (case get_item E v (fst e) of
        Inl err \<Rightarrow> Inl (AgentUnreadable (fst e) err)
      | Inr p \<Rightarrow>
          Inr (case agent_named p of
                 None \<Rightarrow> acc
               | Some n \<Rightarrow>
                   if (case asked of Some needle \<Rightarrow> needle \<noteq> n | None \<Rightarrow> False) then acc
                   else acc @ [(n, fst e)]))"

definition agent_items :: "env \<Rightarrow> vault \<Rightarrow> string option \<Rightarrow> route_refusal + (string \<times> string) list"
  where
  "agent_items E v asked =
     bindR (foldR (agent_step E v asked) [] (filter (\<lambda>(_, entry). is_identity entry) (items_of v)))
       (\<lambda>found. Inr (sort_key fst (sort_key snd found)))"

definition credential_field :: "env \<Rightarrow> vault \<Rightarrow> string \<Rightarrow> route_refusal + string" where
  "credential_field E v item =
     bindR (map_err (ItemUnreadable item) (get_item E v item)) (\<lambda>p.
     bindR (ok_or (NoFieldsObject item) (get_object p ''fields'')) (\<lambda>m.
       case filter (\<lambda>n. get_str (JObj m) n \<noteq> None) CREDENTIAL_FIELDS of
         [f] \<Rightarrow> Inr f | fs \<Rightarrow> Inl (CredentialFields item fs)))"

definition login_targets :: "env \<Rightarrow> vault \<Rightarrow> string \<Rightarrow> route_refusal + target list" where
  "login_targets E v item =
     bindR (ok_or (NoVaultItem item)
              (Option.bind (map_of (items_of v) item) (\<lambda>e. if live e then Some e else None))) (\<lambda>entry.
     bindR (ok_or (NoKindDeclared item) (get_str entry ''kind'')) (\<lambda>kind.
       if kind \<noteq> LOGIN_KIND then Inl (NotLogin item kind)
       else bindR (map_err (ItemUnreadable item) (get_item E v item)) (\<lambda>p.
            bindR (ok_or (NoFieldsObject item) (get_object p ''fields'')) (\<lambda>m.
              case filter (\<lambda>(f, _). map_of m f \<noteq> None) LOGIN_FIELDS of
                [] \<Rightarrow> Inl (NoLoginField item)
              | fs \<Rightarrow> Inr (map (\<lambda>(f, x). \<lparr>t_item = item, t_field = f, t_exported = Some x,
                                          t_declared_by = ''kind'', t_item_uid = None\<rparr>) fs)))))"

section \<open>Resolving one name\<close>

definition declared_target :: "string \<Rightarrow> string \<Rightarrow> string \<Rightarrow> target" where
  "declared_target item fld by =
     \<lparr>t_item = item, t_field = fld, t_exported = None, t_declared_by = by, t_item_uid = None\<rparr>"

definition table_targets :: "vault \<Rightarrow> string \<Rightarrow> obj \<Rightarrow> route_refusal + target list" where
  "table_targets v name table =
     bindR (ok_or (NothingDeclares name) (map_of table name)) (\<lambda>entry.
     bindR (ok_or (RowIncomplete name) (get_str entry ''field'')) (\<lambda>fld.
       case get_str entry ''tag'' of
         Some tag \<Rightarrow>
           (case tagged_items v tag of
              [item] \<Rightarrow> Inr [declared_target item fld ''tag'']
            | [] \<Rightarrow> Inl (TagUncarried name tag)
            | several \<Rightarrow> Inl (TagSeveral name tag several))
       | None \<Rightarrow>
           bindR (ok_or (RowIncomplete name) (get_str entry ''item'')) (\<lambda>item.
             Inr [\<lparr>t_item = item, t_field = fld, t_exported = None, t_declared_by = ''table'',
                   t_item_uid = get_str entry ''item_uid''\<rparr>])))"

definition provider_candidates :: "vault \<Rightarrow> string \<Rightarrow> string list" where
  "provider_candidates v rest =
     (let (provider, sub) = (case split_once (CHR '':'') rest of
                               Some (p, i) \<Rightarrow> (p, Some i) | None \<Rightarrow> (rest, None))
      in map fst (filter (\<lambda>(_, p, s). p = provider \<and> subscription_matches s sub) (provider_items v)))"

definition targets :: "env \<Rightarrow> vault \<Rightarrow> string \<Rightarrow> obj \<Rightarrow> route_refusal + target list" where
  "targets E v name table =
     (case strip_prefix PROVIDER_PREFIX name of
        Some rest \<Rightarrow>
          (case provider_candidates v rest of
             [] \<Rightarrow> table_targets v name table
           | [item] \<Rightarrow> bindR (credential_field E v item) (\<lambda>f. Inr [declared_target item f ''tags''])
           | several \<Rightarrow> Inl (Several name several))
      | None \<Rightarrow>
      (case strip_prefix AGENT_PREFIX name of
        Some agent \<Rightarrow>
          bindR (agent_items E v (Some agent)) (\<lambda>found.
            case map snd found of
              [] \<Rightarrow> table_targets v name table
            | [item] \<Rightarrow> Inr [declared_target item AGENT_SECRET_FIELD ''fields'']
            | several \<Rightarrow> Inl (Several name several))
      | None \<Rightarrow>
      (case strip_prefix LOGIN_PREFIX name of
        Some item \<Rightarrow> login_targets E v item
      | None \<Rightarrow>
      (case split_once (CHR ''#'') name of
        Some (item, fld) \<Rightarrow> Inr [declared_target item fld ''name'']
      | None \<Rightarrow> table_targets v name table))))"

definition route_names :: "env \<Rightarrow> vault \<Rightarrow> obj \<Rightarrow> route_refusal + string list" where
  "route_names E v table =
     bindR (agent_items E v None) (\<lambda>agents.
       Inr (remdups_adj (sort
         (concat (map (\<lambda>(_, p, s). (PROVIDER_PREFIX @ p) #
                        (case s of Some i \<Rightarrow> [PROVIDER_PREFIX @ p @ '':'' @ i] | None \<Rightarrow> []))
                   (provider_items v))
          @ map (\<lambda>(a, _). AGENT_PREFIX @ a) agents @ map fst table))))"

text \<open>\<open>coordinate_for\<close>: the one coordinate a capability is issued against, or the refusal.\<close>

definition coordinate_for :: "env \<Rightarrow> vault \<Rightarrow> obj \<Rightarrow> string \<Rightarrow> route_refusal + string \<times> string" where
  "coordinate_for E v table resource =
     bindR (targets E v resource table) (\<lambda>ts.
       case ts of [] \<Rightarrow> Inl (NothingDeclares resource) | t # _ \<Rightarrow> Inr (t_item t, t_field t))"

section \<open>Whether a coordinate hands out a usable credential\<close>

fun blank :: "json \<Rightarrow> bool" where
  "blank JNull = True"
| "blank (JStr s) = (trim s = [])"
| "blank (JArr xs) = list_all blank xs"
| "blank (JObj m) = list_all (\<lambda>kv. blank (snd kv)) m"
| "blank (JBool b) = False"
| "blank (JUInt n) = False"
| "blank (JNegInt i) = False"
| "blank (JFloat f) = False"

datatype (plugins only: code size) problem =
    Renamed string string
  | Absent string
  | Trashed string
  | Unopened string vault_error
  | NoSuchField string string
  | FieldUnreadable string string
  | NotText string string
  | Placeholder string string
  | Empty string string

record coord =
  item_present :: bool
  field_present :: bool
  problem_of :: "problem option"

definition usable_field :: "string \<Rightarrow> string \<Rightarrow> json \<Rightarrow> problem option" where
  "usable_field item fld p =
     (case field p fld of
        Inl e \<Rightarrow> Some (if isl (Schema.fields p) then FieldUnreadable item fld else NoSuchField item fld)
      | Inr value' \<Rightarrow>
          if value' = JNull then Some (NotText item fld)
          else if (case value' of JStr t \<Rightarrow> is_placeholder (trim t) | _ \<Rightarrow> False)
          then Some (Placeholder item fld)
          else if blank value' then Some (Empty item fld)
          else None)"

definition stored_problem :: "vault \<Rightarrow> string \<Rightarrow> string option \<Rightarrow> problem option" where
  "stored_problem v item item_uid =
     (case item_entry v item of
        None \<Rightarrow> Some (case Option.bind item_uid (id_for_item_uid v) of
                         Some found \<Rightarrow> Renamed item found | None \<Rightarrow> Absent item)
      | Some entry \<Rightarrow> if get_str entry ''state'' = Some ''trashed'' then Some (Trashed item) else None)"

type_synonym opened = "(string \<times> (vault_error + json)) list"

definition open_once :: "env \<Rightarrow> vault \<Rightarrow> opened \<Rightarrow> string \<Rightarrow> (vault_error + json) \<times> opened" where
  "open_once E v seen item =
     (case map_of seen item of
        Some r \<Rightarrow> (r, seen)
      | None \<Rightarrow> (get_item E v item, (item, get_item E v item) # seen))"

definition coordinate ::
  "env \<Rightarrow> vault \<Rightarrow> opened \<Rightarrow> string \<Rightarrow> string \<Rightarrow> string option \<Rightarrow> coord \<times> opened" where
  "coordinate E v seen item fld item_uid =
     (case stored_problem v item item_uid of
        Some pr \<Rightarrow> (\<lparr>item_present = False, field_present = False, problem_of = Some pr\<rparr>, seen)
      | None \<Rightarrow>
          (case open_once E v seen item of
             (Inl e, seen') \<Rightarrow>
               (\<lparr>item_present = False, field_present = False, problem_of = Some (Unopened item e)\<rparr>, seen')
           | (Inr p, seen') \<Rightarrow>
               (let pr = usable_field item fld p
                in (\<lparr>item_present = True, field_present = (pr = None), problem_of = pr\<rparr>, seen'))))"

section \<open>Rows: every name with the vault's answer\<close>

record row =
  r_resource :: string
  r_item :: string
  r_field :: string
  r_exported :: "string option"
  r_declared_by :: string
  r_item_present :: bool
  r_field_present :: bool
  r_problem :: "(route_refusal + problem) option"

definition refused_row :: "string \<Rightarrow> route_refusal \<Rightarrow> row" where
  "refused_row name e =
     \<lparr>r_resource = name, r_item = [], r_field = [], r_exported = None, r_declared_by = ''nothing'',
      r_item_present = False, r_field_present = False, r_problem = Some (Inl e)\<rparr>"

definition target_row :: "string \<Rightarrow> target \<Rightarrow> coord \<Rightarrow> row" where
  "target_row name t answer =
     \<lparr>r_resource = name, r_item = t_item t, r_field = t_field t, r_exported = t_exported t,
      r_declared_by = t_declared_by t, r_item_present = item_present answer,
      r_field_present = field_present answer, r_problem = map_option Inr (problem_of answer)\<rparr>"

fun target_rows :: "env \<Rightarrow> vault \<Rightarrow> string \<Rightarrow> opened \<Rightarrow> target list \<Rightarrow> row list \<times> opened" where
  "target_rows E v name seen [] = ([], seen)"
| "target_rows E v name seen (t # ts) =
     (let (answer, seen1) = coordinate E v seen (t_item t) (t_field t) (t_item_uid t);
          (rest, seen2) = target_rows E v name seen1 ts
      in (target_row name t answer # rest, seen2))"

fun route_rows :: "env \<Rightarrow> vault \<Rightarrow> obj \<Rightarrow> opened \<Rightarrow> string list \<Rightarrow> row list \<times> opened" where
  "route_rows E v table seen [] = ([], seen)"
| "route_rows E v table seen (name # names) =
     (let (now, seen1) = (case targets E v name table of
                            Inl e \<Rightarrow> ([refused_row name e], seen)
                          | Inr ts \<Rightarrow> target_rows E v name seen ts);
          (rest, seen2) = route_rows E v table seen1 names
      in (now @ rest, seen2))"

definition verify_report :: "env \<Rightarrow> vault \<Rightarrow> obj \<Rightarrow> string option \<Rightarrow> route_refusal + nat \<times> row list" where
  "verify_report E v table consumer =
     bindR (route_names E v table) (\<lambda>names.
       let rows = fst (route_rows E v table []
                    (filter (\<lambda>n. case consumer of Some c \<Rightarrow> contains_text c n | None \<Rightarrow> True) names))
       in Inr (length rows, filter (\<lambda>r. r_problem r \<noteq> None) rows))"

section \<open>The hand-declared table\<close>

datatype table_error =
    RepointsLiveRoute string string
  | TableNotObject
  | PublishFailed
  | RowJournalRefused

record table_host =
  table_doc :: "json option"
  publish_refused :: bool
  row_journal_refuses :: bool

definition load_table :: "table_host \<Rightarrow> table_error + obj" where
  "load_table T =
     (case table_doc T of None \<Rightarrow> Inr [] | Some (JObj m) \<Rightarrow> Inr m | Some _ \<Rightarrow> Inl TableNotObject)"

definition route_row :: "vault \<Rightarrow> string \<Rightarrow> string \<Rightarrow> json" where
  "route_row v item fld =
     mk_obj ([(''item'', JStr item), (''field'', JStr fld)]
       @ (case Option.bind (item_entry v item) entry_item_uid of
            Some u \<Rightarrow> [(''item_uid'', JStr u)] | None \<Rightarrow> []))"

definition publish :: "table_host \<Rightarrow> obj \<Rightarrow> table_error + table_host" where
  "publish T table =
     (if publish_refused T then Inl PublishFailed else Inr (T\<lparr>table_doc := Some (JObj table)\<rparr>))"

definition same_answer :: "vault option \<Rightarrow> json \<Rightarrow> string \<Rightarrow> string \<Rightarrow> string \<Rightarrow> bool" where
  "same_answer v existing key val fld \<longleftrightarrow>
     key = ''tag'' \<and> get_str existing ''field'' = Some fld
     \<and> (case (get_str existing ''item'', v) of
          (Some item, Some w) \<Rightarrow> tagged_items w val = [item] | _ \<Rightarrow> False)"

text \<open>The answer is whether a row was written.\<close>

definition write_row ::
  "string \<Rightarrow> string \<Rightarrow> string \<Rightarrow> string \<Rightarrow> vault option \<Rightarrow> table_host \<Rightarrow>
   (table_error + bool) \<times> table_host" where
  "write_row resource key val fld v T =
     (case load_table T of
        Inl e \<Rightarrow> (Inl e, T)
      | Inr table \<Rightarrow>
          (let existing = map_of table resource;
               row = (case (key = ''item'', v) of
                        (True, Some w) \<Rightarrow> route_row w val fld
                      | _ \<Rightarrow> mk_obj [(key, JStr val), (''field'', JStr fld)]);
               write = (case publish T (map_insert resource row table) of
                          Inl e \<Rightarrow> (Inl e, T)
                        | Inr T' \<Rightarrow> (if row_journal_refuses T then (Inl RowJournalRefused, T') else (Inr True, T')))
           in case existing of
                None \<Rightarrow> write
              | Some old \<Rightarrow>
                  if get_str old key = Some val \<and> get_str old ''field'' = Some fld then (Inr False, T)
                  else if \<not> same_answer v old key val fld then (Inl (RepointsLiveRoute resource val), T)
                  else write))"

definition remove_row :: "string \<Rightarrow> table_host \<Rightarrow> (table_error + bool) \<times> table_host" where
  "remove_row resource T =
     (case load_table T of
        Inl e \<Rightarrow> (Inl e, T)
      | Inr table \<Rightarrow>
          (if map_of table resource = None then (Inr False, T)
           else case publish T (map_remove resource table) of
             Inl e \<Rightarrow> (Inl e, T)
           | Inr T' \<Rightarrow> (if row_journal_refuses T then (Inl RowJournalRefused, T') else (Inr True, T'))))"

end
