(* ===== verification/RouteProps.thy ===== *)
theory RouteProps
  imports Routes VaultProps
begin

text \<open>
  What resolution promises: opening each item once changes no answer, and a rename moves no
  declared route.
\<close>

section \<open>Opening each item once\<close>

definition faithful_cache :: "env \<Rightarrow> vault \<Rightarrow> opened \<Rightarrow> bool" where
  "faithful_cache E v seen \<longleftrightarrow> (\<forall>i r. map_of seen i = Some r \<longrightarrow> r = get_item E v i)"

lemma open_once_answer:
  "faithful_cache E v seen \<Longrightarrow>
     fst (open_once E v seen i) = get_item E v i \<and> faithful_cache E v (snd (open_once E v seen i))"
  by (auto simp: open_once_def faithful_cache_def split: option.splits)

lemma coordinate_answer:
  assumes "faithful_cache E v seen"
  shows "fst (coordinate E v seen i f u) = fst (coordinate E v [] i f u)
     \<and> faithful_cache E v (snd (coordinate E v seen i f u))"
proof (cases "stored_problem v i u")
  case (Some pr)
  with assms show ?thesis by (simp add: coordinate_def)
next
  case None
  have e: "faithful_cache E v []" by (simp add: faithful_cache_def)
  obtain r s where rs: "open_once E v seen i = (r, s)" by (cases "open_once E v seen i")
  obtain r0 s0 where rs0: "open_once E v [] i = (r0, s0)" by (cases "open_once E v [] i")
  have "r = get_item E v i" "faithful_cache E v s" "r0 = get_item E v i"
    using open_once_answer [OF assms, of i] open_once_answer [OF e, of i] rs rs0 by simp_all
  with None rs rs0 show ?thesis by (simp add: coordinate_def Let_def split: sum.splits)
qed

lemma target_rows_answer:
  "faithful_cache E v seen \<Longrightarrow>
     fst (target_rows E v name seen ts) =
       map (\<lambda>t. target_row name t (fst (coordinate E v [] (t_item t) (t_field t) (t_item_uid t)))) ts
     \<and> faithful_cache E v (snd (target_rows E v name seen ts))"
proof (induction ts arbitrary: seen)
  case (Cons t ts)
  obtain a s where as: "coordinate E v seen (t_item t) (t_field t) (t_item_uid t) = (a, s)"
    by (cases "coordinate E v seen (t_item t) (t_field t) (t_item_uid t)")
  with coordinate_answer [OF Cons.prems] have a:
    "a = fst (coordinate E v [] (t_item t) (t_field t) (t_item_uid t))" and s: "faithful_cache E v s"
    by (metis fst_conv, metis snd_conv)
  from Cons.IH [OF s] as a show ?case by (auto simp: Let_def split: prod.splits)
qed simp

text \<open>Opening each item at most once for a whole listing changes no row: every row says what
  a fresh resolution of its own coordinate would say, whatever was opened before it.\<close>

theorem rows_as_if_opened_each_time:
  "fst (route_rows E v table [] names) =
     concat (map (\<lambda>name. case targets E v name table of
                    Inl e \<Rightarrow> [refused_row name e]
                  | Inr ts \<Rightarrow> map (\<lambda>t. target_row name t
                      (fst (coordinate E v [] (t_item t) (t_field t) (t_item_uid t)))) ts) names)"
proof -
  have "faithful_cache E v seen \<Longrightarrow> fst (route_rows E v table seen names) =
     concat (map (\<lambda>name. case targets E v name table of
                    Inl e \<Rightarrow> [refused_row name e]
                  | Inr ts \<Rightarrow> map (\<lambda>t. target_row name t
                      (fst (coordinate E v [] (t_item t) (t_field t) (t_item_uid t)))) ts) names)" for seen
  proof (induction names arbitrary: seen)
    case (Cons name names)
    show ?case
    proof (cases "targets E v name table")
      case (Inl e)
      with Cons.IH [OF Cons.prems] show ?thesis by (auto simp: Let_def split: prod.splits)
    next
      case (Inr ts)
      obtain rs s where rs: "target_rows E v name seen ts = (rs, s)"
        by (cases "target_rows E v name seen ts")
      with target_rows_answer [OF Cons.prems, of name ts]
      have "rs = map (\<lambda>t. target_row name t
              (fst (coordinate E v [] (t_item t) (t_field t) (t_item_uid t)))) ts"
        and s: "faithful_cache E v s" by simp_all
      with Cons.IH [OF s] Inr rs show ?thesis by (auto simp: Let_def split: prod.splits)
    qed
  qed simp
  then show ?thesis by (simp add: faithful_cache_def)
qed

section \<open>A rename moves no declared route\<close>

definition moved_id :: "string \<Rightarrow> string \<Rightarrow> string \<Rightarrow> string" where
  "moved_id src dst i = (if i = src then dst else i)"

text \<open>What a successful rename leaves: the entry under its new id, with everything a route
  reads of it as it was.\<close>

lemma jindex_set_frame: "jindex_set j k x = Some j' \<Longrightarrow> k' \<noteq> k \<Longrightarrow> jget j' k' = jget j k'"
  by (drule jindex_set_get) simp

lemma renamed_entry_frame:
  assumes "renamed_entry E entry = Inr (uid, e)" and "k \<noteq> ''updated_at''" and "k \<noteq> ''item_uid''"
  shows "jget e k = jget entry k"
  using assms by (auto simp: renamed_entry_def result_simps jindex_set_frame split: option.splits)

lemma rename_item_ok:
  assumes "rename_item E src dst v h = (Inr uid, v', h')"
  obtains items entry e where "get_object (doc v) ''items'' = Some items"
    "map_of items src = Some entry" "map_of items dst = None" "src \<noteq> dst"
    "get_object (doc v') ''items'' = Some (map_insert dst e (map_remove src items))"
    "\<And>k. k \<noteq> ''updated_at'' \<Longrightarrow> k \<noteq> ''item_uid'' \<Longrightarrow> jget e k = jget entry k"
    "uid \<noteq> [] \<Longrightarrow> entry_item_uid e = Some uid" "entry_item_uid entry \<noteq> None \<Longrightarrow> entry_item_uid entry = Some uid"
proof -
  from assms obtain items entry e v1 where i: "get_object (doc v) ''items'' = Some items"
    and s: "map_of items src = Some entry" and d: "map_of items dst = None" and ne: "src \<noteq> dst"
    and r: "renamed_entry E entry = Inr (uid, e)"
    and v1: "v1 = put_section ''items'' (map_insert dst e (map_remove src items)) v"
    and sv: "\<exists>u. save v1 h = (Inr u, v', h')"
    by (auto simp: rename_item_def result_simps simp del: get_Some split: sum.splits prod.splits if_splits)
  have "get_object (doc v') ''items'' = get_object (doc v1) ''items''"
    using sv get_object_save by fastforce
  also have "\<dots> = Some (map_insert dst e (map_remove src items))"
    using get_object_put [OF i] by (simp add: v1)
  finally have i': "get_object (doc v') ''items'' = Some (map_insert dst e (map_remove src items))" .
  have "uid \<noteq> [] \<Longrightarrow> entry_item_uid e = Some uid"
    using r by (auto simp: renamed_entry_def result_simps entry_item_uid_def split: option.splits if_splits
        dest!: jindex_set_get)
  moreover have "entry_item_uid entry \<noteq> None \<Longrightarrow> entry_item_uid entry = Some uid"
    using r by (auto simp: renamed_entry_def result_simps)
  ultimately show thesis
    using that [OF i s d ne i'] renamed_entry_frame [OF r] by blast
qed

definition names_where :: "(json \<Rightarrow> bool) \<Rightarrow> obj \<Rightarrow> string list" where
  "names_where q items = map fst (filter (\<lambda>(_, x). q x) items)"

lemma names_where_set:
  "ordered items \<Longrightarrow> set (names_where q items) = {i. \<exists>x. map_of items i = Some x \<and> q x}"
  using ordered_distinct [of items] by (force simp: names_where_def map_of_eq_Some_iff image_iff)

lemma names_where_distinct: "ordered items \<Longrightarrow> distinct (names_where q items)"
  unfolding names_where_def by (intro distinct_map_filter ordered_distinct)

lemma singleton_list: "distinct xs \<Longrightarrow> set xs = {a} \<longleftrightarrow> xs = [a]"
  by (cases xs; cases "tl xs") auto

lemma renamed_where:
  assumes "map_of items src = Some entry" and "map_of items dst = None" and "src \<noteq> dst"
    and "q e = q entry"
  shows "{i. \<exists>x. map_of (map_insert dst e (map_remove src items)) i = Some x \<and> q x}
       = moved_id src dst ` {i. \<exists>x. map_of items i = Some x \<and> q x}"
  using assms by (auto simp: map_of_map_insert map_of_map_remove moved_id_def image_iff split: if_splits)

lemma isl_texts:
  "isl (mapR (\<lambda>each. ok_or (f each) (as_str each)) ts) = isl (mapR (\<lambda>each. ok_or (g each) (as_str each)) ts)"
proof (induction ts)
  case (Cons t ts)
  show ?case
  proof (cases "as_str t")
    case (Some x)
    with Cons show ?thesis
      by (cases "mapR (\<lambda>each. ok_or (f each) (as_str each)) ts";
          cases "mapR (\<lambda>each. ok_or (g each) (as_str each)) ts") simp_all
  qed simp
qed simp

lemma provider_of_cong:
  assumes "jget y ''tags'' = jget x ''tags''"
  shows "provider_of j y = provider_of i x"
proof -
  have e: "isl (mapR (\<lambda>each. ok_or (TextsNotText j ''tags'') (as_str each)) ts)
      = isl (mapR (\<lambda>each. ok_or (TextsNotText i ''tags'') (as_str each)) ts)" for ts
    by (rule isl_texts)
  have "isl (entry_texts j y ''tags'') = isl (entry_texts i x ''tags'')"
    using assms by (auto simp: entry_texts_def e split: option.splits json.splits)
  moreover have "declared_tags y = declared_tags x"
    using assms by (intro ext) (simp add: declared_tags_def tag_texts_def get_array_def)
  ultimately show ?thesis unfolding provider_of_def by (simp only:)
qed

definition answers_provider :: "string \<Rightarrow> json \<Rightarrow> bool" where
  "answers_provider rest x \<longleftrightarrow> live x \<and>
     (case provider_of [] x of None \<Rightarrow> False
      | Some (p, s) \<Rightarrow>
          (case split_once (CHR '':'') rest of
             Some (provider, sub) \<Rightarrow> p = provider \<and> subscription_matches s (Some sub)
           | None \<Rightarrow> p = rest \<and> subscription_matches s None))"

lemma provider_candidates_where:
  assumes "ordered (items_of v)"
  shows "set (provider_candidates v rest) = {i. \<exists>x. map_of (items_of v) i = Some x \<and> answers_provider rest x}"
    and "distinct (provider_candidates v rest)"
proof -
  define g where "g = provider_of []"
  have any: "provider_of i x = g x" for i x unfolding g_def by (rule provider_of_cong) simp
  have mem: "(i, p, s) \<in> set (provider_items v) \<longleftrightarrow>
      (\<exists>x. map_of (items_of v) i = Some x \<and> live x \<and> g x = Some (p, s))" for i p s
  proof -
    have "(i, r) \<in> set (List.map_filter (\<lambda>(ident, entry). if live entry
          then map_option (Pair ident) (provider_of ident entry) else None) items)
        \<longleftrightarrow> (\<exists>x. (i, x) \<in> set items \<and> live x \<and> g x = Some r)" for r items
      by (induction items) (auto simp: List.map_filter_simps any split: option.splits if_splits)
    then show ?thesis
      using ordered_distinct [OF assms] by (simp add: provider_items_def map_of_eq_Some_iff)
  qed
  obtain pr sb where ps: "(case split_once (CHR '':'') rest of
      Some (p, i) \<Rightarrow> (p, Some i) | None \<Rightarrow> (rest, None)) = (pr, sb)"
    by (cases "split_once (CHR '':'') rest") auto
  have cand: "provider_candidates v rest =
      map fst (filter (\<lambda>(_, p, s). p = pr \<and> subscription_matches s sb) (provider_items v))"
    by (simp only: provider_candidates_def ps Let_def prod.case)
  have ans: "answers_provider rest x \<longleftrightarrow>
      live x \<and> (\<exists>s. g x = Some (pr, s) \<and> subscription_matches s sb)" for x
    using ps unfolding answers_provider_def any
    by (cases "split_once (CHR '':'') rest"; cases "g x") auto
  show "set (provider_candidates v rest) = {i. \<exists>x. map_of (items_of v) i = Some x \<and> answers_provider rest x}"
  proof (intro set_eqI iffI)
    fix i assume "i \<in> set (provider_candidates v rest)"
    then obtain s where "(i, pr, s) \<in> set (provider_items v)" "subscription_matches s sb"
      unfolding cand by auto
    with mem [of i pr s] ans show "i \<in> {i. \<exists>x. map_of (items_of v) i = Some x \<and> answers_provider rest x}"
      by blast
  next
    fix i assume "i \<in> {i. \<exists>x. map_of (items_of v) i = Some x \<and> answers_provider rest x}"
    then obtain s where "(i, pr, s) \<in> set (provider_items v)" "subscription_matches s sb"
      using mem ans by blast
    then have "fst (i, pr, s) \<in> set (provider_candidates v rest)"
      unfolding cand set_map set_filter by (intro imageI) simp
    then show "i \<in> set (provider_candidates v rest)" by simp
  qed
  have key: "map fst (List.map_filter (\<lambda>(ident, entry). if live entry then map_option (Pair ident) (provider_of ident entry)
       else None) items) = names_where (\<lambda>x. live x \<and> g x \<noteq> None) items" for items
    by (induction items) (auto simp: List.map_filter_simps names_where_def any split: option.splits if_splits)
  let ?ys = "List.map_filter (\<lambda>(ident, entry). if live entry then map_option (Pair ident) (provider_of ident entry)
       else None) (items_of v)"
  have "distinct (map fst ?ys)"
    unfolding key using assms by (rule names_where_distinct)
  then have "distinct (map fst (provider_items v))"
    by (simp add: provider_items_def distinct_map)
  then show "distinct (provider_candidates v rest)"
    unfolding cand by (rule distinct_map_filter)
qed

lemma get_item_cong:
  assumes "item_entry v' j = Some e" and "item_entry v i = Some x"
    and "\<And>k. k \<noteq> ''updated_at'' \<Longrightarrow> k \<noteq> ''item_uid'' \<Longrightarrow> jget e k = jget x k"
    and "get_item E v i = Inr p"
  shows "get_item E v' j = Inr p"
proof -
  have "get_u64 e ''format'' = get_u64 x ''format''" "get_str e ''state'' = get_str x ''state''"
    "get_str e ''kind'' = get_str x ''kind''" "jget e ''current'' = jget x ''current''"
    using assms(3) by (simp_all add: get_u64_def get_str_def)
  with assms(1,2,4) show ?thesis
    by (simp add: get_item_def del: get_Some split: if_splits)
qed

lemma credential_field_cong:
  assumes "credential_field E v i = Inr f" and "\<And>p. get_item E v i = Inr p \<Longrightarrow> get_item E v' j = Inr p"
  shows "credential_field E v' j = Inr f"
proof (cases "get_item E v i")
  case (Inl e)
  with assms(1) show ?thesis by (simp add: credential_field_def)
next
  case (Inr p)
  with assms obtain m where m: "get_object p ''fields'' = Some m" "get_item E v' j = Inr p"
    by (cases "get_object p ''fields''") (simp_all add: credential_field_def del: get_Some)
  let ?fs = "filter (\<lambda>n. get_str (JObj m) n \<noteq> None) CREDENTIAL_FIELDS"
  have "?fs = [f]"
    using assms(1) Inr m by (cases ?fs; cases "tl ?fs") (simp_all add: credential_field_def del: get_Some)
  then show ?thesis using m by (simp add: credential_field_def del: get_Some)
qed

lemma items_of_entry: "item_entry v i = map_of (items_of v) i"
  using previous_entry [of v i]
  by (cases "get_object (doc v) ''items''") (simp_all add: items_of_def del: get_Some)

lemma renamed_entries:
  assumes "rename_item E src dst v h = (Inr uid, v', h')" and "map_of (items_of v) i = Some x"
  shows "\<exists>e. item_entry v' (moved_id src dst i) = Some e
     \<and> (\<forall>k. k \<noteq> ''updated_at'' \<longrightarrow> k \<noteq> ''item_uid'' \<longrightarrow> jget e k = jget x k)"
  using assms(1)
proof (rule rename_item_ok)
  fix items entry e
  assume i: "get_object (doc v) ''items'' = Some items" and s: "map_of items src = Some entry"
    and d: "map_of items dst = None" and "src \<noteq> dst"
    and i': "get_object (doc v') ''items'' = Some (map_insert dst e (map_remove src items))"
    and e: "\<And>k. k \<noteq> ''updated_at'' \<Longrightarrow> k \<noteq> ''item_uid'' \<Longrightarrow> jget e k = jget entry k"
  have x: "map_of items i = Some x" using assms(2) i by (simp add: items_of_def del: get_Some)
  have en: "item_entry v' j = map_of (map_insert dst e (map_remove src items)) j" for j
    using i' by (simp add: item_entry_items)
  show ?thesis
  proof (cases "i = src")
    case True
    with s x have "x = entry" by simp
    with True e en show ?thesis
      by (intro exI [of _ e]) (simp add: moved_id_def map_of_map_insert)
  next
    case False
    with d x have "i \<noteq> dst" by auto
    with False x en show ?thesis
      by (intro exI [of _ x]) (simp add: moved_id_def map_of_map_insert map_of_map_remove)
  qed
qed

lemma renamed_names:
  assumes "rename_item E src dst v h = (Inr uid, v', h')"
    and "\<And>x y. (\<And>k. k \<noteq> ''updated_at'' \<Longrightarrow> k \<noteq> ''item_uid'' \<Longrightarrow> jget y k = jget x k) \<Longrightarrow> q y = q x"
  shows "{i. \<exists>x. map_of (items_of v') i = Some x \<and> q x}
       = moved_id src dst ` {i. \<exists>x. map_of (items_of v) i = Some x \<and> q x}"
    and "ordered (items_of v) \<Longrightarrow> ordered (items_of v')"
  using assms(1)
proof (atomize (full), elim rename_item_ok, intro conjI impI)
  fix items entry e
  assume i: "get_object (doc v) ''items'' = Some items" and s: "map_of items src = Some entry"
    and d: "map_of items dst = None" and ne: "src \<noteq> dst"
    and i': "get_object (doc v') ''items'' = Some (map_insert dst e (map_remove src items))"
    and e: "\<And>k. k \<noteq> ''updated_at'' \<Longrightarrow> k \<noteq> ''item_uid'' \<Longrightarrow> jget e k = jget entry k"
  have io: "items_of v = items" "items_of v' = map_insert dst e (map_remove src items)"
    using i i' by (simp_all add: items_of_def del: get_Some)
  have "q e = q entry" using e by (rule assms(2))
  with s d ne show "{i. \<exists>x. map_of (items_of v') i = Some x \<and> q x}
       = moved_id src dst ` {i. \<exists>x. map_of (items_of v) i = Some x \<and> q x}"
    unfolding io by (rule renamed_where)
  assume "ordered (items_of v)"
  then show "ordered (items_of v')" unfolding io by (intro ordered_map_insert ordered_map_remove)
qed

lemma answers_provider_cong:
  assumes "\<And>k. k \<noteq> ''updated_at'' \<Longrightarrow> k \<noteq> ''item_uid'' \<Longrightarrow> jget y k = jget x k"
  shows "answers_provider rest y = answers_provider rest x"
  using assms provider_of_cong [of y x "[]" "[]"]
  by (simp add: answers_provider_def live_def get_str_def)

lemma carries_tag_cong:
  assumes "\<And>k. k \<noteq> ''updated_at'' \<Longrightarrow> k \<noteq> ''item_uid'' \<Longrightarrow> jget y k = jget x k"
  shows "(live y \<and> carries_tag tag y) = (live x \<and> carries_tag tag x)"
  using assms by (simp add: live_def carries_tag_def tag_texts_def get_str_def get_array_def)

lemma tagged_items_where:
  "ordered (items_of v) \<Longrightarrow> tagged_items v tag = [i] \<longleftrightarrow>
     {i. \<exists>x. map_of (items_of v) i = Some x \<and> live x \<and> carries_tag tag x} = {i}"
proof -
  assume o: "ordered (items_of v)"
  have t: "tagged_items v tag = sort (names_where (\<lambda>x. live x \<and> carries_tag tag x) (items_of v))"
    by (simp add: tagged_items_def names_where_def)
  have "distinct (tagged_items v tag)" unfolding t using names_where_distinct [OF o] by simp
  then have "tagged_items v tag = [i] \<longleftrightarrow> set (tagged_items v tag) = {i}"
    by (simp add: singleton_list)
  then show ?thesis unfolding t using names_where_set [OF o] by simp
qed

lemma table_targets_cases:
  assumes "table_targets v name table = Inr [declared_target item fld by]"
  obtains (tag) entry tag where "by = ''tag''" "map_of table name = Some entry"
      "get_str entry ''field'' = Some fld" "get_str entry ''tag'' = Some tag" "tagged_items v tag = [item]"
    | (table) "by = ''table''"
proof -
  obtain entry f where e: "map_of table name = Some entry" "get_str entry ''field'' = Some f"
    using assms by (cases "map_of table name"; cases "get_str (the (map_of table name)) ''field''")
      (simp_all add: table_targets_def del: get_Some)
  show thesis
  proof (cases "get_str entry ''tag''")
    case None
    with assms e have "by = ''table''"
      by (cases "get_str entry ''item''") (simp_all add: table_targets_def declared_target_def del: get_Some)
    then show thesis by (rule table)
  next
    case (Some t)
    show thesis
    proof (cases "tagged_items v t")
      case Nil
      with assms e Some show thesis by (simp add: table_targets_def del: get_Some)
    next
      case (Cons a as)
      with assms e Some have "as = [] \<and> a = item \<and> f = fld \<and> by = ''tag''"
        by (cases as) (simp_all add: table_targets_def declared_target_def del: get_Some)
      with Cons e Some show thesis by (intro tag [of entry t]) simp_all
    qed
  qed
qed

lemma table_targets_by:
  "table_targets v name table = Inr [declared_target item fld by] \<Longrightarrow> by \<noteq> ''tags''"
  by (elim table_targets_cases) simp_all

lemma provider_targets:
  assumes "strip_prefix PROVIDER_PREFIX name = Some rest"
    and "targets E v name table = Inr [declared_target item fld ''tags'']"
  shows "provider_candidates v rest = [item] \<and> credential_field E v item = Inr fld"
proof (cases "provider_candidates v rest")
  case Nil
  with assms have "table_targets v name table = Inr [declared_target item fld ''tags'']"
    by (simp add: targets_def)
  then show ?thesis using table_targets_by by blast
next
  case (Cons a as)
  show ?thesis
  proof (cases as)
    case Nil
    with Cons assms show ?thesis
      by (auto simp: targets_def declared_target_def result_simps)
  next
    case (Cons b bs)
    with \<open>provider_candidates v rest = a # as\<close> assms show ?thesis by (simp add: targets_def)
  qed
qed

text \<open>C21: a rename moves no declared route: when a provider name (or a table row naming a tag)
  resolves to one item, then after any item of the vault is renamed the same name resolves to
  the same credential: the same item under its new id, the same field, and, where it could be
  read before, the same payload.\<close>

theorem rename_keeps_routes:
  assumes "rename_item E src dst v h = (Inr uid, v', h')" and "ordered (items_of v)"
    and "strip_prefix PROVIDER_PREFIX name = Some rest \<and> by = ''tags''
         \<or> strip_prefix PROVIDER_PREFIX name = None \<and> strip_prefix AGENT_PREFIX name = None
           \<and> strip_prefix LOGIN_PREFIX name = None \<and> CHR ''#'' \<notin> set name \<and> by = ''tag''"
    and "targets E v name table = Inr [declared_target item fld by]"
  shows "targets E v' name table = Inr [declared_target (moved_id src dst item) fld by]
     \<and> (\<forall>p. get_item E v item = Inr p \<longrightarrow> get_item E v' (moved_id src dst item) = Inr p)"
proof -
  have o': "ordered (items_of v')" using renamed_names(2) [OF assms(1) _ assms(2)] by blast
  have item: "get_item E v' (moved_id src dst i) = Inr p" if "get_item E v i = Inr p" for i p
  proof -
    from that obtain x where x: "item_entry v i = Some x"
      by (cases "item_entry v i") (simp_all add: get_item_def)
    then have "map_of (items_of v) i = Some x" by (simp add: items_of_entry)
    with renamed_entries [OF assms(1)] obtain e where e: "item_entry v' (moved_id src dst i) = Some e"
      and eq: "\<forall>k. k \<noteq> ''updated_at'' \<longrightarrow> k \<noteq> ''item_uid'' \<longrightarrow> jget e k = jget x k"
      by blast
    from e x _ that show ?thesis by (rule get_item_cong) (use eq in blast)
  qed
  have "targets E v' name table = Inr [declared_target (moved_id src dst item) fld by]"
    using assms(3)
  proof
    assume n: "strip_prefix PROVIDER_PREFIX name = Some rest \<and> by = ''tags''"
    with assms(4) have c: "provider_candidates v rest = [item]" and f: "credential_field E v item = Inr fld"
      using provider_targets by blast+
    have "set (provider_candidates v' rest) = moved_id src dst ` set (provider_candidates v rest)"
      using renamed_names(1) [OF assms(1), of "answers_provider rest", OF answers_provider_cong]
      by (simp add: provider_candidates_where(1) assms(2) o')
    then have c': "provider_candidates v' rest = [moved_id src dst item]"
      using provider_candidates_where(2) [OF o', of rest] by (simp add: c singleton_list)
    from f have "credential_field E v' (moved_id src dst item) = Inr fld"
      by (rule credential_field_cong) (rule item)
    with n c' show ?thesis by (simp add: targets_def)
  next
    assume n: "strip_prefix PROVIDER_PREFIX name = None \<and> strip_prefix AGENT_PREFIX name = None
           \<and> strip_prefix LOGIN_PREFIX name = None \<and> CHR ''#'' \<notin> set name \<and> by = ''tag''"
    then have so: "split_once (CHR ''#'') name = None" by (simp add: split_once_None)
    with n assms(4) have t: "table_targets v name table = Inr [declared_target item fld ''tag'']"
      by (simp add: targets_def)
    then obtain entry tag where e: "map_of table name = Some entry" "get_str entry ''field'' = Some fld"
      "get_str entry ''tag'' = Some tag" "tagged_items v tag = [item]"
      by (rule table_targets_cases) simp_all
    have "tagged_items v' tag = [moved_id src dst item]"
      using e(4) renamed_names(1) [OF assms(1), of "\<lambda>x. live x \<and> carries_tag tag x", OF carries_tag_cong]
      by (simp add: tagged_items_where assms(2) o')
    with e(1-3) have "table_targets v' name table = Inr [declared_target (moved_id src dst item) fld ''tag'']"
      by (simp add: table_targets_def del: get_Some)
    with so n show ?thesis by (simp only: targets_def option.case simp_thms)
  qed
  with item show ?thesis by blast
qed

section \<open>At a concrete vault\<close>

definition demo_tagged :: "vault \<times> host" where
  "demo_tagged =
     (case demo_one of (v, h) \<Rightarrow>
        snd (set_item demo_env ''b'' ''note'' (demo_note ''y'') [''ada''] [''brama:provider:mail''] v h))"

lemma demo_tagged_routes:
  "targets demo_env (dv demo_tagged) ''provider:mail'' [] = Inr [declared_target ''b'' ''value'' ''tags'']"
  by code_simp

lemma demo_tagged_renames: "succeeded (rename_item demo_env ''b'' ''c'' (dv demo_tagged) (dh demo_tagged))"
  by code_simp

lemma demo_tagged_ordered: "ordered (items_of (dv demo_tagged))"
  by code_simp

theorem rename_keeps_routes_witness:
  "\<exists>uid v' h'. rename_item demo_env ''b'' ''c'' (dv demo_tagged) (dh demo_tagged) = (Inr uid, v', h')
     \<and> targets demo_env v' ''provider:mail'' [] = Inr [declared_target ''c'' ''value'' ''tags'']"
proof (rule succeededE [OF demo_tagged_renames])
  fix uid v' h'
  assume r: "rename_item demo_env ''b'' ''c'' (dv demo_tagged) (dh demo_tagged) = (Inr uid, v', h')"
  have "strip_prefix PROVIDER_PREFIX ''provider:mail'' = Some ''mail''" by code_simp
  then show ?thesis
    using r rename_keeps_routes [OF r demo_tagged_ordered _ demo_tagged_routes] by (auto simp: moved_id_def)
qed

end
