(* ===== verification/Journal.thy ===== *)
theory Journal
  imports Routes Grants
begin

text \<open>
  The capability state as a journal: \<open>src/access/capability/journal.rs\<close> and the loading and
  saving half of \<open>state.rs\<close>. A journal file is what the JSON stream reader finds in it: the
  complete values, how many bytes it holds, and whether bytes that do not parse follow the
  last complete value. What the file system does to a write (a partial append, a replacement
  that is not installed) is the record \<open>storage\<close>, so every operation returns the file it
  leaves behind beside its result. Every operation runs under the exclusive state lock, so
  one at a time.
\<close>

datatype (plugins only: code size) cap_error =
    EntryRecord string
  | EntrySeenAt string
  | NotAnEntry
  | NonceNeverSeen string
  | CapabilityNotHeld string
  | AppendFailed
  | SizeUnreadable
  | ReplaceFailed
  | ParseState
  | BackupFailed
  | MalformedState
  | ClockC
  | PanickedC
  | NeedsFlag string
  | BadFlag string
  | ExpiryC
  | NoEntropy
  | VaultC vault_error
  | TableC table_error
  | RefusedRoute string route_refusal
  | RefusedCoordinate string problem
  | NotEd25519
  | AuditC
  | UsageC string
  | NotChallenge
  | NoCapabilityNames string
  | NoCode
  | NotDigits

record journal =
  jvalues :: "json list"
  jbytes :: nat
  jtorn :: bool

datatype append_outcome = Appended | AppendCut nat | NotOpened
datatype replace_outcome = Replaced | NotInstalled | NotFlushed

record storage =
  append_as :: append_outcome
  replace_as :: replace_outcome
  backup_refused :: bool
  size_unreadable :: bool

section \<open>Replaying the journal\<close>

definition empty_state :: json where
  "empty_state = mk_obj [(''capabilities'', mk_obj []), (''nonces'', mk_obj [])]"

definition apply_value :: "json \<Rightarrow> json \<Rightarrow> cap_error + json" where
  "apply_value state value' =
     (if jget value' ''capabilities'' \<noteq> None then Inr value'
      else case (jget value' ''capability'', jget value' ''nonce'') of
        (Some (JStr ident), None) \<Rightarrow>
          (case jget value' ''record'' of
             Some (JObj r) \<Rightarrow> ok_or PanickedC (jindex_set2 state ''capabilities'' ident (JObj r))
           | _ \<Rightarrow> Inl (EntryRecord ident))
      | (None, Some (JStr key)) \<Rightarrow>
          (case jget value' ''seen_at'' of
             Some seen \<Rightarrow>
               if is_number seen then ok_or PanickedC (jindex_set2 state ''nonces'' key seen)
               else Inl (EntrySeenAt key)
           | None \<Rightarrow> Inl (EntrySeenAt key))
      | _ \<Rightarrow> Inl NotAnEntry)"

text \<open>The state, whether any complete value was read, and whether bytes trail it.\<close>

definition replay :: "journal \<Rightarrow> cap_error + (json \<times> bool \<times> bool)" where
  "replay J =
     bindR (foldR apply_value empty_state (jvalues J)) (\<lambda>state.
       Inr (state, jvalues J \<noteq> [], jtorn J))"

section \<open>Writing it\<close>

definition entries :: "json \<Rightarrow> string \<Rightarrow> string option \<Rightarrow> cap_error + json list" where
  "entries state ident nonce =
     bindR (case nonce of
              None \<Rightarrow> Inr []
            | Some key \<Rightarrow>
                bindR (ok_or (NonceNeverSeen key) (jget (jindex state ''nonces'') key)) (\<lambda>seen.
                  Inr [mk_obj [(''nonce'', JStr key), (''seen_at'', seen)]])) (\<lambda>written.
     bindR (ok_or (CapabilityNotHeld ident) (jget (jindex state ''capabilities'') ident)) (\<lambda>rec.
       Inr (written @ [mk_obj [(''capability'', JStr ident), (''record'', rec)]])))"

definition line_bytes :: "env \<Rightarrow> json \<Rightarrow> nat" where
  "line_bytes E value' = length (json_text E value') + 1"

text \<open>The values complete within the first \<open>n\<close> bytes of these lines, and whether more bytes
  follow them: a value whose newline alone is missing is complete.\<close>

fun complete_within :: "env \<Rightarrow> nat \<Rightarrow> json list \<Rightarrow> json list \<times> bool" where
  "complete_within E n [] = ([], False)"
| "complete_within E n (x # xs) =
     (if n < length (json_text E x) then ([], 0 < n)
      else case complete_within E (n - line_bytes E x) xs of (ys, rest) \<Rightarrow> (x # ys, rest))"

definition grown :: "journal \<Rightarrow> json list \<Rightarrow> nat \<Rightarrow> bool \<Rightarrow> journal" where
  "grown J xs n torn =
     (if jtorn J then J\<lparr>jbytes := jbytes J + n\<rparr>
      else \<lparr>jvalues = jvalues J @ xs, jbytes = jbytes J + n, jtorn = torn\<rparr>)"

definition blank_journal :: journal where
  "blank_journal = \<lparr>jvalues = [], jbytes = 0, jtorn = False\<rparr>"

definition append_lines ::
  "env \<Rightarrow> storage \<Rightarrow> json list \<Rightarrow> journal option \<Rightarrow> (cap_error + unit) \<times> journal option" where
  "append_lines E S xs file =
     (let J = (case file of None \<Rightarrow> blank_journal | Some J \<Rightarrow> J);
          all = sum_list (map (line_bytes E) xs)
      in case append_as S of
           Appended \<Rightarrow> (Inr (), Some (grown J xs all False))
         | NotOpened \<Rightarrow> (Inl AppendFailed, file)
         | AppendCut n \<Rightarrow>
             (case complete_within E n xs of
                (ys, rest) \<Rightarrow> (Inl AppendFailed, Some (grown J ys (min n all) rest))))"

definition outweighed :: "env \<Rightarrow> storage \<Rightarrow> journal option \<Rightarrow> json \<Rightarrow> cap_error + bool" where
  "outweighed E S file state =
     (case file of
        None \<Rightarrow> Inl SizeUnreadable
      | Some J \<Rightarrow>
          if size_unreadable S then Inl SizeUnreadable
          else Inr (jbytes J - length (json_text E state) > length (json_text E state)))"

definition snapshot :: "env \<Rightarrow> json \<Rightarrow> journal" where
  "snapshot E state = \<lparr>jvalues = [state], jbytes = line_bytes E state, jtorn = False\<rparr>"

text \<open>A replacement is staged beside the journal and renamed over it: the old journal or the
  whole new one, never a part.\<close>

definition save_state ::
  "env \<Rightarrow> storage \<Rightarrow> json \<Rightarrow> journal option \<Rightarrow> (cap_error + unit) \<times> journal option" where
  "save_state E S state file =
     (case replace_as S of
        NotInstalled \<Rightarrow> (Inl ReplaceFailed, file)
      | NotFlushed \<Rightarrow> (Inl ReplaceFailed, Some (snapshot E state))
      | Replaced \<Rightarrow> (Inr (), Some (snapshot E state)))"

definition save_entry ::
  "env \<Rightarrow> storage \<Rightarrow> json \<Rightarrow> string \<Rightarrow> string option \<Rightarrow> journal option \<Rightarrow>
   (cap_error + unit) \<times> journal option" where
  "save_entry E S state ident nonce file =
     (case entries state ident nonce of
        Inl e \<Rightarrow> (Inl e, file)
      | Inr written \<Rightarrow>
          (case append_lines E S written file of
             (Inl e, file') \<Rightarrow> (Inl e, file')
           | (Inr u, file') \<Rightarrow>
               (case outweighed E S file' state of
                  Inl e \<Rightarrow> (Inl e, file')
                | Inr heavy \<Rightarrow> if heavy then save_state E S state file' else (Inr (), file'))))"

section \<open>Loading it\<close>

definition still_issued :: "u64 \<Rightarrow> json \<Rightarrow> bool" where
  "still_issued now rec \<longleftrightarrow>
     (case get_u64 rec ''expires_at'' of Some until \<Rightarrow> now < until | None \<Rightarrow> False)
     \<and> get_str rec ''state'' = Some ''issued''"

definition nonce_of_live :: "obj \<Rightarrow> string \<Rightarrow> bool" where
  "nonce_of_live kept key \<longleftrightarrow>
     (case split_once (CHR '':'') key of Some (c, _) \<Rightarrow> contains_key kept c | None \<Rightarrow> False)"

definition forget_stale :: "json \<Rightarrow> u64 \<Rightarrow> cap_error + json" where
  "forget_stale state now =
     (case jindex state ''capabilities'' of
        JObj caps \<Rightarrow>
          (let kept = map_retain (\<lambda>_ rec. still_issued now rec) caps;
               nonces = (case jindex state ''nonces'' of
                           JObj m \<Rightarrow> JObj (map_retain (\<lambda>key _. nonce_of_live kept key) m)
                         | other \<Rightarrow> other)
           in ok_or PanickedC
                (Option.bind (jindex_set state ''capabilities'' (JObj kept)) (\<lambda>s.
                   jindex_set s ''nonces'' nonces)))
      | _ \<Rightarrow> Inl MalformedState)"

definition load_state ::
  "env \<Rightarrow> storage \<Rightarrow> u64 option \<Rightarrow> journal option \<Rightarrow> (cap_error + json) \<times> journal option" where
  "load_state E S now file =
     (case file of
        None \<Rightarrow> (Inr empty_state, None)
      | Some J \<Rightarrow>
          (case replay J of
             Inl e \<Rightarrow> (Inl e, file)
           | Inr (state, complete, trailing) \<Rightarrow>
               if trailing \<and> \<not> complete then (Inl ParseState, file)
               else (case (if trailing
                           then if backup_refused S then (Inl BackupFailed, file)
                                else save_state E S state file
                           else (Inr (), file)) of
                       (Inl e, file') \<Rightarrow> (Inl e, file')
                     | (Inr u, file') \<Rightarrow>
                         (case now of
                            None \<Rightarrow> (Inl ClockC, file')
                          | Some t \<Rightarrow> (forget_stale state t, file')))))"

end
