(* ===== verification/Broker.thy ===== *)
theory Broker
  imports Journal GrantOps
begin

text \<open>
  The capability broker: \<open>src/access/capability/issue.rs\<close>, \<open>redeem\<close> and \<open>status.rs\<close>. Its one
  state is the journal file; a request is answered by \<open>handle\<close>, whose every refusal is one
  opaque denial on the wire and its own \<open>denial\<close> here. What a request meets (the vault it
  opens, the route table, the clock, the journal's file system, the base64 decoder, the
  Ed25519 verdict, the audit log) is the record \<open>cap_env\<close>; it may be another at every request.
\<close>

record cap_env =
  genv :: host_env
  vault_at :: "vault_error + vault"
  table_at :: "table_error + obj"
  store :: storage
  b64_decode :: "string \<Rightarrow> string option"
  signed :: "string \<Rightarrow> string \<Rightarrow> string \<Rightarrow> cap_error + bool"
  audit_refuses :: bool

definition cenv :: "cap_env \<Rightarrow> env" where "cenv C = venv (genv C)"
definition cnow :: "cap_env \<Rightarrow> u64 option" where "cnow C = clock (genv C)"

definition WIRE_VERSION :: string where "WIRE_VERSION = ''skarbiec.redeem.v1''"
definition STATUS_VERSION :: string where "STATUS_VERSION = ''skarbiec.capability-status.v1''"
definition CAPABILITY_ID_LENGTH :: nat where "CAPABILITY_ID_LENGTH = 64"
definition PROOF_LENGTH :: nat where "PROOF_LENGTH = 86"
definition ONE_USE :: u64 where "ONE_USE = 1"
definition CHALLENGE_PREFIX :: string where "CHALLENGE_PREFIX = ''challenge:''"
definition PROOF_DOMAIN :: string where
  "PROOF_DOMAIN = ''SKARBIEC-WORKLOAD-PROOF'' @ [CHR 0x00] @ ''v1'' @ [CHR 0x00]"

definition load_for :: "cap_env \<Rightarrow> journal option \<Rightarrow> (cap_error + json) \<times> journal option" where
  "load_for C = load_state (cenv C) (store C) (cnow C)"

definition save_for ::
  "cap_env \<Rightarrow> json \<Rightarrow> string \<Rightarrow> string option \<Rightarrow> journal option \<Rightarrow> (cap_error + unit) \<times> journal option"
  where "save_for C = save_entry (cenv C) (store C)"

definition epoch :: "cap_env \<Rightarrow> cap_error + u64" where
  "epoch C = ok_or ClockC (cnow C)"

section \<open>Issuing\<close>

definition exact_flag :: "flags \<Rightarrow> string \<Rightarrow> cap_error + string" where
  "exact_flag fl name =
     (case map_of fl name of
        Some x \<Rightarrow> if exact_token x then Inr x else Inl (BadFlag name)
      | None \<Rightarrow> Inl (NeedsFlag name))"

definition nonzero_flag :: "flags \<Rightarrow> string \<Rightarrow> cap_error + u64" where
  "nonzero_flag fl name =
     bindR (ok_or (NeedsFlag name) (map_of fl name)) (\<lambda>x. ok_or (BadFlag name) (parse_nonzero_u64 x))"

text \<open>The resource resolves, and its coordinate hands out a usable credential; a \<open>challenge:\<close>
  resource is not asked.\<close>

definition check_resource :: "cap_env \<Rightarrow> string \<Rightarrow> cap_error + unit" where
  "check_resource C resource =
     (if starts_with CHALLENGE_PREFIX resource then Inr ()
      else bindR (map_err VaultC (vault_at C)) (\<lambda>v.
           bindR (map_err TableC (table_at C)) (\<lambda>table.
           bindR (map_err (RefusedRoute resource) (coordinate_for (cenv C) v table resource)) (\<lambda>(item, fld).
             case problem_of (fst (coordinate (cenv C) v [] item fld None)) of
               Some pr \<Rightarrow> Inl (RefusedCoordinate resource pr) | None \<Rightarrow> Inr ()))))"

definition mk_record ::
  "string \<Rightarrow> string \<Rightarrow> string \<Rightarrow> string \<Rightarrow> string \<Rightarrow> u64 \<Rightarrow> u64 \<Rightarrow> u64 \<Rightarrow> json" where
  "mk_record agent purpose resource tgt authorization now expires uses =
     mk_obj [(''agent'', JStr agent), (''purpose'', JStr purpose), (''resource'', JStr resource),
       (''target'', JStr tgt), (''authorization_id'', JStr authorization), (''issued_at'', JUInt now),
       (''expires_at'', JUInt expires), (''remaining_uses'', JUInt uses), (''state'', JStr ''issued'')]"

text \<open>The identifier and the record a successful issue writes.\<close>

definition drawn :: "cap_env \<Rightarrow> flags \<Rightarrow> cap_error + string \<times> json" where
  "drawn C fl =
     bindR (exact_flag fl ''agent'') (\<lambda>agent.
     bindR (exact_flag fl ''purpose'') (\<lambda>purpose.
     bindR (exact_flag fl ''resource'') (\<lambda>resource.
     bindR (exact_flag fl ''target'') (\<lambda>tgt.
     bindR (nonzero_flag fl ''ttl'') (\<lambda>ttl.
     bindR (nonzero_flag fl ''max-uses'') (\<lambda>uses.
     (let authorization = (case map_of fl ''authorization-id'' of Some a \<Rightarrow> a | None \<Rightarrow> [])
      in if authorization \<noteq> [] \<and> \<not> exact_token authorization then Inl (BadFlag ''authorization-id'')
         else bindR (check_resource C resource) (\<lambda>_.
              bindR (map_err (\<lambda>_. NoEntropy) (mint_token (genv C))) (\<lambda>token.
              bindR (epoch C) (\<lambda>now.
              bindR (ok_or ExpiryC (checked_add now ttl)) (\<lambda>expires.
                Inr (digest (cenv C) token,
                     mk_record agent purpose resource tgt authorization now expires uses))))))))))))"

definition issue ::
  "cap_env \<Rightarrow> flags \<Rightarrow> journal option \<Rightarrow> (cap_error + string) \<times> journal option" where
  "issue C fl file =
     (case drawn C fl of
        Inl e \<Rightarrow> (Inl e, file)
      | Inr (ident, rec) \<Rightarrow>
          (case load_for C file of
             (Inl e, file1) \<Rightarrow> (Inl e, file1)
           | (Inr state, file1) \<Rightarrow>
               (case jindex_set2 state ''capabilities'' ident rec of
                  None \<Rightarrow> (Inl PanickedC, file1)
                | Some state' \<Rightarrow>
                    (case save_for C state' ident None file1 of
                       (Inl e, file2) \<Rightarrow> (Inl e, file2)
                     | (Inr u, file2) \<Rightarrow> (Inr ident, file2)))))"

section \<open>Reading a request\<close>

record redemption =
  rq_id :: string
  rq_nonce :: string
  rq_workload :: string
  rq_proof :: string
  rq_operation :: string
  rq_authorization :: string

datatype (plugins only: code size) denial =
    NotJson
  | Malformed
  | NoSuchCapability
  | Damaged string
  | NotRedeemable
  | NonceSeen
  | NoWorkloadKey string
  | ProofFails
  | Unroutable route_refusal
  | UnreadableItem string string vault_error
  | NoValue string string

definition hex_lower :: "char \<Rightarrow> bool" where
  "hex_lower c \<longleftrightarrow> is_digit c \<or> (CHR ''a'' \<le> c \<and> c \<le> CHR ''f'')"

definition asks_status :: "json \<Rightarrow> bool" where
  "asks_status request \<longleftrightarrow>
     jindex request ''version'' = JStr STATUS_VERSION \<and> jindex request ''operation'' = JStr ''status''"

definition parse_request :: "json \<Rightarrow> denial + redemption" where
  "parse_request request =
     (case (get_str request ''version'', get_str request ''operation'', get_str request ''capability_id'',
            get_str request ''nonce'', get_str request ''workload_id'', get_str request ''proof'') of
        (Some version, Some op, Some ident, Some nonce, Some workload, Some prf) \<Rightarrow>
          bindR (case jget request ''authorization_id'' of
                   None \<Rightarrow> Inr [] | Some (JStr given) \<Rightarrow> Inr given | Some _ \<Rightarrow> Inl Malformed) (\<lambda>authorization.
            if op \<noteq> ''redeem'' \<and> op \<noteq> ''cancel'' then Inl Malformed
            else if version \<noteq> WIRE_VERSION \<or> length ident \<noteq> CAPABILITY_ID_LENGTH
                    \<or> \<not> list_all hex_lower ident \<or> \<not> exact_token nonce \<or> \<not> exact_token workload
                    \<or> length prf \<noteq> PROOF_LENGTH
            then Inl Malformed
            else Inr \<lparr>rq_id = ident, rq_nonce = nonce, rq_workload = workload, rq_proof = prf,
                      rq_operation = op, rq_authorization = authorization\<rparr>)
      | _ \<Rightarrow> Inl Malformed)"

definition nonce_key :: "redemption \<Rightarrow> string" where
  "nonce_key rq = rq_id rq @ '':'' @ rq_nonce rq"

definition proof_payload :: "redemption \<Rightarrow> string" where
  "proof_payload rq =
     PROOF_DOMAIN
     @ concat (map (\<lambda>part. part @ [CHR 0x00]) [rq_id rq, rq_nonce rq, rq_workload rq, rq_operation rq])
     @ rq_authorization rq"

section \<open>Checking it against the capability\<close>

record held =
  h_state :: string
  h_remaining :: u64
  h_expires :: u64
  h_authorization :: string
  h_agent :: string
  h_resource :: string

definition recorded :: "json \<Rightarrow> denial + held" where
  "recorded rec =
     bindR (ok_or (Damaged ''state'') (get_str rec ''state'')) (\<lambda>s.
     bindR (ok_or (Damaged ''remaining_uses'') (get_u64 rec ''remaining_uses'')) (\<lambda>n.
     bindR (ok_or (Damaged ''expires_at'') (get_u64 rec ''expires_at'')) (\<lambda>e.
     bindR (ok_or (Damaged ''authorization_id'') (get_str rec ''authorization_id'')) (\<lambda>z.
     bindR (ok_or (Damaged ''agent'') (get_str rec ''agent'')) (\<lambda>a.
     bindR (ok_or (Damaged ''resource'') (get_str rec ''resource'')) (\<lambda>r.
       Inr \<lparr>h_state = s, h_remaining = n, h_expires = e, h_authorization = z, h_agent = a,
            h_resource = r\<rparr>))))))"

definition admitted :: "u64 \<Rightarrow> json \<Rightarrow> redemption \<Rightarrow> denial + held" where
  "admitted now state rq =
     bindR (ok_or NoSuchCapability (jget (jindex state ''capabilities'') (rq_id rq))) (\<lambda>rec.
     bindR (recorded rec) (\<lambda>h.
       if h_state h \<noteq> ''issued'' \<or> h_expires h \<le> now \<or> h_remaining h < ONE_USE
          \<or> h_authorization h \<noteq> rq_authorization rq
       then Inl NotRedeemable
       else if jget (jindex state ''nonces'') (nonce_key rq) \<noteq> None then Inl NonceSeen
       else Inr h))"

definition workload_public_key :: "u64 option \<Rightarrow> vault \<Rightarrow> string \<Rightarrow> string option" where
  "workload_public_key now v agent =
     Option.bind (grant_of v agent) (\<lambda>entry.
       if \<not> active now entry then None else get_str entry ''workload_public_key'')"

definition standard_alphabet :: "string \<Rightarrow> string" where
  "standard_alphabet s = map (\<lambda>c. if c = CHR ''-'' then CHR ''+'' else if c = CHR ''_'' then CHR ''/'' else c) s"

definition decode_base64url :: "cap_env \<Rightarrow> string \<Rightarrow> string option" where
  "decode_base64url C s =
     (case b64_decode C (standard_alphabet s) of
        Some bs \<Rightarrow> if bs \<noteq> [] then Some bs else None | None \<Rightarrow> None)"

definition verify_proof :: "cap_env \<Rightarrow> string \<Rightarrow> string \<Rightarrow> string \<Rightarrow> cap_error + bool" where
  "verify_proof C key msg prf =
     (case decode_base64url C prf of None \<Rightarrow> Inr False | Some sig \<Rightarrow> signed C key msg sig)"

definition item_field :: "env \<Rightarrow> vault \<Rightarrow> string \<Rightarrow> string \<Rightarrow> vault_error + string option" where
  "item_field E v item fld =
     bindR (section_of v ''items'') (\<lambda>items.
       if map_of items item = None then Inr None
       else bindR (get_item E v item) (\<lambda>p.
         Inr (case Option.bind (jget p ''fields'') (\<lambda>f. jget f fld) of
                None \<Rightarrow> None
              | Some (JStr t) \<Rightarrow> Some t
              | Some JNull \<Rightarrow> None
              | Some other \<Rightarrow> Some (json_text E other))))"

definition challenge_item :: "string \<Rightarrow> string" where
  "challenge_item resource =
     ''capability-challenge-'' @ map (\<lambda>c. if c = CHR ''/'' \<or> c = CHR '':'' then CHR ''-'' else c) resource"

section \<open>Answering it\<close>

datatype (plugins only: code size) answer =
    StatusAnswer
  | DeniedA denial
  | PendingA
  | CancelledA
  | HandedA string

type_synonym outcome = "(cap_error + answer) \<times> journal option"

definition stored_then :: "cap_env \<Rightarrow> json \<Rightarrow> redemption \<Rightarrow> cap_error + answer \<Rightarrow> journal option \<Rightarrow> outcome" where
  "stored_then C state rq final file =
     (case save_for C state (rq_id rq) (Some (nonce_key rq)) file of
        (Inl e, file') \<Rightarrow> (Inl e, file') | (Inr u, file') \<Rightarrow> (final, file'))"

definition audited :: "cap_env \<Rightarrow> answer \<Rightarrow> cap_error + answer" where
  "audited C a = (if audit_refuses C then Inl AuditC else Inr a)"

definition set_in_record :: "json \<Rightarrow> string \<Rightarrow> string \<Rightarrow> json \<Rightarrow> json option" where
  "set_in_record state ident name x =
     Option.bind (jindex_set (jindex (jindex state ''capabilities'') ident) name x) (\<lambda>rec.
       jindex_set2 state ''capabilities'' ident rec)"

definition cancel_use :: "cap_env \<Rightarrow> json \<Rightarrow> redemption \<Rightarrow> journal option \<Rightarrow> outcome" where
  "cancel_use C state rq file =
     (case set_in_record state (rq_id rq) ''state'' (JStr ''cancelled'') of
        None \<Rightarrow> (Inl PanickedC, file)
      | Some state' \<Rightarrow> stored_then C state' rq (audited C CancelledA) file)"

definition spent_state :: "json \<Rightarrow> string \<Rightarrow> u64 \<Rightarrow> json option" where
  "spent_state state ident left =
     Option.bind (set_in_record state ident ''remaining_uses'' (JUInt left)) (\<lambda>s.
       if left < ONE_USE then set_in_record s ident ''state'' (JStr ''spent'') else Some s)"

definition coordinate_of :: "cap_env \<Rightarrow> vault \<Rightarrow> string \<Rightarrow> cap_error + (route_refusal + string \<times> string)" where
  "coordinate_of C v resource =
     (if starts_with CHALLENGE_PREFIX resource then Inr (Inr (challenge_item resource, ''value''))
      else bindR (map_err TableC (table_at C)) (\<lambda>table. Inr (coordinate_for (cenv C) v table resource)))"

definition spend_use :: "cap_env \<Rightarrow> vault \<Rightarrow> held \<Rightarrow> json \<Rightarrow> redemption \<Rightarrow> journal option \<Rightarrow> outcome" where
  "spend_use C v h state rq file =
     (case coordinate_of C v (h_resource h) of
        Inl e \<Rightarrow> (Inl e, file)
      | Inr (Inl refusal) \<Rightarrow> (Inr (DeniedA (Unroutable refusal)), file)
      | Inr (Inr (item, fld)) \<Rightarrow>
          (case item_field (cenv C) v item fld of
             Inl e \<Rightarrow> (Inr (DeniedA (UnreadableItem item fld e)), file)
           | Inr None \<Rightarrow>
               if starts_with CHALLENGE_PREFIX (h_resource h) then stored_then C state rq (Inr PendingA) file
               else (Inr (DeniedA (NoValue item fld)), file)
           | Inr (Some secret) \<Rightarrow>
               (case spent_state state (rq_id rq) (h_remaining h - ONE_USE) of
                  None \<Rightarrow> (Inl PanickedC, file)
                | Some state' \<Rightarrow> stored_then C state' rq (audited C (HandedA secret)) file)))"

text \<open>The proof, then the nonce is recorded and the use is cancelled or spent.\<close>

definition proven :: "cap_env \<Rightarrow> u64 \<Rightarrow> held \<Rightarrow> json \<Rightarrow> redemption \<Rightarrow> journal option \<Rightarrow> outcome" where
  "proven C now h state rq file =
     (case vault_at C of
        Inl e \<Rightarrow> (Inl (VaultC e), file)
      | Inr v \<Rightarrow>
          (case workload_public_key (cnow C) v (h_agent h) of
             None \<Rightarrow> (Inr (DeniedA (NoWorkloadKey (h_agent h))), file)
           | Some key \<Rightarrow>
               (case verify_proof C key (proof_payload rq) (rq_proof rq) of
                  Inl e \<Rightarrow> (Inl e, file)
                | Inr ok \<Rightarrow>
                    if \<not> ok then (Inr (DeniedA ProofFails), file)
                    else (case jindex_set2 state ''nonces'' (nonce_key rq) (JUInt now) of
                            None \<Rightarrow> (Inl PanickedC, file)
                          | Some state' \<Rightarrow>
                              if rq_operation rq = ''cancel'' then cancel_use C state' rq file
                              else spend_use C v h state' rq file))))"

definition handle :: "cap_env \<Rightarrow> json option \<Rightarrow> journal option \<Rightarrow> outcome" where
  "handle C line file =
     (case line of
        None \<Rightarrow> (Inr (DeniedA NotJson), file)
      | Some request \<Rightarrow>
          if asks_status request then (Inr StatusAnswer, file)
          else (case parse_request request of
            Inl d \<Rightarrow> (Inr (DeniedA d), file)
          | Inr rq \<Rightarrow>
              (case cnow C of
                 None \<Rightarrow> (Inl ClockC, file)
               | Some now \<Rightarrow>
                   (case load_for C file of
                      (Inl e, file1) \<Rightarrow> (Inl e, file1)
                    | (Inr state, file1) \<Rightarrow>
                        (case admitted now state rq of
                           Inl d \<Rightarrow> (Inr (DeniedA d), file1)
                         | Inr h \<Rightarrow> proven C now h state rq file1)))))"

section \<open>What is live\<close>

definition redeemable :: "u64 \<Rightarrow> json \<Rightarrow> bool" where
  "redeemable now rec \<longleftrightarrow>
     get_str rec ''state'' = Some ''issued''
     \<and> (case get_u64 rec ''expires_at'' of Some until \<Rightarrow> now < until | None \<Rightarrow> False)
     \<and> (case get_u64 rec ''remaining_uses'' of Some n \<Rightarrow> n \<noteq> 0 | None \<Rightarrow> False)"

definition active_count :: "cap_env \<Rightarrow> journal option \<Rightarrow> (cap_error + nat) \<times> journal option" where
  "active_count C file =
     (case load_for C file of
        (Inl e, file1) \<Rightarrow> (Inl e, file1)
      | (Inr state, file1) \<Rightarrow>
          (bindR (epoch C) (\<lambda>now.
             case jget state ''capabilities'' of
               None \<Rightarrow> Inr 0
             | Some (JObj m) \<Rightarrow> Inr (length (filter (\<lambda>kv. redeemable now (snd kv)) m))
             | Some _ \<Rightarrow> Inl MalformedState), file1))"

definition capability_live :: "cap_env \<Rightarrow> string \<Rightarrow> journal option \<Rightarrow> (cap_error + bool) \<times> journal option" where
  "capability_live C ident file =
     (case load_for C file of
        (Inl e, file1) \<Rightarrow> (Inl e, file1)
      | (Inr state, file1) \<Rightarrow>
          (bindR (epoch C) (\<lambda>now.
             Inr (case jget (jindex state ''capabilities'') ident of
                    Some rec \<Rightarrow> redeemable now rec | None \<Rightarrow> False)), file1))"

section \<open>Writing a challenge\<close>

definition challenge_authorized :: "json \<Rightarrow> string \<Rightarrow> cap_error + bool" where
  "challenge_authorized state resource =
     (case jget state ''capabilities'' of
        None \<Rightarrow> Inr False
      | Some (JObj m) \<Rightarrow> Inr (list_ex (\<lambda>(_, entry). jindex entry ''resource'' = JStr resource) m)
      | Some _ \<Rightarrow> Inl MalformedState)"

definition challenge_payload :: "string \<Rightarrow> json" where
  "challenge_payload code' =
     mk_obj [(''schema'', JStr ''skarbiec.item.v2''), (''kind'', JStr ''note''),
             (''fields'', mk_obj [(''value'', JStr code')])]"

text \<open>The vault's host here is the one the command opens; the item is written, saved, and the
  store is recorded in the audit log.\<close>

definition challenge_put ::
  "cap_env \<Rightarrow> string list \<Rightarrow> string \<Rightarrow> journal option \<Rightarrow> host \<Rightarrow>
   (cap_error + string) \<times> journal option \<times> host" where
  "challenge_put C positionals stdin file h =
     (case positionals of
        [resource] \<Rightarrow>
          if \<not> starts_with CHALLENGE_PREFIX resource then (Inl NotChallenge, file, h)
          else (case load_for C file of
            (Inl e, file1) \<Rightarrow> (Inl e, file1, h)
          | (Inr state, file1) \<Rightarrow>
              (case challenge_authorized state resource of
                 Inl e \<Rightarrow> (Inl e, file1, h)
               | Inr ok \<Rightarrow>
                   (let digits = trim stdin
                    in if \<not> ok then (Inl (NoCapabilityNames resource), file1, h)
                       else if digits = [] then (Inl NoCode, file1, h)
                       else if \<not> list_all is_digit digits then (Inl NotDigits, file1, h)
                       else (case open_vault h of
                         Inl e \<Rightarrow> (Inl (VaultC e), file1, h)
                       | Inr v \<Rightarrow>
                           (case set_item (cenv C) (challenge_item resource) ''note'' (challenge_payload digits)
                                   [] [''challenge''] v h of
                              (Inl e, v1, h1) \<Rightarrow> (Inl (VaultC e), file1, h1)
                            | (Inr u, v1, h1) \<Rightarrow>
                                (case save v1 h1 of
                                   (Inl e, v2, h2) \<Rightarrow> (Inl (VaultC e), file1, h2)
                                 | (Inr u', v2, h2) \<Rightarrow>
                                     (if audit_refuses C then (Inl AuditC, file1, h2)
                                      else (Inr resource, file1, h2))))))))
      | _ \<Rightarrow> (Inl (UsageC ''capability challenge''), file, h))"

end
