(* ===== verification/JournalLaws.thy ===== *)
theory JournalLaws
  imports Journal
begin

text \<open>
  What the journal keeps: the state on disk as two maps (capabilities, nonces), what loading
  and saving do to them whatever the file system does, and why dropping stale records is
  invisible.
\<close>

definition caps_of :: "json \<Rightarrow> string \<Rightarrow> json option" where
  "caps_of s ident = jget (jindex s ''capabilities'') ident"

definition nonces_of :: "json \<Rightarrow> string \<Rightarrow> json option" where
  "nonces_of s key = jget (jindex s ''nonces'') key"

definition sound_state :: "json \<Rightarrow> bool" where
  "sound_state s \<longleftrightarrow>
     (case (jindex s ''capabilities'', jindex s ''nonces'') of
        (JObj c, JObj n) \<Rightarrow> ordered c \<and> ordered n | _ \<Rightarrow> False)"

definition on_disk :: "journal option \<Rightarrow> cap_error + json" where
  "on_disk file = (case file of None \<Rightarrow> Inr empty_state
                              | Some J \<Rightarrow> foldR apply_value empty_state (jvalues J))"

definition sound_file :: "journal option \<Rightarrow> bool" where
  "sound_file file \<longleftrightarrow> (case on_disk file of Inr s \<Rightarrow> sound_state s | Inl _ \<Rightarrow> False)"

definition untorn :: "journal option \<Rightarrow> bool" where
  "untorn file \<longleftrightarrow> (case file of None \<Rightarrow> True | Some J \<Rightarrow> \<not> jtorn J)"

lemma sound_fileE:
  assumes "sound_file file" obtains d where "on_disk file = Inr d" "sound_state d"
  using assms by (auto simp: sound_file_def split: sum.splits)

lemma sound_file_iff: "on_disk file = Inr d \<Longrightarrow> sound_file file \<longleftrightarrow> sound_state d"
  by (simp add: sound_file_def)

lemma sound_stateE:
  assumes "sound_state s"
  obtains m c n where "s = JObj m" "map_of m ''capabilities'' = Some (JObj c)"
    "map_of m ''nonces'' = Some (JObj n)" "ordered c" "ordered n"
proof (cases s)
  case (JObj m)
  with assms that show thesis
    by (auto simp: sound_state_def jindex_def split: json.splits option.splits)
qed (use assms in \<open>simp_all add: sound_state_def jindex_def jget_def\<close>)

lemma sound_empty: "sound_state empty_state"
  by code_simp

lemma empty_maps [simp]: "caps_of empty_state i = None" "nonces_of empty_state k = None"
  by (simp_all add: caps_of_def nonces_of_def empty_state_def jindex_def)

subsection \<open>Setting one entry\<close>

lemma set_capability:
  assumes "sound_state s"
  obtains s' where "jindex_set2 s ''capabilities'' i x = Some s'" "sound_state s'"
    "caps_of s' = (caps_of s)(i \<mapsto> x)" "nonces_of s' = nonces_of s"
  using assms
  by (elim sound_stateE)
     (auto simp: jindex_set2_def jindex_set_def jindex_def sound_state_def caps_of_def nonces_of_def
        map_of_map_insert ordered_map_insert fun_eq_iff)

lemma set_nonce:
  assumes "sound_state s"
  obtains s' where "jindex_set2 s ''nonces'' k x = Some s'" "sound_state s'"
    "caps_of s' = caps_of s" "nonces_of s' = (nonces_of s)(k \<mapsto> x)"
  using assms
  by (elim sound_stateE)
     (auto simp: jindex_set2_def jindex_set_def jindex_def sound_state_def caps_of_def nonces_of_def
        map_of_map_insert ordered_map_insert fun_eq_iff)

subsection \<open>Forgetting what is stale\<close>

lemma jindex_setE:
  assumes "sound_state s" "\<And>s'. jindex_set s k x = Some s' \<Longrightarrow> jget s' = (jget s)(k \<mapsto> x) \<Longrightarrow> P"
  shows P
  using assms by (elim sound_stateE) (auto simp: jindex_set_def fun_eq_iff map_of_map_insert)

lemma forget_total:
  assumes "sound_state s"
  obtains s' where "forget_stale s now = Inr s'" "sound_state s'"
    "\<And>i. caps_of s' i = (case caps_of s i of Some rec \<Rightarrow> if still_issued now rec then Some rec else None
                        | None \<Rightarrow> None)"
    "\<And>k. nonces_of s' k = (case split_once (CHR '':'') k of
             Some (c, _) \<Rightarrow> if caps_of s' c \<noteq> None then nonces_of s k else None | None \<Rightarrow> None)"
proof (rule sound_stateE [OF assms])
  fix m c n
  assume s: "s = JObj m" and c: "map_of m ''capabilities'' = Some (JObj c)"
    and n: "map_of m ''nonces'' = Some (JObj n)" and oc: "ordered c" and on: "ordered n"
  define kept where "kept = map_retain (\<lambda>_ rec. still_issued now rec) c"
  define ns where "ns = map_retain (\<lambda>key _. nonce_of_live kept key) n"
  define s' where "s' = JObj (map_insert ''nonces'' (JObj ns) (map_insert ''capabilities'' (JObj kept) m))"
  have f: "forget_stale s now = Inr s'"
    using s c n by (simp add: forget_stale_def jindex_def jindex_set_def Let_def s'_def ns_def kept_def)
  have j: "jindex s' ''capabilities'' = JObj kept" "jindex s' ''nonces'' = JObj ns"
    by (simp_all add: s'_def jindex_def map_of_map_insert)
  have snd: "sound_state s'"
    using oc on by (simp add: sound_state_def j kept_def ns_def ordered_map_retain)
  have cs: "caps_of s = map_of c" "nonces_of s = map_of n"
    using s c n by (simp_all add: caps_of_def nonces_of_def jindex_def fun_eq_iff)
  have cs': "caps_of s' = map_of kept" "nonces_of s' = map_of ns"
    by (simp_all add: caps_of_def nonces_of_def j fun_eq_iff)
  have k: "caps_of s' i = (case caps_of s i of Some rec \<Rightarrow> if still_issued now rec then Some rec else None
                        | None \<Rightarrow> None)" for i
    using oc by (simp add: cs cs' kept_def map_of_map_retain ordered_distinct)
  have "nonces_of s' x = (case split_once (CHR '':'') x of
             Some (c, _) \<Rightarrow> if caps_of s' c \<noteq> None then nonces_of s x else None | None \<Rightarrow> None)" for x
    using on by (auto simp: cs cs' ns_def map_of_map_retain ordered_distinct nonce_of_live_def
        contains_key_def split: option.splits)
  with f snd k that show thesis by blast
qed

lemma forget_caps:
  "sound_state d \<Longrightarrow> forget_stale d now = Inr s \<Longrightarrow>
     caps_of s i = (case caps_of d i of Some rec \<Rightarrow> if still_issued now rec then Some rec else None
                    | None \<Rightarrow> None)"
  by (erule forget_total [of d now]) auto

lemma forget_nonces:
  "sound_state d \<Longrightarrow> forget_stale d now = Inr s \<Longrightarrow> split_once (CHR '':'') k = Some (i, n) \<Longrightarrow>
     nonces_of s k = (if caps_of s i \<noteq> None then nonces_of d k else None)"
  by (erule forget_total [of d now]) auto

lemma forget_sound: "sound_state d \<Longrightarrow> forget_stale d now = Inr s \<Longrightarrow> sound_state s"
  by (erule forget_total [of d now]) auto

subsection \<open>Loading\<close>

text \<open>A loaded state is the state on disk, stale records dropped.\<close>

definition loads_as :: "u64 option \<Rightarrow> json \<Rightarrow> json \<Rightarrow> bool" where
  "loads_as now d s \<longleftrightarrow> s = d \<and> d = empty_state \<or> (\<exists>t. now = Some t \<and> forget_stale d t = Inr s)"

lemma loads_sound: "loads_as now d s \<Longrightarrow> sound_state d \<Longrightarrow> sound_state s"
  by (auto simp: loads_as_def sound_empty intro: forget_sound)

lemma loads_caps:
  "loads_as now d s \<Longrightarrow> sound_state d \<Longrightarrow> caps_of s i = Some rec \<Longrightarrow> caps_of d i = Some rec"
  by (auto simp: loads_as_def forget_caps split: option.splits if_splits)

lemma loads_nonces:
  "loads_as now d s \<Longrightarrow> sound_state d \<Longrightarrow> caps_of s i \<noteq> None \<Longrightarrow> split_once (CHR '':'') k = Some (i, n) \<Longrightarrow>
     nonces_of s k = nonces_of d k"
  by (auto simp: loads_as_def forget_nonces)

lemma snapshot_disk: "sound_state s \<Longrightarrow> on_disk (Some (snapshot E s)) = Inr s"
  by (elim sound_stateE) (simp add: on_disk_def snapshot_def apply_value_def)

lemma load_spec:
  assumes "load_state E S now file = (r, file')" and "on_disk file = Inr d" and "sound_state d"
  shows "on_disk file' = Inr d" and "r = Inr s \<Longrightarrow> loads_as now d s \<and> untorn file'"
proof -
  have sv: "save_state E S d file = (x, f) \<Longrightarrow> on_disk f = Inr d \<and> (x = Inr () \<longrightarrow> untorn f)" for x f
    using assms(2,3) snapshot_disk [OF assms(3), of E]
    by (auto simp: save_state_def untorn_def snapshot_def split: replace_outcome.splits)
  show "on_disk file' = Inr d"
    using assms(1,2) sv
    by (auto simp: load_state_def replay_def on_disk_def bindR_def split: option.splits if_splits sum.splits prod.splits)
  show "r = Inr s \<Longrightarrow> loads_as now d s \<and> untorn file'"
    using assms(1,2) sv
    by (auto simp: load_state_def replay_def on_disk_def bindR_def loads_as_def untorn_def
        split: option.splits if_splits sum.splits prod.splits)
qed

subsection \<open>Saving\<close>

lemma complete_take: "\<exists>k. fst (complete_within E n xs) = take k xs"
proof (induction E n xs rule: complete_within.induct)
  case (2 E n x xs)
  show ?case
  proof (cases "n < length (json_text E x)")
    case True
    then show ?thesis by (intro exI [of _ 0]) simp
  next
    case False
    with 2 obtain k where "fst (complete_within E (n - line_bytes E x) xs) = take k xs" by blast
    with False show ?thesis by (intro exI [of _ "Suc k"]) (simp add: split_beta)
  qed
qed simp

text \<open>What is on disk after an append: the entries that were written whole, applied in order.\<close>

lemma append_disk:
  assumes "append_lines E S xs file = (r, file')" and "untorn file"
  obtains k where "on_disk file' = bindR (on_disk file) (\<lambda>d. foldR apply_value d (take k xs))"
    and "r = Inr () \<longrightarrow> take k xs = xs"
proof -
  have g: "on_disk (Some (grown J ys n t)) = bindR (on_disk file) (\<lambda>d. foldR apply_value d ys)"
    if "J = (case file of None \<Rightarrow> blank_journal | Some J \<Rightarrow> J)" for J ys n t
    using assms(2) that
    by (auto simp: on_disk_def grown_def foldR_append untorn_def blank_journal_def split: option.splits)
  show thesis
  proof (cases "append_as S")
    case Appended
    with assms(1) g [OF refl, of xs] show thesis
      by (intro that [of "length xs"]) (auto simp: append_lines_def Let_def)
  next
    case (AppendCut n)
    obtain k where k: "fst (complete_within E n xs) = take k xs" using complete_take by blast
    with assms(1) AppendCut g [OF refl, of "take k xs"] show thesis
      by (intro that [of k]) (auto simp: append_lines_def Let_def split: prod.splits)
  next
    case NotOpened
    with assms(1) show thesis
      by (intro that [of 0]) (auto simp: append_lines_def Let_def bindR_def split: sum.splits)
  qed
qed

text \<open>The disk between the old state and the new one: nothing of the entry, its nonce alone, or
  all of it.\<close>

definition between :: "json \<Rightarrow> string \<Rightarrow> json \<Rightarrow> (string \<times> json) option \<Rightarrow> json \<Rightarrow> bool" where
  "between d ident rec nonce d' \<longleftrightarrow>
     (caps_of d' = caps_of d \<or> caps_of d' = (caps_of d)(ident \<mapsto> rec))
     \<and> (nonces_of d' = nonces_of d
         \<or> (case nonce of Some (k, x) \<Rightarrow> nonces_of d' = (nonces_of d)(k \<mapsto> x) | None \<Rightarrow> False))"

definition holds_all :: "string \<Rightarrow> json \<Rightarrow> (string \<times> json) option \<Rightarrow> json \<Rightarrow> bool" where
  "holds_all ident rec nonce d' \<longleftrightarrow>
     caps_of d' ident = Some rec \<and> (case nonce of Some (k, x) \<Rightarrow> nonces_of d' k = Some x | None \<Rightarrow> True)"

lemma apply_nonce:
  assumes "sound_state d" and "is_number x"
  obtains d' where "apply_value d (mk_obj [(''nonce'', JStr k), (''seen_at'', x)]) = Inr d'"
    "sound_state d'" "caps_of d' = caps_of d" "nonces_of d' = (nonces_of d)(k \<mapsto> x)"
  using assms by (elim set_nonce [of d k x]) (simp add: apply_value_def)

lemma apply_record:
  assumes "sound_state d"
  obtains d' where "apply_value d (mk_obj [(''capability'', JStr i), (''record'', JObj m)]) = Inr d'"
    "sound_state d'" "caps_of d' = (caps_of d)(i \<mapsto> JObj m)" "nonces_of d' = nonces_of d"
  using assms by (elim set_capability [of d i "JObj m"]) (simp add: apply_value_def)

lemma entries_applied:
  assumes "sound_state d" and "caps_of s i = Some (JObj m)"
    and "entries s i (map_option fst nonce) = Inr xs"
    and "\<And>k x. nonce = Some (k, x) \<Longrightarrow> nonces_of s k = Some x \<and> is_number x"
  obtains d' where "foldR apply_value d (take n xs) = Inr d'" "sound_state d'" "between d i (JObj m) nonce d'"
    "take n xs = xs \<longrightarrow> holds_all i (JObj m) nonce d'"
proof (cases nonce)
  case None
  with assms have xs: "xs = [mk_obj [(''capability'', JStr i), (''record'', JObj m)]]"
    by (auto simp: entries_def caps_of_def result_simps)
  from assms(1) show thesis
    by (rule apply_record [of d i m])
       (cases n; use assms(1) None that xs in \<open>auto simp: between_def holds_all_def\<close>)
next
  case (Some p)
  then obtain k x where p: "nonce = Some (k, x)" by (cases p) auto
  with assms(4) have kx: "nonces_of s k = Some x" "is_number x" by auto
  let ?N = "mk_obj [(''nonce'', JStr k), (''seen_at'', x)]"
  let ?C = "mk_obj [(''capability'', JStr i), (''record'', JObj m)]"
  have xs: "xs = [?N, ?C]"
    using assms(2,3) p kx by (auto simp: entries_def caps_of_def nonces_of_def result_simps)
  obtain d1 where d1: "apply_value d ?N = Inr d1" "sound_state d1" "caps_of d1 = caps_of d"
      "nonces_of d1 = (nonces_of d)(k \<mapsto> x)"
    using assms(1) kx(2) by (rule apply_nonce)
  obtain d2 where d2: "apply_value d1 ?C = Inr d2" "sound_state d2" "caps_of d2 = (caps_of d1)(i \<mapsto> JObj m)"
      "nonces_of d2 = nonces_of d1"
    using d1(2) by (rule apply_record)
  consider "n = 0" | "n = 1" | "n \<ge> 2" by linarith
  then show thesis
  proof cases
    case 1
    with assms(1) xs show thesis by (intro that [of d]) (auto simp: between_def)
  next
    case 2
    with d1 xs p show thesis by (intro that [of d1]) (auto simp: between_def)
  next
    case 3
    with d1 d2 xs p show thesis by (intro that [of d2]) (auto simp: between_def holds_all_def)
  qed
qed

lemma save_spec:
  assumes "save_entry E S s i (map_option fst nonce) file = (r, file')" and "on_disk file = Inr d"
    and "sound_state d" and "sound_state s" and "untorn file" and "caps_of s i = Some (JObj m)"
    and "\<And>k x. nonce = Some (k, x) \<Longrightarrow> nonces_of s k = Some x \<and> is_number x"
  obtains d' where "on_disk file' = Inr d'" "sound_state d'" "between d i (JObj m) nonce d' \<or> d' = s"
    "r = Inr () \<longrightarrow> holds_all i (JObj m) nonce d'"
proof (cases "entries s i (map_option fst nonce)")
  case (Inl e)
  with assms that [of d] show thesis by (auto simp: save_entry_def between_def)
next
  case (Inr xs)
  obtain r1 file1 where ap: "append_lines E S xs file = (r1, file1)" by (cases "append_lines E S xs file")
  obtain n where n: "on_disk file1 = bindR (on_disk file) (\<lambda>d. foldR apply_value d (take n xs))"
      "r1 = Inr () \<longrightarrow> take n xs = xs"
    using append_disk [OF ap assms(5)] by blast
  obtain d1 where d1: "foldR apply_value d (take n xs) = Inr d1" "sound_state d1" "between d i (JObj m) nonce d1"
      "take n xs = xs \<longrightarrow> holds_all i (JObj m) nonce d1"
    using entries_applied [OF assms(3,6) Inr assms(7)] by blast
  have f1: "on_disk file1 = Inr d1" using n(1) assms(2) d1(1) by simp
  have hs: "holds_all i (JObj m) nonce s" using assms(6,7) by (auto simp: holds_all_def split: option.splits)
  have sv: "save_state E S s file1 = (x, f) \<Longrightarrow> f = file1 \<and> x \<noteq> Inr () \<or> f = Some (snapshot E s)" for x f
    by (auto simp: save_state_def split: replace_outcome.splits)
  show thesis
  proof (cases "file' = Some (snapshot E s)")
    case True
    with snapshot_disk [OF assms(4)] assms(4) hs that [of s] show thesis by simp
  next
    case False
    with assms(1) Inr ap sv have "file' = file1 \<and> (r = Inr () \<longrightarrow> r1 = Inr ())"
      by (auto simp: save_entry_def split: sum.splits if_splits)
    with f1 d1 n(2) that [of d1] show thesis by blast
  qed
qed

text \<open>A journal that has held a value keeps holding one: no write empties it.\<close>

definition started :: "journal option \<Rightarrow> bool" where
  "started file \<longleftrightarrow> (case file of Some J \<Rightarrow> jvalues J \<noteq> [] | None \<Rightarrow> False)"

lemma append_started:
  assumes "append_lines E S xs file = (Inr u, f)" and "untorn file" and "xs \<noteq> []"
  shows "untorn f \<and> started f"
  using assms
  by (auto simp: append_lines_def Let_def untorn_def grown_def blank_journal_def started_def
      split: append_outcome.splits prod.splits option.splits)

lemma save_untorn:
  assumes "save_entry E S s i nonce file = (Inr u, file')" and "untorn file"
  shows "untorn file' \<and> started file'"
proof -
  obtain xs f where xs: "entries s i nonce = Inr xs" and ap: "append_lines E S xs file = (Inr (), f)"
    using assms(1) by (auto simp: save_entry_def split: sum.splits prod.splits)
  have "xs \<noteq> []" using xs by (auto simp: entries_def result_simps)
  with append_started [OF ap assms(2)] have "untorn f \<and> started f" .
  then show ?thesis
    using assms(1) xs ap
    by (auto simp: save_entry_def save_state_def untorn_def started_def snapshot_def
        split: sum.splits if_splits replace_outcome.splits)
qed

lemma load_untorn:
  assumes "on_disk file = Inr d" and "untorn file" and "started file"
  shows "load_state E S (Some now) file = (forget_stale d now, file)"
proof -
  obtain J where J: "file = Some J" "\<not> jtorn J"
    using assms(2,3) by (auto simp: started_def untorn_def split: option.splits)
  then have "replay J = Inr (d, jvalues J \<noteq> [], False)" using assms(1) by (simp add: replay_def on_disk_def)
  with J show ?thesis by (simp add: load_state_def)
qed

lemma save_started: "save_entry E S s i nonce file = (r, file') \<Longrightarrow> started file \<Longrightarrow> started file'"
  by (auto simp: save_entry_def append_lines_def save_state_def started_def grown_def snapshot_def Let_def
      split: sum.splits prod.splits if_splits append_outcome.splits replace_outcome.splits option.splits)

lemma load_started: "load_state E S now file = (r, file') \<Longrightarrow> started file \<Longrightarrow> started file'"
  by (auto simp: load_state_def save_state_def started_def snapshot_def replay_def result_simps
      split: sum.splits prod.splits if_splits replace_outcome.splits option.splits)

lemma load_recovers:
  assumes "on_disk file = Inr d" and "sound_state d" and "started file" and "replace_as S = Replaced"
    and "\<not> backup_refused S"
  shows "fst (load_state E S (Some now) file) = forget_stale d now"
proof -
  obtain J where J: "file = Some J" "jvalues J \<noteq> []" using assms(3) by (auto simp: started_def split: option.splits)
  then have "replay J = Inr (d, True, jtorn J)" using assms(1) by (simp add: replay_def on_disk_def)
  with J assms(4,5) show ?thesis by (simp add: load_state_def save_state_def)
qed

end
