(* ===== verification/BrokerLaws.thy ===== *)
theory BrokerLaws
  imports Broker JournalLaws Traces
begin

text \<open>
  What one request does to the broker's state, whatever the clock, the vault and the file
  system answered: it leaves the disk as it was, or it moves exactly one capability forward.
  The broker as a step function over requests, and the two trace contracts it meets.
\<close>

section \<open>What an admitted request reads\<close>

definition uses_of :: "json \<Rightarrow> nat" where
  "uses_of rec =
     (if get_str rec ''state'' = Some ''issued''
      then (case get_u64 rec ''remaining_uses'' of Some n \<Rightarrow> unat n | None \<Rightarrow> 0) else 0)"

definition uses_left :: "string \<Rightarrow> json \<Rightarrow> nat" where
  "uses_left ident d = (case caps_of d ident of Some rec \<Rightarrow> uses_of rec | None \<Rightarrow> 0)"

lemma recorded_Inr:
  assumes "recorded rec = Inr h"
  shows "get_str rec ''state'' = Some (h_state h)" "get_u64 rec ''remaining_uses'' = Some (h_remaining h)"
    "get_u64 rec ''expires_at'' = Some (h_expires h)"
    "get_str rec ''authorization_id'' = Some (h_authorization h)"
    "get_str rec ''agent'' = Some (h_agent h)" "get_str rec ''resource'' = Some (h_resource h)"
  using assms by (auto simp: recorded_def result_simps simp del: get_Some)

lemma admittedE:
  assumes "admitted now s rq = Inr h"
  obtains m where "caps_of s (rq_id rq) = Some (JObj m)" "recorded (JObj m) = Inr h"
    "uses_of (JObj m) = unat (h_remaining h)" "h_state h = ''issued''" "now < h_expires h" "0 < h_remaining h"
    "h_authorization h = rq_authorization rq" "nonces_of s (nonce_key rq) = None"
proof -
  from assms obtain rec where r: "caps_of s (rq_id rq) = Some rec" "recorded rec = Inr h"
    and c: "h_state h = ''issued''" "\<not> h_expires h \<le> now" "\<not> h_remaining h < ONE_USE"
      "h_authorization h = rq_authorization rq" "nonces_of s (nonce_key rq) = None"
    by (auto simp: admitted_def caps_of_def nonces_of_def result_simps split: if_splits)
  have "jget rec ''state'' \<noteq> None" using recorded_Inr(1) [OF r(2)] by simp
  then obtain m where m: "rec = JObj m" by (cases rec) (simp_all add: jget_def)
  have "0 < h_remaining h" using c(3) by (simp add: ONE_USE_def word_gt_0 word_less_1)
  moreover have "uses_of rec = unat (h_remaining h)"
    using recorded_Inr(1,2) [OF r(2)] c(1) by (simp add: uses_of_def del: get_Some)
  ultimately show thesis using that [of m] r c m by (simp add: not_le)
qed

lemma parse_requestE:
  assumes "parse_request j = Inr rq"
  shows "list_all hex_lower (rq_id rq)" "exact_token (rq_nonce rq)" "exact_token (rq_workload rq)"
    "rq_operation rq = ''redeem'' \<or> rq_operation rq = ''cancel''" "length (rq_id rq) = CAPABILITY_ID_LENGTH"
    "length (rq_proof rq) = PROOF_LENGTH"
  using assms by (auto simp: parse_request_def result_simps split: option.splits if_splits)

lemma hex_no_colon: "list_all hex_lower i \<Longrightarrow> CHR '':'' \<notin> set i"
  by (auto simp: list_all_iff hex_lower_def is_digit_def less_eq_char_def)

lemma nonce_key_split: "list_all hex_lower (rq_id rq) \<Longrightarrow>
    split_once (CHR '':'') (nonce_key rq) = Some (rq_id rq, rq_nonce rq)"
  by (simp add: nonce_key_def hex_no_colon)

lemma set_in_record:
  assumes "sound_state s" and "caps_of s i = Some (JObj m)" and "set_in_record s i name x = Some s'"
  shows "sound_state s' \<and> caps_of s' = (caps_of s)(i \<mapsto> JObj (map_insert name x m))
     \<and> nonces_of s' = nonces_of s"
proof -
  have "jindex (jindex s ''capabilities'') i = JObj m"
    using assms(2) by (simp add: caps_of_def jindex_def [of _ i])
  with assms(3) have "jindex_set2 s ''capabilities'' i (JObj (map_insert name x m)) = Some s'"
    by (simp add: set_in_record_def jindex_set_def)
  with set_capability [OF assms(1)] show ?thesis by (metis option.inject)
qed

section \<open>What a request leaves\<close>

text \<open>The disk after the one entry of this request: part of it, all of it, or a snapshot of
  the new state, which no longer holds what was stale.\<close>

definition moved :: "json \<Rightarrow> json \<Rightarrow> redemption \<Rightarrow> u64 \<Rightarrow> json \<Rightarrow> json \<Rightarrow> bool" where
  "moved d s rq now rec d' \<longleftrightarrow>
     between d (rq_id rq) rec (Some (nonce_key rq, JUInt now)) d'
     \<or> caps_of d' = (caps_of s)(rq_id rq \<mapsto> rec) \<and> nonces_of d' = (nonces_of s)(nonce_key rq \<mapsto> JUInt now)"

definition accepted :: "answer \<Rightarrow> bool" where
  "accepted a \<longleftrightarrow> (case a of PendingA \<Rightarrow> True | CancelledA \<Rightarrow> True | HandedA x \<Rightarrow> True | _ \<Rightarrow> False)"

definition spent_on :: "json \<Rightarrow> json \<Rightarrow> redemption \<Rightarrow> u64 \<Rightarrow> held \<Rightarrow> cap_error + answer \<Rightarrow> journal option \<Rightarrow> bool"
  where
  "spent_on d s rq now h r file' \<longleftrightarrow>
     (\<exists>m d'. on_disk file' = Inr d' \<and> sound_state d' \<and> moved d s rq now (JObj m) d'
        \<and> uses_of (JObj m) \<le> unat (h_remaining h)
        \<and> (\<forall>a. r = Inr a \<longrightarrow> accepted a \<and> holds_all (rq_id rq) (JObj m) (Some (nonce_key rq, JUInt now)) d')
        \<and> (\<forall>x. r = Inr (HandedA x) \<longrightarrow> uses_of (JObj m) < unat (h_remaining h)))"

lemma stored_then:
  assumes "stored_then C s' rq final file = (r, file')" and "on_disk file = Inr d" and "sound_state d"
    and "untorn file" and "sound_state s'" and "caps_of s' = (caps_of s)(rq_id rq \<mapsto> JObj m)"
    and "nonces_of s' = (nonces_of s)(nonce_key rq \<mapsto> JUInt now)"
    and "uses_of (JObj m) \<le> unat (h_remaining h)" and "\<And>a. final = Inr a \<Longrightarrow> accepted a"
    and "\<And>x. final = Inr (HandedA x) \<Longrightarrow> uses_of (JObj m) < unat (h_remaining h)"
  shows "spent_on d s rq now h r file'"
proof -
  obtain r1 file1 where sv: "save_for C s' (rq_id rq) (Some (nonce_key rq)) file = (r1, file1)"
    by (cases "save_for C s' (rq_id rq) (Some (nonce_key rq)) file")
  then have f: "file' = file1" and r: "r = Inr a \<Longrightarrow> r1 = Inr () \<and> final = Inr a" for a
    using assms(1) by (auto simp: stored_then_def split: sum.splits)
  obtain d' where d': "on_disk file1 = Inr d'" "sound_state d'"
      "between d (rq_id rq) (JObj m) (Some (nonce_key rq, JUInt now)) d' \<or> d' = s'"
      "r1 = Inr () \<longrightarrow> holds_all (rq_id rq) (JObj m) (Some (nonce_key rq, JUInt now)) d'"
  proof (rule save_spec)
    show "save_entry (cenv C) (store C) s' (rq_id rq) (map_option fst (Some (nonce_key rq, JUInt now))) file
        = (r1, file1)" using sv by (simp add: save_for_def)
    show "caps_of s' (rq_id rq) = Some (JObj m)" using assms(6) by simp
    show "nonces_of s' k = Some x \<and> is_number x" if "Some (nonce_key rq, JUInt now) = Some (k, x)" for k x
      using that assms(7) by (auto simp: is_number_def)
  qed (use assms in blast)+
  show ?thesis
    unfolding spent_on_def moved_def f
    using d' assms(6-10) r by (intro exI [of _ m] exI [of _ d']) (auto 0 3)
qed

lemma uses_of_set_state: "uses_of (JObj (map_insert ''state'' (JStr t) m)) = (if t = ''issued'' then uses_of (JObj (map_insert ''state'' (JStr t) m)) else 0)"
  by (simp add: uses_of_def map_of_map_insert)

lemma uses_of_set_remaining:
  "get_str (JObj m) ''state'' = Some ''issued'' \<Longrightarrow>
     uses_of (JObj (map_insert ''remaining_uses'' (JUInt n) m)) = unat n"
  by (simp add: uses_of_def map_of_map_insert get_u64_def)

lemma spent_state:
  assumes "sound_state s" and "caps_of s i = Some (JObj m)" and "get_str (JObj m) ''state'' = Some ''issued''"
    and "spent_state s i left = Some s'"
  obtains m' where "sound_state s'" "caps_of s' = (caps_of s)(i \<mapsto> JObj m')" "nonces_of s' = nonces_of s"
    "uses_of (JObj m') \<le> unat left"
proof -
  from assms(4) obtain s1 where s1: "set_in_record s i ''remaining_uses'' (JUInt left) = Some s1"
    by (auto simp: spent_state_def bind_eq_Some_conv)
  let ?m = "map_insert ''remaining_uses'' (JUInt left) m"
  from set_in_record [OF assms(1,2) s1] have a: "sound_state s1" "caps_of s1 = (caps_of s)(i \<mapsto> JObj ?m)"
    "nonces_of s1 = nonces_of s" by simp_all
  show thesis
  proof (cases "left < ONE_USE")
    case True
    with assms(4) s1 have "set_in_record s1 i ''state'' (JStr ''spent'') = Some s'"
      by (simp add: spent_state_def)
    from set_in_record [OF a(1) _ this, of ?m] a show thesis
      by (intro that [of "map_insert ''state'' (JStr ''spent'') ?m"]) (auto simp: uses_of_set_state)
  next
    case False
    with assms(4) s1 a uses_of_set_remaining [OF assms(3), of left] show thesis
      by (intro that [of ?m]) (simp_all add: spent_state_def)
  qed
qed

lemma spend_use:
  assumes "spend_use C v h s1 rq file = (r, file')" and "on_disk file = Inr d" and "sound_state d"
    and "untorn file" and "sound_state s1" and "caps_of s1 = caps_of s"
    and "nonces_of s1 = (nonces_of s)(nonce_key rq \<mapsto> JUInt now)"
    and "caps_of s (rq_id rq) = Some (JObj m)" and "recorded (JObj m) = Inr h" and "h_state h = ''issued''"
    and "0 < h_remaining h"
  shows "file' = file \<and> (\<forall>a. r = Inr a \<longrightarrow> \<not> accepted a) \<or> spent_on d s rq now h r file'"
proof -
  have u: "uses_of (JObj m) = unat (h_remaining h)"
    using recorded_Inr(1,2) [OF assms(9)] assms(10) by (simp add: uses_of_def del: get_Some)
  have less: "unat (h_remaining h - ONE_USE) < unat (h_remaining h)"
    using assms(11) by (simp add: ONE_USE_def unat_minus_one_u64 word_less_nat_alt unat_gt_0
        word_le_nat_alt Suc_leI)
  have pend: "stored_then C s1 rq (Inr PendingA) file = (r, file') \<Longrightarrow> spent_on d s rq now h r file'"
    by (rule stored_then [OF _ assms(2-5), where m = m])
       (use assms(6-8) u in \<open>auto simp: accepted_def fun_upd_idem\<close>)
  have hand: "spent_on d s rq now h r file'"
    if "spent_state s1 (rq_id rq) (h_remaining h - ONE_USE) = Some s2"
      and "stored_then C s2 rq (audited C (HandedA x)) file = (r, file')" for s2 x
  proof -
    note sp = that(1)
    obtain m' where m': "sound_state s2" "caps_of s2 = (caps_of s1)(rq_id rq \<mapsto> JObj m')"
        "nonces_of s2 = nonces_of s1" "uses_of (JObj m') \<le> unat (h_remaining h - ONE_USE)"
      by (rule spent_state [OF assms(5) _ _ sp, of m])
         (use assms(6,8,10) recorded_Inr(1) [OF assms(9)] in auto)
    show ?thesis
      by (rule stored_then [OF that(2) assms(2-4) m'(1), where m = m'])
         (use m' assms(6,7) less in \<open>auto simp: audited_def accepted_def split: if_splits\<close>)
  qed
  show ?thesis
    using assms(1) pend hand
    by (auto simp: spend_use_def accepted_def split: sum.splits option.splits if_splits prod.splits)
qed

lemma cancel_use:
  assumes "cancel_use C s1 rq file = (r, file')" and "on_disk file = Inr d" and "sound_state d"
    and "untorn file" and "sound_state s1" and "caps_of s1 = caps_of s"
    and "nonces_of s1 = (nonces_of s)(nonce_key rq \<mapsto> JUInt now)"
    and "caps_of s (rq_id rq) = Some (JObj m)"
  shows "file' = file \<and> (\<forall>a. r = Inr a \<longrightarrow> \<not> accepted a) \<or> spent_on d s rq now h r file'"
proof (cases "set_in_record s1 (rq_id rq) ''state'' (JStr ''cancelled'')")
  case None
  with assms(1) show ?thesis by (auto simp: cancel_use_def)
next
  case (Some s2)
  from set_in_record [OF assms(5) _ Some, of m] assms(6,8)
  have s2: "sound_state s2" "caps_of s2 = (caps_of s)(rq_id rq \<mapsto> JObj (map_insert ''state'' (JStr ''cancelled'') m))"
    "nonces_of s2 = nonces_of s1" by simp_all
  from assms(1) Some have "stored_then C s2 rq (audited C CancelledA) file = (r, file')"
    by (simp add: cancel_use_def)
  then have "spent_on d s rq now h r file'"
    by (rule stored_then [OF _ assms(2-4) s2(1) s2(2)])
       (use s2 assms(7) in \<open>auto simp: audited_def accepted_def uses_of_set_state split: if_splits\<close>)
  then show ?thesis ..
qed

text \<open>Either nothing is accepted and the disk holds what it held, or this request was admitted
  on the loaded state and its entry is what changed.\<close>

lemma handle_effect:
  assumes "handle C line file = (r, file')" and "on_disk file = Inr d" and "sound_state d"
  obtains (unchanged) "on_disk file' = Inr d" "\<And>a. r = Inr a \<Longrightarrow> \<not> accepted a"
    | (spent) request rq now s h where "line = Some request" "\<not> asks_status request"
        "parse_request request = Inr rq" "cnow C = Some now" "loads_as (Some now) d s"
        "admitted now s rq = Inr h" "spent_on d s rq now h r file'"
proof (cases line)
  case None
  with assms show thesis by (intro unchanged) (auto simp: handle_def accepted_def)
next
  case (Some request)
  note line = this
  show thesis
  proof (cases "asks_status request \<or> isl (parse_request request) \<or> cnow C = None")
    case True
    with assms Some show thesis
      by (intro unchanged) (auto simp: handle_def accepted_def split: if_splits sum.splits option.splits)
  next
    case False
    then obtain rq now where rq: "parse_request request = Inr rq" and now: "cnow C = Some now"
      and st: "\<not> asks_status request"
      by (cases "parse_request request") auto
    obtain rl file1 where ld: "load_for C file = (rl, file1)" by (cases "load_for C file")
    note spec = load_spec [OF ld [unfolded load_for_def] assms(2,3)]
    show thesis
    proof (cases "\<exists>s h. rl = Inr s \<and> admitted now s rq = Inr h")
      case False
      have "file' = file1 \<and> (\<forall>a. r = Inr a \<longrightarrow> \<not> accepted a)"
        using assms(1) line rq now st ld False
        by (auto simp: handle_def accepted_def split: sum.splits)
      with spec(1) unchanged show thesis by blast
    next
      case True
      then obtain s h where s: "rl = Inr s" and h: "admitted now s rq = Inr h" by blast
      have ls: "loads_as (Some now) d s" "untorn file1" using spec(2) [OF s] now by auto
      have ss: "sound_state s" using ls(1) assms(3) by (rule loads_sound)
      obtain m where m: "caps_of s (rq_id rq) = Some (JObj m)" "recorded (JObj m) = Inr h"
          "h_state h = ''issued''" "0 < h_remaining h"
        using h by (rule admittedE)
      have p: "proven C now h s rq file1 = (r, file')"
        using assms(1) line rq now st ld s h by (simp add: handle_def)
      obtain s1 where s1: "jindex_set2 s ''nonces'' (nonce_key rq) (JUInt now) = Some s1" "sound_state s1"
          "caps_of s1 = caps_of s" "nonces_of s1 = (nonces_of s)(nonce_key rq \<mapsto> JUInt now)"
        using ss by (rule set_nonce)
      have "file' = file1 \<and> (\<forall>a. r = Inr a \<longrightarrow> \<not> accepted a) \<or> spent_on d s rq now h r file'"
        using p s1 spend_use [OF _ spec(1) assms(3) ls(2) s1(2-4) m]
          cancel_use [OF _ spec(1) assms(3) ls(2) s1(2-4) m(1), of C r file' h]
        by (auto simp: proven_def accepted_def split: sum.splits option.splits if_splits)
      with spec(1) unchanged spent [OF line st rq now ls(1) h] show thesis by blast
    qed
  qed
qed

end
