(* ===== verification/BrokerProps.thy ===== *)
theory BrokerProps
  imports BrokerLaws
begin

text \<open>
  The broker's promises over every run of requests: a capability hands out its secret at most
  as often as it was issued for, and no request is accepted twice. Both are the trace
  contracts of \<open>Traces\<close>, met whatever each request's clock, vault and file system answer.
\<close>

section \<open>The broker as a step function\<close>

datatype (plugins only: code size) broker_event =
    AskRedeem "json option"
  | AskIssue flags
  | AskCount
  | AskLive string

datatype (plugins only: code size) broker_reply =
    Answered "cap_error + answer"
  | Issued "cap_error + string"
  | Counted "cap_error + nat"
  | Live "cap_error + bool"

fun broker_step :: "journal option \<Rightarrow> cap_env \<times> broker_event \<Rightarrow> journal option \<times> broker_reply" where
  "broker_step file (C, AskRedeem line) = (case handle C line file of (r, file') \<Rightarrow> (file', Answered r))"
| "broker_step file (C, AskIssue fl) = (case issue C fl file of (r, file') \<Rightarrow> (file', Issued r))"
| "broker_step file (C, AskCount) = (case active_count C file of (r, file') \<Rightarrow> (file', Counted r))"
| "broker_step file (C, AskLive i) = (case capability_live C i file of (r, file') \<Rightarrow> (file', Live r))"

text \<open>The request an event redeems with, when it is one.\<close>

fun redemption_of :: "cap_env \<times> broker_event \<Rightarrow> redemption option" where
  "redemption_of (C, AskRedeem (Some j)) =
     (if asks_status j then None else case parse_request j of Inr rq \<Rightarrow> Some rq | Inl _ \<Rightarrow> None)"
| "redemption_of _ = None"

definition hands_out :: "string \<Rightarrow> cap_env \<times> broker_event \<Rightarrow> broker_reply \<Rightarrow> bool" where
  "hands_out ident e r \<longleftrightarrow>
     map_option rq_id (redemption_of e) = Some ident
     \<and> (case r of Answered (Inr (HandedA _)) \<Rightarrow> True | _ \<Rightarrow> False)"

definition accepts :: "string \<Rightarrow> string \<Rightarrow> cap_env \<times> broker_event \<Rightarrow> broker_reply \<Rightarrow> bool" where
  "accepts ident nonce e r \<longleftrightarrow>
     map_option (\<lambda>rq. (rq_id rq, rq_nonce rq)) (redemption_of e) = Some (ident, nonce)
     \<and> (case r of Answered (Inr a) \<Rightarrow> accepted a | _ \<Rightarrow> False)"

fun mints :: "string \<Rightarrow> cap_env \<times> broker_event \<Rightarrow> bool" where
  "mints ident (C, AskIssue fl) = (case drawn C fl of Inr (i, _) \<Rightarrow> i = ident | Inl _ \<Rightarrow> False)"
| "mints ident _ = False"

definition not_minted :: "string \<Rightarrow> cap_env \<times> broker_event \<Rightarrow> bool" where
  "not_minted ident e \<longleftrightarrow> \<not> mints ident e"

section \<open>One step only uses a capability up\<close>

definition ages :: "string \<Rightarrow> json \<Rightarrow> json \<Rightarrow> bool" where
  "ages ident d d' \<longleftrightarrow>
     uses_left ident d' \<le> uses_left ident d
     \<and> (caps_of d ident = None \<longrightarrow> caps_of d' ident = None)
     \<and> (list_all hex_lower ident \<longrightarrow>
          (\<forall>n. nonces_of d (ident @ '':'' @ n) \<noteq> None \<longrightarrow>
             nonces_of d' (ident @ '':'' @ n) \<noteq> None \<or> caps_of d' ident = None))"

lemma ages_refl: "ages i d d"
  by (simp add: ages_def)

lemma loads_ages:
  assumes "loads_as now d s" and "sound_state d"
  shows "ages i d s"
proof -
  have c: "caps_of s i = caps_of d i \<or> caps_of s i = None"
    using loads_caps [OF assms] by (cases "caps_of s i") auto
  have n: "\<forall>n. nonces_of s (i @ '':'' @ n) = nonces_of d (i @ '':'' @ n)"
    if "list_all hex_lower i" "caps_of s i \<noteq> None"
  proof
    fix n
    show "nonces_of s (i @ '':'' @ n) = nonces_of d (i @ '':'' @ n)"
      using loads_nonces [OF assms that(2), of "i @ '':'' @ n" n] that(1) by (simp add: hex_no_colon)
  qed
  show ?thesis
  proof (cases "caps_of s i = None")
    case True
    then show ?thesis by (simp add: ages_def uses_left_def)
  next
    case False
    with c have "caps_of s i = caps_of d i" by simp
    then show ?thesis using n False unfolding ages_def uses_left_def by (simp only:) simp
  qed
qed

lemma ages_update:
  assumes "ages i d d1" and "caps_of d' = caps_of d1 \<or> caps_of d' = (caps_of d1)(j \<mapsto> rec)"
    and "nonces_of d' = nonces_of d1 \<or> (\<exists>k x. nonces_of d' = (nonces_of d1)(k \<mapsto> x))"
    and "i = j \<Longrightarrow> caps_of d1 i \<noteq> None \<and> caps_of d i \<noteq> None \<and> uses_of rec \<le> uses_left i d"
  shows "ages i d d'"
  using assms by (auto simp: ages_def uses_left_def split: if_splits)

lemma spent_ages:
  assumes "spent_on d s rq now h r file'" and "loads_as (Some now) d s" and "sound_state d"
    and "admitted now s rq = Inr h"
  obtains d' where "on_disk file' = Inr d'" "sound_state d'" "\<forall>i. ages i d d'"
    "uses_left (rq_id rq) d = unat (h_remaining h)" "caps_of d (rq_id rq) \<noteq> None"
    "\<forall>a. r = Inr a \<longrightarrow> nonces_of d' (nonce_key rq) \<noteq> None"
    "\<forall>x. r = Inr (HandedA x) \<longrightarrow> uses_left (rq_id rq) d' < unat (h_remaining h)"
proof -
  obtain m where m: "caps_of s (rq_id rq) = Some (JObj m)" "uses_of (JObj m) = unat (h_remaining h)"
    using assms(4) by (rule admittedE)
  have d: "caps_of d (rq_id rq) = Some (JObj m)" using loads_caps [OF assms(2,3) m(1)] .
  then have u: "uses_left (rq_id rq) d = unat (h_remaining h)" using m by (simp add: uses_left_def)
  obtain m' d' where d': "on_disk file' = Inr d'" "sound_state d'" "moved d s rq now (JObj m') d'"
      "uses_of (JObj m') \<le> unat (h_remaining h)"
      "\<forall>a. r = Inr a \<longrightarrow> accepted a \<and> holds_all (rq_id rq) (JObj m') (Some (nonce_key rq, JUInt now)) d'"
      "\<forall>x. r = Inr (HandedA x) \<longrightarrow> uses_of (JObj m') < unat (h_remaining h)"
    using assms(1) by (auto simp: spent_on_def)
  have "ages i d d'" for i
    using d'(3) unfolding moved_def
  proof
    assume "between d (rq_id rq) (JObj m') (Some (nonce_key rq, JUInt now)) d'"
    then show ?thesis
      by (intro ages_update [OF ages_refl, where j = "rq_id rq" and rec = "JObj m'"])
         (use d u d'(4) in \<open>auto simp: between_def\<close>)
  next
    assume "caps_of d' = (caps_of s)(rq_id rq \<mapsto> JObj m')
      \<and> nonces_of d' = (nonces_of s)(nonce_key rq \<mapsto> JUInt now)"
    then show ?thesis
      by (intro ages_update [OF loads_ages [OF assms(2,3)], where j = "rq_id rq" and rec = "JObj m'"])
         (use d u d'(4) m(1) in auto)
  qed
  then show thesis
    by (intro that [OF d'(1,2)])
       (use u d d'(5,6) in \<open>auto simp: holds_all_def uses_left_def\<close>)
qed

lemma drawn_object: "drawn C fl = Inr (i, rec) \<Longrightarrow> \<exists>m. rec = JObj m"
  by (auto simp: drawn_def mk_record_def mk_obj_def Let_def result_simps split: if_splits)

lemma issue_effect:
  assumes "issue C fl file = (r, file')" and "on_disk file = Inr d" and "sound_state d"
  obtains d' where "on_disk file' = Inr d'" "sound_state d'" "\<forall>i. \<not> mints i (C, AskIssue fl) \<longrightarrow> ages i d d'"
    "\<forall>i. r = Inr i \<longrightarrow> (\<exists>rec. drawn C fl = Inr (i, rec) \<and> caps_of d' i = Some rec)"
proof (cases "drawn C fl")
  case (Inl e)
  with assms that [of d] show thesis by (auto simp: issue_def ages_refl)
next
  case (Inr p)
  obtain i rec where p: "p = (i, rec)" by (cases p)
  with Inr obtain m where m: "drawn C fl = Inr (i, JObj m)" "rec = JObj m" using drawn_object by blast
  obtain rl file1 where ld: "load_for C file = (rl, file1)" by (cases "load_for C file")
  note spec = load_spec [OF ld [unfolded load_for_def] assms(2,3)]
  show thesis
  proof (cases rl)
    case (Inl e)
    with assms ld m spec(1) that [of d] show thesis by (auto simp: issue_def ages_refl)
  next
    case (Inr s)
    have ls: "loads_as (cnow C) d s" "untorn file1" using spec(2) [OF Inr] by auto
    obtain s1 where s1: "jindex_set2 s ''capabilities'' i (JObj m) = Some s1" "sound_state s1"
        "caps_of s1 = (caps_of s)(i \<mapsto> JObj m)" "nonces_of s1 = nonces_of s"
      using loads_sound [OF ls(1) assms(3)] by (rule set_capability)
    obtain rs file2 where sv: "save_for C s1 i None file1 = (rs, file2)" by (cases "save_for C s1 i None file1")
    then have "save_entry (cenv C) (store C) s1 i (map_option fst None) file1 = (rs, file2)"
      by (simp add: save_for_def)
    then obtain d' where d': "on_disk file2 = Inr d'" "sound_state d'" "between d i (JObj m) None d' \<or> d' = s1"
        "rs = Inr () \<longrightarrow> holds_all i (JObj m) None d'"
      using spec(1) assms(3) s1(2) ls(2) by (rule save_spec) (use s1(3) in auto)
    have "ages j d d'" if "\<not> mints j (C, AskIssue fl)" for j
      using d'(3)
    proof
      assume "between d i (JObj m) None d'"
      then show ?thesis
        by (intro ages_update [OF ages_refl, where j = i and rec = "JObj m"])
           (use that m in \<open>auto simp: between_def\<close>)
    next
      assume "d' = s1"
      then show ?thesis
        by (intro ages_update [OF loads_ages [OF ls(1) assms(3)], where j = i and rec = "JObj m"])
           (use that m s1 in auto)
    qed
    moreover have "file' = file2" "\<And>j. r = Inr j \<Longrightarrow> j = i \<and> rs = Inr ()"
      using assms(1) ld Inr m s1 sv by (auto simp: issue_def split: sum.splits)
    ultimately show thesis
      using that [of d'] d' m by (auto simp: holds_all_def)
  qed
qed

lemma load_effect:
  assumes "load_for C file = (r, file')" and "on_disk file = Inr d" and "sound_state d"
  shows "on_disk file' = Inr d"
  using load_spec(1) [OF assms(1) [unfolded load_for_def] assms(2,3)] .

text \<open>Every step: a sound file stays sound, and what it does to each capability not minted.\<close>

lemma step_effect:
  assumes "broker_step file e = (file', r)" and "on_disk file = Inr d" and "sound_state d"
  obtains d' where "on_disk file' = Inr d'" "sound_state d'" "\<forall>i. \<not> mints i e \<longrightarrow> ages i d d'"
    "\<forall>i. hands_out i e r \<longrightarrow> uses_left i d' < uses_left i d"
    "\<forall>i n. accepts i n e r \<longrightarrow> caps_of d i \<noteq> None \<and> nonces_of d (i @ '':'' @ n) = None
        \<and> nonces_of d' (i @ '':'' @ n) \<noteq> None"
proof (cases e)
  case (Pair C ev)
  show thesis
  proof (cases ev)
    case (AskRedeem line)
    obtain a where h: "handle C line file = (a, file')" "r = Answered a"
      using assms(1) Pair AskRedeem by (auto split: prod.splits)
    show thesis
      using h(1) assms(2,3)
    proof (cases rule: handle_effect)
      case unchanged
      then have "\<not> hands_out i e r" "\<not> accepts i n e r" for i n
        using h(2) by (auto simp: hands_out_def accepts_def accepted_def split: sum.splits answer.splits)
      then show thesis
        using that [of d] assms(3) unchanged by (auto simp: ages_refl)
    next
      case (spent request rq now s h')
      obtain d' where d': "on_disk file' = Inr d'" "sound_state d'" "\<forall>i. ages i d d'"
          "uses_left (rq_id rq) d = unat (h_remaining h')" "caps_of d (rq_id rq) \<noteq> None"
          "\<forall>x. a = Inr x \<longrightarrow> nonces_of d' (nonce_key rq) \<noteq> None"
          "\<forall>x. a = Inr (HandedA x) \<longrightarrow> uses_left (rq_id rq) d' < unat (h_remaining h')"
        by (rule spent_ages [OF spent(7,5) assms(3) spent(6)])
      have hx: "list_all hex_lower (rq_id rq)" using spent(3) by (rule parse_requestE)
      obtain m where m: "caps_of s (rq_id rq) = Some (JObj m)" "nonces_of s (nonce_key rq) = None"
        using spent(6) by (rule admittedE)
      have nd: "nonces_of d (nonce_key rq) = None"
        using loads_nonces [OF spent(5) assms(3) _ nonce_key_split [OF hx]] m by simp
      have rd: "redemption_of e = Some rq" using Pair AskRedeem spent(1-3) by simp
      show thesis
        by (intro that [OF d'(1,2)])
           (use d'(3) rd h(2) d'(4-7) nd in \<open>auto simp: hands_out_def accepts_def nonce_key_def
              split: sum.splits answer.splits\<close>)
    qed
  next
    case (AskIssue fl)
    obtain a where h: "issue C fl file = (a, file')" "r = Issued a"
      using assms(1) Pair AskIssue by (auto split: prod.splits)
    obtain d' where "on_disk file' = Inr d'" "sound_state d'" "\<forall>i. \<not> mints i (C, AskIssue fl) \<longrightarrow> ages i d d'"
      by (rule issue_effect [OF h(1) assms(2,3)])
    then show thesis
      using that [of d'] Pair AskIssue h(2) by (auto simp: hands_out_def accepts_def)
  next
    case AskCount
    then have "on_disk file' = Inr d"
      using assms Pair load_effect [OF _ assms(2,3)]
      by (auto simp: active_count_def split: prod.splits sum.splits)
    with that [of d] assms(3) Pair AskCount show thesis by (auto simp: ages_refl hands_out_def accepts_def)
  next
    case (AskLive i)
    then have "on_disk file' = Inr d"
      using assms Pair load_effect [OF _ assms(2,3)]
      by (auto simp: capability_live_def split: prod.splits sum.splits)
    with that [of d] assms(3) Pair AskLive show thesis by (auto simp: ages_refl hands_out_def accepts_def)
  qed
qed

section \<open>The two contracts\<close>

definition left_on_disk :: "string \<Rightarrow> journal option \<Rightarrow> nat" where
  "left_on_disk ident file = (case on_disk file of Inr d \<Rightarrow> uses_left ident d | Inl _ \<Rightarrow> 0)"

definition nonce_closed :: "string \<Rightarrow> string \<Rightarrow> journal option \<Rightarrow> bool" where
  "nonce_closed ident nonce file \<longleftrightarrow>
     (case on_disk file of
        Inr d \<Rightarrow> caps_of d ident = None \<or> nonces_of d (ident @ '':'' @ nonce) \<noteq> None | Inl _ \<Rightarrow> False)"

interpretation uses: budgeted broker_step "hands_out ident" "left_on_disk ident" sound_file "not_minted ident"
  for ident
proof unfold_locales
  fix f e f' r
  assume "sound_file f" and a: "not_minted ident e" and b: "broker_step f e = (f', r)"
  then obtain d where d: "on_disk f = Inr d" "sound_state d" by (elim sound_fileE)
  obtain d' where d': "on_disk f' = Inr d'" "sound_state d'" "\<forall>i. \<not> mints i e \<longrightarrow> ages i d d'"
      "\<forall>i. hands_out i e r \<longrightarrow> uses_left i d' < uses_left i d"
    by (rule step_effect [OF b d])
  show "sound_file f'" using d' by (simp add: sound_file_def)
  show "left_on_disk ident f' \<le> left_on_disk ident f"
    using a d d' by (simp add: left_on_disk_def not_minted_def ages_def)
  show "left_on_disk ident f' < left_on_disk ident f" if "hands_out ident e r"
    using that d d' by (simp add: left_on_disk_def)
qed

text \<open>Identifiers are hexadecimal, so a nonce's key names its capability.\<close>

definition hex_id_not_minted :: "string \<Rightarrow> cap_env \<times> broker_event \<Rightarrow> bool" where
  "hex_id_not_minted ident e \<longleftrightarrow> list_all hex_lower ident \<and> not_minted ident e"

interpretation nonces: replay_guarded broker_step "accepts ident nonce" "nonce_closed ident nonce" sound_file
    "hex_id_not_minted ident" for ident nonce
proof unfold_locales
  fix f e f' r
  assume s: "sound_file f" and a: "hex_id_not_minted ident e" and b: "broker_step f e = (f', r)"
  then obtain d where d: "on_disk f = Inr d" "sound_state d" by (elim sound_fileE)
  obtain d' where d': "on_disk f' = Inr d'" "sound_state d'" "\<forall>i. \<not> mints i e \<longrightarrow> ages i d d'"
      "\<forall>i n. accepts i n e r \<longrightarrow> caps_of d i \<noteq> None \<and> nonces_of d (i @ '':'' @ n) = None
        \<and> nonces_of d' (i @ '':'' @ n) \<noteq> None"
    by (rule step_effect [OF b d])
  show "sound_file f'" using d' by (simp add: sound_file_def)
  show "nonce_closed ident nonce f'" if "nonce_closed ident nonce f"
    using that a d d'(1) d'(3) [THEN spec, of ident]
    by (auto simp: nonce_closed_def hex_id_not_minted_def not_minted_def ages_def)
  show "\<not> nonce_closed ident nonce f \<and> nonce_closed ident nonce f'" if "accepts ident nonce e r"
    using d'(4) that d d'(1) by (auto simp: nonce_closed_def)
qed

section \<open>The properties\<close>

text \<open>C9: a capability hands out its secret at most as often as it was issued for: after a
  successful issue with \<open>--max-uses n\<close>, any sequence of redemptions, cancellations, other
  issues and status reads, each under its own clock, vault, route table and file-system
  behaviour (torn appends and failed replacements included), answers with the secret at most
  \<open>n\<close> times, unless the same identifier is minted again.\<close>

theorem handed_out_within_max_uses:
  assumes "sound_file file" and "issue C fl file = (Inr ident, file1)"
    and "nonzero_flag fl ''max-uses'' = Inr n"
    and "list_all (not_minted ident) es" and "run broker_step file1 es = (file2, rs)"
  shows "count_events (hands_out ident) es rs \<le> unat n"
proof -
  obtain d where d: "on_disk file = Inr d" "sound_state d" using assms(1) by (rule sound_fileE)
  obtain d' where d': "on_disk file1 = Inr d'" "sound_state d'"
      "\<forall>i. \<not> mints i (C, AskIssue fl) \<longrightarrow> ages i d d'"
      "\<forall>i. Inr ident = (Inr i :: cap_error + string) \<longrightarrow> (\<exists>rec. drawn C fl = Inr (i, rec) \<and> caps_of d' i = Some rec)"
    by (rule issue_effect [OF assms(2) d])
  then obtain rec where rec: "drawn C fl = Inr (ident, rec)" "caps_of d' ident = Some rec" by blast
  have "get_u64 rec ''remaining_uses'' = Some n" "get_str rec ''state'' = Some ''issued''"
    using rec(1) assms(3) by (auto simp: drawn_def mk_record_def Let_def result_simps split: if_splits)
  then have "left_on_disk ident file1 = unat n"
    using d' rec by (simp add: left_on_disk_def uses_left_def uses_of_def del: get_Some)
  moreover have "sound_file file1" using d' by (simp add: sound_file_def)
  ultimately show ?thesis
    using uses.spent_within_budget [OF _ assms(4,5)] by fastforce
qed

text \<open>C10: no request is accepted twice: in any run over a sound journal, whatever each step's
  clock, vault and file system, the requests carrying one capability and one nonce are
  answered with the secret, \<open>pending\<close> or a cancellation at most once, unless the capability's
  identifier is minted again.\<close>

theorem nonce_accepted_once:
  assumes "sound_file file" and "list_all (hex_id_not_minted ident) es"
    and "run broker_step file es = (file', rs)"
  shows "count_events (accepts ident nonce) es rs \<le> 1"
  using nonces.accepted_at_most_once [OF assms] .

text \<open>Dropping what is stale changes no answer: on a sound state, every well-formed request
  is admitted (with the same capability) exactly when it is admitted on the state nothing was
  dropped from, at the instant the stale records were dropped.\<close>

theorem forgetting_changes_no_answer:
  assumes "sound_state d" and "forget_stale d now = Inr s" and "parse_request request = Inr rq"
  shows "admitted now s rq = Inr h \<longleftrightarrow> admitted now d rq = Inr h"
proof -
  have hx: "list_all hex_lower (rq_id rq)" using assms(3) by (rule parse_requestE)
  note sp = nonce_key_split [OF hx]
  have c: "caps_of s (rq_id rq) = (case caps_of d (rq_id rq) of
      Some rec \<Rightarrow> if still_issued now rec then Some rec else None | None \<Rightarrow> None)"
    using forget_caps [OF assms(1,2)] .
  have n: "nonces_of s (nonce_key rq) = (if caps_of s (rq_id rq) \<noteq> None then nonces_of d (nonce_key rq) else None)"
    using forget_nonces [OF assms(1,2) sp] .
  have live: "still_issued now rec" if "recorded rec = Inr h" "h_state h = ''issued''" "\<not> h_expires h \<le> now"
    for rec h
    using recorded_Inr(1,3) [OF that(1)] that(2,3) by (simp add: still_issued_def not_le del: get_Some)
  show ?thesis
    using c n live
    by (auto simp: admitted_def result_simps caps_of_def [symmetric] nonces_of_def [symmetric]
        split: option.splits if_splits)
qed

text \<open>C11: what a redemption needs: a secret leaves the broker only when the loaded capability is
  issued, unexpired, has a use left and carries the request's authorization, the agent's grant
  is active and registers a key, the request's signature over its own identifier, nonce,
  workload, operation and authorization verifies under that key, and the secret is what the
  capability's resource resolves to in the vault.\<close>

theorem handed_out_conditions:
  assumes "handle C line file = (Inr (HandedA secret), file')" and "sound_file file"
  shows "\<exists>rq now s h v key grant sig item fld.
     Option.bind line (\<lambda>j. case parse_request j of Inr q \<Rightarrow> Some q | Inl _ \<Rightarrow> None) = Some rq
     \<and> cnow C = Some now \<and> fst (load_for C file) = Inr s
     \<and> h_state h = ''issued'' \<and> now < h_expires h \<and> 0 < h_remaining h
     \<and> h_authorization h = rq_authorization rq
     \<and> Option.bind (caps_of s (rq_id rq)) (\<lambda>rec. case recorded rec of Inr q \<Rightarrow> Some q | Inl _ \<Rightarrow> None) = Some h
     \<and> vault_at C = Inr v \<and> grant_of v (h_agent h) = Some grant \<and> active (cnow C) grant
     \<and> get_str grant ''workload_public_key'' = Some key
     \<and> decode_base64url C (rq_proof rq) = Some sig \<and> signed C key (proof_payload rq) sig = Inr True
     \<and> coordinate_of C v (h_resource h) = Inr (Inr (item, fld))
     \<and> item_field (cenv C) v item fld = Inr (Some secret)"
proof -
  obtain request where line: "line = Some request" "\<not> asks_status request"
    using assms(1) by (auto simp: handle_def split: option.splits if_splits)
  obtain rq where rq: "parse_request request = Inr rq"
    using assms(1) line by (auto simp: handle_def split: sum.splits)
  obtain now where now: "cnow C = Some now"
    using assms(1) line rq by (auto simp: handle_def split: option.splits)
  obtain s file1 where s: "load_for C file = (Inr s, file1)"
    using assms(1) line rq now by (auto simp: handle_def split: sum.splits prod.splits)
  obtain h where h: "admitted now s rq = Inr h" and p: "proven C now h s rq file1 = (Inr (HandedA secret), file')"
    using assms(1) line rq now s by (auto simp: handle_def split: sum.splits)
  obtain m where m: "caps_of s (rq_id rq) = Some (JObj m)" "recorded (JObj m) = Inr h"
      "h_state h = ''issued''" "now < h_expires h" "0 < h_remaining h" "h_authorization h = rq_authorization rq"
    using h by (rule admittedE)
  obtain v key where v: "vault_at C = Inr v" and k: "workload_public_key (cnow C) v (h_agent h) = Some key"
    using p by (auto simp: proven_def split: sum.splits option.splits)
  obtain s1 where sig: "verify_proof C key (proof_payload rq) (rq_proof rq) = Inr True"
    and sp: "spend_use C v h s1 rq file1 = (Inr (HandedA secret), file')"
    using p v k by (auto simp: proven_def cancel_use_def stored_then_def audited_def
        split: sum.splits option.splits if_splits prod.splits)
  obtain item fld where c: "coordinate_of C v (h_resource h) = Inr (Inr (item, fld))"
    "item_field (cenv C) v item fld = Inr (Some secret)"
    using sp by (auto simp: spend_use_def stored_then_def audited_def
        split: sum.splits option.splits if_splits prod.splits)
  obtain bs where sg: "decode_base64url C (rq_proof rq) = Some bs" "signed C key (proof_payload rq) bs = Inr True"
    using sig by (auto simp: verify_proof_def split: option.splits)
  obtain grant where "grant_of v (h_agent h) = Some grant" "active (cnow C) grant"
    "get_str grant ''workload_public_key'' = Some key"
    using k by (auto simp: workload_public_key_def bind_eq_Some_conv split: if_splits simp del: get_Some)
  with line rq now s m v c sg show ?thesis by (auto simp del: get_Some)
qed

text \<open>C16: a proof speaks for one request only: two well-formed requests with the same signed
  bytes name the same capability, nonce, workload, operation and authorization.\<close>

theorem proof_payload_injective:
  assumes "parse_request j = Inr rq" and "parse_request j' = Inr rq'"
    and "proof_payload rq = proof_payload rq'"
  shows "rq_id rq = rq_id rq' \<and> rq_nonce rq = rq_nonce rq' \<and> rq_workload rq = rq_workload rq'
     \<and> rq_operation rq = rq_operation rq' \<and> rq_authorization rq = rq_authorization rq'"
proof -
  have tok: "exact_token t \<Longrightarrow> CHR 0x00 \<notin> set t" for t
    by (simp add: exact_token_def)
  have hex: "list_all hex_lower t \<Longrightarrow> CHR 0x00 \<notin> set t" for t
    by (auto simp: list_all_iff hex_lower_def is_digit_def less_eq_char_def)
  have op: "q = ''redeem'' \<or> q = ''cancel'' \<Longrightarrow> CHR 0x00 \<notin> set q" for q by auto
  have cut: "a = b \<and> x = y" if "a @ CHR 0x00 # x = b @ CHR 0x00 # y" "CHR 0x00 \<notin> set a" "CHR 0x00 \<notin> set b"
    for a b x y :: string
  proof -
    have "Some (a, x) = Some (b, y)"
      unfolding split_once_append [OF that(2), of x, symmetric] split_once_append [OF that(3), of y, symmetric]
      by (simp only: that(1))
    then show ?thesis by simp
  qed
  note p = parse_requestE [OF assms(1)] parse_requestE [OF assms(2)]
  have e: "rq_id rq @ CHR 0x00 # rq_nonce rq @ CHR 0x00 # rq_workload rq @ CHR 0x00 # rq_operation rq
        @ CHR 0x00 # rq_authorization rq
      = rq_id rq' @ CHR 0x00 # rq_nonce rq' @ CHR 0x00 # rq_workload rq' @ CHR 0x00 # rq_operation rq'
        @ CHR 0x00 # rq_authorization rq'"
    using assms(3) by (simp add: proof_payload_def)
  note e1 = cut [OF e hex [OF p(1)] hex [OF p(7)]]
  note e2 = cut [OF conjunct2 [OF e1] tok [OF p(2)] tok [OF p(8)]]
  note e3 = cut [OF conjunct2 [OF e2] tok [OF p(3)] tok [OF p(9)]]
  note e4 = cut [OF conjunct2 [OF e3] op [OF p(4)] op [OF p(10)]]
  from e1 e2 e3 e4 show ?thesis by simp
qed

lemma issue_started:
  assumes "issue C fl file = (Inr ident, file1)" and "on_disk file = Inr d" and "sound_state d"
  shows "untorn file1 \<and> started file1"
proof -
  obtain i rec where dr: "drawn C fl = Inr (i, rec)"
    using assms(1) by (auto simp: issue_def split: sum.splits)
  obtain s f where ld: "load_for C file = (Inr s, f)"
    using assms(1) dr by (auto simp: issue_def split: sum.splits prod.splits)
  then have "untorn f" using load_spec(2) [OF ld [unfolded load_for_def] assms(2,3)] by blast
  then show ?thesis
    using assms(1) dr ld save_untorn
    by (auto simp: issue_def save_for_def split: option.splits prod.splits sum.splits)
qed

text \<open>C17: an issued capability is live: after a successful issue over a sound journal the broker
  answers that the new capability can be redeemed, at the clock it was issued at.\<close>

theorem issued_is_live:
  assumes "sound_file file" and "issue C fl file = (Inr ident, file1)"
  shows "fst (capability_live C ident file1) = Inr True"
proof -
  obtain d where d: "on_disk file = Inr d" "sound_state d" using assms(1) by (rule sound_fileE)
  obtain d' where d': "on_disk file1 = Inr d'" "sound_state d'"
      "\<forall>i. \<not> mints i (C, AskIssue fl) \<longrightarrow> ages i d d'"
      "\<forall>i. Inr ident = (Inr i :: cap_error + string) \<longrightarrow> (\<exists>rec. drawn C fl = Inr (i, rec) \<and> caps_of d' i = Some rec)"
    by (rule issue_effect [OF assms(2) d])
  then obtain rec where rec: "drawn C fl = Inr (ident, rec)" "caps_of d' ident = Some rec" by blast
  from rec(1) obtain now ttl uses expires where r: "cnow C = Some now" "nonzero_flag fl ''ttl'' = Inr ttl"
      "nonzero_flag fl ''max-uses'' = Inr uses" "checked_add now ttl = Some expires"
      "get_u64 rec ''expires_at'' = Some expires" "get_u64 rec ''remaining_uses'' = Some uses"
      "get_str rec ''state'' = Some ''issued''"
    by (auto simp: drawn_def mk_record_def Let_def result_simps epoch_def split: if_splits)
  have nz: "ttl \<noteq> 0" "uses \<noteq> 0"
    using r(2,3) parse_nonzero_u64_Some by (auto simp: nonzero_flag_def result_simps)
  have "now < expires" using checked_add_gt [OF r(4) nz(1)] .
  with r nz have live: "still_issued now rec" "redeemable now rec"
    by (simp_all add: still_issued_def redeemable_def del: get_Some)
  have "untorn file1 \<and> started file1" using issue_started [OF assms(2) d] .
  then have ld: "load_for C file1 = (forget_stale d' now, file1)"
    using load_untorn [OF d'(1)] r(1) by (simp add: load_for_def)
  obtain s where s: "forget_stale d' now = Inr s" using forget_total [OF d'(2), of now] by metis
  have "caps_of s ident = Some rec" using forget_caps [OF d'(2) s, of ident] rec(2) live(1) by simp
  then show ?thesis
    using ld s live(2) r(1) by (simp add: capability_live_def epoch_def caps_of_def)
qed


section \<open>The challenge command\<close>

lemma challenge_payload_refused: "validate_payload (challenge_payload digits) ''note'' \<noteq> Inr u"
proof -
  have "get_object (challenge_payload digits) ''context'' = None"
    by (simp add: challenge_payload_def get_object_def)
  then show ?thesis
    by (auto simp: validate_payload_def result_simps simp del: get_Some split: option.splits if_splits)
qed

text \<open>\<open>capability challenge\<close> never stores a code: the payload it builds has no \<open>context\<close>, which
  every item write requires, so the command always fails and the vault is as it was.\<close>

theorem challenge_never_stored:
  "(\<exists>e. fst (challenge_put C positionals stdin file h) = Inl e)
     \<and> snd (snd (challenge_put C positionals stdin file h)) = h"
proof -
  have p: "\<exists>e. prepare_item E v i ''note'' (challenge_payload digits) uids tags pol = Inl e" for E v i digits uids tags pol
    using challenge_payload_refused [of digits]
    by (cases "validate_payload (challenge_payload digits) ''note''") (auto simp: prepare_item_def Let_def)
  have "\<exists>e w. set_item E i ''note'' (challenge_payload digits) uids tags v g = (Inl e, w, g)" for E i digits uids tags v g
  proof (cases "ensure_fingerprint_salt E v")
    case (Inl e)
    then show ?thesis by (simp add: set_item_def set_item_with_writer_def)
  next
    case (Inr v1)
    obtain e where "prepare_item E v1 i ''note'' (challenge_payload digits) uids tags no_policy = Inl e"
      using p by blast
    with Inr show ?thesis by (simp add: set_item_def set_item_with_writer_def)
  qed
  then have r: "set_item E i ''note'' (challenge_payload digits) uids tags v g = (x, w, g') \<Longrightarrow>
      (\<exists>e. x = Inl e) \<and> g' = g" for E i digits uids tags v g x w g'
    by (metis prod.inject)
  show ?thesis
    by (cases positionals; cases "tl positionals")
       (auto dest!: r simp: challenge_put_def Let_def split: sum.splits prod.splits list.splits)
qed

end
