(* ===== verification/BrokerWitness.thy ===== *)
theory BrokerWitness
  imports BrokerProps GrantWitness VaultProps
begin

text \<open>The broker properties at a concrete host: one agent with a registered key, one issued
  capability, and requests that redeem it.\<close>

definition demo_id :: string where "demo_id = replicate 64 (CHR ''a'')"

definition demo_keyed :: vault where
  "demo_keyed = put_section ''tokens''
     [(''bob'', mk_obj [(''expires_at'', JUInt 500), (''workload_public_key'', JStr ''k'')])] (fst demo_one)"

definition demo_cap :: cap_env where
  "demo_cap = \<lparr>genv = demo_genv\<lparr>mint_token := Inr demo_id\<rparr>, vault_at = Inr demo_keyed, table_at = Inr [],
     store = \<lparr>append_as = Appended, replace_as = Replaced, backup_refused = False, size_unreadable = False\<rparr>,
     b64_decode = Some, signed = (\<lambda>k msg sig. Inr True), audit_refuses = False\<rparr>"

definition demo_issue_flags :: flags where
  "demo_issue_flags = [(''agent'', ''bob''), (''purpose'', ''p''), (''resource'', ''a#value''), (''target'', ''t''),
     (''ttl'', ''50''), (''max-uses'', ''2'')]"

definition demo_signed :: "char \<Rightarrow> string \<Rightarrow> json" where
  "demo_signed c nonce = mk_obj [(''version'', JStr WIRE_VERSION), (''operation'', JStr ''redeem''),
     (''capability_id'', JStr demo_id), (''nonce'', JStr nonce), (''workload_id'', JStr ''w''),
     (''proof'', JStr (replicate 86 c))]"

definition demo_request :: "string \<Rightarrow> json" where
  "demo_request = demo_signed (CHR ''x'')"

definition demo_issued :: "(cap_error + string) \<times> journal option" where
  "demo_issued = issue demo_cap demo_issue_flags None"

definition demo_events :: "(cap_env \<times> broker_event) list" where
  "demo_events = map (\<lambda>n. (demo_cap, AskRedeem (Some (demo_request n)))) [''n1'', ''n1'', ''n2'', ''n3'']"

definition demo_run :: "journal option \<times> broker_reply list" where
  "demo_run = run broker_step (snd demo_issued) demo_events"

text \<open>A request whose append stops in the middle of its second line.\<close>

definition demo_torn :: outcome where
  "demo_torn = handle (demo_cap\<lparr>store := (store demo_cap)\<lparr>append_as := AppendCut 100\<rparr>\<rparr>)
     (Some (demo_request ''n1'')) (snd demo_issued)"

definition demo_handed :: outcome where
  "demo_handed = handle demo_cap (Some (demo_request ''n1'')) (snd demo_issued)"

lemma demo_issued_ok: "demo_issued = (Inr demo_id, snd demo_issued)"
proof -
  have "(case fst demo_issued of Inr i \<Rightarrow> i = demo_id | Inl _ \<Rightarrow> False)" by code_simp
  then have "fst demo_issued = Inr demo_id" by (simp split: sum.splits)
  then show ?thesis by (simp add: prod_eq_iff)
qed

lemma demo_none_sound: "sound_file None"
  by (simp add: sound_file_def on_disk_def sound_empty)

lemma demo_issued_sound: "sound_file (snd demo_issued)"
  by code_simp

lemma demo_issued_started: "started (snd demo_issued)"
  by code_simp

lemma demo_not_minted: "list_all (not_minted demo_id) demo_events"
  by (simp add: demo_events_def not_minted_def)

lemma demo_hex: "list_all hex_lower demo_id"
  by code_simp

lemma demo_hex_not_minted: "list_all (hex_id_not_minted demo_id) demo_events"
  using demo_hex by (simp add: demo_events_def not_minted_def hex_id_not_minted_def)

lemma demo_parses: "\<not> isl (parse_request (demo_request ''n1''))"
  by code_simp

theorem handed_out_within_max_uses_witness:
  "count_events (hands_out demo_id) demo_events (snd demo_run) \<le> 2
     \<and> count_events (hands_out demo_id) demo_events (snd demo_run) = 2"
proof -
  have "nonzero_flag demo_issue_flags ''max-uses'' = Inr 2"
    by (simp add: nonzero_flag_def demo_issue_flags_def) code_simp
  moreover have "run broker_step (snd demo_issued) demo_events = (fst demo_run, snd demo_run)"
    by (simp add: demo_run_def)
  ultimately have "count_events (hands_out demo_id) demo_events (snd demo_run) \<le> unat (2 :: u64)"
    using handed_out_within_max_uses [OF demo_none_sound demo_issued_ok [unfolded demo_issued_def] _
        demo_not_minted] unfolding demo_issued_def by blast
  moreover have "count_events (hands_out demo_id) demo_events (snd demo_run) = 2" by code_simp
  ultimately show ?thesis by simp
qed

theorem nonce_accepted_once_witness:
  "count_events (accepts demo_id ''n1'') demo_events (snd demo_run) \<le> 1
     \<and> count_events (accepts demo_id ''n1'') demo_events (snd demo_run) = 1"
proof -
  have "run broker_step (snd demo_issued) demo_events = (fst demo_run, snd demo_run)"
    by (simp add: demo_run_def)
  then have "count_events (accepts demo_id ''n1'') demo_events (snd demo_run) \<le> 1"
    using nonce_accepted_once [OF demo_issued_sound demo_hex_not_minted] by blast
  moreover have "count_events (accepts demo_id ''n1'') demo_events (snd demo_run) = 1" by code_simp
  ultimately show ?thesis by simp
qed

definition demo_state :: json where
  "demo_state = (case on_disk (snd demo_issued) of Inr d \<Rightarrow> d | Inl _ \<Rightarrow> JNull)"

theorem forgetting_changes_no_answer_witness:
  "\<exists>s rq h. forget_stale demo_state 100 = Inr s \<and> parse_request (demo_request ''n1'') = Inr rq
     \<and> admitted 100 s rq = Inr h \<and> admitted 100 demo_state rq = Inr h"
proof -
  have d: "sound_state demo_state" by code_simp
  obtain s where s: "forget_stale demo_state 100 = Inr s" using forget_total [OF d, of 100] by metis
  obtain rq where rq: "parse_request (demo_request ''n1'') = Inr rq"
    using demo_parses by (cases "parse_request (demo_request ''n1'')") auto
  have "(case parse_request (demo_request ''n1'') of
      Inr rq \<Rightarrow> \<not> isl (admitted 100 demo_state rq) | Inl _ \<Rightarrow> False)" by code_simp
  with rq obtain h where h: "admitted 100 demo_state rq = Inr h"
    by (cases "admitted 100 demo_state rq") auto
  with s rq forgetting_changes_no_answer [OF d s rq, of h] show ?thesis by blast
qed

lemma demo_handed_secret:
  "(case fst demo_handed of Inr (HandedA x) \<Rightarrow> x = ''x'' | _ \<Rightarrow> False)"
  by code_simp

theorem handed_out_conditions_witness:
  "\<exists>now (h :: held). demo_handed = (Inr (HandedA ''x''), snd demo_handed) \<and> cnow demo_cap = Some now \<and> now < h_expires h
     \<and> 0 < h_remaining h"
proof -
  have h: "demo_handed = (Inr (HandedA ''x''), snd demo_handed)"
    using demo_handed_secret by (auto simp: prod_eq_iff split: sum.splits answer.splits)
  from handed_out_conditions [OF h [unfolded demo_handed_def] demo_issued_sound] h show ?thesis
    by (elim exE conjE) (intro exI conjI, assumption+)
qed

theorem proof_payload_injective_witness:
  "\<exists>rq rq'. parse_request (demo_signed (CHR ''x'') ''n1'') = Inr rq
     \<and> parse_request (demo_signed (CHR ''y'') ''n1'') = Inr rq' \<and> rq_proof rq \<noteq> rq_proof rq'
     \<and> rq_nonce rq = rq_nonce rq' \<and> rq_authorization rq = rq_authorization rq'"
proof -
  have "(case (parse_request (demo_signed (CHR ''x'') ''n1''), parse_request (demo_signed (CHR ''y'') ''n1'')) of
      (Inr rq, Inr rq') \<Rightarrow> rq_proof rq \<noteq> rq_proof rq' \<and> proof_payload rq = proof_payload rq' | _ \<Rightarrow> False)"
    by code_simp
  then obtain rq rq' where r: "parse_request (demo_signed (CHR ''x'') ''n1'') = Inr rq"
      "parse_request (demo_signed (CHR ''y'') ''n1'') = Inr rq'" "rq_proof rq \<noteq> rq_proof rq'"
      "proof_payload rq = proof_payload rq'"
    by (auto split: sum.splits)
  with proof_payload_injective [OF r(1,2,4)] show ?thesis by blast
qed

theorem issued_is_live_witness:
  "demo_issued = (Inr demo_id, snd demo_issued)
     \<and> fst (capability_live demo_cap demo_id (snd demo_issued)) = Inr True"
  using issued_is_live [OF demo_none_sound demo_issued_ok [unfolded demo_issued_def]] demo_issued_ok
  unfolding demo_issued_def by blast

text \<open>The torn request wrote its nonce and a part of its record.\<close>

lemma demo_torn_part:
  "(case snd demo_torn of Some J \<Rightarrow> jtorn J \<and> length (jvalues J) = 2 | None \<Rightarrow> False)"
  by code_simp


end
