(* ===== verification/Requests.thy ===== *)
theory Requests
  imports Broker
begin

text \<open>
  Access requests: \<open>src/access/request/file.rs\<close>, \<open>decide.rs\<close>, the register of \<open>register.rs\<close>
  and \<open>Lifetime\<close> of \<open>mod.rs\<close>. An agent files a request, a person decides, and an approval
  issues the grant through the capability broker or through \<open>grant issue\<close>. The state is the
  register, beside the two states a grant is written to: the broker's journal and the vault.
  The decider's key, fresh identifiers and the file system's refusals are the record
  \<open>req_env\<close>. Every decision holds the register's lock, so one runs at a time.
\<close>

datatype (plugins only: code size) req_error =
    FlagMissing string
  | FlagNotLine string
  | BadNumber string
  | NotARequestKind string
  | BadDecider
  | ActionMustRead
  | BadConsumer
  | NoSecretForm
  | NamesVaultGrant request_kind
  | Unresolvable route_refusal
  | TableR table_error
  | VaultR vault_error
  | RegisterDamaged
  | NoRequest string
  | NoText string
  | NotPending string
  | NotRecipient string
  | NoRole string
  | MayNotDecide string
  | NotForThem string
  | NoFingerprint string
  | KeyringFailed
  | NoSecretKey string
  | AlreadyDecided string
  | NoForm
  | LifetimeExclusive
  | LifetimeZero
  | LifetimeMissing
  | LifetimeRecorded json
  | UsesRequired
  | AlwaysExpires
  | NotCounted
  | UsesZero
  | HoldsGrant string
  | TokenWrite
  | CapabilityR cap_error
  | GrantR grant_error
  | NotExactConsumer
  | NoDecisionsList
  | SaveRefused
  | JournalR
  | MintR
  | PanickedR

record req_env =
  rq_cap :: cap_env
  holds_key :: "string \<Rightarrow> req_error + bool"
  fresh_id :: "req_error + string"
  token_path :: "string \<Rightarrow> string"
  token_refused :: bool
  register_refused :: bool
  journal_refused :: bool

record world =
  w_register :: "json option"
  w_journal :: "journal option"
  w_host :: host

definition renv :: "req_env \<Rightarrow> env" where "renv R = cenv (rq_cap R)"

definition DEFAULT_DECIDER :: string where "DEFAULT_DECIDER = ''admin''"
definition DUAL_CONTROL_TAG :: string where "DUAL_CONTROL_TAG = ''dual-control''"

section \<open>How long a grant lives\<close>

datatype lifetime = Seconds u64 | UntilRevoked

definition lifetime_flags :: "flags \<Rightarrow> req_error + lifetime" where
  "lifetime_flags fl =
     (case (map_of fl ''ttl-seconds'', flag_set fl ''until-revoked'') of
        (Some _, True) \<Rightarrow> Inl LifetimeExclusive
      | (None, True) \<Rightarrow> Inr UntilRevoked
      | (Some raw, False) \<Rightarrow>
          bindR (ok_or (BadNumber ''ttl-seconds'') (parse_u64 raw)) (\<lambda>n.
            if n = 0 then Inl LifetimeZero else Inr (Seconds n))
      | (None, False) \<Rightarrow> Inl LifetimeMissing)"

fun lifetime_json :: "lifetime \<Rightarrow> json" where
  "lifetime_json (Seconds n) = JUInt n"
| "lifetime_json UntilRevoked = JStr ''until-revoked''"

definition lifetime_from :: "json \<Rightarrow> req_error + lifetime" where
  "lifetime_from j =
     (case as_u64 j of
        Some n \<Rightarrow> Inr (Seconds n)
      | None \<Rightarrow> if j = lifetime_json UntilRevoked then Inr UntilRevoked else Inl (LifetimeRecorded j))"

fun narrower :: "lifetime \<Rightarrow> lifetime \<Rightarrow> lifetime" where
  "narrower (Seconds a) (Seconds b) = Seconds (min a b)"
| "narrower (Seconds a) UntilRevoked = Seconds a"
| "narrower UntilRevoked (Seconds a) = Seconds a"
| "narrower UntilRevoked UntilRevoked = UntilRevoked"

section \<open>Reading a filing\<close>

record filing =
  f_requester :: json
  f_kind :: request_kind
  f_resource :: string
  f_action :: string
  f_reason :: string
  f_decider :: string
  f_dual :: bool
  f_item :: "string option"
  f_grant :: json
  f_via :: string

definition required_flag :: "flags \<Rightarrow> string \<Rightarrow> req_error + string" where
  "required_flag fl name =
     bindR (ok_or (FlagMissing name) (map_of fl name)) (\<lambda>x.
       if \<not> exact_token x \<or> trim x \<noteq> x \<or> x = ''true'' then Inl (FlagNotLine name) else Inr x)"

definition optional_flag :: "flags \<Rightarrow> string \<Rightarrow> req_error + json" where
  "optional_flag fl name =
     (case map_of fl name of
        None \<Rightarrow> Inr JNull
      | Some x \<Rightarrow> if exact_token x \<and> x \<noteq> ''true'' then Inr (JStr x) else Inl (FlagNotLine name))"

definition positive_flag :: "flags \<Rightarrow> string \<Rightarrow> req_error + u64" where
  "positive_flag fl name =
     bindR (required_flag fl name) (\<lambda>x. ok_or (BadNumber name) (parse_nonzero_u64 x))"

definition resolved_item :: "req_env \<Rightarrow> world \<Rightarrow> string \<Rightarrow> req_error + string" where
  "resolved_item R w resource =
     bindR (map_err VaultR (open_vault (w_host w))) (\<lambda>v.
     bindR (map_err TableR (table_at (rq_cap R))) (\<lambda>table.
     bindR (map_err Unresolvable (coordinate_for (renv R) v table resource)) (\<lambda>(item, _). Inr item)))"

definition capability_grant :: "flags \<Rightarrow> req_error + json" where
  "capability_grant fl =
     bindR (required_flag fl ''purpose'') (\<lambda>purpose.
     bindR (required_flag fl ''target'') (\<lambda>tgt.
     bindR (positive_flag fl ''ttl-seconds'') (\<lambda>ttl.
     bindR (positive_flag fl ''max-uses'') (\<lambda>uses.
     bindR (case map_of fl ''delegation-depth'' of
              None \<Rightarrow> Inr []
            | Some raw \<Rightarrow> bindR (ok_or (BadNumber ''delegation-depth'') (parse_u64 raw)) (\<lambda>n.
                Inr [(''delegation_depth'', JUInt n)])) (\<lambda>depth.
       Inr (mk_obj ([(''form'', JStr ''capability''), (''purpose'', JStr purpose), (''target'', JStr tgt),
                     (''ttl_seconds'', JUInt ttl), (''max_uses'', JUInt uses)] @ depth)))))))"

definition asked_grant ::
  "req_env \<Rightarrow> world \<Rightarrow> flags \<Rightarrow> request_kind \<Rightarrow> string \<Rightarrow> string \<Rightarrow> req_error + json \<times> string option" where
  "asked_grant R w fl kind act resource =
     (let bounded = list_ex (\<lambda>n. map_of fl n \<noteq> None) [''purpose'', ''target'', ''ttl-seconds'', ''max-uses''];
          standing = (map_of fl ''for-consumer'' \<noteq> None)
      in case (kind, bounded, standing) of
        (SecretKind, True, False) \<Rightarrow>
          if act \<noteq> ''read'' then Inl ActionMustRead
          else bindR (capability_grant fl) (\<lambda>g.
               bindR (resolved_item R w resource) (\<lambda>item. Inr (g, Some item)))
      | (SecretKind, False, True) \<Rightarrow>
          bindR (required_flag fl ''for-consumer'') (\<lambda>consumer.
            if \<not> exact_component consumer then Inl BadConsumer
            else Inr (mk_obj [(''form'', JStr ''consumer''), (''consumer'', JStr consumer)],
                      Some (case split_once (CHR ''#'') resource of Some (item, _) \<Rightarrow> item | None \<Rightarrow> resource)))
      | (SecretKind, _, _) \<Rightarrow> Inl NoSecretForm
      | (_, False, False) \<Rightarrow> Inr (mk_obj [(''form'', JStr ''record'')], None)
      | (other, _, _) \<Rightarrow> Inl (NamesVaultGrant other))"

definition requester_of :: "flags \<Rightarrow> req_error + json" where
  "requester_of fl =
     bindR (required_flag fl ''agent'') (\<lambda>agent.
     bindR (optional_flag fl ''harness'') (\<lambda>harness.
     bindR (optional_flag fl ''host'') (\<lambda>on_host.
     bindR (optional_flag fl ''person'') (\<lambda>person.
       Inr (mk_obj [(''agent'', JStr agent), (''harness'', harness), (''host'', on_host),
                    (''person'', person)])))))"

definition filing_flags :: "req_env \<Rightarrow> world \<Rightarrow> flags \<Rightarrow> string \<Rightarrow> req_error + filing" where
  "filing_flags R w fl via =
     bindR (required_flag fl ''kind'') (\<lambda>word.
     bindR (ok_or (NotARequestKind word) (kind_named word)) (\<lambda>kind.
     (let decider = (case map_of fl ''decider'' of Some d \<Rightarrow> d | None \<Rightarrow> DEFAULT_DECIDER)
      in if \<not> exact_token decider \<or> decider = ''true'' then Inl BadDecider
         else bindR (required_flag fl ''action'') (\<lambda>act.
              bindR (required_flag fl ''resource'') (\<lambda>resource.
              bindR (asked_grant R w fl kind act resource) (\<lambda>(grant, item).
              bindR (requester_of fl) (\<lambda>requester.
              bindR (required_flag fl ''reason'') (\<lambda>reason.
                Inr \<lparr>f_requester = requester, f_kind = kind, f_resource = resource, f_action = act,
                     f_reason = reason, f_decider = decider, f_dual = flag_set fl ''dual-control'',
                     f_item = item, f_grant = grant, f_via = via\<rparr>))))))))"

text \<open>A JSON body read with the same rules: underscores become hyphens, and a later key of the
  body takes an earlier one's place.\<close>

definition body_flag :: "env \<Rightarrow> string \<times> json \<Rightarrow> (string \<times> string) option" where
  "body_flag E kv =
     map_option (Pair (map (\<lambda>c. if c = CHR ''_'' then CHR ''-'' else c) (fst kv)))
       (case snd kv of
          JStr t \<Rightarrow> Some t
        | JBool True \<Rightarrow> Some ''true''
        | x \<Rightarrow> if is_number x then Some (json_text E x) else None)"

definition body_flags :: "env \<Rightarrow> json \<Rightarrow> flags" where
  "body_flags E body =
     rev (List.map_filter (body_flag E) (case as_object body of Some m \<Rightarrow> m | None \<Rightarrow> []))"

definition filing_body :: "req_env \<Rightarrow> world \<Rightarrow> json \<Rightarrow> string \<Rightarrow> req_error + filing" where
  "filing_body R w body via = filing_flags R w (body_flags (renv R) body) via"

section \<open>The register\<close>

definition load_register :: "world \<Rightarrow> req_error + json" where
  "load_register w =
     (case w_register w of
        None \<Rightarrow> Inr (mk_obj [(''requests'', JArr [])])
      | Some d \<Rightarrow> if get_array d ''requests'' = None then Inl RegisterDamaged else Inr d)"

definition requests_in :: "json \<Rightarrow> json list" where
  "requests_in d = (case get_array d ''requests'' of Some rs \<Rightarrow> rs | None \<Rightarrow> [])"

definition put_requests :: "json \<Rightarrow> json list \<Rightarrow> json" where
  "put_requests d rs = (case d of JObj m \<Rightarrow> JObj (map_insert ''requests'' (JArr rs) m) | _ \<Rightarrow> d)"

fun position :: "('a \<Rightarrow> bool) \<Rightarrow> 'a list \<Rightarrow> nat option" where
  "position p [] = None"
| "position p (x # xs) = (if p x then Some 0 else map_option Suc (position p xs))"

definition find_request :: "json \<Rightarrow> string \<Rightarrow> req_error + nat \<times> json" where
  "find_request d ident =
     (case position (\<lambda>r. get_str r ''id'' = Some ident) (requests_in d) of
        None \<Rightarrow> Inl (NoRequest ident)
      | Some i \<Rightarrow> Inr (i, requests_in d ! i))"

definition put_record :: "json \<Rightarrow> nat \<Rightarrow> json \<Rightarrow> json" where
  "put_record d i rec = put_requests d ((requests_in d)[i := rec])"

definition save_register :: "req_env \<Rightarrow> json \<Rightarrow> world \<Rightarrow> (req_error + unit) \<times> world" where
  "save_register R d w =
     (if register_refused R then (Inl SaveRefused, w) else (Inr (), w\<lparr>w_register := Some d\<rparr>))"

definition text_of :: "json \<Rightarrow> string \<Rightarrow> req_error + string" where
  "text_of rec key = ok_or (NoText key) (get_str rec key)"

text \<open>The save and the journal line that end a change.\<close>

definition recorded_then :: "req_env \<Rightarrow> json \<Rightarrow> json \<Rightarrow> world \<Rightarrow> (req_error + json) \<times> world" where
  "recorded_then R d answer w =
     (case save_register R d w of
        (Inl e, w') \<Rightarrow> (Inl e, w')
      | (Inr u, w') \<Rightarrow> (if journal_refused R then (Inl JournalR, w') else (Inr answer, w')))"

section \<open>Filing\<close>

definition marked_dual_control :: "world \<Rightarrow> string option \<Rightarrow> req_error + bool" where
  "marked_dual_control w item =
     (case item of
        None \<Rightarrow> Inr False
      | Some i \<Rightarrow>
          bindR (map_err VaultR (open_vault (w_host w))) (\<lambda>v.
            Inr (case Option.bind (item_entry v i) (\<lambda>r. get_array r ''tags'') of
                   Some tags \<Rightarrow> list_ex (\<lambda>t. t = JStr DUAL_CONTROL_TAG) tags | None \<Rightarrow> False)))"

definition same_question :: "json \<Rightarrow> filing \<Rightarrow> bool" where
  "same_question rec f \<longleftrightarrow>
     jindex rec ''state'' = JStr ''pending''
     \<and> jindex (jindex rec ''requester'') ''agent'' = jindex (f_requester f) ''agent''
     \<and> jindex rec ''kind'' = JStr (kind_name (f_kind f))
     \<and> jindex rec ''resource'' = JStr (f_resource f)
     \<and> jindex rec ''action'' = JStr (f_action f)
     \<and> list_all (\<lambda>k. jindex (jindex rec ''grant'') k = jindex (f_grant f) k)
         [''form'', ''purpose'', ''target'', ''consumer'']"

definition mk_request :: "env \<Rightarrow> string \<Rightarrow> filing \<Rightarrow> bool \<Rightarrow> json" where
  "mk_request E ident f dual =
     mk_obj [(''id'', JStr ident), (''requested_at'', JStr (now_iso E)), (''requester'', f_requester f),
       (''kind'', JStr (kind_name (f_kind f))), (''resource'', JStr (f_resource f)),
       (''action'', JStr (f_action f)), (''reason'', JStr (f_reason f)), (''decider'', JStr (f_decider f)),
       (''dual_control'', JBool dual), (''grant'', f_grant f), (''via'', JStr (f_via f)),
       (''state'', JStr ''pending''), (''decisions'', JArr []), (''issued'', JNull)]"

definition file_request :: "req_env \<Rightarrow> filing \<Rightarrow> bool \<Rightarrow> world \<Rightarrow> (req_error + json) \<times> world" where
  "file_request R f reuse_open w =
     (case marked_dual_control w (f_item f) of
        Inl e \<Rightarrow> (Inl e, w)
      | Inr marked \<Rightarrow>
          (case load_register w of
             Inl e \<Rightarrow> (Inl e, w)
           | Inr d \<Rightarrow>
               (case (if reuse_open then find (\<lambda>r. same_question r f) (requests_in d) else None) of
                  Some rec \<Rightarrow> (Inr rec, w)
                | None \<Rightarrow>
                    (case fresh_id R of
                       Inl e \<Rightarrow> (Inl e, w)
                     | Inr ident \<Rightarrow>
                         (let rec = mk_request (renv R) ident f (f_dual f \<or> marked)
                          in recorded_then R (put_requests d (requests_in d @ [rec])) rec w)))))"

section \<open>Deciding\<close>

datatype role = OwnerRole | AdminRole | OtherRole
datatype form = CapabilityForm | ConsumerForm | RecordForm
datatype closing = Deny | Withdraw

text \<open>The word a unit enum is read from: text, or an object of one key holding null.\<close>

definition enum_word :: "json \<Rightarrow> string option" where
  "enum_word j = (case j of JStr s \<Rightarrow> Some s | JObj [(k, JNull)] \<Rightarrow> Some k | _ \<Rightarrow> None)"

definition role_of :: "json \<Rightarrow> role option" where
  "role_of j = map_option (\<lambda>w. if w = ''owner'' then OwnerRole else if w = ''admin'' then AdminRole
                               else OtherRole) (enum_word j)"

definition form_of :: "json \<Rightarrow> req_error + form" where
  "form_of rec =
     (case enum_word (jindex (jindex rec ''grant'') ''form'') of
        Some w \<Rightarrow>
          if w = ''capability'' then Inr CapabilityForm
          else if w = ''consumer'' then Inr ConsumerForm
          else if w = ''record'' then Inr RecordForm
          else Inl NoForm
      | None \<Rightarrow> Inl NoForm)"

definition closing_words :: "closing \<Rightarrow> string \<times> string" where
  "closing_words c = (case c of Deny \<Rightarrow> (''deny'', ''denied'') | Withdraw \<Rightarrow> (''withdraw'', ''withdrawn''))"

definition decisions_of :: "json \<Rightarrow> json list" where
  "decisions_of rec = (case as_array (jindex rec ''decisions'') of Some ds \<Rightarrow> ds | None \<Rightarrow> [])"

definition check_pending :: "json \<Rightarrow> req_error + unit" where
  "check_pending rec =
     bindR (text_of rec ''state'') (\<lambda>state.
       if state \<noteq> ''pending'' then Inl (NotPending state) else Inr ())"

definition authorize :: "req_env \<Rightarrow> world \<Rightarrow> json \<Rightarrow> string \<Rightarrow> req_error + unit" where
  "authorize R w rec by' =
     bindR (text_of rec ''id'') (\<lambda>_.
     bindR (check_pending rec) (\<lambda>_.
     bindR (map_err VaultR (open_vault (w_host w))) (\<lambda>v.
     bindR (ok_or (NotRecipient by') (Option.bind (jget (doc v) ''recipients'') (\<lambda>rs. jget rs by'))) (\<lambda>recipient.
     bindR (ok_or (NoRole by') (role_of (jindex recipient ''role''))) (\<lambda>role.
       if role = OtherRole then Inl (MayNotDecide by')
       else bindR (text_of rec ''decider'') (\<lambda>decider.
            bindR (ok_or (NotForThem by') (role_of (jindex rec ''decider''))) (\<lambda>asked.
              if \<not> (case asked of AdminRole \<Rightarrow> True | OwnerRole \<Rightarrow> role = OwnerRole
                                | OtherRole \<Rightarrow> decider = by')
              then Inl (NotForThem by')
              else bindR (ok_or (NoFingerprint by') (as_str (jindex recipient ''fingerprint''))) (\<lambda>fpr.
                   bindR (holds_key R fpr) (\<lambda>held.
                     if \<not> held then Inl (NoSecretKey by')
                     else if list_ex (\<lambda>x. jindex x ''by'' = JStr by') (decisions_of rec)
                     then Inl (AlreadyDecided by')
                     else Inr ())))))))))"

definition uses_for :: "form \<Rightarrow> u64 option \<Rightarrow> lifetime \<Rightarrow> req_error + u64 option" where
  "uses_for fm uses life =
     (case (fm, uses) of
        (CapabilityForm, None) \<Rightarrow> Inl UsesRequired
      | (ConsumerForm, Some _) \<Rightarrow> Inl NotCounted
      | (_, Some n) \<Rightarrow>
          if fm = CapabilityForm \<and> life = UntilRevoked then Inl AlwaysExpires
          else if n = 0 then Inl UsesZero else Inr (Some n)
      | (_, None) \<Rightarrow> Inr None)"

text \<open>An i64 of seconds plus an unsigned lifetime; null when it does not fit.\<close>

definition epoch_plus :: "u64 option \<Rightarrow> u64 \<Rightarrow> json" where
  "epoch_plus now ttl =
     (case now of
        Some t \<Rightarrow> if uint t + uint ttl < 2 ^ 63 then JUInt (t + ttl) else JNull
      | None \<Rightarrow> JNull)"

definition capability_flags :: "json \<Rightarrow> string \<Rightarrow> u64 \<Rightarrow> u64 \<Rightarrow> req_error + flags" where
  "capability_flags rec ident ttl uses =
     bindR (text_of (jindex rec ''requester'') ''agent'') (\<lambda>agent.
     bindR (text_of (jindex rec ''grant'') ''purpose'') (\<lambda>purpose.
     bindR (text_of rec ''resource'') (\<lambda>resource.
     bindR (text_of (jindex rec ''grant'') ''target'') (\<lambda>tgt.
       Inr [(''agent'', agent), (''purpose'', purpose), (''resource'', resource), (''target'', tgt),
            (''ttl'', show_u64 ttl), (''max-uses'', show_u64 uses), (''authorization-id'', ident)]))))"

definition issue_capability ::
  "req_env \<Rightarrow> json \<Rightarrow> string \<Rightarrow> lifetime \<Rightarrow> u64 option \<Rightarrow> world \<Rightarrow> (req_error + json) \<times> world" where
  "issue_capability R rec ident life uses w =
     (case (life, uses) of
        (UntilRevoked, _) \<Rightarrow> (Inl AlwaysExpires, w)
      | (Seconds ttl, None) \<Rightarrow> (Inl UsesRequired, w)
      | (Seconds ttl, Some n) \<Rightarrow>
          (case capability_flags rec ident ttl n of
             Inl e \<Rightarrow> (Inl e, w)
           | Inr fl \<Rightarrow>
               (let C = (rq_cap R)\<lparr>vault_at := open_vault (w_host w)\<rparr>
                in case issue C fl (w_journal w) of
                     (Inl e, j) \<Rightarrow> (Inl (CapabilityR e), w\<lparr>w_journal := j\<rparr>)
                   | (Inr cap, j) \<Rightarrow>
                       (Inr (mk_obj [(''form'', JStr ''capability''), (''capability_id'', JStr cap),
                               (''authorization_id'', JStr ident),
                               (''expires_at'', epoch_plus (cnow (rq_cap R)) ttl)]),
                        w\<lparr>w_journal := j\<rparr>))))"

definition with_token :: "req_env \<Rightarrow> string \<Rightarrow> string \<Rightarrow> host_env" where
  "with_token R path token =
     (genv (rq_cap R))\<lparr>files := (files (genv (rq_cap R)))(path \<mapsto>
        \<lparr>regular = True, owned = True, shared = False, content = token\<rparr>)\<rparr>"

definition issue_consumer ::
  "req_env \<Rightarrow> json \<Rightarrow> string \<Rightarrow> lifetime \<Rightarrow> world \<Rightarrow> (req_error + json) \<times> world" where
  "issue_consumer R rec ident life w =
     (case bindR (text_of (jindex rec ''grant'') ''consumer'') (\<lambda>consumer.
           bindR (map_err VaultR (open_vault (w_host w))) (\<lambda>v.
             if jget (jindex (doc v) ''tokens'') consumer \<noteq> None then Inl (HoldsGrant consumer)
             else bindR (map_err GrantR (mint_token (genv (rq_cap R)))) (\<lambda>token.
                  if token_refused R then Inl TokenWrite
                  else bindR (text_of rec ''action'') (\<lambda>act.
                       bindR (text_of rec ''resource'') (\<lambda>resource.
                         if \<not> exact_component consumer then Inl NotExactConsumer
                         else Inr (consumer, token, act @ '':'' @ resource)))))) of
        Inl e \<Rightarrow> (Inl e, w)
      | Inr (consumer, token, caps) \<Rightarrow>
          (let path = token_path R ident;
               fl = [(''capabilities'', caps), (''token-file'', path),
                     (case life of Seconds ttl \<Rightarrow> (''ttl-seconds'', show_u64 ttl)
                                 | UntilRevoked \<Rightarrow> (''until-revoked'', ''true''))]
           in case issue_once (with_token R path token) consumer fl (w_host w) of
                (Inl e, h) \<Rightarrow> (Inl (GrantR e), w\<lparr>w_host := h\<rparr>)
              | (Inr answer, h) \<Rightarrow>
                  (Inr (mk_obj [(''form'', JStr ''consumer''), (''consumer'', JStr consumer),
                          (''capabilities'', jindex answer ''capabilities''),
                          (''expires_at'', jindex answer ''expires_at''), (''token_file'', JStr path)]),
                   w\<lparr>w_host := h\<rparr>)))"

definition issue_grant ::
  "req_env \<Rightarrow> json \<Rightarrow> lifetime \<Rightarrow> u64 option \<Rightarrow> world \<Rightarrow> (req_error + json) \<times> world" where
  "issue_grant R rec life uses w =
     (case bindR (text_of rec ''id'') (\<lambda>ident. bindR (form_of rec) (\<lambda>fm. Inr (ident, fm))) of
        Inl e \<Rightarrow> (Inl e, w)
      | Inr (ident, CapabilityForm) \<Rightarrow> issue_capability R rec ident life uses w
      | Inr (ident, ConsumerForm) \<Rightarrow> issue_consumer R rec ident life w
      | Inr (ident, RecordForm) \<Rightarrow>
          (bindR (text_of rec ''kind'') (\<lambda>k.
             Inr (mk_obj [(''form'', JStr ''record''), (''owner_acts'', JStr k)])), w))"

definition mk_approval :: "env \<Rightarrow> string \<Rightarrow> lifetime \<Rightarrow> u64 option \<Rightarrow> json" where
  "mk_approval E by' life uses =
     mk_obj [(''by'', JStr by'), (''at'', JStr (now_iso E)), (''answer'', JStr ''approve''),
             (''lifetime'', lifetime_json life), (''uses'', json_opt JUInt uses)]"

definition push_decision :: "json \<Rightarrow> json \<Rightarrow> req_error + json" where
  "push_decision rec x =
     (case jindex rec ''decisions'' of
        JArr ds \<Rightarrow> ok_or PanickedR (jindex_set rec ''decisions'' (JArr (ds @ [x])))
      | _ \<Rightarrow> Inl NoDecisionsList)"

definition approvals_of :: "json \<Rightarrow> json list" where
  "approvals_of rec = filter (\<lambda>x. jindex x ''answer'' = JStr ''approve'') (decisions_of rec)"

definition enough :: "json \<Rightarrow> bool" where
  "enough rec \<longleftrightarrow>
     (if jindex rec ''dual_control'' = JBool True
      then (case approvals_of rec of _ # others \<Rightarrow> others \<noteq> [] | [] \<Rightarrow> False)
      else approvals_of rec \<noteq> [])"

definition bound_of :: "json list \<Rightarrow> req_error + lifetime" where
  "bound_of approvals =
     bindR (mapR (\<lambda>x. lifetime_from (jindex x ''lifetime'')) approvals) (\<lambda>ls.
       case ls of [] \<Rightarrow> Inl LifetimeMissing | l # rest \<Rightarrow> Inr (foldl narrower l rest))"

definition fewest_of :: "json list \<Rightarrow> u64 option" where
  "fewest_of approvals =
     (case List.map_filter (\<lambda>x. as_u64 (jindex x ''uses'')) approvals of
        [] \<Rightarrow> None | n # ns \<Rightarrow> Some (foldl min n ns))"

text \<open>The record after a granted request: what was issued, and the state approved.\<close>

definition granted_record :: "json \<Rightarrow> json \<Rightarrow> req_error + json" where
  "granted_record rec issued =
     ok_or PanickedR (Option.bind (jindex_set rec ''issued'' issued) (\<lambda>r.
       jindex_set r ''state'' (JStr ''approved'')))"

definition approve_answer :: "string \<Rightarrow> json \<Rightarrow> bool \<Rightarrow> json" where
  "approve_answer ident rec granted =
     mk_obj [(''ok'', JBool True), (''request_id'', JStr ident), (''state'', jindex rec ''state''),
             (''status'', JStr (if granted then ''granted'' else ''awaiting-second-decider'')),
             (''issued'', jindex rec ''issued'')]"

definition grant_request ::
  "req_env \<Rightarrow> string \<Rightarrow> json \<Rightarrow> nat \<Rightarrow> json \<Rightarrow> world \<Rightarrow> (req_error + json) \<times> world" where
  "grant_request R ident d i rec w =
     (case bound_of (approvals_of rec) of
        Inl e \<Rightarrow> (Inl e, w)
      | Inr life \<Rightarrow>
          (case issue_grant R rec life (fewest_of (approvals_of rec)) w of
             (Inl e, w') \<Rightarrow> (Inl e, w')
           | (Inr issued, w') \<Rightarrow>
               (case granted_record rec issued of
                  Inl e \<Rightarrow> (Inl e, w')
                | Inr rec' \<Rightarrow> recorded_then R (put_record d i rec') (approve_answer ident rec' True) w')))"

definition approve ::
  "req_env \<Rightarrow> string \<Rightarrow> string \<Rightarrow> lifetime \<Rightarrow> u64 option \<Rightarrow> world \<Rightarrow> (req_error + json) \<times> world" where
  "approve R ident by' life uses w =
     (case bindR (load_register w) (\<lambda>d.
           bindR (find_request d ident) (\<lambda>(i, rec).
           bindR (authorize R w rec by') (\<lambda>_.
           bindR (form_of rec) (\<lambda>fm.
           bindR (uses_for fm uses life) (\<lambda>n.
           bindR (push_decision rec (mk_approval (renv R) by' life n)) (\<lambda>rec'.
             Inr (d, i, rec'))))))) of
        Inl e \<Rightarrow> (Inl e, w)
      | Inr (d, i, rec) \<Rightarrow>
          if enough rec then grant_request R ident d i rec w
          else recorded_then R (put_record d i rec) (approve_answer ident rec False) w)"

definition mk_closing :: "env \<Rightarrow> string \<Rightarrow> string \<Rightarrow> string option \<Rightarrow> json" where
  "mk_closing E by' answer reason =
     mk_obj [(''by'', JStr by'), (''at'', JStr (now_iso E)), (''answer'', JStr answer),
             (''lifetime'', JNull), (''uses'', JNull), (''reason'', json_opt JStr reason)]"

definition may_close :: "req_env \<Rightarrow> world \<Rightarrow> json \<Rightarrow> string \<Rightarrow> closing \<Rightarrow> req_error + unit" where
  "may_close R w rec by' c =
     bindR (if c = Withdraw then bindR (text_of (jindex rec ''requester'') ''agent'') (\<lambda>a. Inr (a = by'))
            else Inr False) (\<lambda>by_requester.
       if by_requester then check_pending rec else authorize R w rec by')"

definition close_request ::
  "req_env \<Rightarrow> string \<Rightarrow> string \<Rightarrow> closing \<Rightarrow> string option \<Rightarrow> world \<Rightarrow> (req_error + json) \<times> world" where
  "close_request R ident by' c reason w =
     (case bindR (load_register w) (\<lambda>d.
           bindR (find_request d ident) (\<lambda>(i, rec).
           bindR (may_close R w rec by' c) (\<lambda>_.
           bindR (push_decision rec (mk_closing (renv R) by' (fst (closing_words c)) reason)) (\<lambda>rec'.
           bindR (ok_or PanickedR (jindex_set rec' ''state'' (JStr (snd (closing_words c))))) (\<lambda>rec''.
             Inr (d, i, rec'')))))) of
        Inl e \<Rightarrow> (Inl e, w)
      | Inr (d, i, rec) \<Rightarrow>
          recorded_then R (put_record d i rec)
            (mk_obj [(''ok'', JBool True), (''request_id'', JStr ident),
                     (''state'', JStr (snd (closing_words c)))]) w)"

end
