(* ===== verification/RequestLaws.thy ===== *)
theory RequestLaws
  imports Requests BrokerProps
begin

text \<open>
  A request as an abstract decision: open with the people who approved it so far, granted by
  them, or shut. The register's operations refine it, record by record, in any order.
\<close>

section \<open>The abstract decision\<close>

datatype phase = Open "json list" | Granted "json list" | Shut

inductive decides :: "bool \<Rightarrow> phase \<Rightarrow> phase \<Rightarrow> bool" for dual where
  first: "dual \<Longrightarrow> decides dual (Open []) (Open [p])"
| grant: "p \<notin> set ps \<Longrightarrow> dual \<longrightarrow> ps \<noteq> [] \<Longrightarrow> decides dual (Open ps) (Granted (ps @ [p]))"
| shut: "decides dual (Open ps) Shut"

inductive_cases decides_from_Granted: "decides dual (Granted ps) q"
inductive_cases decides_from_Shut: "decides dual Shut q"

inductive reached :: "bool \<Rightarrow> phase \<Rightarrow> bool" for dual where
  filed: "reached dual (Open [])"
| step: "reached dual p \<Longrightarrow> decides dual p q \<Longrightarrow> reached dual q"

text \<open>Nothing follows a grant or a refusal, and every approver is another person.\<close>

lemma reached_sound:
  "reached dual p \<Longrightarrow>
     (case p of Open ps \<Rightarrow> distinct ps \<and> (\<not> dual \<longrightarrow> ps = [])
      | Granted ps \<Rightarrow> distinct ps \<and> ps \<noteq> [] \<and> (dual \<longrightarrow> 2 \<le> length ps)
      | Shut \<Rightarrow> True)"
proof (induction rule: reached.induct)
  case filed
  then show ?case by simp
next
  case (step p q)
  from step.hyps(2) step.IH show ?case
    by (cases rule: decides.cases) (auto simp: Suc_le_eq)
qed

section \<open>What a record stands for\<close>

definition approvers :: "json \<Rightarrow> json list" where
  "approvers rec = map (\<lambda>x. jindex x ''by'') (approvals_of rec)"

definition dual_of :: "json \<Rightarrow> bool" where
  "dual_of rec \<longleftrightarrow> jindex rec ''dual_control'' = JBool True"

definition phase_of :: "json \<Rightarrow> phase" where
  "phase_of rec =
     (if jindex rec ''state'' = JStr ''pending'' then Open (approvers rec)
      else if jindex rec ''state'' = JStr ''approved'' then Granted (approvers rec)
      else Shut)"

definition request_sound :: "json \<Rightarrow> bool" where
  "request_sound rec \<longleftrightarrow> reached (dual_of rec) (phase_of rec)"

definition register_sound :: "world \<Rightarrow> bool" where
  "register_sound w \<longleftrightarrow>
     (case w_register w of None \<Rightarrow> True | Some d \<Rightarrow> \<forall>rec \<in> set (requests_in d). request_sound rec)"

subsection \<open>Reading an updated record\<close>

lemma jindex_jindex_set: "jindex_set j k x = Some j' \<Longrightarrow> jindex j' k' = (if k' = k then x else jindex j k')"
  by (drule jindex_set_get) (simp add: jindex_def)

lemma push_decision_ok:
  assumes "push_decision rec x = Inr rec'"
  shows "decisions_of rec' = decisions_of rec @ [x]"
    and "k \<noteq> ''decisions'' \<Longrightarrow> jindex rec' k = jindex rec k"
proof -
  from assms obtain ds where ds: "jindex rec ''decisions'' = JArr ds"
      "jindex_set rec ''decisions'' (JArr (ds @ [x])) = Some rec'"
    by (auto simp: push_decision_def result_simps split: json.splits)
  show "decisions_of rec' = decisions_of rec @ [x]"
    using ds(1) by (simp add: decisions_of_def jindex_jindex_set [OF ds(2)])
  show "k \<noteq> ''decisions'' \<Longrightarrow> jindex rec' k = jindex rec k"
    by (simp add: jindex_jindex_set [OF ds(2)])
qed

lemma approvals_cong: "decisions_of rec' = decisions_of rec \<Longrightarrow> approvals_of rec' = approvals_of rec"
  by (simp add: approvals_of_def)

lemma granted_record_ok:
  assumes "granted_record rec issued = Inr rec'"
  shows "jindex rec' ''state'' = JStr ''approved''" "jindex rec' ''issued'' = issued"
    "k \<noteq> ''state'' \<Longrightarrow> k \<noteq> ''issued'' \<Longrightarrow> jindex rec' k = jindex rec k"
proof -
  from assms obtain r where r: "jindex_set rec ''issued'' issued = Some r"
      "jindex_set r ''state'' (JStr ''approved'') = Some rec'"
    by (auto simp: granted_record_def result_simps bind_eq_Some_conv)
  show "jindex rec' ''state'' = JStr ''approved''" "jindex rec' ''issued'' = issued"
    "k \<noteq> ''state'' \<Longrightarrow> k \<noteq> ''issued'' \<Longrightarrow> jindex rec' k = jindex rec k"
    by (simp_all add: jindex_jindex_set [OF r(1)] jindex_jindex_set [OF r(2)])
qed

lemma approval_pushed:
  assumes "push_decision rec (mk_approval E by' life n) = Inr rec'"
  shows "approvals_of rec' = approvals_of rec @ [mk_approval E by' life n]"
    "approvers rec' = approvers rec @ [JStr by']"
  using push_decision_ok(1) [OF assms]
  by (simp_all add: approvals_of_def approvers_def mk_approval_def jindex_def)

lemma authorize_ok:
  assumes "authorize R w rec by' = Inr u"
  shows "jindex rec ''state'' = JStr ''pending''" "JStr by' \<notin> set (approvers rec)"
proof -
  from assms have "get_str rec ''state'' = Some ''pending''"
    by (auto simp: authorize_def check_pending_def text_of_def result_simps split: if_splits simp del: get_Some)
  then show "jindex rec ''state'' = JStr ''pending''" by (simp add: jindex_def)
  from assms have "\<not> list_ex (\<lambda>x. jindex x ''by'' = JStr by') (decisions_of rec)"
    by (auto simp: authorize_def result_simps split: if_splits)
  then show "JStr by' \<notin> set (approvers rec)"
    by (auto simp: approvers_def approvals_of_def list_ex_iff)
qed

subsection \<open>The register as a list of records\<close>

lemma load_register_ok:
  assumes "load_register w = Inr d"
  shows "\<exists>m. d = JObj m" "register_sound w \<Longrightarrow> \<forall>rec \<in> set (requests_in d). request_sound rec"
proof -
  have empty: "requests_in (mk_obj [(''requests'', JArr [])]) = []"
    by (simp add: requests_in_def get_array_def)
  show "\<exists>m. d = JObj m"
    using assms by (cases d) (auto simp: load_register_def mk_obj_def get_array_def jget_def
        split: option.splits if_splits)
  show "register_sound w \<Longrightarrow> \<forall>rec \<in> set (requests_in d). request_sound rec"
    using assms empty
    by (cases "w_register w") (auto simp: load_register_def register_sound_def split: if_splits)
qed

lemma requests_put: "\<exists>m. d = JObj m \<Longrightarrow> requests_in (put_requests d rs) = rs"
  by (auto simp: requests_in_def put_requests_def get_array_def map_of_map_insert)

lemma position_Some: "position p xs = Some i \<Longrightarrow> i < length xs \<and> p (xs ! i)"
  by (induction xs arbitrary: i) (auto split: if_splits)

lemma find_request_ok:
  assumes "find_request d ident = Inr (i, rec)"
  shows "i < length (requests_in d)" "rec = requests_in d ! i" "rec \<in> set (requests_in d)"
  using assms position_Some [of _ "requests_in d" i] by (auto simp: find_request_def split: option.splits)

lemma recorded_then_register:
  assumes "recorded_then R d answer w = (r, w')"
  shows "w_register w' = w_register w \<or> w_register w' = Some d"
    and "r = Inr a \<Longrightarrow> w_register w' = Some d"
    and "w_journal w' = w_journal w" "w_host w' = w_host w"
  using assms by (auto simp: recorded_then_def save_register_def split: if_splits)

lemma put_record_sound:
  assumes "load_register w = Inr d" and "register_sound w" and "i < length (requests_in d)"
    and "request_sound rec" and "w_register w' = Some (put_record d i rec)"
  shows "register_sound w'"
  using load_register_ok [OF assms(1)] assms(2-5)
  by (auto simp: register_sound_def put_record_def requests_put in_set_conv_nth nth_list_update split: if_splits)

lemma register_sound_cong: "w_register w' = w_register w \<Longrightarrow> register_sound w' = register_sound w"
  by (simp add: register_sound_def)

lemma issue_grant_register: "issue_grant R rec life n w = (r, w') \<Longrightarrow> w_register w' = w_register w"
  by (auto simp: issue_grant_def issue_capability_def issue_consumer_def Let_def
      split: sum.splits lifetime.splits option.splits prod.splits form.splits)

section \<open>Each decision is a step\<close>

text \<open>What an approval leaves of its record: the phase it stood for takes one step.\<close>

lemma approval_step:
  assumes "authorize R w rec by' = Inr u" and "push_decision rec (mk_approval E by' life n) = Inr rec1"
    and "request_sound rec"
  shows "\<not> enough rec1 \<Longrightarrow> decides (dual_of rec) (phase_of rec) (phase_of rec1)"
    and "enough rec1 \<Longrightarrow> granted_record rec1 issued = Inr rec2 \<Longrightarrow>
           decides (dual_of rec) (phase_of rec) (phase_of rec2)"
    and "dual_of rec1 = dual_of rec" "granted_record rec1 issued = Inr rec2 \<Longrightarrow> dual_of rec2 = dual_of rec"
proof -
  note pend = authorize_ok [OF assms(1)]
  note p1 = push_decision_ok(2) [OF assms(2)] and app = approval_pushed [OF assms(2)]
  have open': "phase_of rec = Open (approvers rec)" using pend(1) by (simp add: phase_of_def)
  have sound: "\<not> dual_of rec \<longrightarrow> approvers rec = []"
    using reached_sound [OF assms(3) [unfolded request_sound_def]] by (simp add: open')
  show d1: "dual_of rec1 = dual_of rec" by (simp add: dual_of_def p1)
  show d2: "granted_record rec1 issued = Inr rec2 \<Longrightarrow> dual_of rec2 = dual_of rec"
    using d1 granted_record_ok(3) by (simp add: dual_of_def)
  have en: "enough rec1 \<longleftrightarrow> (dual_of rec \<longrightarrow> approvers rec \<noteq> [])"
    using app(1) p1 [of "''dual_control''"] by (auto simp: enough_def dual_of_def approvers_def split: list.splits)
  show "decides (dual_of rec) (phase_of rec) (phase_of rec1)" if "\<not> enough rec1"
    using that en app(2) pend(1) p1 [of "''state''"] decides.first [of "dual_of rec" "JStr by'"]
    by (simp add: open' phase_of_def)
  show "decides (dual_of rec) (phase_of rec) (phase_of rec2)"
    if "enough rec1" "granted_record rec1 issued = Inr rec2"
  proof -
    have "approvers rec2 = approvers rec @ [JStr by']"
      using granted_record_ok(3) [OF that(2), of "''decisions''"] app(2)
      by (simp add: approvers_def approvals_of_def decisions_of_def)
    then have "phase_of rec2 = Granted (approvers rec @ [JStr by'])"
      using granted_record_ok(1) [OF that(2)] by (simp add: phase_of_def)
    then show ?thesis
      using decides.grant [OF pend(2), of "dual_of rec"] that(1) en by (simp add: open')
  qed
qed

lemma request_stepped:
  "request_sound rec \<Longrightarrow> decides (dual_of rec) (phase_of rec) (phase_of rec') \<Longrightarrow> dual_of rec' = dual_of rec \<Longrightarrow>
     request_sound rec'"
  unfolding request_sound_def by (simp add: reached.step)

lemma approve_sound:
  assumes "approve R ident by' life uses w = (r, w')" and "register_sound w"
  shows "register_sound w'"
proof (cases "bindR (load_register w) (\<lambda>d.
           bindR (find_request d ident) (\<lambda>(i, rec).
           bindR (authorize R w rec by') (\<lambda>_.
           bindR (form_of rec) (\<lambda>fm.
           bindR (uses_for fm uses life) (\<lambda>n.
           bindR (push_decision rec (mk_approval (renv R) by' life n)) (\<lambda>rec'.
             Inr (d, i, rec')))))))")
  case (Inl e)
  with assms show ?thesis by (simp add: approve_def)
next
  case (Inr p)
  obtain d i rec1 where p: "p = (d, i, rec1)" by (cases p)
  from Inr p obtain rec fm n where d: "load_register w = Inr d" and f: "find_request d ident = Inr (i, rec)"
    and a: "authorize R w rec by' = Inr ()" and ps: "push_decision rec (mk_approval (renv R) by' life n) = Inr rec1"
    by (auto simp: result_simps)
  note fr = find_request_ok [OF f]
  have rs: "request_sound rec" using load_register_ok(2) [OF d assms(2)] fr(3) by blast
  have keep: "register_sound w''" if "w_register w'' = w_register w" for w''
    using assms(2) register_sound_cong [OF that] by simp
  show ?thesis
  proof (cases "enough rec1")
    case False
    then have "request_sound rec1" using approval_step(1,3) [OF a ps rs] request_stepped [OF rs] by blast
    moreover have "recorded_then R (put_record d i rec1) (approve_answer ident rec1 False) w = (r, w')"
      using assms(1) Inr p False by (simp add: approve_def)
    ultimately show ?thesis
      using recorded_then_register(1) put_record_sound [OF d assms(2) fr(1)] keep by blast
  next
    case True
    then have g: "grant_request R ident d i rec1 w = (r, w')" using assms(1) Inr p by (simp add: approve_def)
    show ?thesis
    proof (cases "\<exists>life' issued w1 rec2. bound_of (approvals_of rec1) = Inr life'
        \<and> issue_grant R rec1 life' (fewest_of (approvals_of rec1)) w = (Inr issued, w1)
        \<and> granted_record rec1 issued = Inr rec2")
      case False
      then have "w_register w' = w_register w"
        using g issue_grant_register by (auto simp: grant_request_def split: sum.splits prod.splits)
      then show ?thesis by (rule keep)
    next
      case True
      then obtain life' issued w1 rec2 where g1: "bound_of (approvals_of rec1) = Inr life'"
        "issue_grant R rec1 life' (fewest_of (approvals_of rec1)) w = (Inr issued, w1)"
        "granted_record rec1 issued = Inr rec2" by blast
      then have "recorded_then R (put_record d i rec2) (approve_answer ident rec2 True) w1 = (r, w')"
        using g by (simp add: grant_request_def)
      moreover have "w_register w1 = w_register w" using issue_grant_register [OF g1(2)] .
      moreover have "request_sound rec2"
        using approval_step(2,4) [OF a ps rs] g1(3) \<open>enough rec1\<close> request_stepped [OF rs] by blast
      ultimately show ?thesis
        using recorded_then_register(1) put_record_sound [OF d assms(2) fr(1)] keep by metis
    qed
  qed
qed

lemma close_sound:
  assumes "close_request R ident by' c reason w = (r, w')" and "register_sound w"
  shows "register_sound w'"
proof (cases "bindR (load_register w) (\<lambda>d.
           bindR (find_request d ident) (\<lambda>(i, rec).
           bindR (may_close R w rec by' c) (\<lambda>_.
           bindR (push_decision rec (mk_closing (renv R) by' (fst (closing_words c)) reason)) (\<lambda>rec'.
           bindR (ok_or PanickedR (jindex_set rec' ''state'' (JStr (snd (closing_words c))))) (\<lambda>rec''.
             Inr (d, i, rec''))))))")
  case (Inl e)
  with assms show ?thesis by (simp add: close_request_def)
next
  case (Inr p)
  obtain d i rec2 where p: "p = (d, i, rec2)" by (cases p)
  from Inr p obtain rec rec1 where d: "load_register w = Inr d" and f: "find_request d ident = Inr (i, rec)"
    and m: "may_close R w rec by' c = Inr ()"
    and ps: "push_decision rec (mk_closing (renv R) by' (fst (closing_words c)) reason) = Inr rec1"
    and st: "jindex_set rec1 ''state'' (JStr (snd (closing_words c))) = Some rec2"
    by (auto simp: result_simps)
  note fr = find_request_ok [OF f]
  have rs: "request_sound rec" using load_register_ok(2) [OF d assms(2)] fr(3) by blast
  have pend: "jindex rec ''state'' = JStr ''pending''"
    using m authorize_ok(1) by (auto simp: may_close_def check_pending_def text_of_def result_simps jindex_def
        split: if_splits)
  have "phase_of rec2 = Shut"
    by (cases c) (simp_all add: phase_of_def jindex_jindex_set [OF st] closing_words_def)
  moreover have "phase_of rec = Open (approvers rec)" using pend by (simp add: phase_of_def)
  moreover have "dual_of rec2 = dual_of rec"
    by (simp add: dual_of_def jindex_jindex_set [OF st] push_decision_ok(2) [OF ps])
  ultimately have "request_sound rec2"
    using request_stepped [OF rs] decides.shut by metis
  moreover have "\<exists>answer. recorded_then R (put_record d i rec2) answer w = (r, w')"
    using assms(1) Inr p by (auto simp: close_request_def)
  ultimately show ?thesis
    using recorded_then_register(1) put_record_sound [OF d assms(2) fr(1)] register_sound_cong assms(2) by metis
qed

lemma mk_request_sound: "request_sound (mk_request E ident f dual)"
  by (simp add: request_sound_def phase_of_def dual_of_def mk_request_def jindex_def approvers_def approvals_of_def
      decisions_of_def reached.filed)

lemma file_sound:
  assumes "file_request R f reuse w = (r, w')" and "register_sound w"
  shows "register_sound w'"
proof -
  have keep: "register_sound w'" if "w_register w' = w_register w"
    using assms(2) register_sound_cong [OF that] by simp
  show ?thesis
  proof (cases "\<exists>marked d ident. load_register w = Inr d \<and>
      recorded_then R (put_requests d (requests_in d @ [mk_request (renv R) ident f (f_dual f \<or> marked)]))
        (mk_request (renv R) ident f (f_dual f \<or> marked)) w = (r, w')")
    case True
    then obtain marked d ident where d: "load_register w = Inr d" and
      "recorded_then R (put_requests d (requests_in d @ [mk_request (renv R) ident f (f_dual f \<or> marked)]))
        (mk_request (renv R) ident f (f_dual f \<or> marked)) w = (r, w')" by blast
    then consider "w_register w' = w_register w"
      | "w_register w' = Some (put_requests d (requests_in d @ [mk_request (renv R) ident f (f_dual f \<or> marked)]))"
      using recorded_then_register(1) by blast
    then show ?thesis
    proof cases
      case 1
      then show ?thesis by (rule keep)
    next
      case 2
      then show ?thesis
        using load_register_ok [OF d] assms(2)
        by (auto simp: register_sound_def requests_put mk_request_sound)
    qed
  next
    case False
    then have "w' = w"
      using assms(1) by (auto simp: file_request_def Let_def split: sum.splits option.splits)
    then show ?thesis using assms(2) by simp
  qed
qed

end
