(* ===== verification/RequestProps.thy ===== *)
theory RequestProps
  imports RequestLaws
begin

text \<open>
  What a decided request guarantees: two people behind every dual-control grant, and a grant
  within what each of them allowed. And what it does not: a grant issued before the register
  is saved, and a role that hides the dual-control tag of the item it names.
\<close>

section \<open>Every run of the register\<close>

datatype (plugins only: code size) req_event =
    FileEv filing bool
  | ApproveEv string string lifetime "u64 option"
  | CloseEv string string closing "string option"

fun request_step :: "world \<Rightarrow> req_env \<times> req_event \<Rightarrow> world \<times> (req_error + json)" where
  "request_step w (R, FileEv f reuse) = prod.swap (file_request R f reuse w)"
| "request_step w (R, ApproveEv ident by' life uses) = prod.swap (approve R ident by' life uses w)"
| "request_step w (R, CloseEv ident by' c reason) = prod.swap (close_request R ident by' c reason w)"

lemma swap_eq: "prod.swap p = (a, b) \<longleftrightarrow> p = (b, a)"
  by (cases p) auto

interpretation register: preserving request_step register_sound "\<lambda>_. True"
proof
  fix w e w' r
  assume s: "register_sound w" and st: "request_step w e = (w', r)"
  obtain R ev where e: "e = (R, ev)" by (cases e)
  show "register_sound w'"
    using st s file_sound approve_sound close_sound unfolding e by (cases ev) (auto simp: swap_eq)
qed


lemma file_request_journal: "w_journal (snd (file_request R f reuse w)) = w_journal w"
  by (cases "file_request R f reuse w")
     (auto simp: file_request_def Let_def recorded_then_def save_register_def
        split: sum.splits option.splits if_splits)

section \<open>Within what each decider allowed\<close>

lemma foldl_min_le: "foldl min n ns \<le> (n :: u64) \<and> (\<forall>x \<in> set ns. foldl min n ns \<le> x)"
proof (induction ns arbitrary: n)
  case (Cons a ns)
  from Cons.IH [of "min n a"] show ?case by (auto intro: order_trans)
qed simp

lemma fewest_of_le:
  assumes "fewest_of xs = Some u" and "x \<in> set xs" and "jindex x ''uses'' = JUInt n"
  shows "u \<le> n"
proof -
  have "n \<in> set (List.map_filter (\<lambda>x. as_u64 (jindex x ''uses'')) xs)"
    using assms(2,3) by (force simp: List.map_filter_def image_iff)
  with assms(1) foldl_min_le show ?thesis by (auto simp: fewest_of_def split: list.splits)
qed

fun within :: "lifetime \<Rightarrow> lifetime \<Rightarrow> bool" where
  "within _ UntilRevoked = True"
| "within (Seconds a) (Seconds b) = (a \<le> b)"
| "within UntilRevoked (Seconds b) = False"

lemma within_refl: "within a a"
  by (cases a) simp_all

lemma within_trans: "within a b \<Longrightarrow> within b c \<Longrightarrow> within a c"
  by (cases a; cases b; cases c) simp_all

lemma narrower_within: "within (narrower a b) a" "within (narrower a b) b"
  by (cases a; cases b; simp)+

lemma foldl_narrower: "within (foldl narrower l ls) l \<and> (\<forall>x \<in> set ls. within (foldl narrower l ls) x)"
proof (induction ls arbitrary: l)
  case Nil
  then show ?case by (simp add: within_refl)
next
  case (Cons a ls)
  have n: "within (foldl narrower (narrower l a) ls) (narrower l a)" using Cons.IH by blast
  show ?case
    using Cons.IH [of "narrower l a"] within_trans [OF n narrower_within(1)] within_trans [OF n narrower_within(2)]
    by simp
qed

lemma mapR_in: "mapR f xs = Inr ys \<Longrightarrow> x \<in> set xs \<Longrightarrow> \<exists>y \<in> set ys. f x = Inr y"
  by (induction xs arbitrary: ys) (auto simp: result_simps)

lemma bound_of_within:
  assumes "bound_of xs = Inr l" and "x \<in> set xs"
  shows "\<exists>l'. lifetime_from (jindex x ''lifetime'') = Inr l' \<and> within l l'"
proof -
  from assms(1) obtain ys where ys: "mapR (\<lambda>x. lifetime_from (jindex x ''lifetime'')) xs = Inr ys"
    by (cases "mapR (\<lambda>x. lifetime_from (jindex x ''lifetime'')) xs") (simp_all add: bound_of_def)
  with assms(1) obtain a ls where ls: "mapR (\<lambda>x. lifetime_from (jindex x ''lifetime'')) xs = Inr (a # ls)"
    and l: "l = foldl narrower a ls"
    by (cases ys) (simp_all add: bound_of_def)
  from mapR_in [OF ls assms(2)] obtain l' where "l' \<in> set (a # ls)" "lifetime_from (jindex x ''lifetime'') = Inr l'"
    by blast
  with foldl_narrower [of a ls] l show ?thesis by auto
qed

lemma drawn_parts:
  assumes "drawn C fl = Inr (cap, m)"
  shows "\<exists>now expires ttl uses. cnow C = Some now \<and> nonzero_flag fl ''ttl'' = Inr ttl
     \<and> nonzero_flag fl ''max-uses'' = Inr uses \<and> checked_add now ttl = Some expires
     \<and> get_u64 m ''expires_at'' = Some expires \<and> get_u64 m ''remaining_uses'' = Some uses
     \<and> get_str m ''authorization_id''
         = Some (case map_of fl ''authorization-id'' of Some a \<Rightarrow> a | None \<Rightarrow> [])"
  using assms by (auto simp: drawn_def mk_record_def Let_def result_simps epoch_def split: if_splits)

lemma capability_issued:
  assumes "issue_capability R rec ident life uses w = (Inr issued, w')" and "sound_file (w_journal w)"
  obtains ttl n now cap m jd expires where "life = Seconds ttl" "uses = Some n" "cnow (rq_cap R) = Some now"
    "on_disk (w_journal w') = Inr jd" "caps_of jd cap = Some m" "get_str m ''authorization_id'' = Some ident"
    "get_u64 m ''remaining_uses'' = Some n" "get_u64 m ''expires_at'' = Some expires"
    "checked_add now ttl = Some expires" "jindex issued ''capability_id'' = JStr cap"
proof -
  from assms(1) obtain ttl n fl where l: "life = Seconds ttl" "uses = Some n" and fl: "capability_flags rec ident ttl n = Inr fl"
    by (auto simp: issue_capability_def split: lifetime.splits option.splits sum.splits)
  let ?C = "(rq_cap R)\<lparr>vault_at := open_vault (w_host w)\<rparr>"
  from assms(1) l fl obtain cap j where iss: "issue ?C fl (w_journal w) = (Inr cap, j)" and j: "w_journal w' = j"
    and cap: "jindex issued ''capability_id'' = JStr cap"
    by (auto simp: issue_capability_def Let_def jindex_def split: sum.splits prod.splits)
  obtain d where d: "on_disk (w_journal w) = Inr d" "sound_state d" using assms(2) by (rule sound_fileE)
  obtain jd where jd: "on_disk j = Inr jd" "sound_state jd" "\<forall>i. \<not> mints i (?C, AskIssue fl) \<longrightarrow> ages i d jd"
      "\<forall>i. Inr cap = (Inr i :: cap_error + string) \<longrightarrow> (\<exists>rec. drawn ?C fl = Inr (i, rec) \<and> caps_of jd i = Some rec)"
    by (rule issue_effect [OF iss d])
  then obtain m where m: "drawn ?C fl = Inr (cap, m)" "caps_of jd cap = Some m" by blast
  from fl obtain ag pu re tg where f: "fl = [(''agent'', ag), (''purpose'', pu), (''resource'', re), (''target'', tg),
            (''ttl'', show_u64 ttl), (''max-uses'', show_u64 n), (''authorization-id'', ident)]"
    by (auto simp: capability_flags_def result_simps)
  have p: "nonzero_flag fl ''ttl'' = Inr t \<Longrightarrow> t = ttl" "nonzero_flag fl ''max-uses'' = Inr t \<Longrightarrow> t = n" for t
    using f by (auto simp: nonzero_flag_def parse_nonzero_u64_def parse_show_u64 result_simps split: if_splits)
  obtain now expires ttl' uses' where r: "cnow ?C = Some now" "nonzero_flag fl ''ttl'' = Inr ttl'"
      "nonzero_flag fl ''max-uses'' = Inr uses'" "checked_add now ttl' = Some expires"
      "get_u64 m ''expires_at'' = Some expires" "get_u64 m ''remaining_uses'' = Some uses'"
      "get_str m ''authorization_id'' = Some (case map_of fl ''authorization-id'' of Some a \<Rightarrow> a | None \<Rightarrow> [])"
    using drawn_parts [OF m(1)] by blast
  have now: "cnow (rq_cap R) = Some now" using r(1) by (simp add: cnow_def)
  have tu: "ttl' = ttl" "uses' = n" using p r(2,3) by simp_all
  have au: "get_str m ''authorization_id'' = Some ident" unfolding r(7) f by simp
  have od: "on_disk (w_journal w') = Inr jd" using jd(1) j by simp
  show thesis
    by (rule that [OF l now od m(2) au _ r(5) _ cap]) (use r(4,6) tu in simp_all)
qed

text \<open>C23: an approval grants nothing beyond what any of its deciders allowed: when it issues a
  capability, the journal holds one that answers only to this request's identifier, whose uses
  are at most those each approval states and whose end is at most the instant of issue plus the
  seconds each approval states.\<close>

theorem approved_within_bounds:
  assumes "approve R ident by' life uses w = (Inr answer, w')" and "jindex answer ''status'' = JStr ''granted''"
    and "sound_file (w_journal w)" and "load_register w = Inr d" and "find_request d ident = Inr (i, rec)"
    and "form_of rec = Inr CapabilityForm"
  shows "\<exists>now jd cap m rec' d'. cnow (rq_cap R) = Some now \<and> w_register w' = Some d' \<and> rec' = requests_in d' ! i
     \<and> jindex rec' ''state'' = JStr ''approved''
     \<and> jindex (jindex rec' ''issued'') ''capability_id'' = JStr cap
     \<and> on_disk (w_journal w') = Inr jd \<and> caps_of jd cap = Some m
     \<and> get_str m ''authorization_id'' = Some ident
     \<and> (\<forall>x \<in> set (approvals_of rec').
          (\<forall>n. jindex x ''uses'' = JUInt n \<longrightarrow> (\<exists>u. get_u64 m ''remaining_uses'' = Some u \<and> u \<le> n))
          \<and> (\<forall>n. jindex x ''lifetime'' = JUInt n \<longrightarrow>
               (\<exists>t. get_u64 m ''expires_at'' = Some t \<and> uint t \<le> uint now + uint n)))"
proof -
  from assms(1,4-6) obtain n rec1 where rec1: "push_decision rec (mk_approval (renv R) by' life n) = Inr rec1"
    and e: "(if enough rec1 then grant_request R ident d i rec1 w
       else recorded_then R (put_record d i rec1) (approve_answer ident rec1 False) w) = (Inr answer, w')"
    by (auto simp: approve_def result_simps split: sum.splits)
  have en: "enough rec1"
  proof (rule ccontr)
    assume "\<not> enough rec1"
    with e have "answer = approve_answer ident rec1 False"
      by (auto simp: recorded_then_def split: sum.splits prod.splits if_splits)
    with assms(2) show False by (simp add: approve_answer_def jindex_def)
  qed
  with e obtain bound issued w1 rec2 where b: "bound_of (approvals_of rec1) = Inr bound"
    and iss: "issue_grant R rec1 bound (fewest_of (approvals_of rec1)) w = (Inr issued, w1)"
    and g: "granted_record rec1 issued = Inr rec2"
    and rt: "recorded_then R (put_record d i rec2) (approve_answer ident rec2 True) w1 = (Inr answer, w')"
    by (auto simp: grant_request_def split: sum.splits prod.splits)
  note k1 = push_decision_ok(2) [OF rec1]
  have ident: "get_str rec ''id'' = Some ident"
    using assms(5) position_Some [of "\<lambda>r. get_str r ''id'' = Some ident" "requests_in d" i]
    by (auto simp: find_request_def split: option.splits)
  then have "jindex rec1 ''id'' = JStr ident" using k1 [of "''id''"] by (simp add: jindex_def)
  then have id1: "get_str rec1 ''id'' = Some ident"
    by (auto simp: jindex_def split: option.splits)
  have "form_of rec1 = Inr CapabilityForm" using assms(6) k1 [of "''grant''"] by (simp add: form_of_def)
  with iss id1 have ic: "issue_capability R rec1 ident bound (fewest_of (approvals_of rec1)) w = (Inr issued, w1)"
    by (simp add: issue_grant_def text_of_def del: get_Some)
  obtain ttl u now cap m jd expires where c: "bound = Seconds ttl" "fewest_of (approvals_of rec1) = Some u"
    "cnow (rq_cap R) = Some now" "on_disk (w_journal w1) = Inr jd" "caps_of jd cap = Some m"
    "get_str m ''authorization_id'' = Some ident" "get_u64 m ''remaining_uses'' = Some u"
    "get_u64 m ''expires_at'' = Some expires" "checked_add now ttl = Some expires"
    "jindex issued ''capability_id'' = JStr cap"
    using ic assms(3) by (rule capability_issued)
  have ap: "approvals_of rec2 = approvals_of rec1"
    using granted_record_ok(3) [OF g, of "''decisions''"] by (simp add: approvals_of_def decisions_of_def)
  have ex: "uint expires = uint now + uint ttl"
    using checked_add_unat [OF c(9)] by (metis uint_nat of_nat_add)
  have bounds: "\<forall>x \<in> set (approvals_of rec2).
          (\<forall>n. jindex x ''uses'' = JUInt n \<longrightarrow> (\<exists>u. get_u64 m ''remaining_uses'' = Some u \<and> u \<le> n))
          \<and> (\<forall>n. jindex x ''lifetime'' = JUInt n \<longrightarrow>
               (\<exists>t. get_u64 m ''expires_at'' = Some t \<and> uint t \<le> uint now + uint n))"
  proof (intro ballI conjI allI impI)
    fix x n assume x: "x \<in> set (approvals_of rec2)" and n: "jindex x ''uses'' = JUInt n"
    show "\<exists>u. get_u64 m ''remaining_uses'' = Some u \<and> u \<le> n"
      using fewest_of_le [OF c(2) _ n] x ap c(7) by auto
  next
    fix x n assume x: "x \<in> set (approvals_of rec2)" and n: "jindex x ''lifetime'' = JUInt n"
    then have "within bound (Seconds n)"
      using bound_of_within [OF b] ap by (fastforce simp: lifetime_from_def)
    then have "uint ttl \<le> uint n" using c(1) by (simp add: word_le_def)
    then show "\<exists>t. get_u64 m ''expires_at'' = Some t \<and> uint t \<le> uint now + uint n"
      using c(8) ex by auto
  qed
  have reg: "w_register w' = Some (put_record d i rec2)" "w_journal w' = w_journal w1"
    using recorded_then_register(2,3) [OF rt] by auto
  have at: "requests_in (put_record d i rec2) ! i = rec2"
    using find_request_ok(1) [OF assms(5)] requests_put [OF load_register_ok(1) [OF assms(4)]]
    by (simp add: put_record_def)
  show ?thesis
    by (intro exI [of _ now] exI [of _ jd] exI [of _ cap] exI [of _ m] exI [of _ rec2]
        exI [of _ "put_record d i rec2"] conjI)
       (use c reg at bounds granted_record_ok(1,2) [OF g] in \<open>simp_all del: get_Some\<close>)
qed

section \<open>What the register does not guard\<close>

text \<open>C24: a grant is issued before its approval is recorded: when the register cannot be saved,
  an approval that would have granted leaves the same journal and the same vault as one that
  did, while the register still shows the request pending and the approval untaken.\<close>

theorem unsaved_approval_still_grants:
  assumes "approve R ident by' life uses w = (Inr answer, w1)"
    and "approve (R\<lparr>register_refused := True\<rparr>) ident by' life uses w = (r, w2)"
  shows "r = Inl SaveRefused \<and> w_register w2 = w_register w
     \<and> w_journal w2 = w_journal w1 \<and> w_host w2 = w_host w1"
proof -
  let ?R = "R\<lparr>register_refused := True\<rparr>"
  have au: "authorize ?R w rec by' = authorize R w rec by'" for w rec
  proof -
    have "holds_key ?R = holds_key R" by simp
    then show ?thesis by (simp only: authorize_def)
  qed
  have en: "renv ?R = renv R" by (simp add: renv_def)
  have ig: "issue_grant ?R rec life n w = issue_grant R rec life n w" for rec life n w
  proof -
    have t: "with_token ?R p t = with_token R p t" for p t by (simp add: with_token_def)
    have f: "rq_cap ?R = rq_cap R" "token_refused ?R = token_refused R" "token_path ?R = token_path R" by simp_all
    show ?thesis
      by (simp only: issue_grant_def issue_capability_def issue_consumer_def t f)
  qed
  have rt: "recorded_then ?R d a w = (Inl SaveRefused, w)" for d a w
    by (simp add: recorded_then_def save_register_def)
  have rt2: "recorded_then R d a w = (Inr b, w') \<Longrightarrow> w_journal w' = w_journal w \<and> w_host w' = w_host w" for d a w b w'
    using recorded_then_register(3,4) by blast
  show ?thesis
    using assms issue_grant_register rt2
    by (auto simp: approve_def grant_request_def au en ig rt split: sum.splits prod.splits if_splits)
qed

text \<open>C25: naming a role hides the dual-control tag: a standing request for \<open>role:R#field\<close> is
  filed as reaching an item called \<open>role:R\<close>, so unless the vault has an item of that name the
  request is not put under dual control, whatever tags the item playing the role carries.\<close>

theorem role_evades_dual_control:
  assumes "filing_flags R w fl via = Inr f" and "map_of fl ''for-consumer'' \<noteq> None"
    and "map_of fl ''resource'' = Some (''role:'' @ role @ ''#'' @ fld)" and "CHR ''#'' \<notin> set role"
    and "open_vault (w_host w) = Inr v" and "item_entry v (''role:'' @ role) = None"
  shows "f_item f = Some (''role:'' @ role) \<and> marked_dual_control w (f_item f) = Inr False"
proof -
  obtain kind where k: "asked_grant R w fl kind (f_action f) (f_resource f) = Inr (f_grant f, f_item f)"
    and r: "required_flag fl ''resource'' = Inr (f_resource f)"
    using assms(1) by (auto simp: filing_flags_def Let_def result_simps split: if_splits)
  have res: "f_resource f = (''role:'' @ role) @ CHR ''#'' # fld"
    using r assms(3) by (auto simp: required_flag_def result_simps split: if_splits)
  have "f_item f = Some (case split_once (CHR ''#'') (f_resource f) of Some (item, _) \<Rightarrow> item | None \<Rightarrow> f_resource f)"
    using k assms(2) by (auto simp: asked_grant_def Let_def result_simps split: request_kind.splits if_splits bool.splits)
  also have "\<dots> = Some (''role:'' @ role)"
    unfolding res by (subst split_once_append) (use assms(4) in simp_all)
  finally show ?thesis
    using assms(5,6) by (simp add: marked_dual_control_def)
qed

end
