(* ===== verification/RequestWitness.thy ===== *)
theory RequestWitness
  imports RequestProps BrokerWitness
begin

text \<open>The request properties at a concrete register: a capability asked for by an agent, under
  dual control or not, in a vault that knows an owner and one administrator.\<close>

definition demo_shared :: host where
  "demo_shared = (case demo_one of (v, h) \<Rightarrow>
     snd (snd (register_recipient demo_env ''ben'' ''FPR-BEN'' ''admin'' v h)))"

definition demo_req :: req_env where
  "demo_req = \<lparr>rq_cap = demo_cap, holds_key = (\<lambda>f. Inr True), fresh_id = Inr ''req-1'', token_path = id,
     token_refused = False, register_refused = False, journal_refused = False\<rparr>"

definition demo_world :: world where
  "demo_world = \<lparr>w_register = None, w_journal = None, w_host = demo_shared\<rparr>"

definition demo_filing :: "bool \<Rightarrow> filing" where
  "demo_filing dual = \<lparr>f_requester = mk_obj [(''agent'', JStr ''bob'')], f_kind = SecretKind,
     f_resource = ''a#value'', f_action = ''read'', f_reason = ''why'', f_decider = ''admin'', f_dual = dual,
     f_item = Some ''a'', f_grant = mk_obj [(''form'', JStr ''capability''), (''purpose'', JStr ''p''),
       (''target'', JStr ''t''), (''ttl_seconds'', JUInt 50), (''max_uses'', JUInt 3)], f_via = ''cli''\<rparr>"

definition demo_approvals :: "(req_env \<times> req_event) list" where
  "demo_approvals =
     [(demo_req, FileEv (demo_filing True) False), (demo_req, ApproveEv ''req-1'' ''ada'' (Seconds 40) (Some 2)),
      (demo_req, ApproveEv ''req-1'' ''ada'' (Seconds 40) (Some 2)),
      (demo_req, ApproveEv ''req-1'' ''ben'' (Seconds 30) (Some 3))]"

definition demo_decided :: "world \<times> (req_error + json) list" where
  "demo_decided = run request_step demo_world demo_approvals"

text \<open>The one-person request, filed and then approved.\<close>

definition demo_filed :: world where
  "demo_filed = snd (file_request demo_req (demo_filing False) False demo_world)"

definition demo_approved :: "(req_error + json) \<times> world" where
  "demo_approved = approve demo_req ''req-1'' ''ada'' (Seconds 40) (Some 2) demo_filed"

definition record_of :: "world \<Rightarrow> json" where
  "record_of w = (case w_register w of Some d \<Rightarrow> (case requests_in d of r # _ \<Rightarrow> r | [] \<Rightarrow> JNull) | None \<Rightarrow> JNull)"

lemma demo_decided_ok:
  "map isl (snd demo_decided) = [False, False, True, False]
     \<and> jindex (record_of (fst demo_decided)) ''state'' = JStr ''approved''
     \<and> jindex (record_of (fst demo_decided)) ''dual_control'' = JBool True"
  by code_simp

lemma demo_approved_ok:
  "(case fst demo_approved of Inr j \<Rightarrow> jindex j ''status'' = JStr ''granted'' | Inl _ \<Rightarrow> False)
     \<and> (case load_register demo_filed of Inr d \<Rightarrow>
          (case find_request d ''req-1'' of Inr (i, rec) \<Rightarrow> form_of rec = Inr CapabilityForm | Inl _ \<Rightarrow> False)
        | Inl _ \<Rightarrow> False)"
  by code_simp


theorem approved_within_bounds_witness:
  "\<exists>answer d' rec' i. fst demo_approved = Inr answer \<and> w_register (snd demo_approved) = Some d'
     \<and> rec' = requests_in d' ! i \<and> jindex rec' ''state'' = JStr ''approved''
     \<and> (\<exists>jd cap m. on_disk (w_journal (snd demo_approved)) = Inr jd \<and> caps_of jd cap = Some m
          \<and> get_str m ''authorization_id'' = Some ''req-1'')"
proof -
  from demo_approved_ok obtain answer d i rec where a: "fst demo_approved = Inr answer"
      "jindex answer ''status'' = JStr ''granted''" "load_register demo_filed = Inr d"
      "find_request d ''req-1'' = Inr (i, rec)" "form_of rec = Inr CapabilityForm"
    by (auto split: sum.splits prod.splits)
  have ap: "approve demo_req ''req-1'' ''ada'' (Seconds 40) (Some 2) demo_filed = (Inr answer, snd demo_approved)"
    using a(1) by (simp add: demo_approved_def prod_eq_iff)
  have "w_journal demo_filed = None"
    by (simp add: demo_filed_def file_request_journal demo_world_def)
  then have j: "sound_file (w_journal demo_filed)" using demo_none_sound by simp
  from approved_within_bounds [OF ap a(2) j a(3-5)] a(1) show ?thesis by blast
qed

theorem unsaved_approval_still_grants_witness:
  "\<exists>r w2. approve (demo_req\<lparr>register_refused := True\<rparr>) ''req-1'' ''ada'' (Seconds 40) (Some 2) demo_filed = (r, w2)
     \<and> r = Inl SaveRefused \<and> w_register w2 = w_register demo_filed
     \<and> w_journal w2 = w_journal (snd demo_approved) \<and> w_journal w2 \<noteq> w_journal demo_filed"
proof -
  from demo_approved_ok obtain answer where a: "fst demo_approved = Inr answer"
    by (auto split: sum.splits)
  have ap: "approve demo_req ''req-1'' ''ada'' (Seconds 40) (Some 2) demo_filed = (Inr answer, snd demo_approved)"
    using a by (simp add: demo_approved_def prod_eq_iff)
  have "w_journal demo_filed = None"
    by (simp add: demo_filed_def file_request_journal demo_world_def)
  moreover have "w_journal (snd demo_approved) \<noteq> None" by code_simp
  moreover obtain r w2 where u: "approve (demo_req\<lparr>register_refused := True\<rparr>) ''req-1'' ''ada'' (Seconds 40) (Some 2) demo_filed
      = (r, w2)" by (cases "approve (demo_req\<lparr>register_refused := True\<rparr>) ''req-1'' ''ada'' (Seconds 40) (Some 2) demo_filed")
  ultimately show ?thesis using unsaved_approval_still_grants [OF ap u] u by auto
qed

text \<open>The item playing the role \<open>mail\<close> carries the dual-control tag; the role's name carries none.\<close>

definition demo_dual_host :: host where
  "demo_dual_host = (case set_item demo_env ''d'' ''note'' (demo_note ''y'') [''ada''] [DUAL_CONTROL_TAG, ''stado:role:mail'']
      (fst demo_one) (snd demo_one) of (_, v, h) \<Rightarrow> h)"

definition demo_role_flags :: flags where
  "demo_role_flags = [(''kind'', ''secret''), (''agent'', ''bob''), (''action'', ''read''), (''reason'', ''why''),
     (''resource'', ''role:mail#value''), (''for-consumer'', ''bob'')]"

lemma demo_role_ok:
  "(case filing_flags demo_req (demo_world\<lparr>w_host := demo_dual_host\<rparr>) demo_role_flags ''cli'' of
      Inr f \<Rightarrow> True | Inl _ \<Rightarrow> False)
   \<and> (case open_vault demo_dual_host of
        Inr v \<Rightarrow> item_entry v ''role:mail'' = None | Inl _ \<Rightarrow> False)
   \<and> marked_dual_control (demo_world\<lparr>w_host := demo_dual_host\<rparr>) (Some ''d'') = Inr True"
  by code_simp

theorem role_evades_dual_control_witness:
  "\<exists>f. filing_flags demo_req (demo_world\<lparr>w_host := demo_dual_host\<rparr>) demo_role_flags ''cli'' = Inr f
     \<and> marked_dual_control (demo_world\<lparr>w_host := demo_dual_host\<rparr>) (f_item f) = Inr False
     \<and> marked_dual_control (demo_world\<lparr>w_host := demo_dual_host\<rparr>) (Some ''d'') = Inr True"
proof -
  let ?w = "demo_world\<lparr>w_host := demo_dual_host\<rparr>"
  from demo_role_ok obtain f v where f: "filing_flags demo_req ?w demo_role_flags ''cli'' = Inr f"
    and v: "open_vault demo_dual_host = Inr v" "item_entry v ''role:mail'' = None"
    by (auto split: sum.splits)
  have c: "map_of demo_role_flags ''for-consumer'' \<noteq> None"
    "map_of demo_role_flags ''resource'' = Some (''role:'' @ ''mail'' @ ''#'' @ ''value'')"
    "CHR ''#'' \<notin> set ''mail''" "open_vault (w_host ?w) = Inr v" "item_entry v (''role:'' @ ''mail'') = None"
    using v by (simp_all add: demo_role_flags_def)
  from role_evades_dual_control [OF f c] have "marked_dual_control ?w (f_item f) = Inr False" by blast
  with f demo_role_ok show ?thesis by blast
qed

end
