(* ===== verification/Acquisition.thy ===== *)
theory Acquisition
  imports CredReads GrantRules Routes
begin

text \<open>
  Single-use acquisitions: \<open>src/access/acquisition\<close> (\<open>mod.rs\<close>, \<open>proof.rs\<close>, \<open>role.rs\<close> and the
  document of \<open>state.rs\<close>). A workload proves itself with a signature and gets a bearer for
  one field; the bearer is spent by the read that hands the field over. The state is one JSON
  file beside the vault, read and replaced under a lock, so its value here is the document on
  disk or its absence. What a call meets (the vault it opens, the clock, the file system, the
  Ed25519 verdict, fresh bearers) is the record \<open>acq_env\<close>; it may be another at every call.
\<close>

datatype (plugins only: code size) acq_error =
    VaultA vault_error
  | CredA cred_error
  | SchemaA schema_error
  | FieldMissing
  | NoRoleItem string
  | SeveralRoleItems string nat
  | NotExactTarget
  | StateUnsafe
  | StateInvalid
  | SectionInvalid string
  | SectionGone string
  | ClockA
  | VerifierA
  | EntropyA
  | TokenCollision
  | FieldGone
  | SaveA
  | PanickedA

text \<open>A write that fails before the rename leaves the old document; one that fails after it
  (the directory's flush, the last check of the file) has replaced it.\<close>

datatype save_outcome = SavedAs | NotSaved | SavedUnsure

record acq_env =
  aq_env :: env
  aq_clock :: "u64 option"
  aq_vault :: "vault_error + vault"
  aq_verify :: "string \<Rightarrow> string \<Rightarrow> nat list \<Rightarrow> acq_error + bool"
  aq_token :: "acq_error + string"
  aq_unsafe :: bool
  aq_save :: save_outcome

section \<open>Exact names, the proof and its payload\<close>

definition name_byte :: "char \<Rightarrow> bool" where
  "name_byte b \<longleftrightarrow> is_alnum b \<or> b \<in> {CHR ''.'', CHR ''_'', CHR ''-''}"

definition exact_name :: "string \<Rightarrow> bool" where
  "exact_name s \<longleftrightarrow> s \<noteq> [] \<and> list_all name_byte s"

text \<open>\<open>char::is_control\<close> over UTF-8: C0, DEL and the two-byte C1 controls.\<close>

fun has_control :: "string \<Rightarrow> bool" where
  "has_control [] = False"
| "has_control (a # r) =
     (a < CHR 0x20 \<or> a = CHR 0x7F
      \<or> (a = CHR 0xC2 \<and> (case r of b # _ \<Rightarrow> CHR 0x80 \<le> b \<and> b \<le> CHR 0x9F | [] \<Rightarrow> False))
      \<or> has_control r)"

definition valid_workload_id :: "string \<Rightarrow> bool" where
  "valid_workload_id s \<longleftrightarrow> s \<noteq> [] \<and> trim s = s \<and> \<not> has_control s"

definition NONCE_LENGTH :: nat where "NONCE_LENGTH = 43"
definition SIGNATURE_LENGTH :: nat where "SIGNATURE_LENGTH = 128"

definition valid_nonce :: "string \<Rightarrow> bool" where
  "valid_nonce s \<longleftrightarrow>
     length s = NONCE_LENGTH \<and> list_all (\<lambda>b. is_alnum b \<or> b = CHR ''-'' \<or> b = CHR ''_'') s"

definition hex_digit :: "char \<Rightarrow> nat option" where
  "hex_digit c =
     (if is_digit c then Some (of_char c - of_char (CHR ''0''))
      else if CHR ''a'' \<le> c \<and> c \<le> CHR ''f'' then Some (of_char c - of_char (CHR ''a'') + 10)
      else if CHR ''A'' \<le> c \<and> c \<le> CHR ''F'' then Some (of_char c - of_char (CHR ''A'') + 10)
      else None)"

text \<open>\<open>u8::from_str_radix\<close> of two characters, which reads a leading plus sign.\<close>

definition hex_pair :: "char \<Rightarrow> char \<Rightarrow> nat option" where
  "hex_pair a b =
     (if a = CHR ''+'' then hex_digit b
      else Option.bind (hex_digit a) (\<lambda>h. map_option (\<lambda>l. 16 * h + l) (hex_digit b)))"

fun hex_bytes :: "string \<Rightarrow> nat list option" where
  "hex_bytes (a # b # r) = Option.bind (hex_pair a b) (\<lambda>n. map_option (Cons n) (hex_bytes r))"
| "hex_bytes _ = Some []"

definition decode_signature :: "string \<Rightarrow> nat list option" where
  "decode_signature s = (if length s \<noteq> SIGNATURE_LENGTH then None else hex_bytes s)"

definition workload_payload ::
  "string \<Rightarrow> string \<Rightarrow> string \<Rightarrow> string \<Rightarrow> u64 \<Rightarrow> string \<Rightarrow> string" where
  "workload_payload consumer item fld workload timestamp nonce =
     join_with [CHR 0x00]
       [''SKARBIEC-WORKLOAD-ACQUISITION'', ''v1'', consumer, item, fld, workload, show_u64 timestamp, nonce]"

definition verify_workload_proof :: "acq_env \<Rightarrow> string \<Rightarrow> string \<Rightarrow> string \<Rightarrow> acq_error + bool" where
  "verify_workload_proof A key msg signature =
     (case decode_signature signature of
        None \<Rightarrow> Inr False
      | Some sig \<Rightarrow> aq_verify A key msg sig)"

section \<open>Roles and targets\<close>

definition acq_coordinate :: "string \<Rightarrow> bool" where
  "acq_coordinate named =
     (case strip_prefix ''role:'' named of
        Some role \<Rightarrow> exact_name role | None \<Rightarrow> exact_name named)"

definition item_for :: "vault \<Rightarrow> string \<Rightarrow> acq_error + string" where
  "item_for v named =
     (case strip_prefix ''role:'' named of
        None \<Rightarrow> Inr named
      | Some role \<Rightarrow>
          (case tagged_items v (''stado:role:'' @ role) of
             [item] \<Rightarrow> Inr item
           | [] \<Rightarrow> Inl (NoRoleItem role)
           | several \<Rightarrow> Inl (SeveralRoleItems role (length several))))"

definition validate_target :: "env \<Rightarrow> vault \<Rightarrow> string \<Rightarrow> string \<Rightarrow> acq_error + unit" where
  "validate_target E v item fld =
     (if \<not> exact_name item \<or> \<not> exact_name fld then Inl NotExactTarget
      else bindR (map_err VaultA (get_item E v item)) (\<lambda>p.
           bindR (if fld = ''context'' then Inr (jget p ''context'' \<noteq> None)
                  else bindR (map_err SchemaA (Schema.fields p)) (\<lambda>m. Inr (map_of m fld \<noteq> None))) (\<lambda>present.
             if present then Inr () else Inl FieldMissing)))"

section \<open>The state document\<close>

definition fresh_state :: json where
  "fresh_state = mk_obj [(''version'', JStr ''v1''), (''tokens'', mk_obj []), (''proofs'', mk_obj []),
     (''workloads'', mk_obj [])]"

definition section_present :: "json \<Rightarrow> string \<Rightarrow> acq_error + json" where
  "section_present state name =
     bindR (if jget state name = None then ok_or PanickedA (jindex_set state name (mk_obj [])) else Inr state)
       (\<lambda>s. if get_object s name = None then Inl (SectionInvalid name) else Inr s)"

definition load_acq :: "acq_env \<Rightarrow> json option \<Rightarrow> acq_error + json" where
  "load_acq A file =
     (case file of
        None \<Rightarrow> Inr fresh_state
      | Some d \<Rightarrow>
          if aq_unsafe A then Inl StateUnsafe
          else if get_str d ''version'' \<noteq> Some ''v1'' \<or> get_object d ''tokens'' = None then Inl StateInvalid
          else foldR section_present d [''proofs'', ''tokens'', ''workloads''])"

definition save_acq :: "acq_env \<Rightarrow> json \<Rightarrow> json option \<Rightarrow> (acq_error + unit) \<times> json option" where
  "save_acq A state file =
     (case aq_save A of
        SavedAs \<Rightarrow> (Inr (), Some state)
      | NotSaved \<Rightarrow> (Inl SaveA, file)
      | SavedUnsure \<Rightarrow> (Inl SaveA, Some state))"

definition in_section :: "json \<Rightarrow> string \<Rightarrow> (obj \<Rightarrow> obj) \<Rightarrow> acq_error + json" where
  "in_section state name f =
     bindR (ok_or (SectionGone name) (get_object state name)) (\<lambda>m.
       ok_or PanickedA (jindex_set state name (JObj (f m))))"

definition lives_past :: "u64 \<Rightarrow> json \<Rightarrow> bool" where
  "lives_past now rec = (case get_u64 rec ''expires_at'' of Some e \<Rightarrow> now < e | None \<Rightarrow> False)"

definition purge_expired :: "json \<Rightarrow> u64 \<Rightarrow> acq_error + json" where
  "purge_expired state now =
     bindR (in_section state ''tokens'' (map_retain (\<lambda>_ rec. lives_past now rec))) (\<lambda>s1.
     bindR (in_section s1 ''proofs''
              (map_retain (\<lambda>_ e. case as_u64 e of Some u \<Rightarrow> now < u | None \<Rightarrow> False))) (\<lambda>s2.
       in_section s2 ''workloads'' (map_retain (\<lambda>_ rec. lives_past now rec))))"

text \<open>A key as one segment of a JSON pointer, and how \<open>Value::pointer\<close> follows one: the
  segments between the slashes, unescaped, each a key of an object here.\<close>

definition pointer_segment :: "string \<Rightarrow> string" where
  "pointer_segment key =
     concat (map (\<lambda>c. if c = CHR ''/'' then ''~1'' else [c])
       (concat (map (\<lambda>c. if c = CHR ''~'' then ''~0'' else [c]) key)))"

fun replaced :: "char \<Rightarrow> char \<Rightarrow> char \<Rightarrow> string \<Rightarrow> string" where
  "replaced a b c (x # y # r) = (if x = a \<and> y = b then c # replaced a b c r else x # replaced a b c (y # r))"
| "replaced a b c s = s"

definition unescaped :: "string \<Rightarrow> string" where
  "unescaped segment = replaced (CHR ''~'') (CHR ''0'') (CHR ''~'')
     (replaced (CHR ''~'') (CHR ''1'') (CHR ''/'') segment)"

definition pointer :: "json \<Rightarrow> string \<Rightarrow> json option" where
  "pointer state path =
     fold (\<lambda>segment at. Option.bind at (\<lambda>j. jget j (unescaped segment))) (tl (split_on (CHR ''/'') path))
       (Some state)"

definition newest_of :: "json \<Rightarrow> string \<Rightarrow> u64 option" where
  "newest_of state workload =
     Option.bind (pointer state (''/workloads/'' @ pointer_segment workload @ ''/newest'')) as_u64"

section \<open>Issuing a bearer\<close>

record issued_acquisition =
  ia_token :: string
  ia_expires_at :: u64

record asked_acquisition =
  ask_consumer :: string
  ask_item :: string
  ask_field :: string
  ask_workload :: string
  ask_timestamp :: u64
  ask_nonce :: string
  ask_signature :: string

definition proof_hash :: "acq_env \<Rightarrow> string \<Rightarrow> string \<Rightarrow> string" where
  "proof_hash A workload nonce = digest (aq_env A) (workload @ [CHR 0x00] @ nonce)"

definition token_record :: "asked_acquisition \<Rightarrow> u64 \<Rightarrow> json" where
  "token_record q expires =
     mk_obj [(''consumer'', JStr (ask_consumer q)), (''item'', JStr (ask_item q)), (''field'', JStr (ask_field q)),
             (''expires_at'', JUInt expires), (''workload_id'', JStr (ask_workload q))]"

text \<open>What is checked before the state is read: the names, the grant that lends, the clock,
  the signature, the target. None is a refusal that names no check.\<close>

definition admits_ask :: "acq_env \<Rightarrow> asked_acquisition \<Rightarrow> acq_error + (acquisition_grant \<times> u64) option" where
  "admits_ask A q =
     (if \<not> exact_name (ask_consumer q) \<or> \<not> acq_coordinate (ask_item q) \<or> \<not> exact_name (ask_field q)
         \<or> ask_field q = ''context'' \<or> \<not> valid_workload_id (ask_workload q) \<or> \<not> valid_nonce (ask_nonce q)
      then Inr None
      else bindR (map_err VaultA (aq_vault A)) (\<lambda>v.
        case acquisition_grant (aq_clock A) v (ask_consumer q) (ask_item q) (ask_field q) of
          None \<Rightarrow> Inr None
        | Some lent \<Rightarrow>
            bindR (ok_or ClockA (aq_clock A)) (\<lambda>now.
              if now < ask_timestamp q then Inr None
              else bindR (verify_workload_proof A (ag_public_key lent)
                     (workload_payload (ask_consumer q) (ask_item q) (ask_field q) (ask_workload q)
                        (ask_timestamp q) (ask_nonce q)) (ask_signature q)) (\<lambda>ok.
                   if \<not> ok then Inr None
                   else bindR (item_for v (ask_item q)) (\<lambda>item.
                        bindR (validate_target (aq_env A) v item (ask_field q)) (\<lambda>_.
                          Inr (Some (lent, now))))))))"

text \<open>The state with the proof, the workload's newest proof and the new bearer recorded; none
  when the proof is older than the newest one or was spent before.\<close>

definition recorded_ask ::
  "acq_env \<Rightarrow> asked_acquisition \<Rightarrow> u64 \<Rightarrow> json \<Rightarrow> acq_error + (string \<times> json) option" where
  "recorded_ask A q until state =
     (let ph = proof_hash A (ask_workload q) (ask_nonce q) in
      if (case newest_of state (ask_workload q) of Some n \<Rightarrow> ask_timestamp q < n | None \<Rightarrow> False)
      then Inr None
      else bindR (ok_or (SectionGone ''proofs'') (get_object state ''proofs'')) (\<lambda>proofs.
        if map_of proofs ph \<noteq> None then Inr None
        else bindR (in_section state ''proofs'' (map_insert ph (JUInt until))) (\<lambda>s1.
             bindR (in_section s1 ''workloads'' (map_insert (ask_workload q)
                (mk_obj [(''newest'', JUInt (ask_timestamp q)), (''expires_at'', JUInt until)]))) (\<lambda>s2.
             bindR (aq_token A) (\<lambda>token.
             bindR (ok_or (SectionGone ''tokens'') (get_object s2 ''tokens'')) (\<lambda>tokens.
               if map_of tokens (digest (aq_env A) token) \<noteq> None then Inl TokenCollision
               else bindR (in_section s2 ''tokens''
                      (map_insert (digest (aq_env A) token) (token_record q until))) (\<lambda>s3.
                    Inr (Some (token, s3)))))))))"

definition acq_issue ::
  "acq_env \<Rightarrow> asked_acquisition \<Rightarrow> json option \<Rightarrow> (acq_error + issued_acquisition option) \<times> json option" where
  "acq_issue A q file =
     (case admits_ask A q of
        Inl e \<Rightarrow> (Inl e, file)
      | Inr None \<Rightarrow> (Inr None, file)
      | Inr (Some (lent, now)) \<Rightarrow>
          (case bindR (load_acq A file) (\<lambda>state.
                bindR (purge_expired state now) (recorded_ask A q (ag_expires_at lent))) of
             Inl e \<Rightarrow> (Inl e, file)
           | Inr None \<Rightarrow> (Inr None, file)
           | Inr (Some (token, state)) \<Rightarrow>
               (case save_acq A state file of
                  (Inl e, file') \<Rightarrow> (Inl e, file')
                | (Inr u, file') \<Rightarrow>
                    (Inr (Some \<lparr>ia_token = token, ia_expires_at = ag_expires_at lent\<rparr>), file'))))"

section \<open>Spending a bearer\<close>

definition declared_provider :: "json \<Rightarrow> string option" where
  "declared_provider p =
     Option.bind (Option.bind (jget p ''context'') (\<lambda>c. get_str c ''provider''))
       (\<lambda>s. if exact_token s then Some s else None)"

record acquired_field =
  af_value :: json
  af_provider :: "string option"

definition without_token :: "string \<Rightarrow> json \<Rightarrow> acq_error + json" where
  "without_token hash state = in_section state ''tokens'' (map_remove hash)"

text \<open>The value a live, bound bearer reads now, and the payload its provider is read from; none
  while the item holds a candidate this consumer does not verify.\<close>

definition read_now ::
  "acq_env \<Rightarrow> string \<Rightarrow> string \<Rightarrow> string \<Rightarrow> acq_error + (json \<times> json option) option" where
  "read_now A consumer named fld =
     bindR (map_err VaultA (aq_vault A)) (\<lambda>v.
     bindR (item_for v named) (\<lambda>item.
     bindR (map_err CredA (managed_read (aq_env A) v item fld consumer)) (\<lambda>seen.
       case seen of
         StagedRead candidate \<Rightarrow>
           Inr (Some (candidate, case get_item (aq_env A) v item of Inr p \<Rightarrow> Some p | Inl _ \<Rightarrow> None))
       | RefusedRead \<Rightarrow> Inr None
       | CurrentRead \<Rightarrow>
           bindR (map_err VaultA (get_item (aq_env A) v item)) (\<lambda>p.
           bindR (map_err (\<lambda>_. FieldGone) (field p fld)) (\<lambda>x. Inr (Some (x, Some p)))))))"

definition spent_then ::
  "acq_env \<Rightarrow> string \<Rightarrow> json \<Rightarrow> acquired_field option \<Rightarrow> json option \<Rightarrow>
     (acq_error + acquired_field option) \<times> json option" where
  "spent_then A hash state answer file =
     (case without_token hash state of
        Inl e \<Rightarrow> (Inl e, file)
      | Inr state' \<Rightarrow>
          (case save_acq A state' file of
             (Inl e, file') \<Rightarrow> (Inl e, file')
           | (Inr u, file') \<Rightarrow> (Inr answer, file')))"

definition acq_consume ::
  "acq_env \<Rightarrow> string \<Rightarrow> string \<Rightarrow> string \<Rightarrow> string \<Rightarrow> json option \<Rightarrow>
     (acq_error + acquired_field option) \<times> json option" where
  "acq_consume A consumer presented item fld file =
     (if \<not> exact_name consumer \<or> \<not> acq_coordinate item \<or> \<not> exact_name fld \<or> fld = ''context''
         \<or> presented = []
      then (Inr None, file)
      else
        (let hash = digest (aq_env A) presented in
         case bindR (load_acq A file) (\<lambda>state. bindR (ok_or ClockA (aq_clock A)) (\<lambda>now. Inr (state, now))) of
           Inl e \<Rightarrow> (Inl e, file)
         | Inr (state, now) \<Rightarrow>
             (case Option.bind (get_object state ''tokens'') (\<lambda>m. map_of m hash) of
                None \<Rightarrow> (Inr None, file)
              | Some rec \<Rightarrow>
                  if \<not> lives_past now rec then spent_then A hash state None file
                  else if get_str rec ''consumer'' \<noteq> Some consumer \<or> get_str rec ''item'' \<noteq> Some item
                          \<or> get_str rec ''field'' \<noteq> Some fld
                  then (Inr None, file)
                  else (case read_now A consumer item fld of
                          Inl e \<Rightarrow> (Inl e, file)
                        | Inr None \<Rightarrow> (Inr None, file)
                        | Inr (Some (x, p)) \<Rightarrow>
                            spent_then A hash state
                              (Some \<lparr>af_value = x, af_provider = Option.bind p declared_provider\<rparr>) file))))"

end
