(* ===== verification/AcqLaws.thy ===== *)
theory AcqLaws
  imports Acquisition JournalLaws
begin

text \<open>
  The acquisition state as three maps (tokens, proofs, workloads): what loading, purging,
  recording and saving do to them, whatever the file system does, and that a JSON pointer
  finds the workload it was written for.
\<close>

section \<open>A pointer segment reads back\<close>

lemma replaced_other: "x \<noteq> a \<Longrightarrow> replaced a b c (x # s) = x # replaced a b c s"
  by (cases s) simp_all

lemma replaced_pair: "replaced a b c (a # b # s) = c # replaced a b c s"
  by simp

lemma replaced_kept: "y \<noteq> b \<Longrightarrow> y \<noteq> a \<Longrightarrow> replaced a b c (a # y # s) = a # y # replaced a b c s"
  by (simp add: replaced_other)

lemma pointer_segment_simps:
  "pointer_segment [] = []"
  "pointer_segment (c # s) =
     (if c = CHR ''~'' then ''~0'' else if c = CHR ''/'' then ''~1'' else [c]) @ pointer_segment s"
  by (simp_all add: pointer_segment_def)

lemma segment_slashes_restored:
  "replaced (CHR ''~'') (CHR ''1'') (CHR ''/'') (pointer_segment s)
     = concat (map (\<lambda>c. if c = CHR ''~'' then ''~0'' else [c]) s)"
  by (induction s) (auto simp: pointer_segment_simps replaced_other)

lemma segment_tildes_restored:
  "replaced (CHR ''~'') (CHR ''0'') (CHR ''~'') (concat (map (\<lambda>c. if c = CHR ''~'' then ''~0'' else [c]) s)) = s"
  by (induction s) (auto simp: replaced_other)

lemma unescaped_segment: "unescaped (pointer_segment s) = s"
  by (simp add: unescaped_def segment_slashes_restored segment_tildes_restored)

lemma segment_no_slash: "CHR ''/'' \<notin> set (pointer_segment s)"
  by (induction s) (auto simp: pointer_segment_simps)

lemma split_on_no: "c \<notin> set s \<Longrightarrow> split_on c s = [s]"
  by (induction s) auto

lemma newest_of_workload:
  "newest_of state w = Option.bind (jget state ''workloads'') (\<lambda>ws. Option.bind (jget ws w) (\<lambda>r. get_u64 r ''newest''))"
proof -
  have u: "unescaped ''workloads'' = ''workloads''" "unescaped ''newest'' = ''newest''"
    by (simp_all add: unescaped_def)
  have sp: "split_on (CHR ''/'') (''/workloads/'' @ pointer_segment w @ ''/newest'') = [[], ''workloads'', pointer_segment w, ''newest'']"
    using segment_no_slash [of w] by (simp add: split_on_append)
  show ?thesis
    unfolding newest_of_def pointer_def sp
    by (simp add: u unescaped_segment get_u64_def split: option.splits)
qed

section \<open>The state as maps\<close>

definition acq_sections :: "string list" where "acq_sections = [''proofs'', ''tokens'', ''workloads'']"

definition sec :: "json \<Rightarrow> string \<Rightarrow> string \<Rightarrow> json option" where
  "sec state name k = Option.bind (get_object state name) (\<lambda>m. map_of m k)"

definition acq_ok :: "json \<Rightarrow> bool" where
  "acq_ok state \<longleftrightarrow> (\<forall>name \<in> set acq_sections. \<forall>m. get_object state name = Some m \<longrightarrow> ordered m)"

definition sound_acq :: "json option \<Rightarrow> bool" where
  "sound_acq file \<longleftrightarrow> (case file of None \<Rightarrow> True | Some d \<Rightarrow> acq_ok d)"

definition file_sec :: "json option \<Rightarrow> string \<Rightarrow> string \<Rightarrow> json option" where
  "file_sec file name k = Option.bind file (\<lambda>d. sec d name k)"

lemma in_section_ok:
  assumes "in_section state name f = Inr state'"
  shows "\<exists>m. get_object state name = Some m \<and> jget state' = (jget state)(name \<mapsto> JObj (f m))"
  using assms jindex_set_get by (auto simp: in_section_def result_simps simp del: get_Some)

lemma in_section_sec:
  assumes "in_section state name f = Inr state'" and "acq_ok state" and "\<And>m. ordered m \<Longrightarrow> ordered (f m)"
  shows "acq_ok state'" "name' \<noteq> name \<Longrightarrow> sec state' name' = sec state name'"
    "name \<in> set acq_sections \<Longrightarrow> \<exists>m. ordered m \<and> sec state name = map_of m \<and> sec state' name = map_of (f m)"
proof -
  obtain m where m: "get_object state name = Some m" and j: "jget state' = (jget state)(name \<mapsto> JObj (f m))"
    using in_section_ok [OF assms(1)] by blast
  have g: "get_object state' k = (if k = name then Some (f m) else get_object state k)" for k
    by (simp add: get_object_def j)
  show "acq_ok state'" using assms(2,3) m g by (auto simp: acq_ok_def simp del: get_Some split: if_splits)
  show "name' \<noteq> name \<Longrightarrow> sec state' name' = sec state name'" by (simp add: sec_def fun_eq_iff g)
  show "name \<in> set acq_sections \<Longrightarrow> \<exists>m. ordered m \<and> sec state name = map_of m \<and> sec state' name = map_of (f m)"
    using assms(2) m g [of name] by (intro exI [of _ m]) (auto simp: sec_def fun_eq_iff acq_ok_def simp del: get_Some)
qed

lemma section_present_ok:
  assumes "section_present state name = Inr state'" and "acq_ok state"
  shows "acq_ok state'" "sec state' = sec state" "get_object state' name \<noteq> None"
    "get_object state k \<noteq> None \<Longrightarrow> get_object state' k \<noteq> None"
proof -
  have "jget state' = (if jget state name = None then (jget state)(name \<mapsto> mk_obj []) else jget state)"
    using assms(1) jindex_set_get by (auto simp: section_present_def result_simps split: if_splits simp del: get_Some)
  then have g: "get_object state' k
      = (if jget state name = None \<and> k = name then Some [] else get_object state k)" for k
    by (auto simp: get_object_def mk_obj_def as_object_def)
  show "acq_ok state'" using assms(2) g by (auto simp: acq_ok_def ordered_def simp del: get_Some split: if_splits)
  have n: "jget state name = None \<Longrightarrow> get_object state name = None" by (simp add: get_object_def)
  show "sec state' = sec state"
    using n by (simp add: sec_def fun_eq_iff g)
  show "get_object state' name \<noteq> None"
    using assms(1) by (auto simp: section_present_def result_simps split: if_splits simp del: get_Some)
  show "get_object state k \<noteq> None \<Longrightarrow> get_object state' k \<noteq> None" using g by (auto simp del: get_Some)
qed

lemma load_acq_ok:
  assumes "load_acq A file = Inr state" and "sound_acq file"
  shows "acq_ok state" "sec state = file_sec file" "\<forall>name \<in> set acq_sections. get_object state name \<noteq> None"
proof -
  have "acq_ok state \<and> sec state = file_sec file \<and> (\<forall>name \<in> set acq_sections. get_object state name \<noteq> None)"
  proof (cases "file")
    case None
    have s: "state = fresh_state" using assms(1) None by (simp add: load_acq_def)
    have e: "mk_obj [] = JObj []" by (simp add: mk_obj_def)
    have g: "get_object fresh_state k = (if k \<in> set acq_sections then Some [] else None)" for k
      by (simp add: fresh_state_def acq_sections_def get_object_def e) (simp add: as_object_def)
    show ?thesis
      by (simp add: s acq_ok_def None file_sec_def fun_eq_iff ordered_def sec_def g)
  next
    case (Some d)
    have ok: "acq_ok d" using assms(2) Some by (simp add: sound_acq_def)
    from assms(1) Some obtain s1 s2 where s: "section_present d ''proofs'' = Inr s1"
      "section_present s1 ''tokens'' = Inr s2" "section_present s2 ''workloads'' = Inr state"
      by (auto simp: load_acq_def result_simps split: if_splits simp del: get_Some)
    note p1 = section_present_ok [OF s(1) ok]
    note p2 = section_present_ok [OF s(2) p1(1)]
    note p3 = section_present_ok [OF s(3) p2(1)]
    show ?thesis
      using p1 p2 p3 by (auto simp: acq_sections_def Some file_sec_def fun_eq_iff simp del: get_Some)
  qed
  then show "acq_ok state" "sec state = file_sec file" "\<forall>name \<in> set acq_sections. get_object state name \<noteq> None"
    by blast+
qed

section \<open>Purging, recording, saving\<close>

definition unexpired :: "u64 \<Rightarrow> (json \<Rightarrow> u64 option) \<Rightarrow> json option \<Rightarrow> json option" where
  "unexpired now ends x =
     Option.bind x (\<lambda>r. case ends r of Some e \<Rightarrow> if now < e then Some r else None | None \<Rightarrow> None)"

lemma retained_lookup:
  assumes "ordered m" and "\<And>r. p r \<longleftrightarrow> (case ends r of Some e \<Rightarrow> now < e | None \<Rightarrow> False)"
  shows "map_of (map_retain (\<lambda>_. p) m) k = unexpired now ends (map_of m k)"
  using map_of_map_retain [OF ordered_distinct [OF assms(1)], of "\<lambda>_. p" k] assms(2)
  by (auto simp: unexpired_def split: option.splits)

lemma purge_ok:
  assumes "purge_expired state now = Inr state'" and "acq_ok state"
  shows "acq_ok state'"
    "sec state' ''tokens'' k = unexpired now (\<lambda>r. get_u64 r ''expires_at'') (sec state ''tokens'' k)"
    "sec state' ''proofs'' k = unexpired now as_u64 (sec state ''proofs'' k)"
    "sec state' ''workloads'' k = unexpired now (\<lambda>r. get_u64 r ''expires_at'') (sec state ''workloads'' k)"
proof -
  from assms(1) obtain s1 s2 where
    s1: "in_section state ''tokens'' (map_retain (\<lambda>_ rec. lives_past now rec)) = Inr s1" and
    s2: "in_section s1 ''proofs'' (map_retain (\<lambda>_ e. case as_u64 e of Some u \<Rightarrow> now < u | None \<Rightarrow> False)) = Inr s2" and
    s3: "in_section s2 ''workloads'' (map_retain (\<lambda>_ rec. lives_past now rec)) = Inr state'"
    by (auto simp: purge_expired_def result_simps)
  note i1 = in_section_sec [OF s1 assms(2) ordered_map_retain]
  note i2 = in_section_sec [OF s2 i1(1) ordered_map_retain]
  note i3 = in_section_sec [OF s3 i2(1) ordered_map_retain]
  have lp: "lives_past now r \<longleftrightarrow> (case get_u64 r ''expires_at'' of Some e \<Rightarrow> now < e | None \<Rightarrow> False)" for r
    by (simp add: lives_past_def)
  show "acq_ok state'" by (rule i3(1))
  show "sec state' ''tokens'' k = unexpired now (\<lambda>r. get_u64 r ''expires_at'') (sec state ''tokens'' k)"
    using i1(3) i2(2) [of "''tokens''"] i3(2) [of "''tokens''"] retained_lookup [OF _ lp]
    by (auto simp: acq_sections_def)
  show "sec state' ''proofs'' k = unexpired now as_u64 (sec state ''proofs'' k)"
    using i2(3) i1(2) [of "''proofs''"] i3(2) [of "''proofs''"] retained_lookup [OF _ refl]
    by (auto simp: acq_sections_def)
  show "sec state' ''workloads'' k = unexpired now (\<lambda>r. get_u64 r ''expires_at'') (sec state ''workloads'' k)"
    using i3(3) i1(2) [of "''workloads''"] i2(2) [of "''workloads''"] retained_lookup [OF _ lp]
    by (auto simp: acq_sections_def)
qed

lemma acq_ok_update:
  assumes "acq_ok state" and "in_section state name (map_insert k x) = Inr state'"
  shows "acq_ok state'" "name' \<noteq> name \<Longrightarrow> sec state' name' = sec state name'"
    "name \<in> set acq_sections \<Longrightarrow> sec state' name = (sec state name)(k \<mapsto> x)"
  using in_section_sec [OF assms(2,1) ordered_map_insert]
  by (auto simp: fun_eq_iff map_of_map_insert)

lemma recorded_ask_ok:
  assumes "recorded_ask A q until state = Inr (Some (token, state'))" and "acq_ok state"
  shows "aq_token A = Inr token" "acq_ok state'"
    "sec state ''proofs'' (proof_hash A (ask_workload q) (ask_nonce q)) = None"
    "sec state ''tokens'' (digest (aq_env A) token) = None"
    "sec state' ''proofs'' = (sec state ''proofs'')(proof_hash A (ask_workload q) (ask_nonce q) \<mapsto> JUInt until)"
    "sec state' ''tokens'' = (sec state ''tokens'')(digest (aq_env A) token \<mapsto> token_record q until)"
proof -
  let ?ph = "proof_hash A (ask_workload q) (ask_nonce q)"
  from assms(1) obtain s1 s2 m t where p: "get_object state ''proofs'' = Some m" "map_of m ?ph = None" and
    s1: "in_section state ''proofs'' (map_insert ?ph (JUInt until)) = Inr s1" and
    s2: "in_section s1 ''workloads'' (map_insert (ask_workload q)
                (mk_obj [(''newest'', JUInt (ask_timestamp q)), (''expires_at'', JUInt until)])) = Inr s2" and
    tk: "aq_token A = Inr token" and t: "get_object s2 ''tokens'' = Some t" "map_of t (digest (aq_env A) token) = None" and
    s3: "in_section s2 ''tokens'' (map_insert (digest (aq_env A) token) (token_record q until)) = Inr state'"
    by (auto simp: recorded_ask_def Let_def result_simps split: if_splits simp del: get_Some)
  note i1 = acq_ok_update [OF assms(2) s1]
  note i2 = acq_ok_update [OF i1(1) s2]
  note i3 = acq_ok_update [OF i2(1) s3]
  have ins: "''proofs'' \<in> set acq_sections" "''tokens'' \<in> set acq_sections" by (simp_all add: acq_sections_def)
  show "aq_token A = Inr token" "acq_ok state'" using tk i3(1) by auto
  show "sec state ''proofs'' ?ph = None" using p by (simp add: sec_def del: get_Some)
  have tt: "sec s2 ''tokens'' = sec state ''tokens''"
    using i2(2) [of "''tokens''"] i1(2) [of "''tokens''"] by simp
  show "sec state ''tokens'' (digest (aq_env A) token) = None"
    using t tt by (auto simp: sec_def fun_eq_iff simp del: get_Some)
  show "sec state' ''proofs'' = (sec state ''proofs'')(?ph \<mapsto> JUInt until)"
    using i3(2) [of "''proofs''"] i2(2) [of "''proofs''"] i1(3) [OF ins(1)] by simp
  show "sec state' ''tokens'' = (sec state ''tokens'')(digest (aq_env A) token \<mapsto> token_record q until)"
    using i3(3) [OF ins(2)] tt by simp
qed

lemma save_acq_outcome:
  "save_acq A state f = (r, f') \<Longrightarrow> (f' = f \<or> f' = Some state) \<and> (r = Inr u \<longrightarrow> f' = Some state)"
  by (auto simp: save_acq_def split: save_outcome.splits)

section \<open>What each call leaves\<close>

text \<open>An ask leaves the state, or writes a proof never seen and a bearer never minted.\<close>

definition ask_recorded ::
  "acq_env \<Rightarrow> asked_acquisition \<Rightarrow> u64 \<Rightarrow> u64 \<Rightarrow> string \<Rightarrow> json option \<Rightarrow> json option \<Rightarrow> bool" where
  "ask_recorded A q until now token f f' \<longleftrightarrow>
     file_sec f' ''proofs'' = (\<lambda>k. unexpired now as_u64 (file_sec f ''proofs'' k))
       (proof_hash A (ask_workload q) (ask_nonce q) \<mapsto> JUInt until)
     \<and> file_sec f' ''tokens'' = (\<lambda>k. unexpired now (\<lambda>r. get_u64 r ''expires_at'') (file_sec f ''tokens'' k))
         (digest (aq_env A) token \<mapsto> token_record q until)"

lemma acq_issue_effect:
  assumes "acq_issue A q f = (r, f')" and "sound_acq f"
  shows "sound_acq f'
     \<and> (f' = f \<and> (\<forall>ia. r \<noteq> Inr (Some ia))
        \<or> (\<exists>lent now token. admits_ask A q = Inr (Some (lent, now)) \<and> aq_token A = Inr token
             \<and> (\<forall>ia. r = Inr (Some ia) \<longrightarrow> ia_token ia = token \<and> ia_expires_at ia = ag_expires_at lent)
             \<and> unexpired now as_u64 (file_sec f ''proofs'' (proof_hash A (ask_workload q) (ask_nonce q))) = None
             \<and> ask_recorded A q (ag_expires_at lent) now token f f'))"
proof (cases "\<exists>lent now token state s1 state'. admits_ask A q = Inr (Some (lent, now)) \<and> load_acq A f = Inr state
      \<and> purge_expired state now = Inr s1 \<and> recorded_ask A q (ag_expires_at lent) s1 = Inr (Some (token, state'))")
    case False
    then have "f' = f \<and> (\<forall>ia. r \<noteq> Inr (Some ia))"
      using assms(1)
      by (auto simp: acq_issue_def bindR_def split: sum.splits option.splits prod.splits)
    then show ?thesis using assms(2) by simp
  next
    case True
    then obtain lent now token state s1 state' where ad: "admits_ask A q = Inr (Some (lent, now))"
      and ld: "load_acq A f = Inr state" and pu: "purge_expired state now = Inr s1"
      and re: "recorded_ask A q (ag_expires_at lent) s1 = Inr (Some (token, state'))" by blast
    note l = load_acq_ok [OF ld assms(2)]
    note p = purge_ok [OF pu l(1)]
    note rk = recorded_ask_ok [OF re p(1)]
    have sv: "(case save_acq A state' f of (Inl e, file') \<Rightarrow> (Inl e, file')
        | (Inr u, file') \<Rightarrow> (Inr (Some \<lparr>ia_token = token, ia_expires_at = ag_expires_at lent\<rparr>), file')) = (r, f')"
      using assms(1) ad ld pu re by (simp add: acq_issue_def)
    obtain r0 f0 where s0: "save_acq A state' f = (r0, f0)" by (cases "save_acq A state' f")
    have ia: "\<forall>ia. r = Inr (Some ia) \<longrightarrow> ia_token ia = token \<and> ia_expires_at ia = ag_expires_at lent"
      using sv s0 by (cases r0) auto
    have fs: "f' = f \<and> (\<forall>ia. r \<noteq> Inr (Some ia)) \<or> f' = Some state'"
      using sv s0 save_acq_outcome [OF s0] by (cases r0) auto
    have rec: "ask_recorded A q (ag_expires_at lent) now token f (Some state')"
      using rk(5,6) p(2,3) l(2) by (simp add: ask_recorded_def file_sec_def fun_eq_iff)
    have fresh: "unexpired now as_u64 (file_sec f ''proofs'' (proof_hash A (ask_workload q) (ask_nonce q))) = None"
      using rk(3) p(3) l(2) by simp
    from fs show ?thesis
    proof
      assume "f' = f \<and> (\<forall>ia. r \<noteq> Inr (Some ia))"
      with assms(2) show ?thesis by simp
    next
      assume "f' = Some state'"
      with rk(1,2) ad ia rec fresh show ?thesis unfolding sound_acq_def by simp
    qed
qed

lemma acq_issue_cases:
  assumes "acq_issue A q f = (r, f')" and "sound_acq f"
  obtains (same) "f' = f" "\<forall>ia. r \<noteq> Inr (Some ia)"
    | (recorded) lent now token where "admits_ask A q = Inr (Some (lent, now))" "aq_token A = Inr token"
        "\<forall>ia. r = Inr (Some ia) \<longrightarrow> ia_token ia = token \<and> ia_expires_at ia = ag_expires_at lent"
        "unexpired now as_u64 (file_sec f ''proofs'' (proof_hash A (ask_workload q) (ask_nonce q))) = None"
        "ask_recorded A q (ag_expires_at lent) now token f f'"
  using acq_issue_effect [OF assms] same recorded by (elim conjE disjE exE) simp_all

text \<open>A read leaves the state, or drops the bearer presented; a value is handed out only for a
  recorded, unexpired bearer bound to exactly this consumer, item and field.\<close>

lemma without_token_ok:
  assumes "without_token hash state = Inr state'" and "acq_ok state"
  shows "acq_ok state'" "sec state' ''proofs'' = sec state ''proofs''"
    "sec state' ''tokens'' = (sec state ''tokens'')(hash := None)"
  using in_section_sec [OF assms(1) [unfolded without_token_def] assms(2) ordered_map_remove]
  by (auto simp: acq_sections_def fun_eq_iff map_of_map_remove)

lemma spent_then_effect:
  assumes "spent_then A hash state answer f = (r, f')" and "sound_acq f" and "load_acq A f = Inr state"
  shows "sound_acq f' \<and> (f' = f \<and> isl r
      \<or> file_sec f' ''proofs'' = file_sec f ''proofs'' \<and> file_sec f' ''tokens'' = (file_sec f ''tokens'')(hash := None))
     \<and> (\<forall>x. r = Inr x \<longrightarrow> x = answer)"
proof (cases "without_token hash state")
  case (Inl e)
  with assms show ?thesis by (auto simp: spent_then_def)
next
  case (Inr state')
  note l = load_acq_ok [OF assms(3,2)]
  note w = without_token_ok [OF Inr l(1)]
  have "file_sec (Some state') ''proofs'' = file_sec f ''proofs''"
    "file_sec (Some state') ''tokens'' = (file_sec f ''tokens'')(hash := None)"
    using w(2,3) l(2) by (simp_all add: file_sec_def fun_eq_iff)
  with assms(1,2) Inr w(1) show ?thesis
    by (auto simp: spent_then_def save_acq_def sound_acq_def split: save_outcome.splits)
qed

lemma acq_consume_effect:
  assumes "acq_consume A consumer presented item fld f = (r, f')" and "sound_acq f"
  shows "sound_acq f' \<and> (f' = f
      \<or> file_sec f' ''proofs'' = file_sec f ''proofs''
         \<and> file_sec f' ''tokens'' = (file_sec f ''tokens'')(digest (aq_env A) presented := None))
     \<and> (\<forall>x. r = Inr (Some x) \<longrightarrow> (\<exists>rec now p. file_sec f ''tokens'' (digest (aq_env A) presented) = Some rec
          \<and> aq_clock A = Some now \<and> lives_past now rec
          \<and> get_str rec ''consumer'' = Some consumer \<and> get_str rec ''item'' = Some item
          \<and> get_str rec ''field'' = Some fld
          \<and> read_now A consumer item fld = Inr (Some (af_value x, p))
          \<and> file_sec f' ''tokens'' (digest (aq_env A) presented) = None))"
proof (cases "\<exists>state now rec. load_acq A f = Inr state \<and> aq_clock A = Some now
    \<and> sec state ''tokens'' (digest (aq_env A) presented) = Some rec")
  case False
  then have "f' = f \<and> (\<forall>x. r \<noteq> Inr (Some x))"
    using assms(1)
    by (auto simp: acq_consume_def Let_def bindR_def sec_def ok_or_def
        split: if_splits sum.splits option.splits simp del: get_Some)
  with assms(2) show ?thesis by blast
next
  case True
  then obtain state now rec where ld: "load_acq A f = Inr state" and now: "aq_clock A = Some now"
    and rec: "sec state ''tokens'' (digest (aq_env A) presented) = Some rec" by blast
  let ?h = "digest (aq_env A) presented"
  have tok: "file_sec f ''tokens'' ?h = Some rec" using load_acq_ok(2) [OF ld assms(2)] rec by metis
  have ev: "acq_consume A consumer presented item fld f =
     (if \<not> exact_name consumer \<or> \<not> acq_coordinate item \<or> \<not> exact_name fld \<or> fld = ''context''
         \<or> presented = [] then (Inr None, f)
      else if \<not> lives_past now rec then spent_then A ?h state None f
      else if get_str rec ''consumer'' \<noteq> Some consumer \<or> get_str rec ''item'' \<noteq> Some item
              \<or> get_str rec ''field'' \<noteq> Some fld then (Inr None, f)
      else case read_now A consumer item fld of
             Inl e \<Rightarrow> (Inl e, f)
           | Inr None \<Rightarrow> (Inr None, f)
           | Inr (Some (x, p)) \<Rightarrow>
               spent_then A ?h state (Some \<lparr>af_value = x, af_provider = Option.bind p declared_provider\<rparr>) f)"
    using rec by (simp add: acq_consume_def Let_def ld now sec_def del: get_Some)
  consider (same) "f' = f" "\<forall>x. r \<noteq> Inr (Some x)"
    | (stale) "spent_then A ?h state None f = (r, f')"
    | (read) x p where "lives_past now rec" "get_str rec ''consumer'' = Some consumer"
        "get_str rec ''item'' = Some item" "get_str rec ''field'' = Some fld"
        "read_now A consumer item fld = Inr (Some (x, p))"
        "spent_then A ?h state (Some \<lparr>af_value = x, af_provider = Option.bind p declared_provider\<rparr>) f = (r, f')"
    using assms(1) unfolding ev by (auto split: if_splits sum.splits option.splits simp del: get_Some)
  then show ?thesis
  proof cases
    case same
    with assms(2) show ?thesis by simp
  next
    case stale
    from spent_then_effect [OF stale assms(2) ld] show ?thesis by auto
  next
    case (read x p)
    have e: "sound_acq f'" "f' = f \<and> isl r
      \<or> file_sec f' ''proofs'' = file_sec f ''proofs'' \<and> file_sec f' ''tokens'' = (file_sec f ''tokens'')(?h := None)"
      "\<forall>y. r = Inr y \<longrightarrow> y = Some \<lparr>af_value = x, af_provider = Option.bind p declared_provider\<rparr>"
      using spent_then_effect [OF read(6) assms(2) ld] by blast+
    have y: "af_value y = x" "file_sec f' ''tokens'' ?h = None" if "r = Inr (Some y)" for y
    proof -
      from that e(3) have "y = \<lparr>af_value = x, af_provider = Option.bind p declared_provider\<rparr>" by blast
      then show "af_value y = x" by simp
      from that have "\<not> isl r" by simp
      with e(2) have "file_sec f' ''tokens'' = (file_sec f ''tokens'')(?h := None)" by blast
      then show "file_sec f' ''tokens'' ?h = None" by simp
    qed
    show ?thesis
    proof (intro conjI allI impI)
      show "sound_acq f'" by (rule e(1))
      show "f' = f \<or> file_sec f' ''proofs'' = file_sec f ''proofs''
          \<and> file_sec f' ''tokens'' = (file_sec f ''tokens'')(?h := None)"
        using e(2) by blast
      fix v assume "r = Inr (Some v)"
      note v = y [OF this]
      show "\<exists>rec now p. file_sec f ''tokens'' ?h = Some rec \<and> aq_clock A = Some now \<and> lives_past now rec
          \<and> get_str rec ''consumer'' = Some consumer \<and> get_str rec ''item'' = Some item
          \<and> get_str rec ''field'' = Some fld \<and> read_now A consumer item fld = Inr (Some (af_value v, p))
          \<and> file_sec f' ''tokens'' ?h = None"
        by (intro exI [of _ rec] exI [of _ now] exI [of _ p] conjI)
           (simp_all add: tok now read(1-5) v del: get_Some)
    qed
  qed
qed

end
