(* ===== verification/AcqProps.thy ===== *)
theory AcqProps
  imports AcqLaws Traces
begin

text \<open>
  What a run of asks and reads keeps: a bearer is spent once and only for what it was issued
  for, and a proof is accepted once while the grant behind it lasts. And what it does not: a
  grant renewed after its first end lets the spent proof in again.
\<close>

section \<open>Runs of asks and reads\<close>

datatype (plugins only: code size) acq_event =
    AskAcq asked_acquisition
  | ReadAcq string string string string

datatype (plugins only: code size) acq_reply =
    Asked "acq_error + issued_acquisition option"
  | Acquired "acq_error + acquired_field option"

fun acq_step :: "json option \<Rightarrow> acq_env \<times> acq_event \<Rightarrow> json option \<times> acq_reply" where
  "acq_step f (A, AskAcq q) = (case acq_issue A q f of (r, f') \<Rightarrow> (f', Asked r))"
| "acq_step f (A, ReadAcq consumer presented item fld) =
     (case acq_consume A consumer presented item fld f of (r, f') \<Rightarrow> (f', Acquired r))"

lemma acq_step_cases:
  assumes "acq_step f e = (f', r)"
  obtains (ask) A q x where "e = (A, AskAcq q)" "r = Asked x" "acq_issue A q f = (x, f')"
    | (read) A consumer presented item fld x where "e = (A, ReadAcq consumer presented item fld)"
        "r = Acquired x" "acq_consume A consumer presented item fld f = (x, f')"
proof (cases e)
  case (Pair A ev)
  show thesis
  proof (cases ev)
    case (AskAcq q)
    with assms Pair show thesis by (cases "acq_issue A q f") (auto intro: ask)
  next
    case (ReadAcq consumer presented item fld)
    with assms Pair show thesis
      by (cases "acq_consume A consumer presented item fld f") (auto intro: read)
  qed
qed

fun hands_over :: "string \<Rightarrow> acq_env \<times> acq_event \<Rightarrow> acq_reply \<Rightarrow> bool" where
  "hands_over h (A, ReadAcq c presented i fld) (Acquired (Inr (Some x))) \<longleftrightarrow> digest (aq_env A) presented = h"
| "hands_over h _ _ = False"

fun read_of :: "acq_event \<Rightarrow> (string \<times> string \<times> string) option" where
  "read_of (ReadAcq consumer presented item fld) = Some (consumer, item, fld)"
| "read_of (AskAcq q) = None"

definition asked_of :: "asked_acquisition \<Rightarrow> string \<times> string \<times> string" where
  "asked_of q = (ask_consumer q, ask_item q, ask_field q)"

definition hands_elsewhere :: "string \<Rightarrow> asked_acquisition \<Rightarrow> acq_env \<times> acq_event \<Rightarrow> acq_reply \<Rightarrow> bool" where
  "hands_elsewhere h q e r \<longleftrightarrow> hands_over h e r \<and> read_of (snd e) \<noteq> Some (asked_of q)"

text \<open>No ask of the run mints a bearer with this digest.\<close>

definition not_reminted :: "string \<Rightarrow> acq_env \<times> acq_event \<Rightarrow> bool" where
  "not_reminted h e \<longleftrightarrow> (case e of
     (A, AskAcq q) \<Rightarrow> \<forall>t. aq_token A = Inr t \<longrightarrow> digest (aq_env A) t \<noteq> h | _ \<Rightarrow> True)"

definition bearer_left :: "string \<Rightarrow> json option \<Rightarrow> nat" where
  "bearer_left h f = (if file_sec f ''tokens'' h = None then 0 else 1)"

definition bearer_bound :: "string \<Rightarrow> asked_acquisition \<Rightarrow> u64 \<Rightarrow> json option \<Rightarrow> bool" where
  "bearer_bound h q until f \<longleftrightarrow>
     sound_acq f \<and> (\<forall>rec. file_sec f ''tokens'' h = Some rec \<longrightarrow> rec = token_record q until)"

section \<open>A bearer is spent once\<close>

lemma unexpired_Some: "unexpired now ends x = Some r \<Longrightarrow> x = Some r"
  by (auto simp: unexpired_def bind_eq_Some_conv split: option.splits if_splits)

text \<open>Without a new bearer of the same digest, a step only ever drops the token at that digest.\<close>

lemma token_shrinks:
  assumes "acq_step f e = (f', r)" and "sound_acq f" and "not_reminted h e"
  shows "sound_acq f'" "file_sec f' ''tokens'' h = Some rec \<Longrightarrow> file_sec f ''tokens'' h = Some rec"
proof -
  have "sound_acq f' \<and> (file_sec f' ''tokens'' h = Some rec \<longrightarrow> file_sec f ''tokens'' h = Some rec)"
    using assms(1)
  proof (cases rule: acq_step_cases)
    case (ask A q x)
    have "file_sec f ''tokens'' h = Some rec" if new: "file_sec f' ''tokens'' h = Some rec"
    proof -
      from ask(3) assms(2) show ?thesis
      proof (cases rule: acq_issue_cases)
        case (recorded lent now token)
        then have "digest (aq_env A) token \<noteq> h" using assms(3) ask(1) by (simp add: not_reminted_def)
        then show ?thesis using recorded(5) new by (auto simp: ask_recorded_def intro: unexpired_Some)
      qed (use new in simp)
    qed
    then show ?thesis using acq_issue_effect [OF ask(3) assms(2)] by simp
  next
    case (read A consumer presented item fld x)
    note eff = acq_consume_effect [OF read(3) assms(2)]
    then consider "f' = f" | "file_sec f' ''tokens'' = (file_sec f ''tokens'')(digest (aq_env A) presented := None)"
      by blast
    then have "file_sec f' ''tokens'' h = Some rec \<longrightarrow> file_sec f ''tokens'' h = Some rec"
      by cases (auto split: if_splits)
    with eff show ?thesis by blast
  qed
  then show "sound_acq f'" "file_sec f' ''tokens'' h = Some rec \<Longrightarrow> file_sec f ''tokens'' h = Some rec"
    by blast+
qed

lemma hands_over_spends:
  assumes "acq_step f (A, ev) = (f', r)" and "sound_acq f" and "hands_over h (A, ev) r"
  shows "\<exists>rec c i fld. file_sec f ''tokens'' h = Some rec \<and> file_sec f' ''tokens'' h = None
     \<and> read_of ev = Some (c, i, fld) \<and> get_str rec ''consumer'' = Some c
     \<and> get_str rec ''item'' = Some i \<and> get_str rec ''field'' = Some fld"
  using assms(1)
proof (cases rule: acq_step_cases)
  case (ask A' q x)
  then show ?thesis using assms(3) by simp
next
  case (read A' consumer presented item fld x)
  have p: "A' = A" "ev = ReadAcq consumer presented item fld" using read(1) by simp_all
  obtain y where y: "x = Inr (Some y)" "digest (aq_env A) presented = h"
    using assms(3) p read(2) by (cases x; cases "projr x") auto
  obtain rec where "file_sec f ''tokens'' h = Some rec" "get_str rec ''consumer'' = Some consumer"
    "get_str rec ''item'' = Some item" "get_str rec ''field'' = Some fld" "file_sec f' ''tokens'' h = None"
    using acq_consume_effect [OF read(3) assms(2)] y p by blast
  then show ?thesis using p by (intro exI conjI) (assumption | simp)+
qed

interpretation bearer: budgeted acq_step "hands_over h" "bearer_left h" sound_acq "not_reminted h" for h
proof
  fix f e f' r
  assume a: "sound_acq f" "not_reminted h e" "acq_step f e = (f', r)"
  show "sound_acq f'" using token_shrinks(1) [OF a(3,1,2)] .
  show keep: "bearer_left h f' \<le> bearer_left h f"
    using token_shrinks(2) [OF a(3,1,2)] by (auto simp: bearer_left_def)
  assume s: "hands_over h e r"
  obtain A ev where e: "e = (A, ev)" by (cases e)
  from hands_over_spends [OF a(3) [unfolded e] a(1) s [unfolded e]]
  show "bearer_left h f' < bearer_left h f" by (auto simp: bearer_left_def)
qed

interpretation bound: budgeted acq_step "hands_elsewhere h q" "\<lambda>_. 0" "bearer_bound h q until" "not_reminted h"
  for h q until
proof
  fix f e f' r
  assume a: "bearer_bound h q until f" "not_reminted h e" "acq_step f e = (f', r)"
  have sf: "sound_acq f" using a(1) by (simp add: bearer_bound_def)
  show "bearer_bound h q until f'"
    using a(1) token_shrinks [OF a(3) sf a(2)] by (simp add: bearer_bound_def)
  show "(0 :: nat) \<le> 0" by simp
  assume s: "hands_elsewhere h q e r"
  obtain A ev where e: "e = (A, ev)" by (cases e)
  obtain rec c i fld where rec: "file_sec f ''tokens'' h = Some rec" "read_of ev = Some (c, i, fld)"
    "get_str rec ''consumer'' = Some c" "get_str rec ''item'' = Some i" "get_str rec ''field'' = Some fld"
    using hands_over_spends [OF a(3) [unfolded e] sf, of h] s unfolding e hands_elsewhere_def by blast
  have "rec = token_record q until" using a(1) rec(1) by (simp add: bearer_bound_def)
  with rec(3-5) have "asked_of q = (c, i, fld)" by (simp add: token_record_def asked_of_def)
  with s rec(2) e show "(0 :: nat) < 0" by (simp add: hands_elsewhere_def)
qed

text \<open>C37: an acquisition bearer is spent once, and only for what it was issued for: after it is
  issued, any sequence of asks and reads by anyone, under any clocks, vaults and failures of
  the state's file, hands a value out for it at most once, and never to another consumer, item
  or field than the ask it was issued to, as long as no later bearer has its digest.\<close>

theorem bearer_spent_once:
  assumes "sound_acq f" and "acq_issue A q f = (Inr (Some ia), f1)"
    and "list_all (not_reminted (digest (aq_env A) (ia_token ia))) es"
    and "run acq_step f1 es = (f2, rs)"
  shows "count_events (hands_over (digest (aq_env A) (ia_token ia))) es rs \<le> 1
     \<and> count_events (hands_elsewhere (digest (aq_env A) (ia_token ia)) q) es rs = 0"
proof -
  let ?h = "digest (aq_env A) (ia_token ia)"
  have s1: "sound_acq f1" using acq_issue_effect [OF assms(2,1)] by simp
  have "\<exists>(lent :: acquisition_grant) now. ask_recorded A q (ag_expires_at lent) now (ia_token ia) f f1"
    using assms(2,1)
  proof (cases rule: acq_issue_cases)
    case (recorded lent now token)
    then have "token = ia_token ia" by simp
    with recorded(5) show ?thesis by blast
  qed simp
  then obtain lent :: acquisition_grant and now where rec: "ask_recorded A q (ag_expires_at lent) now (ia_token ia) f f1" by blast
  have "count_events (hands_over ?h) es rs \<le> bearer_left ?h f1"
    using bearer.spent_within_budget [OF s1 assms(3,4)] by simp
  moreover have "bearer_left ?h f1 \<le> 1" by (simp add: bearer_left_def)
  moreover have "bearer_bound ?h q (ag_expires_at lent) f1"
    using s1 rec by (simp add: bearer_bound_def ask_recorded_def)
  then have "count_events (hands_elsewhere ?h q) es rs = 0"
    using bound.spent_within_budget [OF _ assms(3,4)] by fastforce
  ultimately show ?thesis by simp
qed

section \<open>A proof is accepted once\<close>

fun accepts_proof :: "string \<Rightarrow> string \<Rightarrow> acq_env \<times> acq_event \<Rightarrow> acq_reply \<Rightarrow> bool" where
  "accepts_proof w n (A, AskAcq q) (Asked (Inr (Some ia))) \<longleftrightarrow> ask_workload q = w \<and> ask_nonce q = n"
| "accepts_proof w n _ _ = False"

text \<open>Every call comes before \<open>ends\<close>, and a grant that lends for this proof lasts at least until
  then; the digest is one function.\<close>

definition before_end :: "(string \<Rightarrow> string) \<Rightarrow> u64 \<Rightarrow> string \<Rightarrow> string \<Rightarrow> acq_env \<times> acq_event \<Rightarrow> bool" where
  "before_end dg ends w n e \<longleftrightarrow> (case e of (A, ev) \<Rightarrow>
     digest (aq_env A) = dg \<and> (\<forall>now. aq_clock A = Some now \<longrightarrow> now < ends)
     \<and> (case ev of
          AskAcq q \<Rightarrow> ask_workload q = w \<and> ask_nonce q = n \<longrightarrow>
            (\<forall>lent now. admits_ask A q = Inr (Some (lent, now)) \<longrightarrow> ends \<le> ag_expires_at lent)
        | ReadAcq c p i fld \<Rightarrow> True))"

definition proof_closed :: "(string \<Rightarrow> string) \<Rightarrow> u64 \<Rightarrow> string \<Rightarrow> string \<Rightarrow> json option \<Rightarrow> bool" where
  "proof_closed dg ends w n f \<longleftrightarrow>
     (\<exists>e. file_sec f ''proofs'' (dg (w @ [CHR 0x00] @ n)) = Some (JUInt e) \<and> ends \<le> e)"

lemma admits_ask_clock: "admits_ask A q = Inr (Some (lent, now)) \<Longrightarrow> aq_clock A = Some now"
  by (auto simp: admits_ask_def result_simps split: if_splits option.splits)

interpretation proofs: replay_guarded acq_step "accepts_proof w n" "proof_closed dg ends w n" sound_acq "before_end dg ends w n"
  for dg ends w n
proof
  let ?k = "dg (w @ [CHR 0x00] @ n)"
  fix f e f' r
  assume a: "sound_acq f" "before_end dg ends w n e" "acq_step f e = (f', r)"
  show inv: "sound_acq f'"
    using a(3)
  proof (cases rule: acq_step_cases)
    case (ask A q x)
    then show ?thesis using acq_issue_effect [OF ask(3) a(1)] by blast
  next
    case (read A consumer presented item fld x)
    then show ?thesis using acq_consume_effect [OF read(3) a(1)] by blast
  qed
  show "proof_closed dg ends w n f'" if closed: "proof_closed dg ends w n f"
  proof -
    obtain u where u: "file_sec f ''proofs'' ?k = Some (JUInt u)" "ends \<le> u"
      using closed by (auto simp: proof_closed_def)
    show ?thesis
      using a(3)
    proof (cases rule: acq_step_cases)
      case (ask A q x)
      from ask(3) a(1) show ?thesis
      proof (cases rule: acq_issue_cases)
        case (recorded lent now token)
        have "now < ends" using a(2) ask(1) admits_ask_clock [OF recorded(1)] by (auto simp: before_end_def)
        then have live: "unexpired now as_u64 (file_sec f ''proofs'' ?k) = Some (JUInt u)"
          using u by (simp add: unexpired_def)
        with recorded(4) have "?k \<noteq> proof_hash A (ask_workload q) (ask_nonce q)" by auto
        with recorded(5) live have "file_sec f' ''proofs'' ?k = Some (JUInt u)" by (simp add: ask_recorded_def)
        with u(2) show ?thesis by (auto simp: proof_closed_def)
      qed (use closed in simp)
    next
      case (read A consumer presented item fld x)
      have "file_sec f' ''proofs'' = file_sec f ''proofs''"
        using acq_consume_effect [OF read(3) a(1)] by blast
      with u show ?thesis by (auto simp: proof_closed_def)
    qed
  qed
  assume acc: "accepts_proof w n e r"
  show "\<not> proof_closed dg ends w n f \<and> proof_closed dg ends w n f'"
    using a(3)
  proof (cases rule: acq_step_cases)
    case (ask A q x)
    obtain ia where x: "x = Inr (Some ia)" and wn: "ask_workload q = w" "ask_nonce q = n"
      using acc ask(1,2) by (cases x; cases "projr x") auto
    obtain lent now token where ad: "admits_ask A q = Inr (Some (lent, now))"
      and fresh: "unexpired now as_u64 (file_sec f ''proofs'' (proof_hash A (ask_workload q) (ask_nonce q))) = None"
      and rec: "ask_recorded A q (ag_expires_at lent) now token f f'"
      using ask(3) a(1) x by (cases rule: acq_issue_cases) simp_all
    have k: "proof_hash A (ask_workload q) (ask_nonce q) = ?k"
      using a(2) ask(1) wn by (simp add: proof_hash_def before_end_def)
    have now: "now < ends" using a(2) ask(1) admits_ask_clock [OF ad] by (auto simp: before_end_def)
    have late: "ends \<le> ag_expires_at lent" using a(2) ask(1) wn ad by (auto simp: before_end_def)
    have "\<not> proof_closed dg ends w n f"
      using fresh unfolding k
      by (auto simp: proof_closed_def unexpired_def split: if_splits dest: less_le_trans [OF now])
    moreover have "proof_closed dg ends w n f'"
      using rec late unfolding ask_recorded_def k by (auto simp: proof_closed_def)
    ultimately show ?thesis by simp
  next
    case (read A consumer presented item fld x)
    with acc show ?thesis by simp
  qed
qed

text \<open>C38: a workload's proof is accepted once while the grant that lends for it lasts: in any run
  of asks and reads before an instant every lending grant reaches, over any vaults and
  failures of the state's file, the asks carrying one workload and one nonce are answered with
  a bearer at most once.\<close>

theorem proof_accepted_once:
  assumes "sound_acq f" and "list_all (before_end dg ends w n) es" and "run acq_step f es = (f', rs)"
  shows "count_events (accepts_proof w n) es rs \<le> 1"
  using proofs.accepted_at_most_once [OF assms] .


section \<open>What a renewed grant lets in\<close>

text \<open>A document every later load reads as it is.\<close>

definition acq_whole :: "json \<Rightarrow> bool" where
  "acq_whole d \<longleftrightarrow> get_str d ''version'' = Some ''v1'' \<and> (\<forall>name \<in> set acq_sections. get_object d name \<noteq> None)"

lemma section_present_id: "get_object d name \<noteq> None \<Longrightarrow> section_present d name = Inr d"
  by (auto simp: section_present_def get_object_def result_simps)

lemma load_whole: "acq_whole d \<Longrightarrow> \<not> aq_unsafe A \<Longrightarrow> load_acq A (Some d) = Inr d"
  by (simp add: load_acq_def acq_whole_def acq_sections_def section_present_id result_simps del: get_Some)

lemma in_section_whole:
  assumes "acq_whole d" and "name \<in> set acq_sections"
  shows "\<exists>d'. in_section d name f = Inr d' \<and> acq_whole d'"
proof -
  obtain m where m: "get_object d name = Some m" using assms by (auto simp: acq_whole_def simp del: get_Some)
  then obtain ds where d: "d = JObj ds" by (cases d) (auto simp: get_object_def jget_def)
  let ?d = "JObj (map_insert name (JObj (f m)) ds)"
  have i: "in_section d name f = Inr ?d" using m d by (simp add: in_section_def jindex_set_def result_simps)
  have j: "jget ?d = (jget d)(name \<mapsto> JObj (f m))" by (simp add: d fun_eq_iff map_of_map_insert)
  have "name \<noteq> ''version''" using assms(2) by (auto simp: acq_sections_def)
  then have "acq_whole ?d" using assms(1) unfolding acq_whole_def get_object_def get_str_def j by auto
  with i show ?thesis by blast
qed

lemma in_section_keeps_whole:
  "in_section d name f = Inr d' \<Longrightarrow> acq_whole d \<Longrightarrow> name \<in> set acq_sections \<Longrightarrow> acq_whole d'"
  using in_section_whole [of d name f] by auto

lemma purge_whole:
  assumes "acq_whole d" shows "\<exists>d'. purge_expired d now = Inr d' \<and> acq_whole d'"
proof -
  have t: "''tokens'' \<in> set acq_sections" "''proofs'' \<in> set acq_sections" "''workloads'' \<in> set acq_sections"
    by (simp_all add: acq_sections_def)
  obtain d1 where 1: "in_section d ''tokens'' (map_retain (\<lambda>_ rec. lives_past now rec)) = Inr d1" "acq_whole d1"
    using in_section_whole [OF assms t(1)] by metis
  obtain d2 where 2: "in_section d1 ''proofs''
      (map_retain (\<lambda>_ e. case as_u64 e of Some u \<Rightarrow> now < u | None \<Rightarrow> False)) = Inr d2" "acq_whole d2"
    using in_section_whole [OF 1(2) t(2)] by metis
  obtain d3 where 3: "in_section d2 ''workloads'' (map_retain (\<lambda>_ rec. lives_past now rec)) = Inr d3" "acq_whole d3"
    using in_section_whole [OF 2(2) t(3)] by metis
  show ?thesis using 1(1) 2(1) 3 by (simp add: purge_expired_def result_simps)
qed

lemma load_acq_whole:
  assumes "load_acq A f = Inr d" and "sound_acq f" shows "acq_whole d"
proof -
  have v: "get_str d' ''version'' = get_str d ''version''"
    if "section_present d name = Inr d'" "name \<noteq> ''version''" for d d' name
    using that jindex_set_get by (auto simp: section_present_def result_simps get_str_def split: if_splits)
  have "get_str d ''version'' = Some ''v1''"
  proof (cases "f")
    case None
    with assms(1) have "d = fresh_state" by (simp add: load_acq_def)
    then show ?thesis by (simp add: fresh_state_def)
  next
    case (Some d0)
    with assms(1) obtain s1 s2 where s: "get_str d0 ''version'' = Some ''v1''" "section_present d0 ''proofs'' = Inr s1"
      "section_present s1 ''tokens'' = Inr s2" "section_present s2 ''workloads'' = Inr d"
      by (auto simp: load_acq_def result_simps split: if_splits simp del: get_Some)
    show ?thesis using v [OF s(2)] v [OF s(3)] v [OF s(4)] s(1) by simp
  qed
  with load_acq_ok(3) [OF assms] show ?thesis by (simp add: acq_whole_def del: get_Some)
qed

text \<open>What a granted ask wrote, in full.\<close>

lemma acq_issue_granted:
  assumes "acq_issue A q f = (Inr (Some ia), f1)" and "sound_acq f"
  shows "\<exists>d. f1 = Some d \<and> acq_ok d \<and> acq_whole d
     \<and> sec d ''proofs'' (proof_hash A (ask_workload q) (ask_nonce q)) = Some (JUInt (ia_expires_at ia))
     \<and> sec d ''workloads'' (ask_workload q)
         = Some (mk_obj [(''newest'', JUInt (ask_timestamp q)), (''expires_at'', JUInt (ia_expires_at ia))])"
proof -
  have t: "''tokens'' \<in> set acq_sections" "''proofs'' \<in> set acq_sections" "''workloads'' \<in> set acq_sections"
    by (simp_all add: acq_sections_def)
  obtain lent now state s1 token d where ad: "admits_ask A q = Inr (Some (lent, now))"
    and ld: "load_acq A f = Inr state" and pu: "purge_expired state now = Inr s1"
    and re: "recorded_ask A q (ag_expires_at lent) s1 = Inr (Some (token, d))"
    and sv: "save_acq A d f = (Inr (), f1)" and ia: "ia_expires_at ia = ag_expires_at lent"
    using assms(1) by (auto simp: acq_issue_def bindR_def split: sum.splits option.splits prod.splits)
  note l = load_acq_ok [OF ld assms(2)]
  note p = purge_ok [OF pu l(1)]
  have w1: "acq_whole s1" using purge_whole [OF load_acq_whole [OF ld assms(2)], of now] pu by simp
  let ?ph = "proof_hash A (ask_workload q) (ask_nonce q)"
  let ?wl = "mk_obj [(''newest'', JUInt (ask_timestamp q)), (''expires_at'', JUInt (ag_expires_at lent))]"
  from re obtain d1 d2 where
    d1: "in_section s1 ''proofs'' (map_insert ?ph (JUInt (ag_expires_at lent))) = Inr d1" and
    d2: "in_section d1 ''workloads'' (map_insert (ask_workload q) ?wl) = Inr d2" and
    d3: "in_section d2 ''tokens'' (map_insert (digest (aq_env A) token) (token_record q (ag_expires_at lent))) = Inr d"
    by (auto simp: recorded_ask_def Let_def result_simps split: if_splits simp del: get_Some)
  note i1 = acq_ok_update [OF p(1) d1] and w2 = in_section_keeps_whole [OF d1 w1 t(2)]
  note i2 = acq_ok_update [OF i1(1) d2] and w3 = in_section_keeps_whole [OF d2 w2 t(3)]
  note i3 = acq_ok_update [OF i2(1) d3] and w4 = in_section_keeps_whole [OF d3 w3 t(1)]
  have "f1 = Some d" using save_acq_outcome [OF sv] by simp
  moreover have "sec d ''workloads'' (ask_workload q) = Some ?wl"
    using i3(2) [of "''workloads''"] i2(3) [OF t(3)] by simp
  moreover have "sec d ''proofs'' ?ph = Some (JUInt (ag_expires_at lent))"
    using i3(2) [of "''proofs''"] i2(2) [of "''proofs''"] i1(3) [OF t(2)] by simp
  ultimately show ?thesis using i3(1) w4 ia by simp
qed

text \<open>C39: a spent proof is spendable again once its grant is renewed past the end it had: at any
  instant from that end on at which the consumer's grant lends again, the very same request
  (same timestamp, nonce and signature) is answered with a second bearer.\<close>

theorem renewed_grant_replays_proof:
  assumes "sound_acq f" and "acq_issue A q f = (Inr (Some ia), f1)"
    and "admits_ask B q = Inr (Some (lent, now))" and "ia_expires_at ia \<le> now"
    and "digest (aq_env B) = digest (aq_env A)" and "aq_token B = Inr t"
    and "file_sec f1 ''tokens'' (digest (aq_env B) t) = None"
    and "\<not> aq_unsafe B" and "aq_save B = SavedAs"
  shows "\<exists>f2. acq_issue B q f1 = (Inr (Some \<lparr>ia_token = t, ia_expires_at = ag_expires_at lent\<rparr>), f2)"
proof -
  have t: "''tokens'' \<in> set acq_sections" "''proofs'' \<in> set acq_sections" "''workloads'' \<in> set acq_sections"
    by (simp_all add: acq_sections_def)
  obtain d where d: "f1 = Some d" "acq_ok d" "acq_whole d"
    "sec d ''proofs'' (proof_hash A (ask_workload q) (ask_nonce q)) = Some (JUInt (ia_expires_at ia))"
    "sec d ''workloads'' (ask_workload q)
         = Some (mk_obj [(''newest'', JUInt (ask_timestamp q)), (''expires_at'', JUInt (ia_expires_at ia))])"
    using acq_issue_granted [OF assms(2,1)] by blast
  have ld: "load_acq B f1 = Inr d" using load_whole [OF d(3) assms(8)] d(1) by simp
  obtain p where p: "purge_expired d now = Inr p" "acq_whole p" using purge_whole [OF d(3)] by blast
  note pk = purge_ok [OF p(1) d(2)]
  let ?ph = "proof_hash B (ask_workload q) (ask_nonce q)"
  have ph: "?ph = proof_hash A (ask_workload q) (ask_nonce q)" using assms(5) by (simp add: proof_hash_def)
  have ends: "get_u64 (mk_obj [(''newest'', JUInt (ask_timestamp q)), (''expires_at'', JUInt (ia_expires_at ia))])
      ''expires_at'' = Some (ia_expires_at ia)" by simp
  have late: "\<not> now < ia_expires_at ia" using assms(4) by simp
  have gone: "sec p ''proofs'' ?ph = None" "sec p ''workloads'' (ask_workload q) = None"
    using pk(3) [of ?ph] pk(4) [of "ask_workload q"] d(4,5) late unfolding ph
    by (simp_all add: unexpired_def ends del: get_Some)
  have fresh: "sec p ''tokens'' (digest (aq_env B) t) = None"
    using pk(2) assms(7) d(1) by (simp add: file_sec_def unexpired_def)
  obtain ws ps where ws: "get_object p ''workloads'' = Some ws" "get_object p ''proofs'' = Some ps"
    using p(2) t(2,3) unfolding acq_whole_def by (metis not_None_eq)
  have "newest_of p (ask_workload q) = None"
    using gone(2) ws by (simp add: newest_of_workload sec_def)
  moreover have "map_of ps ?ph = None" using gone(1) ws by (simp add: sec_def)
  moreover obtain d1 where d1: "in_section p ''proofs'' (map_insert ?ph (JUInt (ag_expires_at lent))) = Inr d1" "acq_whole d1"
    using in_section_whole [OF p(2) t(2)] by metis
  moreover obtain d2 where d2: "in_section d1 ''workloads'' (map_insert (ask_workload q)
      (mk_obj [(''newest'', JUInt (ask_timestamp q)), (''expires_at'', JUInt (ag_expires_at lent))])) = Inr d2" "acq_whole d2"
    using in_section_whole [OF d1(2) t(3)] by metis
  moreover have "sec d2 ''tokens'' = sec p ''tokens''"
    using acq_ok_update(2) [OF _ d2(1), of "''tokens''"] acq_ok_update(1,2) [OF pk(1) d1(1)] by simp
  then have "sec d2 ''tokens'' (digest (aq_env B) t) = None" using fresh by simp
  then obtain ts where "get_object d2 ''tokens'' = Some ts" "map_of ts (digest (aq_env B) t) = None"
    using d2(2) t(1) unfolding acq_whole_def sec_def by (metis bind.bind_lunit not_None_eq)
  moreover obtain d3 where "in_section d2 ''tokens''
      (map_insert (digest (aq_env B) t) (token_record q (ag_expires_at lent))) = Inr d3"
    using in_section_whole [OF d2(2) t(1)] by metis
  ultimately have "recorded_ask B q (ag_expires_at lent) p = Inr (Some (t, d3))"
    using ws assms(6) by (simp add: recorded_ask_def Let_def result_simps del: get_Some)
  then show ?thesis
    using assms(3,9) ld p(1) by (simp add: acq_issue_def save_acq_def)
qed

end
