(* ===== verification/AcqWitness.thy ===== *)
theory AcqWitness
  imports AcqProps Fixtures
begin

text \<open>The acquisition properties at a concrete vault: one consumer whose grant lends one field
  until an instant, then until a later one.\<close>

definition demo_lender :: "u64 \<Rightarrow> vault" where
  "demo_lender until = put_section ''tokens''
     [(''bob'', mk_obj [(''capabilities'', JArr [mk_capability ''acquire'' ''a'' (Some ''value'')]),
                        (''expires_at'', JUInt until), (''workload_public_key'', JStr ''k'')])] (fst demo_one)"

definition demo_acq :: "u64 \<Rightarrow> u64 \<Rightarrow> string \<Rightarrow> acq_env" where
  "demo_acq now until token = \<lparr>aq_env = demo_env, aq_clock = Some now, aq_vault = Inr (demo_lender until),
     aq_verify = (\<lambda>k p s. Inr True), aq_token = Inr token, aq_unsafe = False, aq_save = SavedAs\<rparr>"

definition demo_ask :: asked_acquisition where
  "demo_ask = \<lparr>ask_consumer = ''bob'', ask_item = ''a'', ask_field = ''value'', ask_workload = ''w'',
     ask_timestamp = 90, ask_nonce = replicate 43 (CHR ''n''), ask_signature = replicate 128 (CHR ''0'')\<rparr>"

definition demo_lent :: "(acq_error + issued_acquisition option) \<times> json option" where
  "demo_lent = acq_issue (demo_acq 100 500 ''t1'') demo_ask None"

definition demo_reads :: "(acq_env \<times> acq_event) list" where
  "demo_reads = replicate 2 (demo_acq 100 500 ''t2'', ReadAcq ''bob'' ''t1'' ''a'' ''value'')"

definition demo_asks :: "(acq_env \<times> acq_event) list" where
  "demo_asks = replicate 2 (demo_acq 100 500 ''t1'', AskAcq demo_ask)"

lemma demo_lent_ok: "(case fst demo_lent of Inr (Some ia) \<Rightarrow> ia_token ia = ''t1'' \<and> ia_expires_at ia = 500 | _ \<Rightarrow> False)"
  by code_simp

lemma demo_reads_run: "count_events (hands_over ''t1'') demo_reads (snd (run acq_step (snd demo_lent) demo_reads)) = 1"
  by code_simp

lemma demo_asks_run:
  "count_events (accepts_proof ''w'' (replicate 43 (CHR ''n''))) demo_asks (snd (run acq_step None demo_asks)) = 1"
  by code_simp

lemma demo_admits:
  "(case admits_ask (demo_acq 100 500 ''t1'') demo_ask of Inr (Some (lent, now)) \<Rightarrow> ag_expires_at lent = 500 | _ \<Rightarrow> False)"
  "(case admits_ask (demo_acq 600 900 ''t2'') demo_ask of
      Inr (Some (lent, now)) \<Rightarrow> ag_expires_at lent = 900 \<and> now = 600 | _ \<Rightarrow> False)"
  "file_sec (snd demo_lent) ''tokens'' ''t2'' = None"
  by code_simp+

lemma demo_acq_simps [simp]:
  "digest (aq_env (demo_acq now until t)) = id" "aq_token (demo_acq now until t) = Inr t"
  "aq_clock (demo_acq now until t) = Some now" "\<not> aq_unsafe (demo_acq now until t)"
  "aq_save (demo_acq now until t) = SavedAs"
  by (simp_all add: demo_acq_def demo_env_def)

lemma demo_lent_granted:
  obtains ia where "acq_issue (demo_acq 100 500 ''t1'') demo_ask None = (Inr (Some ia), snd demo_lent)"
    "ia_token ia = ''t1''" "ia_expires_at ia = 500"
proof -
  have "\<exists>ia. fst demo_lent = Inr (Some ia) \<and> ia_token ia = ''t1'' \<and> ia_expires_at ia = 500"
    using demo_lent_ok by (auto split: sum.splits option.splits)
  then obtain ia where "fst demo_lent = Inr (Some ia)" "ia_token ia = ''t1''" "ia_expires_at ia = 500" by blast
  then show thesis using that [of ia] by (simp add: demo_lent_def prod_eq_iff)
qed

lemma demo_acq_start: "sound_acq None"
  by (simp add: sound_acq_def)

theorem bearer_spent_once_witness:
  "\<exists>f2 rs. run acq_step (snd demo_lent) demo_reads = (f2, rs)
     \<and> count_events (hands_over ''t1'') demo_reads rs = 1
     \<and> count_events (hands_elsewhere ''t1'' demo_ask) demo_reads rs = 0"
proof -
  obtain f2 rs where r: "run acq_step (snd demo_lent) demo_reads = (f2, rs)"
    by (cases "run acq_step (snd demo_lent) demo_reads")
  obtain ia where ia: "acq_issue (demo_acq 100 500 ''t1'') demo_ask None = (Inr (Some ia), snd demo_lent)"
    "ia_token ia = ''t1''" by (rule demo_lent_granted)
  have n: "list_all (not_reminted (digest (aq_env (demo_acq 100 500 ''t1'')) (ia_token ia))) demo_reads"
    by (simp add: demo_reads_def not_reminted_def list_all_iff)
  from bearer_spent_once [OF demo_acq_start ia(1) n r] ia(2) demo_reads_run r show ?thesis by simp
qed

theorem proof_accepted_once_witness:
  "\<exists>f' rs. run acq_step None demo_asks = (f', rs)
     \<and> count_events (accepts_proof ''w'' (replicate 43 (CHR ''n''))) demo_asks rs \<le> 1
     \<and> count_events (accepts_proof ''w'' (replicate 43 (CHR ''n''))) demo_asks rs = 1"
proof -
  obtain f' rs where r: "run acq_step None demo_asks = (f', rs)" by (cases "run acq_step None demo_asks")
  have b: "list_all (before_end id 500 ''w'' (replicate 43 (CHR ''n''))) demo_asks"
    using demo_admits(1) by (auto simp: demo_asks_def before_end_def list_all_iff)
  from proof_accepted_once [OF demo_acq_start b r] demo_asks_run r show ?thesis by simp
qed

theorem renewed_grant_replays_proof_witness:
  "\<exists>ia ia2 f2. acq_issue (demo_acq 100 500 ''t1'') demo_ask None = (Inr (Some ia), snd demo_lent)
     \<and> acq_issue (demo_acq 600 900 ''t2'') demo_ask (snd demo_lent) = (Inr (Some ia2), f2)"
proof -
  obtain ia where ia: "acq_issue (demo_acq 100 500 ''t1'') demo_ask None = (Inr (Some ia), snd demo_lent)"
    "ia_expires_at ia = 500" by (rule demo_lent_granted)
  obtain lent where ad: "admits_ask (demo_acq 600 900 ''t2'') demo_ask = Inr (Some (lent, 600))"
    using demo_admits(2) by (auto split: sum.splits option.splits)
  have "ia_expires_at ia \<le> 600" using ia(2) by simp
  then show ?thesis
    using renewed_grant_replays_proof [OF demo_acq_start ia(1) ad] demo_admits(3) ia(1) by fastforce
qed

end
