(* ===== verification/Patterns.thy ===== *)
theory Patterns
  imports CredReads Actions
begin

text \<open>
  The names a legacy grant may carry, \<open>src/core/migrate/patterns.rs\<close>: how a glob matches an
  item id, and the field a legacy name resolves to. \<open>glob_matches\<close> is the code's loop with its
  four indices; \<open>globs\<close> is what a glob means, and the two agree on every value without a star.
\<close>

section \<open>The loop\<close>

function glob_loop ::
  "string \<Rightarrow> string \<Rightarrow> nat \<Rightarrow> nat \<Rightarrow> nat option \<Rightarrow> nat \<Rightarrow> nat option" where
  "glob_loop p v pi vi star retry =
     (if \<not> vi < length v then Some pi
      else if pi < length p \<and> (p ! pi = CHR ''?'' \<or> p ! pi = v ! vi)
        then glob_loop p v (pi + 1) (vi + 1) star retry
      else if pi < length p \<and> p ! pi = CHR ''*''
        then glob_loop p v (pi + 1) vi (Some pi) vi
      else case star of
             Some s \<Rightarrow> glob_loop p v (s + 1) (retry + 1) star (retry + 1)
           | None \<Rightarrow> None)"
  by pat_completeness auto

text \<open>Every backtrack moves the retry point on; between two of them the value's index grows, and
  between two matches the pattern's.\<close>

termination
  by (relation "measures [\<lambda>(p, v, pi, vi, star, retry). length v - min retry vi,
                          \<lambda>(p, v, pi, vi, star, retry). length v - vi,
                          \<lambda>(p, v, pi, vi, star, retry). length p - pi]")
     auto

declare glob_loop.simps [simp del]

definition glob_matches :: "string \<Rightarrow> string \<Rightarrow> bool" where
  "glob_matches p v =
     (case glob_loop p v 0 0 None 0 of
        None \<Rightarrow> False
      | Some pi \<Rightarrow> list_all (\<lambda>c. c = CHR ''*'') (drop pi p))"

section \<open>Fields a legacy grant names\<close>

definition field_aliases :: "string \<Rightarrow> string list" where
  "field_aliases name =
     (if name \<in> {''email'', ''login_email'', ''login-email''} then [''username'']
      else if name \<in> {''login_password'', ''login-password''} then [''password'']
      else if name \<in> {''google_totp_secret'', ''totp-secret''} then [''totp_secret'']
      else if name \<in> {''api_token'', ''api-token''} then [''api_key'', ''token'']
      else if name \<in> {''key_id'', ''key-id''} then [''access_key_id'']
      else if name \<in> {''secret_key'', ''secret-key''} then [''secret_access_key'']
      else [])"

definition canonical_field :: "string \<Rightarrow> string list \<Rightarrow> string option" where
  "canonical_field name names =
     (if name = ''metadata'' then Some ''context''
      else if name \<in> set names then Some name
      else case filter (\<lambda>a. a \<in> set names) (field_aliases name) of
             [f] \<Rightarrow> Some f | _ \<Rightarrow> None)"

section \<open>What a glob means\<close>

fun globs :: "string \<Rightarrow> string \<Rightarrow> bool" where
  "globs [] v \<longleftrightarrow> v = []"
| "globs (c # p) v \<longleftrightarrow>
     (if c = CHR ''*'' then \<exists>k \<le> length v. globs p (drop k v)
      else case v of [] \<Rightarrow> False | x # v' \<Rightarrow> (c = CHR ''?'' \<or> c = x) \<and> globs p v')"

lemma globs_stars: "globs p [] \<longleftrightarrow> list_all (\<lambda>c. c = CHR ''*'') p"
  by (induction p) auto

text \<open>A star takes any prefix of what is left.\<close>

lemma globs_star: "globs (CHR ''*'' # p) v \<longleftrightarrow> (\<exists>k \<le> length v. globs p (drop k v))"
  by simp

lemma globs_star_drop: "globs (CHR ''*'' # p) (drop j v) \<Longrightarrow> i \<le> j \<Longrightarrow> globs (CHR ''*'' # p) (drop i v)"
proof -
  assume "globs (CHR ''*'' # p) (drop j v)" "i \<le> j"
  then obtain k where k: "k \<le> length v - j" "globs p (drop (j + k) v)" by (auto simp: add.commute)
  show ?thesis
  proof (cases "j \<le> length v")
    case True
    with k \<open>i \<le> j\<close> have "j + k - i \<le> length (drop i v)" "drop (j + k - i) (drop i v) = drop (j + k) v" by auto
    with k(2) show ?thesis unfolding globs_star by metis
  next
    case False
    then have "globs p (drop (length v - i) (drop i v))" using k \<open>i \<le> j\<close> by simp
    then show ?thesis unfolding globs_star by (metis length_drop order_refl)
  qed
qed

text \<open>A stretch without a star takes as many bytes as it has.\<close>

lemma globs_stretch:
  "CHR ''*'' \<notin> set s \<Longrightarrow> globs (s @ p) v \<Longrightarrow> length s \<le> length v \<and> globs p (drop (length s) v)"
proof (induction s arbitrary: v)
  case Nil
  then show ?case by simp
next
  case (Cons c s)
  then show ?case by (cases v) auto
qed

section \<open>The loop decides it\<close>

text \<open>The pattern from the last star to here has no star and took what the value holds from the
  last retry to here.\<close>

definition stretch :: "string \<Rightarrow> nat \<Rightarrow> nat \<Rightarrow> nat \<Rightarrow> nat \<Rightarrow> bool" where
  "stretch p s pi retry vi \<longleftrightarrow>
     s < pi \<and> pi \<le> length p \<and> p ! s = CHR ''*'' \<and> retry \<le> vi \<and> pi - (s + 1) = vi - retry
     \<and> CHR ''*'' \<notin> set (take (pi - (s + 1)) (drop (s + 1) p))"

definition loop_means :: "string \<Rightarrow> string \<Rightarrow> nat \<Rightarrow> nat \<Rightarrow> nat option \<Rightarrow> nat \<Rightarrow> bool" where
  "loop_means p v pi vi star retry \<longleftrightarrow>
     globs (drop pi p) (drop vi v)
     \<or> (case star of None \<Rightarrow> False
        | Some s \<Rightarrow> \<exists>k. retry < k \<and> k \<le> length v \<and> globs (drop (s + 1) p) (drop k v))"

lemma stretch_split:
  "stretch p s pi retry vi \<Longrightarrow> drop (s + 1) p = take (pi - (s + 1)) (drop (s + 1) p) @ drop pi p"
  unfolding stretch_def by (metis Suc_leI Suc_eq_plus1 add.commute append_take_drop_id drop_drop le_add_diff_inverse)

lemma stretch_length:
  assumes "stretch p s pi retry vi"
  shows "length (take (pi - (s + 1)) (drop (s + 1) p)) = vi - retry"
proof -
  obtain n where n: "pi = s + 1 + n" using assms unfolding stretch_def by (metis Suc_leI Suc_eq_plus1 le_Suc_ex)
  then have "n \<le> length p - (s + 1)" "n = vi - retry" using assms by (auto simp: stretch_def)
  then show ?thesis unfolding n by simp
qed

lemma stretch_plain: "stretch p s pi retry vi \<Longrightarrow> CHR ''*'' \<notin> set (take (pi - (s + 1)) (drop (s + 1) p))"
  by (unfold stretch_def, elim conjE)

lemma stretch_globs:
  assumes "stretch p s pi retry vi" and "globs (drop (s + 1) p) w"
  shows "vi - retry \<le> length w \<and> globs (drop pi p) (drop (vi - retry) w)"
  using globs_stretch [OF stretch_plain [OF assms(1)], of "drop pi p" w]
    stretch_split [OF assms(1)] stretch_length [OF assms(1)] assms(2) by metis

lemma stretch_next:
  assumes "stretch p s pi retry vi" and "pi < length p" and "p ! pi \<noteq> CHR ''*''"
  shows "stretch p s (pi + 1) retry (vi + 1)"
proof -
  obtain n where n: "pi = s + 1 + n" using assms(1) unfolding stretch_def by (metis Suc_leI Suc_eq_plus1 le_Suc_ex)
  have "take (pi + 1 - (s + 1)) (drop (s + 1) p) = take (pi - (s + 1)) (drop (s + 1) p) @ [p ! pi]"
    using assms(2) take_Suc_conv_app_nth [of n "drop (s + 1) p"] unfolding n by simp
  with assms show ?thesis by (auto simp: stretch_def)
qed

text \<open>A later retry of an older star is also a later stop of the star just met.\<close>

lemma older_star_later:
  assumes "stretch p s pi retry vi" and "pi < length p" and "p ! pi = CHR ''*''"
    and "retry < k" and "k \<le> length v" and "globs (drop (s + 1) p) (drop k v)"
  shows "globs (drop pi p) (drop vi v)"
proof -
  have "globs (drop pi p) (drop (k + (vi - retry)) v)"
    using stretch_globs [OF assms(1,6)] by (simp add: add.commute)
  moreover have "drop pi p = CHR ''*'' # drop (pi + 1) p"
    using assms(2,3) Cons_nth_drop_Suc [of pi p] by simp
  ultimately show ?thesis
    using globs_star_drop [of "drop (pi + 1) p" "k + (vi - retry)" v vi] assms(1,4) by (simp add: stretch_def)
qed

text \<open>At the end of the value no later retry of the last star is left: the stretch since it no longer
  fits.\<close>

lemma no_retry_at_end:
  assumes "stretch p s pi retry (length v)" and "retry < k" and "k \<le> length v"
  shows "\<not> globs (drop (s + 1) p) (drop k v)"
proof
  assume "globs (drop (s + 1) p) (drop k v)"
  from stretch_globs [OF assms(1) this] show False using assms(2,3) by auto
qed

lemma globs_here:
  assumes "pi < length p" and "vi < length v" and "p ! pi \<noteq> CHR ''*''"
  shows "globs (drop pi p) (drop vi v)
     \<longleftrightarrow> (p ! pi = CHR ''?'' \<or> p ! pi = v ! vi) \<and> globs (drop (pi + 1) p) (drop (vi + 1) v)"
  using assms Cons_nth_drop_Suc [of pi p, symmetric] Cons_nth_drop_Suc [of vi v, symmetric] by simp

lemma globs_star_here:
  assumes "pi < length p" and "p ! pi = CHR ''*''" and "vi \<le> length v"
  shows "globs (drop pi p) (drop vi v)
     \<longleftrightarrow> globs (drop (pi + 1) p) (drop vi v)
         \<or> (\<exists>k. vi < k \<and> k \<le> length v \<and> globs (drop (pi + 1) p) (drop k v))" (is "?l \<longleftrightarrow> ?r")
proof -
  have p: "drop pi p = CHR ''*'' # drop (pi + 1) p"
    using assms Cons_nth_drop_Suc [of pi p] by simp
  show ?thesis
  proof
    assume ?l
    then obtain k where k: "k \<le> length v - vi" "globs (drop (pi + 1) p) (drop (k + vi) v)"
      unfolding p globs_star by auto
    show ?r
    proof (cases "k = 0")
      case True
      with k(2) show ?thesis by simp
    next
      case False
      with k assms(3) have "vi < k + vi \<and> k + vi \<le> length v" by simp
      with k(2) show ?thesis by blast
    qed
  next
    assume ?r
    then obtain k where k: "vi \<le> k" "k \<le> length v" "globs (drop (pi + 1) p) (drop k v)"
      using assms(3) by (metis less_imp_le order_refl)
    then have "k - vi \<le> length (drop vi v)" "globs (drop (pi + 1) p) (drop (k - vi) (drop vi v))"
      by auto
    then show ?l unfolding p globs_star by blast
  qed
qed

abbreviation accepts :: "string \<Rightarrow> nat option \<Rightarrow> bool" where
  "accepts p r \<equiv> (case r of None \<Rightarrow> False | Some i \<Rightarrow> list_all (\<lambda>c. c = CHR ''*'') (drop i p))"

lemma glob_loop_means:
  assumes "CHR ''*'' \<notin> set v" and "vi \<le> length v" and "pi \<le> length p"
    and "\<forall>s. star = Some s \<longrightarrow> stretch p s pi retry vi"
  shows "accepts p (glob_loop p v pi vi star retry) \<longleftrightarrow> loop_means p v pi vi star retry"
  using assms
proof (induction p v pi vi star retry rule: glob_loop.induct)
  case (1 p v pi vi star retry)
  note loop = glob_loop.simps [of p v pi vi star retry]
  have plain: "v ! vi \<noteq> CHR ''*''" if "vi < length v"
    using nth_mem [OF that] "1.prems"(1) by metis
  consider (ended) "vi = length v"
    | (match) "vi < length v" "pi < length p" "p ! pi = CHR ''?'' \<or> p ! pi = v ! vi"
    | (star) "vi < length v" "pi < length p" "p ! pi = CHR ''*''" "\<not> (p ! pi = CHR ''?'' \<or> p ! pi = v ! vi)"
    | (stuck) "vi < length v" "\<not> (pi < length p \<and> (p ! pi = CHR ''?'' \<or> p ! pi = v ! vi))"
        "\<not> (pi < length p \<and> p ! pi = CHR ''*'')"
    using "1.prems"(2) plain by force
  then show ?case
  proof cases
    case ended
    have "\<not> (\<exists>k. retry < k \<and> k \<le> length v \<and> globs (drop (s + 1) p) (drop k v))" if "star = Some s" for s
      using no_retry_at_end [of p s pi retry v] "1.prems"(4) that ended by blast
    then have "loop_means p v pi vi star retry \<longleftrightarrow> globs (drop pi p) []"
      using ended by (auto simp: loop_means_def split: option.splits)
    moreover have "glob_loop p v pi vi star retry = Some pi" using ended unfolding loop by simp
    ultimately show ?thesis by (simp add: globs_stars)
  next
    case match
    have ne: "p ! pi \<noteq> CHR ''*''" using match plain by auto
    have "\<forall>s. star = Some s \<longrightarrow> stretch p s (pi + 1) retry (vi + 1)"
      using "1.prems"(4) stretch_next match(2) ne by blast
    then have "accepts p (glob_loop p v (pi + 1) (vi + 1) star retry) \<longleftrightarrow> loop_means p v (pi + 1) (vi + 1) star retry"
      using "1.IH"(1) match "1.prems" by simp
    then show ?thesis
      using match globs_here [OF match(2,1) ne] unfolding loop loop_means_def by simp
  next
    case star
    have ih: "accepts p (glob_loop p v (pi + 1) vi (Some pi) vi) \<longleftrightarrow> loop_means p v (pi + 1) vi (Some pi) vi"
      using "1.IH"(2) star "1.prems" by (simp add: stretch_def)
    have "glob_loop p v pi vi star retry = glob_loop p v (pi + 1) vi (Some pi) vi"
      using star unfolding loop by simp
    moreover have "loop_means p v (pi + 1) vi (Some pi) vi \<longleftrightarrow> globs (drop pi p) (drop vi v)"
      using globs_star_here [OF star(2,3) "1.prems"(2)] by (simp add: loop_means_def)
    moreover have "loop_means p v pi vi star retry \<longleftrightarrow> globs (drop pi p) (drop vi v)"
      using older_star_later [OF _ star(2,3)] "1.prems"(4) unfolding loop_means_def
      by (auto split: option.splits)
    ultimately show ?thesis using ih by simp
  next
    case stuck
    have no: "\<not> globs (drop pi p) (drop vi v)"
    proof (cases "pi < length p")
      case True
      with stuck show ?thesis using globs_here [of pi p vi v] by auto
    next
      case False
      with stuck(1) show ?thesis by simp
    qed
    show ?thesis
    proof (cases star)
      case None
      with stuck no show ?thesis unfolding loop loop_means_def by auto
    next
      case (Some s)
      then have st: "stretch p s pi retry vi" using "1.prems"(4) by simp
      then have r: "retry + 1 \<le> length v" "s + 1 \<le> length p" "stretch p s (s + 1) (retry + 1) (retry + 1)"
        using stuck(1) by (auto simp: stretch_def)
      have ih: "accepts p (glob_loop p v (s + 1) (retry + 1) star (retry + 1))
          \<longleftrightarrow> loop_means p v (s + 1) (retry + 1) star (retry + 1)"
        using "1.IH"(3) [OF _ _ _ Some] stuck "1.prems"(1) r Some by simp
      have "glob_loop p v pi vi star retry = glob_loop p v (s + 1) (retry + 1) star (retry + 1)"
        using stuck Some unfolding loop by auto
      moreover have "loop_means p v (s + 1) (retry + 1) star (retry + 1) \<longleftrightarrow> loop_means p v pi vi star retry"
        using no Some r(1) unfolding loop_means_def
        by (simp, metis Suc_lessI lessI less_SucI Suc_leI le_less not_less_eq)
      ultimately show ?thesis using ih by simp
    qed
  qed
qed

text \<open>C40: The glob loop of the migration always returns, and on every item id that has no star it
  accepts exactly what the pattern means: a question mark stands for one byte, a star for any run of
  bytes, every other byte for itself.\<close>

theorem glob_matches_means:
  assumes "CHR ''*'' \<notin> set v"
  shows "glob_matches p v \<longleftrightarrow> globs p v"
  using glob_loop_means [OF assms, of 0 0 p None 0] unfolding glob_matches_def
  by (simp add: loop_means_def split: option.splits)

theorem glob_matches_means_witness:
  "glob_matches ''db-*-ke?'' ''db-main-key'' = globs ''db-*-ke?'' ''db-main-key'' \<and> globs ''*-b?b'' ''a-b-bab''"
proof -
  have "globs ''*-b?b'' ''a-b-bab''" by code_simp
  then show ?thesis using glob_matches_means [of "''db-main-key''" "''db-*-ke?''"] by simp
qed

text \<open>Outside that, the loop takes a star of the pattern for the value's own star.\<close>

lemma glob_star_taken_literally: "\<not> glob_matches ''*'' ''*a'' \<and> globs ''*'' ''*a''"
  by (simp add: glob_matches_def glob_loop.simps) (code_simp)

section \<open>The field a legacy name resolves to\<close>

lemma canonical_field_declared:
  "canonical_field name names = Some f \<Longrightarrow> f = ''context'' \<or> f \<in> set names"
  by (auto simp: canonical_field_def filter_eq_Cons_iff split: if_splits list.splits)

end
