(* ===== verification/Bytes.thy ===== *)
theory Bytes
  imports Prelude "HOL-Library.Word"
begin

text \<open>
  The byte strings of \<open>crates/crypto\<close>: a \<open>u8\<close> is a word of eight bits, a slice or array a list
  of them. \<open>chunks\<close> is the slice method of that name (the last chunk may be shorter), \<open>xor_bytes\<close>
  the loop \<open>for (x, y) in a.iter_mut().zip(b) { *x ^= y }\<close>, \<open>be_bytes\<close> and \<open>le_bytes\<close> what
  \<open>to_be_bytes\<close> and \<open>to_le_bytes\<close> write. Wiping a buffer has no effect a caller can see and is
  not modelled.
\<close>

unbundle bit_operations_syntax

type_synonym byte = "8 word"
type_synonym bytes = "byte list"

named_theorems byte_simps

section \<open>Exclusive or\<close>

fun xor_bytes :: "bytes \<Rightarrow> bytes \<Rightarrow> bytes" where
  "xor_bytes (x # xs) (y # ys) = (x XOR y) # xor_bytes xs ys"
| "xor_bytes xs [] = xs"
| "xor_bytes [] ys = []"

lemma length_xor_bytes [simp]: "length (xor_bytes xs ys) = length xs"
  by (induction xs ys rule: xor_bytes.induct) auto

lemma xor_bytes_self [simp]: "xor_bytes (xor_bytes xs ys) ys = xs"
  by (induction xs ys rule: xor_bytes.induct) (auto simp: xor.assoc)

lemma xor_bytes_Nil [simp]: "xor_bytes [] ys = []"
  by (cases ys) auto

lemma xor_bytes_eq_Nil [simp]: "xor_bytes xs ys = [] \<longleftrightarrow> xs = []"
  by (cases xs; cases ys) auto

lemma xor_bytes_nth: "i < length xs \<Longrightarrow> i < length ys \<Longrightarrow> xor_bytes xs ys ! i = xs ! i XOR ys ! i"
proof (induction xs ys arbitrary: i rule: xor_bytes.induct)
  case (1 x xs y ys)
  then show ?case by (cases i) auto
qed auto

section \<open>Chunks of a slice\<close>

function chunks :: "nat \<Rightarrow> 'a list \<Rightarrow> 'a list list" where
  "chunks n xs = (if xs = [] \<or> n = 0 then [] else take n xs # chunks n (drop n xs))"
  by pat_completeness auto

termination
  by (relation "measure (\<lambda>(n, xs). length xs)") auto

declare chunks.simps [simp del]

lemma chunks_Nil [simp]: "chunks n [] = []"
  by (simp add: chunks.simps)

lemma chunks_step: "xs \<noteq> [] \<Longrightarrow> 0 < n \<Longrightarrow> chunks n xs = take n xs # chunks n (drop n xs)"
  by (subst chunks.simps) simp

lemma chunks_eq_Nil [simp]: "0 < n \<Longrightarrow> chunks n xs = [] \<longleftrightarrow> xs = []"
  by (subst chunks.simps) simp

lemma concat_chunks [simp]: "0 < n \<Longrightarrow> concat (chunks n xs) = xs"
proof (induction n xs rule: chunks.induct)
  case (1 n xs)
  then show ?case by (cases "xs = []") (simp_all add: chunks_step [of xs n])
qed

lemma chunks_subset: "0 < n \<Longrightarrow> c \<in> set (chunks n xs) \<Longrightarrow> set c \<subseteq> set xs"
  by (metis concat_chunks set_concat UN_upper)

lemma chunks_append: "length xs = n \<Longrightarrow> 0 < n \<Longrightarrow> chunks n (xs @ ys) = xs # chunks n ys"
  by (subst chunks.simps) auto

lemma chunks_short: "xs \<noteq> [] \<Longrightarrow> length xs \<le> n \<Longrightarrow> chunks n xs = [xs]"
  by (subst chunks.simps) (cases "n = 0"; simp)

text \<open>Whole chunks survive being glued and cut again; so does a last one that is shorter.\<close>

lemma chunks_concat_lengths:
  assumes "0 < n" and "map length cs = map length (chunks n xs)"
  shows "chunks n (concat cs) = cs"
  using assms
proof (induction n xs arbitrary: cs rule: chunks.induct)
  case (1 n xs)
  show ?case
  proof (cases "xs = []")
    case True
    with "1.prems" show ?thesis by simp
  next
    case False
    with "1.prems" obtain c cs' where cs: "cs = c # cs'" "length c = length (take n xs)"
        "map length cs' = map length (chunks n (drop n xs))"
      by (auto simp: chunks_step [of xs n])
    have ih: "chunks n (concat cs') = cs'"
      using "1.IH" [of cs'] False "1.prems"(1) cs(3) by simp
    show ?thesis
    proof (cases "length xs \<le> n")
      case True
      then have "cs' = []" using cs(3) by simp
      moreover have "c \<noteq> []" "length c \<le> n" using cs(2) False "1.prems"(1) True by auto
      ultimately show ?thesis using cs(1) by (simp add: chunks_short)
    next
      case False
      then have "length c = n" using cs(2) by simp
      then show ?thesis using cs(1) ih "1.prems"(1) by (simp add: chunks_append)
    qed
  qed
qed

lemma chunks_map_length: "0 < n \<Longrightarrow> (\<forall>c \<in> set (chunks n xs). c \<noteq> [] \<and> length c \<le> n)"
proof (induction n xs rule: chunks.induct)
  case (1 n xs)
  then show ?case by (cases "xs = []") (auto simp: chunks_step [of xs n])
qed

lemma chunks_full: "0 < n \<Longrightarrow> n dvd length xs \<Longrightarrow> \<forall>c \<in> set (chunks n xs). length c = n"
proof (induction n xs rule: chunks.induct)
  case (1 n xs)
  show ?case
  proof (cases "xs = []")
    case False
    then have le: "n \<le> length xs" using "1.prems" by (simp add: dvd_imp_le)
    have "n dvd length (drop n xs)"
      unfolding length_drop by (rule dvd_diff_nat [OF "1.prems"(2) dvd_refl])
    then have "\<forall>c \<in> set (chunks n (drop n xs)). length c = n"
      using "1.IH" False "1.prems"(1) by blast
    moreover have "length (take n xs) = n" using le by simp
    ultimately show ?thesis
      unfolding chunks_step [OF False "1.prems"(1)] list.set by blast
  qed simp
qed

lemma length_chunks_full: "0 < n \<Longrightarrow> n dvd length xs \<Longrightarrow> length (chunks n xs) = length xs div n"
proof (induction n xs rule: chunks.induct)
  case (1 n xs)
  show ?case
  proof (cases "xs = []")
    case False
    with 1 have "n \<le> length xs" by (simp add: dvd_imp_le)
    with False 1 show ?thesis by (simp add: chunks_step [of xs n] le_div_geq)
  qed simp
qed

lemma length_concat_same: "\<forall>c \<in> set cs. length c = n \<Longrightarrow> length (concat cs) = n * length cs"
  by (induction cs) auto

lemma chunks_concat_same: "0 < n \<Longrightarrow> \<forall>c \<in> set cs. length c = n \<Longrightarrow> chunks n (concat cs) = cs"
  by (induction cs) (auto simp: chunks_append)

section \<open>Whole blocks and the rest\<close>

text \<open>The slice method \<open>as_chunks\<close>: the whole blocks, and what is left after them.\<close>

definition as_chunks :: "nat \<Rightarrow> bytes \<Rightarrow> bytes list \<times> bytes" where
  "as_chunks n xs = (let whole = n * (length xs div n) in (chunks n (take whole xs), drop whole xs))"

lemma as_chunks_parts:
  assumes "0 < n" and "as_chunks n xs = (bs, r)"
  shows "xs = concat bs @ r \<and> (\<forall>b \<in> set bs. length b = n) \<and> length r < n"
proof -
  let ?w = "n * (length xs div n)"
  have "bs = chunks n (take ?w xs)" "r = drop ?w xs" using assms(2) by (simp_all add: as_chunks_def Let_def)
  moreover have l: "length (take ?w xs) = ?w" by (simp add: times_div_less_eq_dividend)
  moreover have "length (drop ?w xs) < n"
    using mod_less_divisor [OF assms(1), of "length xs"] minus_mult_div_eq_mod [of "length xs" n] by simp
  moreover have "\<forall>b \<in> set (chunks n (take ?w xs)). length b = n"
    by (rule chunks_full [OF assms(1)]) (simp only: l dvd_triv_left)
  moreover have "concat (chunks n (take ?w xs)) = take ?w xs" by (rule concat_chunks [OF assms(1)])
  ultimately show ?thesis by (metis append_take_drop_id)
qed

lemma as_chunks_join:
  assumes "\<forall>b \<in> set bs. length b = n" and "length r < n"
  shows "as_chunks n (concat bs @ r) = (bs, r)"
proof -
  have l: "length (concat bs) = n * length bs" by (rule length_concat_same [OF assms(1)])
  then have "length (concat bs @ r) div n = length bs" using assms(2) by simp
  then show ?thesis using l chunks_concat_same [OF _ assms(1)] assms(2) by (simp add: as_chunks_def Let_def)
qed

lemma as_chunks_append:
  assumes "0 < n" and "\<forall>b \<in> set bs. length b = n"
  shows "as_chunks n (concat bs @ xs) = (bs @ fst (as_chunks n xs), snd (as_chunks n xs))"
proof -
  obtain cs r where c: "as_chunks n xs = (cs, r)" by fastforce
  note p = as_chunks_parts [OF assms(1) c]
  have "concat bs @ xs = concat (bs @ cs) @ r" using p by simp
  then show ?thesis using as_chunks_join [of "bs @ cs" n r] p assms(2) c by (simp add: ball_Un)
qed

lemma as_chunks_short: "length xs < n \<Longrightarrow> as_chunks n xs = ([], xs)"
  using as_chunks_join [of "[]" n xs] by simp

section \<open>Words as bytes\<close>

definition be_bytes :: "nat \<Rightarrow> 'a::len word \<Rightarrow> bytes" where
  "be_bytes n w = map (\<lambda>i. ucast (drop_bit (8 * i) w)) (rev [0..<n])"

definition le_bytes :: "nat \<Rightarrow> 'a::len word \<Rightarrow> bytes" where
  "le_bytes n w = map (\<lambda>i. ucast (drop_bit (8 * i) w)) [0..<n]"

definition from_be :: "bytes \<Rightarrow> 'a::len word" where
  "from_be bs = foldl (\<lambda>w b. push_bit 8 w OR ucast b) 0 bs"

definition from_le :: "bytes \<Rightarrow> 'a::len word" where
  "from_le bs = from_be (rev bs)"

lemma length_be_bytes [simp]: "length (be_bytes n w) = n"
  by (simp add: be_bytes_def)

lemma length_le_bytes [simp]: "length (le_bytes n w) = n"
  by (simp add: le_bytes_def)

section \<open>Comparing\<close>

text \<open>\<open>wipe::equal\<close>: the same length, and no byte of the exclusive or is set.\<close>

definition equal_bytes :: "bytes \<Rightarrow> bytes \<Rightarrow> bool" where
  "equal_bytes a b \<longleftrightarrow>
     length a = length b \<and> foldl (\<lambda>d (x, y). d OR (x XOR y)) 0 (zip a b) = 0"

lemma or_zero_iff: "(a OR b :: 'a::len word) = 0 \<longleftrightarrow> a = 0 \<and> b = 0"
  by (auto simp: bit_eq_iff bit_or_iff)

lemma xor_zero_iff: "(a XOR b :: 'a::len word) = 0 \<longleftrightarrow> a = b"
  by (auto simp: bit_eq_iff bit_xor_iff)

lemma difference_zero:
  "foldl (\<lambda>d (x, y). d OR (x XOR y)) e (zip a b) = (0 :: byte)
     \<longleftrightarrow> e = 0 \<and> (\<forall>(x, y) \<in> set (zip a b). x = y)"
  by (induction a b arbitrary: e rule: list_induct2') (auto simp: or_zero_iff xor_zero_iff)

lemma zip_all_eq: "length a = length b \<Longrightarrow> (\<forall>(x, y) \<in> set (zip a b). x = y) \<longleftrightarrow> a = b"
  by (induction a b rule: list_induct2) auto

lemma equal_bytes_iff [simp]: "equal_bytes a b \<longleftrightarrow> a = b"
  by (cases "length a = length b") (auto simp only: equal_bytes_def difference_zero zip_all_eq simp_thms)

lemma equal_take: "length a = length b \<Longrightarrow> foldl (\<lambda>d (x, y). d OR (x XOR y)) 0 (zip a b) = 0 \<longleftrightarrow> (a :: bytes) = b"
  by (simp add: difference_zero zip_all_eq)

end
