(* ===== verification/Aes.thy ===== *)
theory Aes
  imports Bytes
begin

text \<open>
  AES, \<open>crates/crypto/src/aes.rs\<close>: the field of 256 elements with its constant-time product and
  inverse, the S-box computed from them, the key expansion and the two directions of the cipher on a
  block of sixteen bytes. Every function is the code's, with its loops as folds over the same
  indices; a state array is a list of sixteen bytes.
\<close>

section \<open>The field\<close>

primrec gf_loop :: "nat \<Rightarrow> byte \<Rightarrow> byte \<Rightarrow> byte \<Rightarrow> byte" where
  "gf_loop 0 a b product = product"
| "gf_loop (Suc n) a b product =
     (let product' = product XOR (a AND (0 - (b AND 1)));
          high = drop_bit 7 a;
          a' = push_bit 1 a XOR (0x1b AND (0 - high))
      in gf_loop n a' (drop_bit 1 b) product')"

definition gf_multiply :: "byte \<Rightarrow> byte \<Rightarrow> byte" where
  "gf_multiply a b = gf_loop 8 a b 0"

definition gf_invert :: "byte \<Rightarrow> byte" where
  "gf_invert x =
     (let x2 = gf_multiply x x;
          x3 = gf_multiply x2 x;
          x6 = gf_multiply x3 x3;
          x12 = gf_multiply x6 x6;
          x15 = gf_multiply x12 x3;
          x30 = gf_multiply x15 x15;
          x60 = gf_multiply x30 x30;
          x120 = gf_multiply x60 x60;
          x240 = gf_multiply x120 x120;
          x252 = gf_multiply x240 x12
      in gf_multiply x252 x2)"

definition sub_byte :: "byte \<Rightarrow> byte" where
  "sub_byte x =
     (let b = gf_invert x
      in b XOR word_rotl 1 b XOR word_rotl 2 b XOR word_rotl 3 b XOR word_rotl 4 b XOR 0x63)"

definition inv_sub_byte :: "byte \<Rightarrow> byte" where
  "inv_sub_byte s = gf_invert (word_rotl 1 s XOR word_rotl 3 s XOR word_rotl 6 s XOR 0x05)"

section \<open>Steps on a block\<close>

text \<open>The state is column-major: byte \<open>4 * column + row\<close>.\<close>

definition shift_rows :: "bytes \<Rightarrow> bytes" where
  "shift_rows s =
     foldl (\<lambda>b (row, column). b[4 * column + row := s ! (4 * ((column + row) mod 4) + row)]) s
       [(row, column). row \<leftarrow> [1..<4], column \<leftarrow> [0..<4]]"

definition inv_shift_rows :: "bytes \<Rightarrow> bytes" where
  "inv_shift_rows s =
     foldl (\<lambda>b (row, column). b[4 * ((column + row) mod 4) + row := s ! (4 * column + row)]) s
       [(row, column). row \<leftarrow> [1..<4], column \<leftarrow> [0..<4]]"

definition mix_column :: "bytes \<Rightarrow> bytes" where
  "mix_column column =
     (let a = column ! 0; b = column ! 1; c = column ! 2; d = column ! 3
      in [gf_multiply a 2 XOR gf_multiply b 3 XOR c XOR d,
          a XOR gf_multiply b 2 XOR gf_multiply c 3 XOR d,
          a XOR b XOR gf_multiply c 2 XOR gf_multiply d 3,
          gf_multiply a 3 XOR b XOR c XOR gf_multiply d 2])"

definition inv_mix_column :: "bytes \<Rightarrow> bytes" where
  "inv_mix_column column =
     (let a = column ! 0; b = column ! 1; c = column ! 2; d = column ! 3
      in [gf_multiply a 14 XOR gf_multiply b 11 XOR gf_multiply c 13 XOR gf_multiply d 9,
          gf_multiply a 9 XOR gf_multiply b 14 XOR gf_multiply c 11 XOR gf_multiply d 13,
          gf_multiply a 13 XOR gf_multiply b 9 XOR gf_multiply c 14 XOR gf_multiply d 11,
          gf_multiply a 11 XOR gf_multiply b 13 XOR gf_multiply c 9 XOR gf_multiply d 14])"

definition mix_columns :: "bytes \<Rightarrow> bytes" where
  "mix_columns block = concat (map mix_column (chunks 4 block))"

definition inv_mix_columns :: "bytes \<Rightarrow> bytes" where
  "inv_mix_columns block = concat (map inv_mix_column (chunks 4 block))"

section \<open>Expanded keys\<close>

record aes =
  round_keys :: "bytes list"

datatype bad_key_length = BadKeyLength nat

definition next_word :: "nat \<Rightarrow> nat \<Rightarrow> bytes list \<times> byte \<Rightarrow> bytes list \<times> byte" where
  "next_word nk i = (\<lambda>(words, rcon).
     let temp = words ! (i - 1);
         (temp, rcon) =
           (if i mod nk = 0
              then ([sub_byte (temp ! 1) XOR rcon, sub_byte (temp ! 2), sub_byte (temp ! 3), sub_byte (temp ! 0)],
                    gf_multiply rcon 2)
            else if nk > 6 \<and> i mod nk = 4 then (map sub_byte temp, rcon)
            else (temp, rcon));
         previous = words ! (i - nk)
     in (words @ [[previous ! 0 XOR temp ! 0, previous ! 1 XOR temp ! 1,
                   previous ! 2 XOR temp ! 2, previous ! 3 XOR temp ! 3]], rcon))"

definition aes_new :: "bytes \<Rightarrow> bad_key_length + aes" where
  "aes_new key =
     (case (if length key = 16 then Some 4 else if length key = 24 then Some 6
            else if length key = 32 then Some 8 else None) of
        None \<Rightarrow> Inl (BadKeyLength (length key))
      | Some nk \<Rightarrow>
          let rounds = nk + 6;
              total = 4 * (rounds + 1);
              words = fst (foldl (\<lambda>st i. next_word nk i st) (chunks 4 key, 1) [nk..<total])
          in Inr \<lparr>round_keys = map concat (chunks 4 words)\<rparr>)"

definition rounds :: "aes \<Rightarrow> nat" where
  "rounds k = length (round_keys k) - 1"

section \<open>The cipher\<close>

definition encrypt_round :: "aes \<Rightarrow> bytes \<Rightarrow> nat \<Rightarrow> bytes" where
  "encrypt_round k block r =
     (let block = shift_rows (map sub_byte block);
          block = (if r \<noteq> rounds k then mix_columns block else block)
      in xor_bytes block (round_keys k ! r))"

definition encrypt_block :: "aes \<Rightarrow> bytes \<Rightarrow> bytes" where
  "encrypt_block k block = foldl (encrypt_round k) (xor_bytes block (round_keys k ! 0)) [1..<rounds k + 1]"

definition decrypt_round :: "aes \<Rightarrow> bytes \<Rightarrow> nat \<Rightarrow> bytes" where
  "decrypt_round k block r =
     (let block = xor_bytes (map inv_sub_byte (inv_shift_rows block)) (round_keys k ! r)
      in if r \<noteq> 0 then inv_mix_columns block else block)"

definition decrypt_block :: "aes \<Rightarrow> bytes \<Rightarrow> bytes" where
  "decrypt_block k block =
     foldl (decrypt_round k) (xor_bytes block (round_keys k ! rounds k)) (rev [0..<rounds k])"

end
