(* ===== verification/AesField.thy ===== *)
theory AesField
  imports Aes
begin

text \<open>
  The algebra of the field the AES S-box is computed in: the product of \<open>aes.rs\<close> is bilinear,
  commutative and associative, squaring is additive, and so raising to the power 254, which is what
  \<open>gf_invert\<close> does, is its own inverse. Nothing here enumerates the 256 elements.
\<close>

section \<open>Multiplication by x\<close>

definition xtime :: "byte \<Rightarrow> byte" where
  "xtime a = push_bit 1 a XOR (0x1b AND (0 - drop_bit 7 a))"

primrec mulx :: "nat \<Rightarrow> byte \<Rightarrow> byte \<Rightarrow> byte" where
  "mulx 0 a b = 0"
| "mulx (Suc n) a b = (if bit b 0 then a else 0) XOR mulx n (xtime a) (drop_bit 1 b)"

lemma mask_bit: "0 - (b AND 1) = (if bit b 0 then - 1 else (0 :: byte))"
  by (auto simp: and_one_eq odd_iff_mod_2_eq_one bit_0)

lemma top_bit: "drop_bit 7 a = (if bit a 7 then 1 else (0 :: byte))"
proof (rule bit_word_eqI)
  fix n assume "n < LENGTH(8)"
  then show "bit (drop_bit 7 a) n \<longleftrightarrow> bit (if bit a 7 then 1 else (0 :: byte)) n"
    using bit_imp_le_length [of a "7 + n"] by (cases n) (auto simp: bit_drop_bit_eq bit_1_iff)
qed

lemma bit_shift_one: "bit (push_bit 1 a) n \<longleftrightarrow> 0 < n \<and> n < 8 \<and> bit (a :: byte) (n - 1)"
  using bit_push_bit_iff [of 1 a n] bit_imp_le_length [of "push_bit 1 a" n] by auto

lemma bit_27: "bit (0x1b :: byte) n \<longleftrightarrow> n \<in> {0, 1, 3, 4}"
proof (cases "n < 8")
  case True
  then consider "n = 0" | "n = 1" | "n = 2" | "n = 3" | "n = 4" | "n = 5" | "n = 6" | "n = 7" by linarith
  then show ?thesis by cases simp_all
next
  case False
  then show ?thesis using bit_imp_le_length [of "0x1b :: byte" n] by auto
qed

lemma xtime_bit: "n < 8 \<Longrightarrow> bit (xtime a) n \<longleftrightarrow> (0 < n \<and> bit a (n - 1)) \<noteq> (n \<in> {0, 1, 3, 4} \<and> bit a 7)"
  unfolding xtime_def top_bit bit_xor_iff bit_and_iff bit_shift_one bit_27
  by (cases "bit a 7") auto

lemma gf_loop_mulx: "gf_loop n a b p = p XOR mulx n a b"
proof (induction n arbitrary: a b p)
  case 0
  then show ?case by simp
next
  case (Suc n)
  show ?case unfolding gf_loop.simps Let_def xtime_def [symmetric] mask_bit mulx.simps Suc.IH
    by (simp add: xor.assoc)
qed

lemma gf_multiply_mulx: "gf_multiply a b = mulx 8 a b"
  by (simp add: gf_multiply_def gf_loop_mulx)

lemma xtime_xor: "xtime (a XOR b) = xtime a XOR xtime b"
  by (rule bit_word_eqI) (auto simp: xtime_bit bit_xor_iff)

lemma xtime_zero [simp]: "xtime 0 = 0"
  by (simp add: xtime_def)

lemma mulx_zero [simp]: "mulx n 0 b = 0"
  by (induction n arbitrary: b) auto

lemma xor_swap: "(a XOR b) XOR (c XOR d) = (a XOR c) XOR (b XOR d :: byte)"
  by (simp only: xor.assoc xor.left_commute)

lemma xor_twice: "(a XOR b) XOR (b XOR c) = a XOR (c :: byte)"
  by (rule bit_word_eqI) (auto simp: bit_xor_iff)

lemma mulx_xor_left: "mulx n (a XOR a') b = mulx n a b XOR mulx n a' b"
proof (induction n arbitrary: a a' b)
  case (Suc n)
  show ?case unfolding mulx.simps xtime_xor Suc.IH
    by (cases "bit b 0") (simp_all only: if_True if_False xor.left_neutral xor_swap)
qed simp

lemma mulx_xor_right: "mulx n a (b XOR b') = mulx n a b XOR mulx n a b'"
proof (induction n arbitrary: a b b')
  case (Suc n)
  have c: "(if bit (b XOR b') 0 then a else 0) = (if bit b 0 then a else 0) XOR (if bit b' 0 then a else 0)"
    by (simp add: bit_xor_iff)
  show ?case unfolding mulx.simps drop_bit_xor Suc.IH c by (rule xor_swap)
qed simp

lemma mulx_xtime: "mulx n (xtime a) b = xtime (mulx n a b)"
  by (induction n arbitrary: a b) (auto simp: xtime_xor)

text \<open>Any two products by a constant commute: each is a sum of powers of \<open>xtime\<close>.\<close>

lemma mulx_commute: "mulx m (mulx n c a) b = mulx n (mulx m c b) a"
  by (induction n arbitrary: c a) (auto simp: mulx_xor_left mulx_xtime)

section \<open>Additive maps\<close>

definition additive :: "(byte \<Rightarrow> byte) \<Rightarrow> bool" where
  "additive f \<longleftrightarrow> (\<forall>a b. f (a XOR b) = f a XOR f b)"

lemma additive_comp: "additive f \<Longrightarrow> additive g \<Longrightarrow> additive (\<lambda>x. f (g x))"
  by (simp add: additive_def)

lemma additive_xor: "additive f \<Longrightarrow> additive g \<Longrightarrow> additive (\<lambda>x. f x XOR g x)"
  by (simp add: additive_def ac_simps)

lemma additive_id: "additive (\<lambda>x. x)"
  by (simp add: additive_def)

lemma byte_of_bits:
  "a = (if bit a 0 then 1 else 0) XOR (if bit a 1 then 2 else 0) XOR (if bit a 2 then 4 else 0)
       XOR (if bit a 3 then 8 else 0) XOR (if bit a 4 then 16 else 0) XOR (if bit a 5 then 32 else 0)
       XOR (if bit a 6 then 64 else 0) XOR (if bit a 7 then 128 else (0 :: byte))"
proof (rule bit_word_eqI)
  fix n assume "n < LENGTH(8)"
  then consider "n = 0" | "n = 1" | "n = 2" | "n = 3" | "n = 4" | "n = 5" | "n = 6" | "n = 7"
    unfolding len_num1 len_bit0 by fastforce
  then show "bit a n = bit ((if bit a 0 then 1 else 0) XOR (if bit a 1 then 2 else 0) XOR (if bit a 2 then 4 else 0)
       XOR (if bit a 3 then 8 else 0) XOR (if bit a 4 then 16 else 0) XOR (if bit a 5 then 32 else 0)
       XOR (if bit a 6 then 64 else 0) XOR (if bit a 7 then 128 else (0 :: byte))) n"
    unfolding bit_xor_iff by cases simp_all
qed

text \<open>An additive map is what it does to the eight powers of two.\<close>

lemma additive_ext:
  assumes "additive f" and "additive g"
    and "f 1 = g 1" "f 2 = g 2" "f 4 = g 4" "f 8 = g 8" "f 16 = g 16" "f 32 = g 32" "f 64 = g 64" "f 128 = g 128"
  shows "f a = g a"
proof -
  have z: "f 0 = 0" "g 0 = 0"
    using assms(1,2) unfolding additive_def by (metis xor_self_eq)+
  have c: "f (if P then x else 0) = g (if P then x else 0)" if "f x = g x" for P x
    using that z by simp
  have fx: "f (x XOR y) = f x XOR f y" and gx: "g (x XOR y) = g x XOR g y" for x y
    using assms(1,2) by (simp_all add: additive_def)
  show ?thesis
    by (subst (1 2) byte_of_bits [of a], unfold fx gx)
      (simp only: c [OF assms(3)] c [OF assms(4)] c [OF assms(5)] c [OF assms(6)] c [OF assms(7)]
        c [OF assms(8)] c [OF assms(9)] c [OF assms(10)])
qed

lemma additive_xtime: "additive xtime"
  by (simp add: additive_def xtime_xor)

lemma additive_left: "additive (\<lambda>a. gf_multiply a b)"
  by (simp add: additive_def gf_multiply_mulx mulx_xor_left)

lemma additive_right: "additive (\<lambda>b. gf_multiply a b)"
  by (simp add: additive_def gf_multiply_mulx mulx_xor_right)

section \<open>The ring laws\<close>

lemma gf_distrib:
  "gf_multiply (a XOR b) c = gf_multiply a c XOR gf_multiply b c"
  "gf_multiply a (b XOR c) = gf_multiply a b XOR gf_multiply a c"
  using additive_left additive_right by (simp_all add: additive_def)

lemma gf_one_left: "gf_multiply 1 b = b"
  by (rule additive_ext [OF additive_right additive_id]) code_simp+

lemma gf_multiply_commute: "gf_multiply a b = gf_multiply b a"
proof -
  have "gf_multiply (gf_multiply 1 a) b = gf_multiply (gf_multiply 1 b) a"
    unfolding gf_multiply_mulx by (rule mulx_commute)
  then show ?thesis by (simp only: gf_one_left)
qed

lemma xtime_gf: "xtime a = gf_multiply 2 a"
  by (rule additive_ext [OF additive_xtime additive_right]) code_simp+

lemma gf_one_right: "gf_multiply a 1 = a"
  by (simp add: gf_multiply_commute [of a] gf_one_left)

text \<open>A product by a constant commutes with the products in the argument, so the product is
  associative.\<close>

lemma gf_multiply_assoc: "gf_multiply (gf_multiply a b) c = gf_multiply a (gf_multiply b c)"
proof -
  have "gf_multiply (gf_multiply c b) a = gf_multiply (gf_multiply c a) b" for a b c
    unfolding gf_multiply_mulx by (rule mulx_commute)
  then show ?thesis by (metis gf_multiply_commute)
qed

section \<open>Powers\<close>

primrec gf_power :: "byte \<Rightarrow> nat \<Rightarrow> byte" where
  "gf_power x 0 = 1"
| "gf_power x (Suc n) = gf_multiply x (gf_power x n)"

lemma gf_power_one: "gf_power x 1 = x"
  by (simp add: gf_one_right)

lemma gf_power_add: "gf_multiply (gf_power x m) (gf_power x n) = gf_power x (m + n)"
  by (induction m) (simp_all add: gf_one_left gf_multiply_assoc)

lemma gf_power_mult: "gf_power (gf_power x m) n = gf_power x (m * n)"
  by (induction n) (simp_all add: gf_power_add)

lemma gf_square: "gf_power x 2 = gf_multiply x x"
  by (simp add: numeral_2_eq_2 gf_one_right)

lemma gf_invert_power: "gf_invert x = gf_power x 254"
proof -
  have m: "gf_multiply x x = gf_power x 2" by (simp only: gf_square)
  have p: "gf_multiply (gf_power x 2) x = gf_power x 3"
    using gf_power_add [of x 2 1] by (simp only: gf_power_one) simp
  show ?thesis unfolding gf_invert_def Let_def m p gf_power_add by simp
qed

text \<open>Squaring is additive, so raising to 256 is, and it fixes every power of two: it is the
  identity.\<close>

lemma additive_square: "additive (\<lambda>x. gf_multiply x x)"
  unfolding additive_def gf_distrib by (simp only: gf_multiply_commute xor_twice simp_thms)

definition square :: "byte \<Rightarrow> byte" where "square x = gf_multiply x x"

lemma squares:
  "square 1 = 1" "square 2 = 4" "square 4 = 16" "square 8 = 64" "square 16 = 27" "square 27 = 94"
  "square 29 = 74" "square 32 = 108" "square 64 = 171" "square 74 = 239" "square 77 = 250"
  "square 94 = 228" "square 108 = 151" "square 128 = 154" "square 145 = 128" "square 148 = 145"
  "square 151 = 148" "square 154 = 197" "square 171 = 179" "square 179 = 232" "square 197 = 32"
  "square 228 = 77" "square 232 = 29" "square 239 = 8" "square 250 = 2"
  by code_simp+

lemma gf_power_256: "gf_power x 256 = x"
proof -
  have sq: "square (gf_power x n) = gf_power x (2 * n)" for n
    unfolding square_def gf_power_add by (simp add: mult_2)
  have "gf_power x 256 = square (square (square (square (square (square (square (square x)))))))"
    using gf_power_one [of x] sq [of 1] sq [of 2] sq [of 4] sq [of 8] sq [of 16] sq [of 32] sq [of 64] sq [of 128]
    by simp
  also have "\<dots> = x"
  proof (rule additive_ext [where g = "\<lambda>x. x"])
    have a: "additive square" using additive_square unfolding square_def .
    show "additive (\<lambda>a. square (square (square (square (square (square (square (square a))))))))"
      by (intro additive_comp [OF a] a)
  qed (rule additive_id, simp_all only: squares)
  finally show ?thesis .
qed

lemma gf_power_reduce: "gf_power x (Suc (255 * k)) = x"
proof (induction k)
  case (Suc k)
  have "gf_power x (Suc (255 * Suc k)) = gf_multiply (gf_power x 256) (gf_power x (255 * k))"
    unfolding gf_power_add by (simp add: algebra_simps)
  also have "\<dots> = gf_power x (Suc (255 * k))" by (simp add: gf_power_256)
  finally show ?case using Suc.IH by simp
qed (simp add: gf_one_right)

theorem gf_invert_invert: "gf_invert (gf_invert x) = x"
proof -
  have "gf_invert (gf_invert x) = gf_power x (254 * 254)"
    by (simp only: gf_invert_power gf_power_mult)
  also have "\<dots> = gf_power x (Suc (255 * 253))" by (rule arg_cong [where f = "gf_power x"]) simp
  finally show ?thesis by (simp only: gf_power_reduce)
qed

section \<open>The S-box\<close>

lemma affine_back:
  "word_rotl 1 (b XOR word_rotl 1 b XOR word_rotl 2 b XOR word_rotl 3 b XOR word_rotl 4 b XOR 0x63)
   XOR word_rotl 3 (b XOR word_rotl 1 b XOR word_rotl 2 b XOR word_rotl 3 b XOR word_rotl 4 b XOR 0x63)
   XOR word_rotl 6 (b XOR word_rotl 1 b XOR word_rotl 2 b XOR word_rotl 3 b XOR word_rotl 4 b XOR 0x63)
   XOR 0x05 = (b :: byte)"
proof -
  define L where "L b = b XOR word_rotl 1 b XOR word_rotl 2 b XOR word_rotl 3 b XOR word_rotl 4 b" for b :: byte
  define M where "M b = word_rotl 1 b XOR word_rotl 3 b XOR word_rotl 6 b" for b :: byte
  have aL: "additive L" and aM: "additive M"
    unfolding additive_def L_def M_def word_rot_logs by (simp_all add: xor.assoc xor.left_commute)
  have "M (L b) = b"
    by (rule additive_ext [OF additive_comp [OF aM aL] additive_id]) (simp_all only: L_def M_def, code_simp+)
  moreover have "M 0x63 = 0x05" unfolding M_def by code_simp
  ultimately have "M (L b XOR 0x63) XOR 0x05 = b"
    using aM unfolding additive_def by (simp add: xor.assoc)
  then show ?thesis unfolding L_def M_def by (simp only: xor.assoc)
qed

theorem inv_sub_byte_sub_byte: "inv_sub_byte (sub_byte x) = x"
  unfolding inv_sub_byte_def sub_byte_def Let_def affine_back by (rule gf_invert_invert)

end
