(* ===== verification/AesModes.thy ===== *)
theory AesModes
  imports Aes
begin

text \<open>
  The two modes of \<open>aes.rs\<close>: CFB with a full-block segment, which OpenPGP's integrity protected data
  uses, and the key wrap of RFC 3394, which gpg-agent's protocol uses.
\<close>

section \<open>CFB\<close>

primrec cfb_encrypt_chunks :: "aes \<Rightarrow> bytes \<Rightarrow> bytes list \<Rightarrow> bytes list" where
  "cfb_encrypt_chunks k feedback [] = []"
| "cfb_encrypt_chunks k feedback (chunk # rest) =
     (let key = encrypt_block k feedback;
          chunk' = xor_bytes chunk key;
          feedback' = chunk' @ drop (length chunk') key
      in chunk' # cfb_encrypt_chunks k feedback' rest)"

definition cfb_encrypt :: "aes \<Rightarrow> bytes \<Rightarrow> bytes \<Rightarrow> bytes" where
  "cfb_encrypt k iv data = concat (cfb_encrypt_chunks k iv (chunks 16 data))"

primrec cfb_decrypt_chunks :: "aes \<Rightarrow> bytes \<Rightarrow> bytes list \<Rightarrow> bytes list" where
  "cfb_decrypt_chunks k feedback [] = []"
| "cfb_decrypt_chunks k feedback (chunk # rest) =
     (let next' = chunk @ drop (length chunk) (replicate 16 0);
          key = encrypt_block k feedback
      in xor_bytes chunk key # cfb_decrypt_chunks k next' rest)"

definition cfb_decrypt :: "aes \<Rightarrow> bytes \<Rightarrow> bytes \<Rightarrow> bytes" where
  "cfb_decrypt k iv data = concat (cfb_decrypt_chunks k iv (chunks 16 data))"

section \<open>Key wrap\<close>

definition counter_bytes :: "nat \<Rightarrow> nat \<Rightarrow> nat \<Rightarrow> bytes" where
  "counter_bytes n j i = be_bytes 8 (of_nat (n * j + i + 1) :: 64 word)"

definition wrap_step :: "aes \<Rightarrow> nat \<Rightarrow> bytes \<times> bytes list \<Rightarrow> nat \<times> nat \<Rightarrow> bytes \<times> bytes list" where
  "wrap_step kek n = (\<lambda>(a, r) (j, i).
     let b = encrypt_block kek (a @ r ! i)
     in (xor_bytes (take 8 b) (counter_bytes n j i), r[i := drop 8 b]))"

definition key_wrap :: "aes \<Rightarrow> bytes \<Rightarrow> bytes option" where
  "key_wrap kek key_data =
     (if length key_data < 16 \<or> length key_data mod 8 \<noteq> 0 then None
      else let n = length key_data div 8;
               (a, r) = foldl (wrap_step kek n) (replicate 8 0xa6, chunks 8 key_data)
                          [(j, i). j \<leftarrow> [0..<6], i \<leftarrow> [0..<n]]
           in Some (a @ concat r))"

definition unwrap_step :: "aes \<Rightarrow> nat \<Rightarrow> bytes \<times> bytes list \<Rightarrow> nat \<times> nat \<Rightarrow> bytes \<times> bytes list" where
  "unwrap_step kek n = (\<lambda>(a, r) (j, i).
     let b = decrypt_block kek (xor_bytes a (counter_bytes n j i) @ r ! i)
     in (take 8 b, r[i := drop 8 b]))"

definition key_unwrap :: "aes \<Rightarrow> bytes \<Rightarrow> bytes option" where
  "key_unwrap kek wrapped =
     (if length wrapped < 24 \<or> length wrapped mod 8 \<noteq> 0 then None
      else let n = length wrapped div 8 - 1;
               (a, r) = foldl (unwrap_step kek n) (take 8 wrapped, chunks 8 (drop 8 wrapped))
                          [(j, i). j \<leftarrow> rev [0..<6], i \<leftarrow> rev [0..<n]]
           in if equal_bytes a (replicate 8 0xa6) then Some (concat r) else None)"

end
