(* ===== verification/AesProps.thy ===== *)
theory AesProps
  imports AesField AesModes
begin

text \<open>
  Decrypting undoes encrypting: for one block under every key the expansion accepts, and so for CFB
  and for the key wrap, which refuses whatever does not unwrap to its check value.
\<close>

section \<open>Rows and columns\<close>

lemma length_four: "length b = 4 \<Longrightarrow> \<exists>x0 x1 x2 x3. b = [x0, x1, x2, x3]"
  by (auto simp: numeral_eq_Suc length_Suc_conv)

lemma length_sixteen:
  "length b = 16 \<Longrightarrow> \<exists>x0 x1 x2 x3 x4 x5 x6 x7 x8 x9 x10 x11 x12 x13 x14 x15.
     b = [x0, x1, x2, x3, x4, x5, x6, x7, x8, x9, x10, x11, x12, x13, x14, x15]"
  by (simp add: numeral_eq_Suc length_Suc_conv) blast

lemma row_columns:
  "[(row, column). row \<leftarrow> [1..<4], column \<leftarrow> [0..<4]]
     = [(1, 0), (1, 1), (1, 2), (1, 3), (2, 0), (2, 1), (2, 2), (2, 3), (3, 0), (3, 1), (3, 2), (3, 3 :: nat)]"
  by (simp add: upt_rec)

lemma length_shift_rows [simp]: "length (shift_rows s) = length s"
  unfolding shift_rows_def row_columns by simp

lemma inv_shift_rows_shift_rows:
  assumes "length s = 16"
  shows "inv_shift_rows (shift_rows s) = s"
  using length_sixteen [OF assms] unfolding shift_rows_def inv_shift_rows_def row_columns by auto

lemma length_mix_column [simp]: "length (mix_column c) = 4" "length (inv_mix_column c) = 4"
  by (simp_all add: mix_column_def inv_mix_column_def Let_def)

text \<open>A row of the product of the two matrices: sixteen terms, gathered by the byte they multiply.\<close>

lemma mixed_row:
  "gf_multiply (gf_multiply a k1 XOR gf_multiply b k2 XOR gf_multiply c k3 XOR gf_multiply d k4) m1
   XOR gf_multiply (gf_multiply a l1 XOR gf_multiply b l2 XOR gf_multiply c l3 XOR gf_multiply d l4) m2
   XOR gf_multiply (gf_multiply a n1 XOR gf_multiply b n2 XOR gf_multiply c n3 XOR gf_multiply d n4) m3
   XOR gf_multiply (gf_multiply a p1 XOR gf_multiply b p2 XOR gf_multiply c p3 XOR gf_multiply d p4) m4
   = gf_multiply a (gf_multiply k1 m1 XOR gf_multiply l1 m2 XOR gf_multiply n1 m3 XOR gf_multiply p1 m4)
     XOR gf_multiply b (gf_multiply k2 m1 XOR gf_multiply l2 m2 XOR gf_multiply n2 m3 XOR gf_multiply p2 m4)
     XOR gf_multiply c (gf_multiply k3 m1 XOR gf_multiply l3 m2 XOR gf_multiply n3 m3 XOR gf_multiply p3 m4)
     XOR gf_multiply d (gf_multiply k4 m1 XOR gf_multiply l4 m2 XOR gf_multiply n4 m3 XOR gf_multiply p4 m4)"
  unfolding gf_distrib gf_multiply_assoc by (simp only: xor.assoc xor.commute xor.left_commute)

lemma mix_column_entries:
  "mix_column [a, b, c, d] =
     [gf_multiply a 2 XOR gf_multiply b 3 XOR gf_multiply c 1 XOR gf_multiply d 1,
      gf_multiply a 1 XOR gf_multiply b 2 XOR gf_multiply c 3 XOR gf_multiply d 1,
      gf_multiply a 1 XOR gf_multiply b 1 XOR gf_multiply c 2 XOR gf_multiply d 3,
      gf_multiply a 3 XOR gf_multiply b 1 XOR gf_multiply c 1 XOR gf_multiply d 2]"
  by (simp add: mix_column_def gf_one_right)

lemma mix_constants:
  "gf_multiply 2 14 XOR gf_multiply 1 11 XOR gf_multiply 1 13 XOR gf_multiply 3 9 = 1"
  "gf_multiply 3 14 XOR gf_multiply 2 11 XOR gf_multiply 1 13 XOR gf_multiply 1 9 = 0"
  "gf_multiply 1 14 XOR gf_multiply 3 11 XOR gf_multiply 2 13 XOR gf_multiply 1 9 = 0"
  "gf_multiply 1 14 XOR gf_multiply 1 11 XOR gf_multiply 3 13 XOR gf_multiply 2 9 = 0"
  "gf_multiply 2 9 XOR gf_multiply 1 14 XOR gf_multiply 1 11 XOR gf_multiply 3 13 = 0"
  "gf_multiply 3 9 XOR gf_multiply 2 14 XOR gf_multiply 1 11 XOR gf_multiply 1 13 = 1"
  "gf_multiply 1 9 XOR gf_multiply 3 14 XOR gf_multiply 2 11 XOR gf_multiply 1 13 = 0"
  "gf_multiply 1 9 XOR gf_multiply 1 14 XOR gf_multiply 3 11 XOR gf_multiply 2 13 = 0"
  "gf_multiply 2 13 XOR gf_multiply 1 9 XOR gf_multiply 1 14 XOR gf_multiply 3 11 = 0"
  "gf_multiply 3 13 XOR gf_multiply 2 9 XOR gf_multiply 1 14 XOR gf_multiply 1 11 = 0"
  "gf_multiply 1 13 XOR gf_multiply 3 9 XOR gf_multiply 2 14 XOR gf_multiply 1 11 = 1"
  "gf_multiply 1 13 XOR gf_multiply 1 9 XOR gf_multiply 3 14 XOR gf_multiply 2 11 = 0"
  "gf_multiply 2 11 XOR gf_multiply 1 13 XOR gf_multiply 1 9 XOR gf_multiply 3 14 = 0"
  "gf_multiply 3 11 XOR gf_multiply 2 13 XOR gf_multiply 1 9 XOR gf_multiply 1 14 = 0"
  "gf_multiply 1 11 XOR gf_multiply 3 13 XOR gf_multiply 2 9 XOR gf_multiply 1 14 = 0"
  "gf_multiply 1 11 XOR gf_multiply 1 13 XOR gf_multiply 3 9 XOR gf_multiply 2 14 = 1"
  by code_simp+

lemma gf_zero_right: "gf_multiply a 0 = 0"
  using gf_distrib(2) [of a 0 0] by simp

lemma inv_mix_column_mix_column:
  assumes "length c = 4"
  shows "inv_mix_column (mix_column c) = c"
proof -
  obtain x0 x1 x2 x3 where c: "c = [x0, x1, x2, x3]" using length_four [OF assms] by blast
  have nth: "[p, q, r, s] ! 0 = p" "[p, q, r, s] ! 1 = q" "[p, q, r, s] ! 2 = r" "[p, q, r, s] ! 3 = s"
    for p q r s :: byte by simp_all
  show ?thesis
    unfolding c mix_column_entries inv_mix_column_def Let_def nth mixed_row mix_constants
    by (simp add: gf_one_right gf_zero_right)
qed

lemma length_mix_columns [simp]: "4 dvd length b \<Longrightarrow> length (mix_columns b) = length b"
  using length_concat_same [of "map mix_column (chunks 4 b)" 4]
  by (simp add: mix_columns_def length_chunks_full)

lemma inv_mix_columns_mix_columns:
  assumes "length b = 16"
  shows "inv_mix_columns (mix_columns b) = b"
proof -
  have full: "\<forall>c \<in> set (chunks 4 b). length c = 4" using assms by (intro chunks_full) auto
  then have "chunks 4 (mix_columns b) = map mix_column (chunks 4 b)"
    unfolding mix_columns_def by (intro chunks_concat_same) auto
  moreover have "map (\<lambda>c. inv_mix_column (mix_column c)) (chunks 4 b) = chunks 4 b"
    using full by (intro map_idI) (simp add: inv_mix_column_mix_column)
  ultimately show ?thesis by (simp add: inv_mix_columns_def comp_def)
qed

section \<open>The cipher\<close>

definition wf_aes :: "aes \<Rightarrow> bool" where
  "wf_aes k \<longleftrightarrow> 1 < length (round_keys k) \<and> (\<forall>r \<in> set (round_keys k). length r = 16)"

lemma length_encrypt_round: "length b = 16 \<Longrightarrow> length (encrypt_round k b r) = 16"
  by (simp add: encrypt_round_def Let_def)

lemma length_encrypt_rounds: "length b = 16 \<Longrightarrow> length (foldl (encrypt_round k) b rs) = 16"
  by (induction rs arbitrary: b) (auto simp: length_encrypt_round)

lemma length_encrypt_block [simp]: "length b = 16 \<Longrightarrow> length (encrypt_block k b) = 16"
  by (simp add: encrypt_block_def length_encrypt_rounds)

text \<open>What the last step before adding the round key leaves.\<close>

abbreviation substituted :: "bytes \<Rightarrow> bytes" where
  "substituted b \<equiv> shift_rows (map sub_byte b)"

lemma unsubstituted: "length b = 16 \<Longrightarrow> map inv_sub_byte (inv_shift_rows (substituted b)) = b"
  by (simp add: inv_shift_rows_shift_rows comp_def inv_sub_byte_sub_byte)

text \<open>Decrypting from round \<open>r\<close> down, started on what encryption substituted after that round, goes
  all the way back.\<close>

lemma decrypt_rounds:
  assumes "length b = 16" and "r < rounds k"
  shows "foldl (decrypt_round k) (substituted (foldl (encrypt_round k) (xor_bytes b (round_keys k ! 0)) [1..<r + 1]))
     (rev [0..<r + 1]) = b"
  using assms(2)
proof (induction r)
  case 0
  have "length (xor_bytes b (round_keys k ! 0)) = 16" using assms(1) by simp
  then show ?case by (simp add: decrypt_round_def unsubstituted Let_def)
next
  case (Suc r)
  let ?b = "foldl (encrypt_round k) (xor_bytes b (round_keys k ! 0)) [1..<r + 1]"
  have l: "length ?b = 16" using assms(1) by (simp add: length_encrypt_rounds)
  have e: "encrypt_round k ?b (Suc r) = xor_bytes (mix_columns (substituted ?b)) (round_keys k ! Suc r)"
    using Suc.prems by (simp add: encrypt_round_def Let_def)
  have len: "length (encrypt_round k ?b (Suc r)) = 16" using l by (rule length_encrypt_round)
  have "decrypt_round k (substituted (encrypt_round k ?b (Suc r))) (Suc r) = substituted ?b"
    unfolding decrypt_round_def unsubstituted [OF len] unfolding e
    using l by (simp add: inv_mix_columns_mix_columns)
  then show ?case using Suc by simp
qed

theorem decrypt_encrypt_block:
  assumes "length b = 16" and "1 < length (round_keys k)"
  shows "decrypt_block k (encrypt_block k b) = b"
proof -
  define n where "n = rounds k - 1"
  have n: "rounds k = Suc n" "n < rounds k" using assms(2) by (auto simp: n_def rounds_def)
  let ?b = "foldl (encrypt_round k) (xor_bytes b (round_keys k ! 0)) [1..<n + 1]"
  have "encrypt_block k b = encrypt_round k ?b (rounds k)" by (simp add: encrypt_block_def n)
  also have "\<dots> = xor_bytes (substituted ?b) (round_keys k ! rounds k)"
    by (simp add: encrypt_round_def Let_def)
  finally show ?thesis
    using decrypt_rounds [OF assms(1) n(2)] by (simp add: decrypt_block_def n(1))
qed

section \<open>Key expansion\<close>

lemma next_word_words:
  "fst (next_word nk i st) = fst st @ [last (fst (next_word nk i st))] \<and> length (last (fst (next_word nk i st))) = 4"
  by (cases st) (simp add: next_word_def Let_def split: prod.splits)

lemma next_words:
  "\<forall>w \<in> set (fst st). length w = 4 \<Longrightarrow>
   length (fst (foldl (\<lambda>st i. next_word nk i st) st is)) = length (fst st) + length is
   \<and> (\<forall>w \<in> set (fst (foldl (\<lambda>st i. next_word nk i st) st is)). length w = 4)"
proof (induction "is" arbitrary: st)
  case Nil
  then show ?case by simp
next
  case (Cons i "is")
  obtain w where w: "fst (next_word nk i st) = fst st @ [w]" "length w = 4" using next_word_words by metis
  then have "\<forall>w \<in> set (fst (next_word nk i st)). length w = 4" using Cons.prems by simp
  from Cons.IH [OF this] w(1) show ?case by simp
qed

lemma aes_new_ok:
  assumes "aes_new key = Inr k"
  shows "wf_aes k \<and> rounds k = length key div 4 + 6"
proof -
  from assms obtain nk where nk: "length key = 4 * nk" "nk \<in> {4, 6, 8}"
    and k: "k = \<lparr>round_keys = map concat (chunks 4 (fst (foldl (\<lambda>st i. next_word nk i st) (chunks 4 key, 1) [nk..<4 * (nk + 6 + 1)])))\<rparr>"
    by (auto simp: aes_new_def Let_def split: if_splits)
  define words where "words = fst (foldl (\<lambda>st i. next_word nk i st) (chunks 4 key, 1) [nk..<4 * (nk + 6 + 1)])"
  have "length (chunks 4 key) = nk" "\<forall>w \<in> set (chunks 4 key). length w = 4"
    using nk(1) length_chunks_full [of 4 key] chunks_full [of 4 key] by auto
  then have w: "length words = 4 * (nk + 7)" "\<forall>w \<in> set words. length w = 4"
    using next_words [of "(chunks 4 key, 1)" nk "[nk..<4 * (nk + 6 + 1)]"] nk(2) unfolding words_def by auto
  have "\<forall>c \<in> set (chunks 4 words). length c = 4 \<and> set c \<subseteq> set words"
    using chunks_full [of 4 words] w(1) chunks_subset [of 4 _ words] by simp
  then have "\<forall>r \<in> set (map concat (chunks 4 words)). length r = 16"
    using w(2) length_concat_same [where n = 4] by fastforce
  moreover have "length (chunks 4 words) = nk + 7" using w(1) by (simp add: length_chunks_full)
  ultimately show ?thesis using nk k unfolding words_def [symmetric] by (auto simp: wf_aes_def rounds_def)
qed

section \<open>CFB\<close>

lemma cfb_chunks:
  assumes "\<forall>c \<in> set cs. length c \<le> 16" and "\<forall>c \<in> set (butlast cs). length c = 16" and "length fb = 16"
  shows "cfb_decrypt_chunks k fb (cfb_encrypt_chunks k fb cs) = cs
     \<and> map length (cfb_encrypt_chunks k fb cs) = map length cs"
  using assms
proof (induction cs arbitrary: fb)
  case Nil
  then show ?case by simp
next
  case (Cons c cs)
  let ?c = "xor_bytes c (encrypt_block k fb)"
  show ?case
  proof (cases "cs = []")
    case True
    then show ?thesis by (simp add: Let_def)
  next
    case False
    then have l: "length ?c = 16" using Cons.prems by simp
    then have fb: "?c @ drop 16 (encrypt_block k fb) = ?c" using Cons.prems(3) by simp
    have "cfb_decrypt_chunks k ?c (cfb_encrypt_chunks k ?c cs) = cs
        \<and> map length (cfb_encrypt_chunks k ?c cs) = map length cs"
      using Cons.IH [of ?c] Cons.prems False l by simp
    then show ?thesis using l fb by (simp add: Let_def)
  qed
qed

lemma chunks_butlast: "0 < n \<Longrightarrow> \<forall>c \<in> set (butlast (chunks n xs)). length c = n"
proof (induction n xs rule: chunks.induct)
  case (1 n xs)
  show ?case
  proof (cases "xs = []")
    case False
    have ih: "\<forall>c \<in> set (butlast (chunks n (drop n xs))). length c = n" using 1 False by blast
    have cs: "chunks n xs = take n xs # chunks n (drop n xs)" using False "1.prems" by (rule chunks_step)
    show ?thesis
    proof (cases "length xs \<le> n")
      case True
      then show ?thesis using cs by simp
    next
      case nle: False
      then have "length (take n xs) = n" by simp
      then show ?thesis unfolding cs using ih by (simp only: butlast.simps split: if_split) auto
    qed
  qed simp
qed

theorem cfb_decrypt_encrypt:
  assumes "length iv = 16"
  shows "cfb_decrypt k iv (cfb_encrypt k iv data) = data"
proof -
  have "\<forall>c \<in> set (chunks 16 data). length c \<le> 16" using chunks_map_length [of 16 data] by simp
  note c = cfb_chunks [OF this chunks_butlast [of 16 data] assms, simplified]
  then have "chunks 16 (cfb_encrypt k iv data) = cfb_encrypt_chunks k iv (chunks 16 data)"
    unfolding cfb_encrypt_def by (intro chunks_concat_lengths [of 16 _ data]) auto
  then show ?thesis using c by (simp add: cfb_decrypt_def)
qed

section \<open>Key wrap\<close>

lemma foldl_undo:
  assumes "\<And>s x. P s \<Longrightarrow> x \<in> set xs \<Longrightarrow> P (f s x) \<and> g (f s x) x = s" and "P s"
  shows "foldl g (foldl f s xs) (rev xs) = s \<and> P (foldl f s xs)"
  using assms
proof (induction xs arbitrary: s)
  case (Cons x xs)
  have p: "P (f s x)" "g (f s x) x = s" using Cons.prems by auto
  have "foldl g (foldl f (f s x) xs) (rev xs) = f s x \<and> P (foldl f (f s x) xs)"
    by (rule Cons.IH) (use Cons.prems p in auto)
  then show ?case using p by simp
qed simp

definition wrapping :: "nat \<Rightarrow> bytes \<times> bytes list \<Rightarrow> bool" where
  "wrapping n = (\<lambda>(a, r). length a = 8 \<and> length r = n \<and> (\<forall>c \<in> set r. length c = 8))"

lemma unwrap_wrap_step:
  assumes "1 < length (round_keys kek)" and "wrapping n s" and "i < n"
  shows "wrapping n (wrap_step kek m s (j, i)) \<and> unwrap_step kek m (wrap_step kek m s (j, i)) (j, i) = s"
proof -
  obtain a r where s: "s = (a, r)" by (cases s)
  define b where "b = encrypt_block kek (a @ r ! i)"
  have l: "length a = 8" "length (r ! i) = 8" "length r = n" using assms(2,3) by (auto simp: wrapping_def s)
  then have b: "length b = 16" "decrypt_block kek b = a @ r ! i"
    using decrypt_encrypt_block [of "a @ r ! i" kek] assms(1) unfolding b_def by simp_all
  have w: "wrap_step kek m s (j, i) = (xor_bytes (take 8 b) (counter_bytes m j i), r[i := drop 8 b])"
    by (simp add: wrap_step_def s b_def Let_def)
  moreover have "wrapping n (xor_bytes (take 8 b) (counter_bytes m j i), r[i := drop 8 b])"
    using assms(2) b(1) unfolding wrapping_def s
    by (auto dest!: set_update_subset_insert [THEN subsetD])
  moreover have "unwrap_step kek m (wrap_step kek m s (j, i)) (j, i) = s"
    unfolding w unwrap_step_def using l assms(3) b by (simp add: Let_def s)
  ultimately show ?thesis by simp
qed

lemma rev_steps:
  "[(j, i). j \<leftarrow> rev [0..<6], i \<leftarrow> rev [0..<n]] = rev [(j, i). j \<leftarrow> [0..<6], i \<leftarrow> [0..<n :: nat]]"
  by (simp add: rev_concat rev_map comp_def)

theorem key_unwrap_wrap:
  assumes "1 < length (round_keys kek)" and "16 \<le> length key" and "8 dvd length key"
  shows "Option.bind (key_wrap kek key) (key_unwrap kek) = Some key"
proof -
  define n where "n = length key div 8"
  have n: "length key = 8 * n" "2 \<le> n" using assms(2,3) by (auto simp: n_def)
  let ?s = "(replicate 8 0xa6, chunks 8 key)"
  let ?steps = "[(j, i). j \<leftarrow> [0..<6], i \<leftarrow> [0..<n]] :: (nat \<times> nat) list"
  have s: "wrapping n ?s"
    using n length_chunks_full [of 8 key] chunks_full [of 8 key] by (simp add: wrapping_def)
  obtain a r where ar: "foldl (wrap_step kek n) ?s ?steps = (a, r)" by fastforce
  have undo: "foldl (unwrap_step kek n) (a, r) (rev ?steps) = ?s \<and> wrapping n (a, r)"
    unfolding ar [symmetric]
    by (rule foldl_undo [where P = "wrapping n"]) (use unwrap_wrap_step [OF assms(1)] s in auto)
  have lr: "length (concat r) = 8 * n" "chunks 8 (concat r) = r" "length a = 8"
    using undo length_concat_same [of r 8] chunks_concat_same [of 8 r] by (auto simp: wrapping_def)
  have "key_wrap kek key = Some (a @ concat r)"
    using n assms(2) ar by (simp add: key_wrap_def Let_def n_def [symmetric])
  moreover have "key_unwrap kek (a @ concat r) = Some key"
    using n undo lr unfolding key_unwrap_def rev_steps by simp
  ultimately show ?thesis by simp
qed

end
