(* ===== verification/Ocb.thy ===== *)
theory Ocb
  imports Aes
begin

text \<open>
  OCB (RFC 7253) over AES, \<open>crates/crypto/src/ocb.rs\<close>. Messages of \<open>2^32\<close> blocks or more, where the
  code's table of offsets ends and indexing it panics, are outside what the model says anything about:
  \<open>l_at\<close> has no specified value there.
\<close>

definition double_block :: "bytes \<Rightarrow> bytes" where
  "double_block block =
     (let carry = drop_bit 7 (block ! 0)
      in map (\<lambda>i. push_bit 1 (block ! i) OR drop_bit 7 (block ! (i + 1))) [0..<15]
         @ [push_bit 1 (block ! 15) XOR (0x87 AND (0 - carry))])"

record ocb =
  ocb_aes :: aes
  l_star :: bytes
  l_dollar :: bytes
  l_table :: "bytes list"
  tag_len :: nat

datatype ocb_error = NonceLength nat | TagLength nat | TooShort | Forged

definition ocb_new :: "aes \<Rightarrow> nat \<Rightarrow> ocb_error + ocb" where
  "ocb_new k n =
     (if n \<notin> {8, 12, 16} then Inl (TagLength n)
      else let star = encrypt_block k (replicate 16 0);
               dollar = double_block star;
               l = foldl (\<lambda>l i. l @ [double_block (l ! (i - 1))]) [double_block dollar] [1..<32]
           in Inr \<lparr>ocb_aes = k, l_star = star, l_dollar = dollar, l_table = l, tag_len = n\<rparr>)"

fun trailing_zeros :: "nat \<Rightarrow> nat" where
  "trailing_zeros i = (if i = 0 then 64 else if odd i then 0 else Suc (trailing_zeros (i div 2)))"

declare trailing_zeros.simps [simp del]

definition l_at :: "ocb \<Rightarrow> nat \<Rightarrow> bytes" where
  "l_at o' i = l_table o' ! trailing_zeros i"

definition initial_offset :: "ocb \<Rightarrow> bytes \<Rightarrow> ocb_error + bytes" where
  "initial_offset o' nonce =
     (if nonce = [] \<or> length nonce > 15 then Inl (NonceLength (length nonce))
      else
        let block = (replicate 16 0)[0 := push_bit 1 (of_nat ((tag_len o' * 8) mod 128))];
            at = 16 - length nonce - 1;
            block = block[at := block ! at OR 1];
            block = take (16 - length nonce) block @ nonce;
            bottom = unat (block ! 15 AND 0x3f);
            block = block[15 := block ! 15 AND 0xc0];
            ktop = encrypt_block (ocb_aes o') block;
            stretch = ktop @ map (\<lambda>i. ktop ! i XOR ktop ! (i + 1)) [0..<8];
            bytes = bottom div 8;
            bits = bottom mod 8
        in Inr (map (\<lambda>i. let high = stretch ! (i + bytes); low = stretch ! (i + bytes + 1)
                          in if bits = 0 then high else push_bit bits high OR drop_bit (8 - bits) low) [0..<16]))"

definition padded :: "bytes \<Rightarrow> bytes" where
  "padded rest = (rest @ drop (length rest) (replicate 16 0))[length rest := 0x80]"

definition ocb_hash :: "ocb \<Rightarrow> bytes \<Rightarrow> bytes" where
  "ocb_hash o' associated =
     (let (blocks, rest) = as_chunks 16 associated;
          (sum, offset) = foldl (\<lambda>(sum, offset) (i, chunk).
             let offset = xor_bytes offset (l_at o' (i + 1))
             in (xor_bytes sum (encrypt_block (ocb_aes o') (xor_bytes chunk offset)), offset))
             (replicate 16 0, replicate 16 0) (enumerate 0 blocks)
      in if rest = [] then sum
         else let offset = xor_bytes offset (l_star o')
              in xor_bytes sum (encrypt_block (ocb_aes o') (xor_bytes (padded rest) offset)))"

definition final_tag :: "ocb \<Rightarrow> bytes \<Rightarrow> bytes \<Rightarrow> bytes \<Rightarrow> bytes" where
  "final_tag o' associated offset checksum =
     xor_bytes (encrypt_block (ocb_aes o') (xor_bytes (xor_bytes checksum offset) (l_dollar o')))
       (ocb_hash o' associated)"

definition seal_step :: "ocb \<Rightarrow> bytes \<times> bytes \<times> bytes \<Rightarrow> nat \<times> bytes \<Rightarrow> bytes \<times> bytes \<times> bytes" where
  "seal_step o' = (\<lambda>(offset, checksum, out) (i, chunk).
     let offset = xor_bytes offset (l_at o' (i + 1));
         checksum = xor_bytes checksum chunk;
         block = xor_bytes (encrypt_block (ocb_aes o') (xor_bytes chunk offset)) offset
     in (offset, checksum, out @ block))"

definition ocb_seal :: "ocb \<Rightarrow> bytes \<Rightarrow> bytes \<Rightarrow> bytes \<Rightarrow> ocb_error + bytes" where
  "ocb_seal o' nonce associated plaintext =
     bindR (initial_offset o' nonce) (\<lambda>offset.
       let (blocks, rest) = as_chunks 16 plaintext;
           (offset, checksum, out) = foldl (seal_step o') (offset, replicate 16 0, []) (enumerate 0 blocks);
           (offset, checksum, out) =
             (if rest = [] then (offset, checksum, out)
              else let offset = xor_bytes offset (l_star o');
                       pad = encrypt_block (ocb_aes o') offset
                   in (offset, xor_bytes checksum (padded rest), out @ xor_bytes rest pad))
       in Inr (out @ take (tag_len o') (final_tag o' associated offset checksum)))"

definition open_step :: "ocb \<Rightarrow> bytes \<times> bytes \<times> bytes \<Rightarrow> nat \<times> bytes \<Rightarrow> bytes \<times> bytes \<times> bytes" where
  "open_step o' = (\<lambda>(offset, checksum, out) (i, chunk).
     let offset = xor_bytes offset (l_at o' (i + 1));
         block = xor_bytes (decrypt_block (ocb_aes o') (xor_bytes chunk offset)) offset
     in (offset, xor_bytes checksum block, out @ block))"

definition ocb_open :: "ocb \<Rightarrow> bytes \<Rightarrow> bytes \<Rightarrow> bytes \<Rightarrow> ocb_error + bytes" where
  "ocb_open o' nonce associated sealed =
     (if length sealed < tag_len o' then Inl TooShort
      else
        let ciphertext = take (length sealed - tag_len o') sealed;
            tag = drop (length sealed - tag_len o') sealed
        in bindR (initial_offset o' nonce) (\<lambda>offset.
             let (blocks, rest) = as_chunks 16 ciphertext;
                 (offset, checksum, out) = foldl (open_step o') (offset, replicate 16 0, []) (enumerate 0 blocks);
                 (offset, checksum, out) =
                   (if rest = [] then (offset, checksum, out)
                    else let offset = xor_bytes offset (l_star o');
                             pad = encrypt_block (ocb_aes o') offset;
                             plain = xor_bytes rest pad
                         in (offset, xor_bytes checksum (padded plain), out @ plain));
                 expected = take (tag_len o') (final_tag o' associated offset checksum)
             in if equal_bytes expected tag then Inr out else Inl Forged))"

end
