(* ===== verification/Gcm.thy ===== *)
theory Gcm
  imports Aes
begin

text \<open>
  AES-GCM (NIST SP 800-38D), \<open>crates/crypto/src/gcm.rs\<close>: GHASH bit by bit with masks, the counter
  mode, and the seal and open of the two TLS suites. A \<open>u128\<close> is a word of 128 bits.
\<close>

type_synonym u128 = "128 word"

primrec ghash_loop :: "nat \<Rightarrow> u128 \<Rightarrow> u128 \<Rightarrow> u128 \<Rightarrow> u128" where
  "ghash_loop 0 x z v = z"
| "ghash_loop (Suc n) x z v =
     (let bit' = drop_bit n x AND 1;
          z = z XOR (v AND (0 - bit'));
          low = v AND 1;
          v = drop_bit 1 v XOR (push_bit 120 0xe1 AND (0 - low))
      in ghash_loop n x z v)"

definition ghash_multiply :: "u128 \<Rightarrow> u128 \<Rightarrow> u128" where
  "ghash_multiply x y = ghash_loop 128 x 0 y"

definition ghash_blocks :: "u128 \<Rightarrow> u128 \<Rightarrow> bytes \<Rightarrow> u128" where
  "ghash_blocks h state data =
     foldl (\<lambda>state chunk. ghash_multiply (state XOR from_be (chunk @ drop (length chunk) (replicate 16 0))) h)
       state (chunks 16 data)"

definition ghash :: "u128 \<Rightarrow> bytes \<Rightarrow> bytes \<Rightarrow> u128" where
  "ghash h associated ciphertext =
     (let state = ghash_blocks h 0 associated;
          state = ghash_blocks h state ciphertext;
          lengths = push_bit 64 (of_nat (length associated) * 8) OR (of_nat (length ciphertext) * 8)
      in ghash_multiply (state XOR lengths) h)"

definition first_counter :: "u128 \<Rightarrow> bytes \<Rightarrow> u128" where
  "first_counter h nonce =
     (if length nonce = 12 then from_be ((nonce @ replicate 4 0)[15 := 1])
      else ghash_multiply (ghash_blocks h 0 nonce XOR (of_nat (length nonce) * 8)) h)"

definition increment :: "u128 \<Rightarrow> u128" where
  "increment counter =
     (let high = counter AND NOT 0xffffffff;
          low = (ucast counter :: 32 word) + 1
      in high OR ucast low)"

definition encrypt_u128 :: "aes \<Rightarrow> u128 \<Rightarrow> u128" where
  "encrypt_u128 k block = from_be (encrypt_block k (be_bytes 16 block))"

primrec ctr_chunks :: "aes \<Rightarrow> u128 \<Rightarrow> bytes list \<Rightarrow> bytes list" where
  "ctr_chunks k counter [] = []"
| "ctr_chunks k counter (chunk # rest) =
     xor_bytes chunk (be_bytes 16 (encrypt_u128 k counter)) # ctr_chunks k (increment counter) rest"

definition ctr :: "aes \<Rightarrow> u128 \<Rightarrow> bytes \<Rightarrow> bytes" where
  "ctr k counter data = concat (ctr_chunks k counter (chunks 16 data))"

record gcm =
  gcm_aes :: aes
  gcm_h :: u128

definition gcm_new :: "bytes \<Rightarrow> gcm option" where
  "gcm_new key =
     (case aes_new key of
        Inl _ \<Rightarrow> None
      | Inr k \<Rightarrow> Some \<lparr>gcm_aes = k, gcm_h = encrypt_u128 k 0\<rparr>)"

definition gcm_tag :: "gcm \<Rightarrow> u128 \<Rightarrow> bytes \<Rightarrow> bytes \<Rightarrow> bytes" where
  "gcm_tag g j0 associated ciphertext =
     be_bytes 16 (encrypt_u128 (gcm_aes g) j0 XOR ghash (gcm_h g) associated ciphertext)"

definition gcm_seal :: "gcm \<Rightarrow> bytes \<Rightarrow> bytes \<Rightarrow> bytes \<Rightarrow> bytes" where
  "gcm_seal g nonce associated plaintext =
     (let j0 = first_counter (gcm_h g) nonce;
          out = ctr (gcm_aes g) (increment j0) plaintext
      in out @ gcm_tag g j0 associated out)"

datatype gcm_open_error = GcmOpenError

definition gcm_open_with_tag :: "gcm \<Rightarrow> bytes \<Rightarrow> bytes \<Rightarrow> bytes \<Rightarrow> nat \<Rightarrow> gcm_open_error + bytes" where
  "gcm_open_with_tag g nonce associated sealed n =
     (if \<not> (4 \<le> n \<and> n \<le> 16) \<or> length sealed < n then Inl GcmOpenError
      else
        let ciphertext = take (length sealed - n) sealed;
            tag = drop (length sealed - n) sealed;
            j0 = first_counter (gcm_h g) nonce;
            expected = gcm_tag g j0 associated ciphertext;
            difference = foldl (\<lambda>acc (a, b). acc OR (a XOR b)) 0 (zip (take n expected) tag)
        in if difference \<noteq> 0 then Inl GcmOpenError
           else Inr (ctr (gcm_aes g) (increment j0) ciphertext))"

definition gcm_open :: "gcm \<Rightarrow> bytes \<Rightarrow> bytes \<Rightarrow> bytes \<Rightarrow> gcm_open_error + bytes" where
  "gcm_open g nonce associated sealed = gcm_open_with_tag g nonce associated sealed 16"

end
