(* ===== verification/Aead.thy ===== *)
theory Aead
  imports AesProps Ocb Gcm
begin

text \<open>
  Authenticated encryption as its users see it: a message opens to a plaintext exactly when it is
  that plaintext sealed under the same nonce and associated data. The interface is the locale
  \<open>aead\<close>; OCB and GCM provide it here.
\<close>

section \<open>The interface\<close>

locale aead =
  fixes enseal :: "'n \<Rightarrow> bytes \<Rightarrow> bytes \<Rightarrow> 'e + bytes"
    and unseal :: "'n \<Rightarrow> bytes \<Rightarrow> bytes \<Rightarrow> 'f + bytes"
  assumes exact: "unseal n a s = Inr p \<longleftrightarrow> enseal n a p = Inr s"
begin

lemma opens_sealed: "enseal n a p = Inr s \<Longrightarrow> unseal n a s = Inr p"
  by (simp add: exact)

lemma forged_refused: "(\<And>p. enseal n a p \<noteq> Inr s) \<Longrightarrow> isl (unseal n a s)"
  by (cases "unseal n a s") (auto simp: exact)

lemma enseal_injective: "enseal n a p = Inr s \<Longrightarrow> enseal n a q = Inr s \<Longrightarrow> p = q"
  by (metis exact sum.inject(2))

end

section \<open>Encrypting undoes decrypting\<close>

lemma finite_blocks: "finite {b :: bytes. length b = 16}"
  using finite_lists_length_eq [of "UNIV :: byte set" 16] by simp

lemma encrypt_decrypt_block:
  assumes "1 < length (round_keys k)" and "length b = 16"
  shows "encrypt_block k (decrypt_block k b) = b \<and> length (decrypt_block k b) = 16"
proof -
  let ?B = "{b :: bytes. length b = 16}"
  have "inj_on (encrypt_block k) ?B"
    by (rule inj_on_inverseI [where g = "decrypt_block k"]) (simp add: decrypt_encrypt_block [OF _ assms(1)])
  moreover have "encrypt_block k ` ?B \<subseteq> ?B" by auto
  ultimately have onto: "encrypt_block k ` ?B = ?B" by (intro endo_inj_surj [OF finite_blocks])
  have "b \<in> encrypt_block k ` ?B" unfolding onto using assms(2) by simp
  then obtain c where "length c = 16" "encrypt_block k c = b" by (elim imageE) simp
  then show ?thesis using decrypt_encrypt_block [OF _ assms(1)] by metis
qed

section \<open>OCB\<close>

lemma sealed_blocks:
  assumes "1 < length (round_keys (ocb_aes o'))" and "\<forall>c \<in> set cs. length c = 16"
  shows "\<exists>ds offset' checksum'. (\<forall>d \<in> set ds. length d = 16)
     \<and> (\<forall>out. foldl (seal_step o') (offset, checksum, out) (enumerate n cs) = (offset', checksum', out @ concat ds))
     \<and> (\<forall>out. foldl (open_step o') (offset, checksum, out) (enumerate n ds) = (offset', checksum', out @ concat cs))"
  using assms(2)
proof (induction cs arbitrary: offset checksum n)
  case Nil
  show ?case by (rule exI [of _ "[]"]) simp
next
  case (Cons c cs)
  let ?o = "xor_bytes offset (l_at o' (n + 1))"
  let ?d = "xor_bytes (encrypt_block (ocb_aes o') (xor_bytes c ?o)) ?o"
  obtain ds offset' checksum' where ds: "\<forall>d \<in> set ds. length d = 16"
      "\<forall>out. foldl (seal_step o') (?o, xor_bytes checksum c, out) (enumerate (Suc n) cs) = (offset', checksum', out @ concat ds)"
      "\<forall>out. foldl (open_step o') (?o, xor_bytes checksum c, out) (enumerate (Suc n) ds) = (offset', checksum', out @ concat cs)"
    using Cons.IH Cons.prems by (meson list.set_intros(2))
  have l: "length ?d = 16" and b: "xor_bytes (decrypt_block (ocb_aes o') (xor_bytes ?d ?o)) ?o = c"
    using Cons.prems decrypt_encrypt_block [of "xor_bytes c ?o" "ocb_aes o'"] assms(1) by simp_all
  show ?case
    by (rule exI [of _ "?d # ds"]) (use ds l b in \<open>simp add: seal_step_def open_step_def Let_def\<close>)
qed

lemma opened_blocks:
  assumes "1 < length (round_keys (ocb_aes o'))" and "\<forall>d \<in> set ds. length d = 16"
  shows "\<exists>cs offset' checksum'. (\<forall>c \<in> set cs. length c = 16)
     \<and> (\<forall>out. foldl (seal_step o') (offset, checksum, out) (enumerate n cs) = (offset', checksum', out @ concat ds))
     \<and> (\<forall>out. foldl (open_step o') (offset, checksum, out) (enumerate n ds) = (offset', checksum', out @ concat cs))"
  using assms(2)
proof (induction ds arbitrary: offset checksum n)
  case Nil
  show ?case by (rule exI [of _ "[]"]) simp
next
  case (Cons d ds)
  let ?o = "xor_bytes offset (l_at o' (n + 1))"
  let ?c = "xor_bytes (decrypt_block (ocb_aes o') (xor_bytes d ?o)) ?o"
  obtain cs offset' checksum' where cs: "\<forall>c \<in> set cs. length c = 16"
      "\<forall>out. foldl (seal_step o') (?o, xor_bytes checksum ?c, out) (enumerate (Suc n) cs) = (offset', checksum', out @ concat ds)"
      "\<forall>out. foldl (open_step o') (?o, xor_bytes checksum ?c, out) (enumerate (Suc n) ds) = (offset', checksum', out @ concat cs)"
    using Cons.IH Cons.prems by (meson list.set_intros(2))
  have l: "length ?c = 16" and b: "xor_bytes (encrypt_block (ocb_aes o') (xor_bytes ?c ?o)) ?o = d"
    using Cons.prems encrypt_decrypt_block [OF assms(1), of "xor_bytes d ?o"] by simp_all
  show ?case
    by (rule exI [of _ "?c # cs"]) (use cs l b in \<open>simp add: seal_step_def open_step_def Let_def\<close>)
qed

lemma length_final_tag:
  assumes "length checksum = 16"
  shows "length (final_tag o' a offset checksum) = 16"
  using assms by (simp add: final_tag_def)

definition wf_ocb :: "ocb \<Rightarrow> bool" where
  "wf_ocb o' \<longleftrightarrow> 1 < length (round_keys (ocb_aes o')) \<and> tag_len o' \<le> 16"

lemma ocb_new_wf: "aes_new key = Inr k \<Longrightarrow> ocb_new k n = Inr o' \<Longrightarrow> wf_ocb o' \<and> tag_len o' = n \<and> ocb_aes o' = k"
  using aes_new_ok [of key k] by (auto simp: ocb_new_def wf_ocb_def wf_aes_def Let_def split: if_splits)

lemma ocb_checksum_length:
  "length (fst (snd (foldl (seal_step o') (offset, checksum, out) xs))) = length checksum"
proof (induction xs arbitrary: offset checksum out)
  case (Cons x xs)
  obtain i c where "x = (i, c)" by (cases x)
  then show ?case using Cons.IH by (simp add: seal_step_def Let_def)
qed simp

text \<open>What both directions compute, once the blocks are settled.\<close>

lemma ocb_exact_blocks:
  assumes "wf_ocb o'" and "initial_offset o' nonce = Inr off0"
    and ds: "\<forall>d \<in> set ds. length d = 16" and cs: "\<forall>c \<in> set cs. length c = 16"
    and seal': "\<forall>out. foldl (seal_step o') (off0, replicate 16 0, out) (enumerate 0 cs) = (offset, checksum, out @ concat ds)"
    and open': "\<forall>out. foldl (open_step o') (off0, replicate 16 0, out) (enumerate 0 ds) = (offset, checksum, out @ concat cs)"
    and r: "length r < 16" and p: "p = concat cs @ r"
    and d: "d = concat ds @ (if r = [] then [] else xor_bytes r (encrypt_block (ocb_aes o') (xor_bytes offset (l_star o'))))"
  shows "\<exists>t. length t = tag_len o' \<and> ocb_seal o' nonce a p = Inr (d @ t)
     \<and> (\<forall>t'. length t' = tag_len o' \<longrightarrow> ocb_open o' nonce a (d @ t') = (if t' = t then Inr p else Inl Forged))"
proof -
  let ?off = "if r = [] then offset else xor_bytes offset (l_star o')"
  let ?sum = "if r = [] then checksum else xor_bytes checksum (padded r)"
  define t where "t = take (tag_len o') (final_tag o' a ?off ?sum)"
  have "length checksum = 16"
    using seal' ocb_checksum_length [of o' off0 "replicate 16 0" "[]" "enumerate 0 cs"] by simp
  then have lt: "length t = tag_len o'"
    using assms(1) length_final_tag [of ?sum o' a ?off] by (auto simp: t_def wf_ocb_def)
  have "as_chunks 16 p = (cs, r)" unfolding p by (rule as_chunks_join [OF cs r])
  then have s: "ocb_seal o' nonce a p = Inr (d @ t)"
    using assms(2) seal' by (auto simp: ocb_seal_def t_def d bindR_simps Let_def)
  have "ocb_open o' nonce a (d @ t') = (if t' = t then Inr p else Inl Forged)" if "length t' = tag_len o'" for t'
  proof -
    let ?r = "if r = [] then [] else xor_bytes r (encrypt_block (ocb_aes o') (xor_bytes offset (l_star o')))"
    have "as_chunks 16 d = (ds, ?r)" unfolding d by (rule as_chunks_join [OF ds]) (use r in simp)
    moreover have "?r = [] \<longleftrightarrow> r = []" by simp
    ultimately show ?thesis
      using assms(2) open' that by (auto simp: ocb_open_def t_def p bindR_simps Let_def)
  qed
  with s lt show ?thesis by blast
qed

theorem ocb_exact:
  assumes "wf_ocb o'"
  shows "ocb_open o' nonce a s = Inr p \<longleftrightarrow> ocb_seal o' nonce a p = Inr s"
proof (cases "initial_offset o' nonce")
  case (Inl e)
  then show ?thesis by (simp add: ocb_open_def ocb_seal_def bindR_simps Let_def)
next
  case (Inr off0)
  have good: "1 < length (round_keys (ocb_aes o'))" using assms by (simp add: wf_ocb_def)
  show ?thesis
  proof
    assume opened: "ocb_open o' nonce a s = Inr p"
    then have ls: "tag_len o' \<le> length s" by (auto simp: ocb_open_def split: if_splits)
    define d t' where "d = take (length s - tag_len o') s" and "t' = drop (length s - tag_len o') s"
    have s: "s = d @ t'" "length t' = tag_len o'" using ls by (simp_all add: d_def t'_def)
    obtain ds r' where c: "as_chunks 16 d = (ds, r')" by fastforce
    note parts = as_chunks_parts [OF _ c, simplified]
    obtain cs offset checksum where b: "\<forall>c \<in> set cs. length c = 16"
      "\<forall>out. foldl (seal_step o') (off0, replicate 16 0, out) (enumerate 0 cs) = (offset, checksum, out @ concat ds)"
      "\<forall>out. foldl (open_step o') (off0, replicate 16 0, out) (enumerate 0 ds) = (offset, checksum, out @ concat cs)"
      using opened_blocks [OF good] parts by blast
    define r where "r = (if r' = [] then [] else xor_bytes r' (encrypt_block (ocb_aes o') (xor_bytes offset (l_star o'))))"
    have "length r = length r'" "r = [] \<longleftrightarrow> r' = []" by (simp_all add: r_def)
    then have "d = concat ds @ (if r = [] then [] else xor_bytes r (encrypt_block (ocb_aes o') (xor_bytes offset (l_star o'))))"
      "length r < 16" using parts by (auto simp: r_def)
    from ocb_exact_blocks [OF assms Inr conjunct1 [OF conjunct2 [OF parts]] b(1) b(2,3) this(2) refl this(1), where a = a]
    obtain t where "length t = tag_len o'"
      and t: "ocb_seal o' nonce a (concat cs @ r) = Inr (d @ t)"
      and all: "\<forall>t'. length t' = tag_len o' \<longrightarrow> ocb_open o' nonce a (d @ t') = (if t' = t then Inr (concat cs @ r) else Inl Forged)"
      by (elim exE conjE)
    from all s(2) have "ocb_open o' nonce a (d @ t') = (if t' = t then Inr (concat cs @ r) else Inl Forged)" by blast
    with opened have "t' = t" "p = concat cs @ r" unfolding s(1) by (simp_all split: if_splits)
    with t show "ocb_seal o' nonce a p = Inr s" unfolding s(1) by simp
  next
    assume sealed: "ocb_seal o' nonce a p = Inr s"
    obtain cs r where c: "as_chunks 16 p = (cs, r)" by fastforce
    note parts = as_chunks_parts [OF _ c, simplified]
    obtain ds offset checksum where b: "\<forall>d \<in> set ds. length d = 16"
      "\<forall>out. foldl (seal_step o') (off0, replicate 16 0, out) (enumerate 0 cs) = (offset, checksum, out @ concat ds)"
      "\<forall>out. foldl (open_step o') (off0, replicate 16 0, out) (enumerate 0 ds) = (offset, checksum, out @ concat cs)"
      using sealed_blocks [OF good] parts by blast
    let ?d = "concat ds @ (if r = [] then [] else xor_bytes r (encrypt_block (ocb_aes o') (xor_bytes offset (l_star o'))))"
    from ocb_exact_blocks [OF assms Inr b(1) conjunct1 [OF conjunct2 [OF parts]] b(2,3)
        conjunct2 [OF conjunct2 [OF parts]] conjunct1 [OF parts] refl, of a]
    obtain t where t: "length t = tag_len o'" "ocb_seal o' nonce a p = Inr (?d @ t)"
      and all: "\<forall>t'. length t' = tag_len o' \<longrightarrow> ocb_open o' nonce a (?d @ t') = (if t' = t then Inr p else Inl Forged)"
      by (elim exE conjE)
    from t(2) sealed have "s = ?d @ t" by simp
    moreover have "ocb_open o' nonce a (?d @ t) = Inr p" using all t(1) by simp
    ultimately show "ocb_open o' nonce a s = Inr p" by simp
  qed
qed

section \<open>GCM\<close>

lemma ctr_chunks_back: "ctr_chunks k c (ctr_chunks k c cs) = cs \<and> map length (ctr_chunks k c cs) = map length cs"
  by (induction cs arbitrary: c) auto

lemma ctr_back [simp]: "ctr k c (ctr k c data) = data"
proof -
  have "chunks 16 (ctr k c data) = ctr_chunks k c (chunks 16 data)"
    unfolding ctr_def using ctr_chunks_back by (intro chunks_concat_lengths [of 16 _ data]) auto
  then show ?thesis using ctr_chunks_back [of k c "chunks 16 data"] unfolding ctr_def [of k c "ctr k c data"] by simp
qed

lemma length_gcm_tag [simp]: "length (gcm_tag g j a c) = 16"
  by (simp add: gcm_tag_def)

lemma gcm_open_parts:
  "length t = 16 \<Longrightarrow> gcm_open g n a (c @ t) =
     (if t = gcm_tag g (first_counter (gcm_h g) n) a c
      then Inr (ctr (gcm_aes g) (increment (first_counter (gcm_h g) n)) c) else Inl GcmOpenError)"
  by (auto simp: gcm_open_def gcm_open_with_tag_def Let_def equal_take)

lemma gcm_open_short: "length s < 16 \<Longrightarrow> gcm_open g n a s = Inl GcmOpenError"
  by (simp add: gcm_open_def gcm_open_with_tag_def)

theorem gcm_exact: "gcm_open g n a s = Inr p \<longleftrightarrow> gcm_seal g n a p = s"
proof (cases "length s < 16")
  case True
  then show ?thesis by (auto simp: gcm_open_short gcm_seal_def Let_def)
next
  case False
  define c t where "c = take (length s - 16) s" and "t = drop (length s - 16) s"
  have s: "s = c @ t" "length t = 16" using False by (simp_all add: c_def t_def)
  show ?thesis
    unfolding s(1) gcm_open_parts [OF s(2)] gcm_seal_def Let_def using s(2) by auto
qed

end
