(* ===== verification/Chacha.thy ===== *)
theory Chacha
  imports Bytes
begin

text \<open>
  ChaCha20, Poly1305 and their AEAD (RFC 8439), \<open>crates/crypto/src/chacha.rs\<close>. A \<open>u32\<close> is a word of
  32 bits and a \<open>u64\<close> one of 64; the additions and products the code writes with plain operators are
  the words' own, which wrap where a release build would: that none of them does is part of what is
  proved of Poly1305.
\<close>

type_synonym u32 = "32 word"

section \<open>ChaCha20\<close>

definition quarter :: "u32 list \<Rightarrow> nat \<times> nat \<times> nat \<times> nat \<Rightarrow> u32 list" where
  "quarter state = (\<lambda>(a, b, c, d).
     let state = state[a := state ! a + state ! b];
         state = state[d := word_rotl 16 (state ! d XOR state ! a)];
         state = state[c := state ! c + state ! d];
         state = state[b := word_rotl 12 (state ! b XOR state ! c)];
         state = state[a := state ! a + state ! b];
         state = state[d := word_rotl 8 (state ! d XOR state ! a)];
         state = state[c := state ! c + state ! d]
     in state[b := word_rotl 7 (state ! b XOR state ! c)])"

definition word_at :: "bytes \<Rightarrow> nat \<Rightarrow> u32" where
  "word_at bytes i = from_le (take 4 (drop i bytes))"

definition double_round :: "u32 list \<Rightarrow> u32 list" where
  "double_round working =
     foldl quarter working
       [(0, 4, 8, 12), (1, 5, 9, 13), (2, 6, 10, 14), (3, 7, 11, 15),
        (0, 5, 10, 15), (1, 6, 11, 12), (2, 7, 8, 13), (3, 4, 9, 14)]"

definition chacha20_block :: "bytes \<Rightarrow> u32 \<Rightarrow> bytes \<Rightarrow> bytes" where
  "chacha20_block key counter nonce =
     (let state = [0x61707865, 0x3320646e, 0x79622d32, 0x6b206574]
                    @ map (\<lambda>i. word_at key (4 * i)) [0..<8] @ [counter]
                    @ map (\<lambda>i. word_at nonce (4 * i)) [0..<3];
          working = (double_round ^^ 10) state
      in concat (map (\<lambda>i. le_bytes 4 (working ! i + state ! i)) [0..<16]))"

definition chacha20_xor :: "bytes \<Rightarrow> u32 \<Rightarrow> bytes \<Rightarrow> bytes \<Rightarrow> bytes" where
  "chacha20_xor key counter nonce data =
     concat (map (\<lambda>(i, chunk). xor_bytes chunk (chacha20_block key (counter + of_nat i) nonce))
       (enumerate 0 (chunks 64 data)))"

section \<open>Poly1305\<close>

type_synonym limbs = "u32 \<times> u32 \<times> u32 \<times> u32 \<times> u32"

abbreviation wide :: "u32 \<Rightarrow> 64 word" where "wide x \<equiv> ucast x"
abbreviation low :: "64 word \<Rightarrow> u32" where "low x \<equiv> ucast x"

definition poly_key :: "bytes \<Rightarrow> limbs" where
  "poly_key key =
     (word_at key 0 AND 0x03ffffff,
      drop_bit 2 (word_at key 3) AND 0x03ffff03,
      drop_bit 4 (word_at key 6) AND 0x03ffc0ff,
      drop_bit 6 (word_at key 9) AND 0x03f03fff,
      drop_bit 8 (word_at key 12) AND 0x000fffff)"

definition poly_add :: "limbs \<Rightarrow> bytes \<Rightarrow> limbs" where
  "poly_add = (\<lambda>(h0, h1, h2, h3, h4) chunk.
     let block = (chunk @ drop (length chunk) (replicate 17 0))[length chunk := 1]
     in (h0 + (word_at block 0 AND 0x03ffffff),
         h1 + (drop_bit 2 (word_at block 3) AND 0x03ffffff),
         h2 + (drop_bit 4 (word_at block 6) AND 0x03ffffff),
         h3 + (drop_bit 6 (word_at block 9) AND 0x03ffffff),
         h4 + (drop_bit 8 (word_at block 12) OR push_bit 24 (ucast (block ! 16)))))"

type_synonym wides = "64 word \<times> 64 word \<times> 64 word \<times> 64 word \<times> 64 word"

definition poly_products :: "limbs \<Rightarrow> limbs \<Rightarrow> wides" where
  "poly_products = (\<lambda>(r0, r1, r2, r3, r4) (h0, h1, h2, h3, h4).
     let s1 = wide (r1 * 5); s2 = wide (r2 * 5); s3 = wide (r3 * 5); s4 = wide (r4 * 5);
         h0 = wide h0; h1 = wide h1; h2 = wide h2; h3 = wide h3; h4 = wide h4;
         r0 = wide r0; r1 = wide r1; r2 = wide r2; r3 = wide r3; r4 = wide r4
     in (h0 * r0 + h1 * s4 + h2 * s3 + h3 * s2 + h4 * s1,
         h0 * r1 + h1 * r0 + h2 * s4 + h3 * s3 + h4 * s2,
         h0 * r2 + h1 * r1 + h2 * r0 + h3 * s4 + h4 * s3,
         h0 * r3 + h1 * r2 + h2 * r1 + h3 * r0 + h4 * s4,
         h0 * r4 + h1 * r3 + h2 * r2 + h3 * r1 + h4 * r0))"

definition poly_narrow :: "wides \<Rightarrow> limbs" where
  "poly_narrow = (\<lambda>(d0, d1, d2, d3, d4).
     let carry = drop_bit 26 d0;
         k0 = low d0 AND 0x03ffffff;
         d1 = d1 + carry;
         carry = drop_bit 26 d1;
         k1 = low d1 AND 0x03ffffff;
         d2 = d2 + carry;
         carry = drop_bit 26 d2;
         k2 = low d2 AND 0x03ffffff;
         d3 = d3 + carry;
         carry = drop_bit 26 d3;
         k3 = low d3 AND 0x03ffffff;
         d4 = d4 + carry;
         carry = drop_bit 26 d4;
         k4 = low d4 AND 0x03ffffff;
         k0 = k0 + low carry * 5;
         c = drop_bit 26 k0;
         k0 = k0 AND 0x03ffffff;
         k1 = k1 + c
     in (k0, k1, k2, k3, k4))"

definition poly_carried :: "limbs \<Rightarrow> limbs" where
  "poly_carried = (\<lambda>(h0, h1, h2, h3, h4).
     let c = drop_bit 26 h1;
         h1 = h1 AND 0x03ffffff;
         h2 = h2 + c;
         c = drop_bit 26 h2;
         h2 = h2 AND 0x03ffffff;
         h3 = h3 + c;
         c = drop_bit 26 h3;
         h3 = h3 AND 0x03ffffff;
         h4 = h4 + c;
         c = drop_bit 26 h4;
         h4 = h4 AND 0x03ffffff;
         h0 = h0 + c * 5;
         c = drop_bit 26 h0;
         h0 = h0 AND 0x03ffffff;
         h1 = h1 + c
     in (h0, h1, h2, h3, h4))"

definition poly_reduced :: "limbs \<Rightarrow> limbs" where
  "poly_reduced = (\<lambda>(h0, h1, h2, h3, h4).
     let g0 = h0 + 5;
         c = drop_bit 26 g0;
         g0 = g0 AND 0x03ffffff;
         g1 = h1 + c;
         c = drop_bit 26 g1;
         g1 = g1 AND 0x03ffffff;
         g2 = h2 + c;
         c = drop_bit 26 g2;
         g2 = g2 AND 0x03ffffff;
         g3 = h3 + c;
         c = drop_bit 26 g3;
         g3 = g3 AND 0x03ffffff;
         g4 = h4 + c - push_bit 26 1;
         mask = drop_bit 31 g4 - 1
     in ((h0 AND NOT mask) OR (g0 AND mask), (h1 AND NOT mask) OR (g1 AND mask),
         (h2 AND NOT mask) OR (g2 AND mask), (h3 AND NOT mask) OR (g3 AND mask),
         (h4 AND NOT mask) OR (g4 AND mask)))"

definition poly_tag :: "bytes \<Rightarrow> limbs \<Rightarrow> bytes" where
  "poly_tag key = (\<lambda>(h0, h1, h2, h3, h4).
     let w0 = h0 OR push_bit 26 h1;
         w1 = drop_bit 6 h1 OR push_bit 20 h2;
         w2 = drop_bit 12 h2 OR push_bit 14 h3;
         w3 = drop_bit 18 h3 OR push_bit 8 h4;
         f = wide w0 + wide (word_at key 16);
         t0 = low f;
         f = wide w1 + wide (word_at key 20) + drop_bit 32 f;
         t1 = low f;
         f = wide w2 + wide (word_at key 24) + drop_bit 32 f;
         t2 = low f;
         f = wide w3 + wide (word_at key 28) + drop_bit 32 f;
         t3 = low f
     in le_bytes 4 t0 @ le_bytes 4 t1 @ le_bytes 4 t2 @ le_bytes 4 t3)"

definition poly1305 :: "bytes \<Rightarrow> bytes \<Rightarrow> bytes" where
  "poly1305 key message =
     poly_tag key (poly_reduced (poly_carried
       (foldl (\<lambda>h chunk. poly_narrow (poly_products (poly_key key) (poly_add h chunk))) (0, 0, 0, 0, 0) (chunks 16 message))))"

section \<open>The AEAD\<close>

definition poly1305_key :: "bytes \<Rightarrow> bytes \<Rightarrow> bytes" where
  "poly1305_key key nonce = take 32 (chacha20_block key 0 nonce)"

definition mac_data :: "bytes \<Rightarrow> bytes \<Rightarrow> bytes" where
  "mac_data associated ciphertext =
     (let pad = (\<lambda>n. (16 - n mod 16) mod 16)
      in associated @ replicate (pad (length associated)) 0
         @ ciphertext @ replicate (pad (length ciphertext)) 0
         @ le_bytes 8 (of_nat (length associated) :: 64 word)
         @ le_bytes 8 (of_nat (length ciphertext) :: 64 word))"

definition chacha_seal :: "bytes \<Rightarrow> bytes \<Rightarrow> bytes \<Rightarrow> bytes \<Rightarrow> bytes" where
  "chacha_seal key nonce associated plaintext =
     (let one_time = poly1305_key key nonce;
          out = chacha20_xor key 1 nonce plaintext
      in out @ poly1305 one_time (mac_data associated out))"

datatype chacha_error = ChachaTooShort | ChachaForged

definition chacha_open :: "bytes \<Rightarrow> bytes \<Rightarrow> bytes \<Rightarrow> bytes \<Rightarrow> chacha_error + bytes" where
  "chacha_open key nonce associated sealed =
     (if length sealed < 16 then Inl ChachaTooShort
      else
        let ciphertext = take (length sealed - 16) sealed;
            tag = drop (length sealed - 16) sealed;
            one_time = poly1305_key key nonce;
            expected = poly1305 one_time (mac_data associated ciphertext)
        in if \<not> equal_bytes expected tag then Inl ChachaForged
           else Inr (chacha20_xor key 1 nonce ciphertext))"

end
