(* ===== verification/ChachaProps.thy ===== *)
theory ChachaProps
  imports Chacha
begin

lemma length_poly1305 [simp]: "length (poly1305 key m) = 16"
  by (simp add: poly1305_def poly_tag_def Let_def split: prod.splits)

lemma chacha_chunks_back:
  "map (\<lambda>(i, chunk). xor_bytes chunk (f i)) (enumerate n (map (\<lambda>(i, chunk). xor_bytes chunk (f i)) (enumerate n cs))) = cs
   \<and> map length (map (\<lambda>(i, chunk). xor_bytes chunk (f i)) (enumerate n cs)) = map length cs"
  by (induction cs arbitrary: n) auto

lemma chacha20_xor_back [simp]: "chacha20_xor key c nonce (chacha20_xor key c nonce data) = data"
proof -
  let ?f = "\<lambda>i. chacha20_block key (c + of_nat i) nonce"
  note b = chacha_chunks_back [of ?f 0 "chunks 64 data"]
  have "chunks 64 (chacha20_xor key c nonce data)
      = map (\<lambda>(i, chunk). xor_bytes chunk (?f i)) (enumerate 0 (chunks 64 data))"
    unfolding chacha20_xor_def using b by (intro chunks_concat_lengths [of 64 _ data]) auto
  then show ?thesis using b unfolding chacha20_xor_def [of key c nonce "chacha20_xor key c nonce data"] by simp
qed

lemma chacha_open_parts:
  "length t = 16 \<Longrightarrow> chacha_open key n a (c @ t) =
     (if t = poly1305 (poly1305_key key n) (mac_data a c) then Inr (chacha20_xor key 1 n c) else Inl ChachaForged)"
  by (auto simp: chacha_open_def Let_def)

theorem chacha_exact: "chacha_open key n a s = Inr p \<longleftrightarrow> chacha_seal key n a p = s"
proof (cases "length s < 16")
  case True
  then show ?thesis by (auto simp: chacha_open_def chacha_seal_def Let_def)
next
  case False
  define c t where "c = take (length s - 16) s" and "t = drop (length s - 16) s"
  have s: "s = c @ t" "length t = 16" using False by (simp_all add: c_def t_def)
  show ?thesis
    unfolding s(1) chacha_open_parts [OF s(2)] chacha_seal_def Let_def using s(2) by auto
qed

end
