(* ===== verification/PolyLaws.thy ===== *)
theory PolyLaws
  imports ChachaProps
begin

text \<open>
  Poly1305's limbs as one number. \<open>poly_value\<close> reads the five limbs in base \<open>2^26\<close>; each step of the
  code's arithmetic is shown not to wrap within its bounds and to keep that number up to the prime
  \<open>2^130 - 5\<close>.
\<close>

section \<open>Words as numbers\<close>

lemma unat_add_fits: "unat a + unat b < 2 ^ LENGTH('a) \<Longrightarrow> unat (a + b) = unat a + unat (b :: 'a::len word)"
  by (simp add: unat_word_ariths)

lemma unat_drop: "unat (drop_bit n (w :: 'a::len word)) = unat w div 2 ^ n"
  by (simp only: unsigned_drop_bit_eq take_bit_nat_eq_self [OF unsigned_less] drop_bit_eq_div [where ?'a = nat])

lemma unat_mask26: "unat (w AND 0x03ffffff :: u32) = unat w mod 2 ^ 26"
proof -
  have "(0x03ffffff :: u32) = mask 26" by (simp add: mask_eq_exp_minus_1)
  then have "w AND 0x03ffffff = take_bit 26 w" by (simp only: take_bit_eq_mask)
  then have "unat (w AND 0x03ffffff) = take_bit 26 (unat w)" by (simp only: unsigned_take_bit_eq)
  then show ?thesis by (simp only: take_bit_nat_def)
qed

lemma unat_wide: "unat (wide w) = unat w"
proof -
  have "unat w < 2 ^ LENGTH(32)" by (rule unsigned_less)
  then have "unat w < 2 ^ 64" by simp
  then show ?thesis by (simp add: unsigned_ucast_eq take_bit_nat_eq_self)
qed

lemma unat_low: "unat (low w) = unat w mod 2 ^ 32"
  by (simp add: unsigned_ucast_eq take_bit_eq_mod)

lemma unat_low_fits: "unat w < 2 ^ 32 \<Longrightarrow> unat (low w) = unat w"
  by (simp add: unat_low)

definition poly_value :: "limbs \<Rightarrow> nat" where
  "poly_value = (\<lambda>(h0, h1, h2, h3, h4).
     unat h0 + 2 ^ 26 * unat h1 + 2 ^ 52 * unat h2 + 2 ^ 78 * unat h3 + 2 ^ 104 * unat h4)"

definition poly_prime :: nat where "poly_prime = 2 ^ 130 - 5"

section \<open>Narrowing\<close>

lemma unat_low_mask: "unat (low d AND 0x03ffffff) = unat d mod 2 ^ 26"
  unfolding unat_mask26 unat_low by (rule mod_mod_cancel) (simp add: le_imp_power_dvd)

lemma carried_sum:
  fixes d0 d1 d2 d3 d4 :: nat
  assumes "e1 = d1 + d0 div 2 ^ 26" "e2 = d2 + e1 div 2 ^ 26" "e3 = d3 + e2 div 2 ^ 26" "e4 = d4 + e3 div 2 ^ 26"
  shows "d0 + 2 ^ 26 * d1 + 2 ^ 52 * d2 + 2 ^ 78 * d3 + 2 ^ 104 * d4
     = d0 mod 2 ^ 26 + 2 ^ 26 * (e1 mod 2 ^ 26) + 2 ^ 52 * (e2 mod 2 ^ 26) + 2 ^ 78 * (e3 mod 2 ^ 26)
       + 2 ^ 104 * (e4 mod 2 ^ 26) + 2 ^ 130 * (e4 div 2 ^ 26)"
proof -
  obtain a0 r0 where 0: "d0 div 2 ^ 26 = a0" "d0 mod 2 ^ 26 = r0" "d0 = 2 ^ 26 * a0 + r0"
    by (metis mult_div_mod_eq)
  obtain a1 r1 where 1: "e1 div 2 ^ 26 = a1" "e1 mod 2 ^ 26 = r1" "e1 = 2 ^ 26 * a1 + r1"
    by (metis mult_div_mod_eq)
  obtain a2 r2 where 2: "e2 div 2 ^ 26 = a2" "e2 mod 2 ^ 26 = r2" "e2 = 2 ^ 26 * a2 + r2"
    by (metis mult_div_mod_eq)
  obtain a3 r3 where 3: "e3 div 2 ^ 26 = a3" "e3 mod 2 ^ 26 = r3" "e3 = 2 ^ 26 * a3 + r3"
    by (metis mult_div_mod_eq)
  obtain a4 r4 where 4: "e4 div 2 ^ 26 = a4" "e4 mod 2 ^ 26 = r4" "e4 = 2 ^ 26 * a4 + r4"
    by (metis mult_div_mod_eq)
  have "e1 = d1 + a0" "e2 = d2 + a1" "e3 = d3 + a2" "e4 = d4 + a3"
    using assms unfolding 0(1) 1(1) 2(1) 3(1) by simp_all
  then show ?thesis
    unfolding 0(2) 1(1,2) 2(1,2) 3(1,2) 4(1,2) using 0(3) 1(3) 2(3) 3(3) 4(3) by simp
qed

lemma narrowed:
  assumes "unat d0 < 2 ^ 60" "unat d1 < 2 ^ 60" "unat d2 < 2 ^ 60" "unat d3 < 2 ^ 60" "unat d4 < 25 * 2 ^ 51"
  shows "\<exists>k0 k1 k2 k3 k4 c. poly_narrow (d0, d1, d2, d3, d4) = (k0, k1, k2, k3, k4)
     \<and> unat k0 < 2 ^ 26 \<and> unat k1 < 2 ^ 26 + 2 ^ 6 \<and> unat k2 < 2 ^ 26 \<and> unat k3 < 2 ^ 26 \<and> unat k4 < 2 ^ 26
     \<and> unat d0 + 2 ^ 26 * unat d1 + 2 ^ 52 * unat d2 + 2 ^ 78 * unat d3 + 2 ^ 104 * unat d4
        = poly_value (k0, k1, k2, k3, k4) + poly_prime * c"
proof -
  define e1 where "e1 = d1 + drop_bit 26 d0"
  define e2 where "e2 = d2 + drop_bit 26 e1"
  define e3 where "e3 = d3 + drop_bit 26 e2"
  define e4 where "e4 = d4 + drop_bit 26 e3"
  define m0 where "m0 = low d0 AND 0x03ffffff"
  define l0 where "l0 = m0 + low (drop_bit 26 e4) * 5"
  define k0 where "k0 = l0 AND 0x03ffffff"
  define m1 where "m1 = low e1 AND 0x03ffffff"
  define k1 where "k1 = m1 + drop_bit 26 l0"
  define k2 where "k2 = low e2 AND 0x03ffffff"
  define k3 where "k3 = low e3 AND 0x03ffffff"
  define k4 where "k4 = low e4 AND 0x03ffffff"
  have res: "poly_narrow (d0, d1, d2, d3, d4) = (k0, k1, k2, k3, k4)"
    by (simp only: poly_narrow_def prod.case Let_def k0_def k1_def k2_def k3_def k4_def l0_def m0_def m1_def
        e4_def e3_def e2_def e1_def)
  have c: "x div 2 ^ 26 < 2 ^ 35" if "x < 2 ^ 61" for x :: nat
    using that by (simp add: div_less_iff_less_mult)
  have e1: "unat e1 = unat d1 + unat d0 div 2 ^ 26" "unat e1 < 2 ^ 61"
    using assms(1,2) c [of "unat d0"] unfolding e1_def by (simp_all add: unat_add_fits unat_drop)
  have e2: "unat e2 = unat d2 + unat e1 div 2 ^ 26" "unat e2 < 2 ^ 61"
    using assms(3) e1(2) c [of "unat e1"] unfolding e2_def by (simp_all add: unat_add_fits unat_drop)
  have e3: "unat e3 = unat d3 + unat e2 div 2 ^ 26" "unat e3 < 2 ^ 61"
    using assms(4) e2(2) c [of "unat e2"] unfolding e3_def by (simp_all add: unat_add_fits unat_drop)
  have e4: "unat e4 = unat d4 + unat e3 div 2 ^ 26" "unat e4 < 25 * 2 ^ 51 + 2 ^ 35"
    using assms(5) e3(2) c [of "unat e3"] unfolding e4_def by (simp_all add: unat_add_fits unat_drop)
  define q where "q = unat e4 div 2 ^ 26"
  have q: "q \<le> 25 * 2 ^ 25 + 2 ^ 9" using e4(2) unfolding q_def by (simp add: less_mult_imp_div_less less_Suc_eq_le [symmetric])
  have m0: "unat m0 = unat d0 mod 2 ^ 26" unfolding m0_def by (rule unat_low_mask)
  have ml: "unat d0 mod 2 ^ 26 < 2 ^ 26" by simp
  have "unat (low (drop_bit 26 e4)) = q" using q unfolding q_def by (simp add: unat_low unat_drop)
  then have five: "unat (low (drop_bit 26 e4) * 5) = 5 * q" using q by (simp add: unat_word_ariths)
  have l0: "unat l0 = unat d0 mod 2 ^ 26 + 5 * q"
    unfolding l0_def using five m0 q ml by (subst unat_add_fits) (simp_all del: mod_less_divisor, linarith?)
  have l0d: "unat l0 div 2 ^ 26 < 2 ^ 6"
    using l0 q ml by (intro less_mult_imp_div_less) (simp del: mod_less_divisor)
  have k0: "unat k0 = unat l0 mod 2 ^ 26" unfolding k0_def by (rule unat_mask26)
  have m1: "unat m1 = unat e1 mod 2 ^ 26" "unat m1 < 2 ^ 26"
    unfolding m1_def unat_low_mask by simp_all
  have k1: "unat k1 = unat e1 mod 2 ^ 26 + unat l0 div 2 ^ 26"
    unfolding k1_def using m1 l0d by (subst unat_add_fits) (simp_all add: unat_drop)
  have k234: "unat k2 = unat e2 mod 2 ^ 26" "unat k3 = unat e3 mod 2 ^ 26" "unat k4 = unat e4 mod 2 ^ 26"
    unfolding k2_def k3_def k4_def unat_low_mask by simp_all
  have "unat d0 + 2 ^ 26 * unat d1 + 2 ^ 52 * unat d2 + 2 ^ 78 * unat d3 + 2 ^ 104 * unat d4
        = poly_value (k0, k1, k2, k3, k4) + poly_prime * q"
    using carried_sum [OF e1(1) e2(1) e3(1) e4(1)] l0 mult_div_mod_eq [of "2 ^ 26" "unat l0"]
    unfolding poly_value_def prod.case k0 k1 k234 poly_prime_def q_def [symmetric]
    by (simp del: mult_div_mod_eq)
  moreover have "unat k1 < 2 ^ 26 + 2 ^ 6" using m1 k1 l0d by simp
  ultimately show ?thesis using res k0 k234 by (intro exI [of _ q] exI conjI) simp_all
qed

section \<open>The products\<close>

lemma unat_five_products:
  fixes a0 a1 a2 a3 a4 b0 b1 b2 b3 b4 :: "64 word"
  assumes "unat a0 * unat b0 + unat a1 * unat b1 + unat a2 * unat b2 + unat a3 * unat b3 + unat a4 * unat b4 < 2 ^ 64"
  shows "unat (a0 * b0 + a1 * b1 + a2 * b2 + a3 * b3 + a4 * b4)
     = unat a0 * unat b0 + unat a1 * unat b1 + unat a2 * unat b2 + unat a3 * unat b3 + unat a4 * unat b4"
proof -
  have "unat (a0 * b0 + a1 * b1 + a2 * b2 + a3 * b3 + a4 * b4)
     = (unat a0 * unat b0 + unat a1 * unat b1 + unat a2 * unat b2 + unat a3 * unat b3 + unat a4 * unat b4) mod 2 ^ LENGTH(64)"
    unfolding unat_word_ariths mod_simps by (rule refl)
  then show ?thesis using assms by simp
qed

lemma unat_five_bounded:
  fixes a0 a1 a2 a3 a4 b0 b1 b2 b3 b4 :: "64 word"
  assumes "unat a0 * unat b0 \<le> k" "unat a1 * unat b1 \<le> k" "unat a2 * unat b2 \<le> k" "unat a3 * unat b3 \<le> k"
    "unat a4 * unat b4 \<le> k" and "5 * k < b" and "b \<le> 2 ^ 64"
  shows "unat (a0 * b0 + a1 * b1 + a2 * b2 + a3 * b3 + a4 * b4)
       = unat a0 * unat b0 + unat a1 * unat b1 + unat a2 * unat b2 + unat a3 * unat b3 + unat a4 * unat b4
     \<and> unat (a0 * b0 + a1 * b1 + a2 * b2 + a3 * b3 + a4 * b4) < b"
proof -
  have "unat a0 * unat b0 + unat a1 * unat b1 + unat a2 * unat b2 + unat a3 * unat b3 + unat a4 * unat b4 < b"
    using assms(1-6) by linarith
  then show ?thesis using unat_five_products [of a0 b0 a1 b1 a2 b2 a3 b3 a4 b4] assms(7) by simp
qed

lemma unat_times_five: "unat r < 2 ^ 26 \<Longrightarrow> unat (r * 5 :: u32) = 5 * unat r"
  by (simp add: unat_word_ariths)

abbreviation "limb_product \<equiv> (2 ^ 27 + 2 ^ 7) * 2 ^ 26 :: nat"

lemma product_bound:
  "unat h < 2 ^ 27 + 2 ^ 7 \<Longrightarrow> unat r < 2 ^ 26 \<Longrightarrow> unat (wide h) * unat (wide r) \<le> limb_product"
  unfolding unat_wide by (intro mult_mono) simp_all

lemma product_bound_wide:
  "unat h < 2 ^ 27 + 2 ^ 7 \<Longrightarrow> unat r < 2 ^ 26 \<Longrightarrow> unat (wide h) * unat (wide r) \<le> 5 * limb_product"
  using product_bound [of h r] by simp

lemma product_bound_five:
  "unat h < 2 ^ 27 + 2 ^ 7 \<Longrightarrow> unat r < 2 ^ 26 \<Longrightarrow> unat (wide h) * unat (wide (r * 5)) \<le> 5 * limb_product"
  using product_bound [of h r] unfolding unat_wide unat_times_five by simp

lemma folded_products:
  fixes h0 h1 h2 h3 h4 r0 r1 r2 r3 r4 :: int
  shows "(h0 + 2 ^ 26 * h1 + 2 ^ 52 * h2 + 2 ^ 78 * h3 + 2 ^ 104 * h4)
       * (r0 + 2 ^ 26 * r1 + 2 ^ 52 * r2 + 2 ^ 78 * r3 + 2 ^ 104 * r4)
     = (h0 * r0 + h1 * (5 * r4) + h2 * (5 * r3) + h3 * (5 * r2) + h4 * (5 * r1))
       + 2 ^ 26 * (h0 * r1 + h1 * r0 + h2 * (5 * r4) + h3 * (5 * r3) + h4 * (5 * r2))
       + 2 ^ 52 * (h0 * r2 + h1 * r1 + h2 * r0 + h3 * (5 * r4) + h4 * (5 * r3))
       + 2 ^ 78 * (h0 * r3 + h1 * r2 + h2 * r1 + h3 * r0 + h4 * (5 * r4))
       + 2 ^ 104 * (h0 * r4 + h1 * r3 + h2 * r2 + h3 * r1 + h4 * r0)
       + (2 ^ 130 - 5) * ((h1 * r4 + h2 * r3 + h3 * r2 + h4 * r1) + 2 ^ 26 * (h2 * r4 + h3 * r3 + h4 * r2)
         + 2 ^ 52 * (h3 * r4 + h4 * r3) + 2 ^ 78 * (h4 * r4))"
  by (simp add: algebra_simps)

lemma folded_products_nat:
  fixes h0 h1 h2 h3 h4 r0 r1 r2 r3 r4 :: nat
  shows "(h0 + 2 ^ 26 * h1 + 2 ^ 52 * h2 + 2 ^ 78 * h3 + 2 ^ 104 * h4)
       * (r0 + 2 ^ 26 * r1 + 2 ^ 52 * r2 + 2 ^ 78 * r3 + 2 ^ 104 * r4)
     = (h0 * r0 + h1 * (5 * r4) + h2 * (5 * r3) + h3 * (5 * r2) + h4 * (5 * r1))
       + 2 ^ 26 * (h0 * r1 + h1 * r0 + h2 * (5 * r4) + h3 * (5 * r3) + h4 * (5 * r2))
       + 2 ^ 52 * (h0 * r2 + h1 * r1 + h2 * r0 + h3 * (5 * r4) + h4 * (5 * r3))
       + 2 ^ 78 * (h0 * r3 + h1 * r2 + h2 * r1 + h3 * r0 + h4 * (5 * r4))
       + 2 ^ 104 * (h0 * r4 + h1 * r3 + h2 * r2 + h3 * r1 + h4 * r0)
       + poly_prime * ((h1 * r4 + h2 * r3 + h3 * r2 + h4 * r1) + 2 ^ 26 * (h2 * r4 + h3 * r3 + h4 * r2)
         + 2 ^ 52 * (h3 * r4 + h4 * r3) + 2 ^ 78 * (h4 * r4))"
proof -
  have p: "int poly_prime = 2 ^ 130 - 5" by (simp add: poly_prime_def)
  show ?thesis
    by (rule of_nat_eq_iff [where 'a = int, THEN iffD1], unfold of_nat_add of_nat_mult of_nat_power of_nat_numeral p)
      (rule folded_products)
qed

definition limb_bounds :: "nat \<Rightarrow> limbs \<Rightarrow> bool" where
  "limb_bounds b = (\<lambda>(h0, h1, h2, h3, h4). unat h0 < b \<and> unat h1 < b \<and> unat h2 < b \<and> unat h3 < b \<and> unat h4 < b)"

lemma multiplied:
  assumes "limb_bounds (2 ^ 26) r" and "limb_bounds (2 ^ 27 + 2 ^ 7) h"
  shows "\<exists>k0 k1 k2 k3 k4 c. poly_narrow (poly_products r h) = (k0, k1, k2, k3, k4)
     \<and> unat k0 < 2 ^ 26 \<and> unat k1 < 2 ^ 26 + 2 ^ 6 \<and> unat k2 < 2 ^ 26 \<and> unat k3 < 2 ^ 26 \<and> unat k4 < 2 ^ 26
     \<and> poly_value h * poly_value r = poly_value (k0, k1, k2, k3, k4) + poly_prime * c"
proof -
  obtain r0 r1 r2 r3 r4 where r: "r = (r0, r1, r2, r3, r4)" by (cases r)
  obtain h0 h1 h2 h3 h4 where h: "h = (h0, h1, h2, h3, h4)" by (cases h)
  have rb: "unat r0 < 2 ^ 26" "unat r1 < 2 ^ 26" "unat r2 < 2 ^ 26" "unat r3 < 2 ^ 26" "unat r4 < 2 ^ 26"
    using assms(1) unfolding limb_bounds_def r by simp_all
  have hb: "unat h0 < 2 ^ 27 + 2 ^ 7" "unat h1 < 2 ^ 27 + 2 ^ 7" "unat h2 < 2 ^ 27 + 2 ^ 7"
      "unat h3 < 2 ^ 27 + 2 ^ 7" "unat h4 < 2 ^ 27 + 2 ^ 7"
    using assms(2) unfolding limb_bounds_def h prod.case by blast+
  obtain d0 d1 d2 d3 d4 where d: "poly_products r h = (d0, d1, d2, d3, d4)" by (cases "poly_products r h")
  note five = unat_times_five [OF rb(2)] unat_times_five [OF rb(3)] unat_times_five [OF rb(4)] unat_times_five [OF rb(5)]
  define H0 H1 H2 H3 H4 where H: "H0 = unat h0" "H1 = unat h1" "H2 = unat h2" "H3 = unat h3" "H4 = unat h4"
  define R0 R1 R2 R3 R4 where R: "R0 = unat r0" "R1 = unat r1" "R2 = unat r2" "R3 = unat r3" "R4 = unat r4"
  have ds: "d0 = wide h0 * wide r0 + wide h1 * wide (r4 * 5) + wide h2 * wide (r3 * 5) + wide h3 * wide (r2 * 5) + wide h4 * wide (r1 * 5)"
    "d1 = wide h0 * wide r1 + wide h1 * wide r0 + wide h2 * wide (r4 * 5) + wide h3 * wide (r3 * 5) + wide h4 * wide (r2 * 5)"
    "d2 = wide h0 * wide r2 + wide h1 * wide r1 + wide h2 * wide r0 + wide h3 * wide (r4 * 5) + wide h4 * wide (r3 * 5)"
    "d3 = wide h0 * wide r3 + wide h1 * wide r2 + wide h2 * wide r1 + wide h3 * wide r0 + wide h4 * wide (r4 * 5)"
    "d4 = wide h0 * wide r4 + wide h1 * wide r3 + wide h2 * wide r2 + wide h3 * wide r1 + wide h4 * wide r0"
    using d unfolding poly_products_def r h prod.case Let_def by simp_all
  have u: "unat d0 = H0 * R0 + H1 * (5 * R4) + H2 * (5 * R3) + H3 * (5 * R2) + H4 * (5 * R1) \<and> unat d0 < 2 ^ 60"
    "unat d1 = H0 * R1 + H1 * R0 + H2 * (5 * R4) + H3 * (5 * R3) + H4 * (5 * R2) \<and> unat d1 < 2 ^ 60"
    "unat d2 = H0 * R2 + H1 * R1 + H2 * R0 + H3 * (5 * R4) + H4 * (5 * R3) \<and> unat d2 < 2 ^ 60"
    "unat d3 = H0 * R3 + H1 * R2 + H2 * R1 + H3 * R0 + H4 * (5 * R4) \<and> unat d3 < 2 ^ 60"
    "unat d4 = H0 * R4 + H1 * R3 + H2 * R2 + H3 * R1 + H4 * R0 \<and> unat d4 < 25 * 2 ^ 51"
    using unat_five_bounded [OF product_bound_wide [OF hb(1) rb(1)] product_bound_five [OF hb(2) rb(5)]
        product_bound_five [OF hb(3) rb(4)] product_bound_five [OF hb(4) rb(3)] product_bound_five [OF hb(5) rb(2)], of "2 ^ 60"]
      unat_five_bounded [OF product_bound_wide [OF hb(1) rb(2)] product_bound_wide [OF hb(2) rb(1)]
        product_bound_five [OF hb(3) rb(5)] product_bound_five [OF hb(4) rb(4)] product_bound_five [OF hb(5) rb(3)], of "2 ^ 60"]
      unat_five_bounded [OF product_bound_wide [OF hb(1) rb(3)] product_bound_wide [OF hb(2) rb(2)]
        product_bound_wide [OF hb(3) rb(1)] product_bound_five [OF hb(4) rb(5)] product_bound_five [OF hb(5) rb(4)], of "2 ^ 60"]
      unat_five_bounded [OF product_bound_wide [OF hb(1) rb(4)] product_bound_wide [OF hb(2) rb(3)]
        product_bound_wide [OF hb(3) rb(2)] product_bound_wide [OF hb(4) rb(1)] product_bound_five [OF hb(5) rb(5)], of "2 ^ 60"]
      unat_five_bounded [OF product_bound [OF hb(1) rb(5)] product_bound [OF hb(2) rb(4)]
        product_bound [OF hb(3) rb(3)] product_bound [OF hb(4) rb(2)] product_bound [OF hb(5) rb(1)], of "25 * 2 ^ 51"]
    unfolding ds [symmetric] unat_wide five H [symmetric] R [symmetric] by simp_all
  show ?thesis
    using narrowed [OF conjunct2 [OF u(1)] conjunct2 [OF u(2)] conjunct2 [OF u(3)] conjunct2 [OF u(4)] conjunct2 [OF u(5)]]
  proof (elim exE conjE)
    fix k0 k1 k2 k3 k4 c
    let ?q = "(H1 * R4 + H2 * R3 + H3 * R2 + H4 * R1) + 2 ^ 26 * (H2 * R4 + H3 * R3 + H4 * R2)
         + 2 ^ 52 * (H3 * R4 + H4 * R3) + 2 ^ 78 * (H4 * R4)"
    assume n: "poly_narrow (d0, d1, d2, d3, d4) = (k0, k1, k2, k3, k4)"
      "unat k0 < 2 ^ 26" "unat k1 < 2 ^ 26 + 2 ^ 6" "unat k2 < 2 ^ 26" "unat k3 < 2 ^ 26" "unat k4 < 2 ^ 26"
      and v: "unat d0 + 2 ^ 26 * unat d1 + 2 ^ 52 * unat d2 + 2 ^ 78 * unat d3 + 2 ^ 104 * unat d4
        = poly_value (k0, k1, k2, k3, k4) + poly_prime * c"
    have "poly_value h * poly_value r
        = (unat d0 + 2 ^ 26 * unat d1 + 2 ^ 52 * unat d2 + 2 ^ 78 * unat d3 + 2 ^ 104 * unat d4) + poly_prime * ?q"
      unfolding conjunct1 [OF u(1)] conjunct1 [OF u(2)] conjunct1 [OF u(3)] conjunct1 [OF u(4)] conjunct1 [OF u(5)]
        h r poly_value_def prod.case H [symmetric] R [symmetric]
      by (rule folded_products_nat)
    then have "poly_value h * poly_value r = poly_value (k0, k1, k2, k3, k4) + poly_prime * (c + ?q)"
      unfolding v distrib_left [of poly_prime c] by (simp only: add.assoc)
    with n d show ?thesis by (intro exI conjI) simp_all
  qed
qed

end
