(* ===== verification/PolyBytes.thy ===== *)
theory PolyBytes
  imports PolyLaws
begin

text \<open>
  Bytes as a little-endian number, and the limbs Poly1305 cuts out of them: the overlapping 32-bit
  loads, shifts and masks of the code are the digits of that number in base \<open>2^26\<close>.
\<close>

section \<open>Little-endian numbers\<close>

primrec le_nat :: "bytes \<Rightarrow> nat" where
  "le_nat [] = 0"
| "le_nat (b # bs) = unat b + 256 * le_nat bs"

lemma le_nat_append: "le_nat (xs @ ys) = le_nat xs + 256 ^ length xs * le_nat ys"
  by (induction xs) (simp_all add: algebra_simps)

lemma byte_less: "unat (b :: byte) < 256"
  using unsigned_less [of b] by simp

lemma le_nat_less: "le_nat bs < 256 ^ length bs"
proof (induction bs)
  case (Cons b bs)
  have "unat b < 256" by (rule byte_less)
  moreover have "256 * le_nat bs + 256 \<le> 256 * 256 ^ length bs" using Cons.IH by simp
  ultimately show ?case by simp
qed simp

lemma le_nat_zeros: "le_nat (replicate n 0) = 0"
  by (induction n) auto

lemma le_nat_drop: "n \<le> length bs \<Longrightarrow> le_nat (drop n bs) = le_nat bs div 256 ^ n"
proof -
  assume "n \<le> length bs"
  then have "le_nat bs = le_nat (take n bs) + 256 ^ n * le_nat (drop n bs)"
    using le_nat_append [of "take n bs" "drop n bs"] by simp
  moreover have "le_nat (take n bs) < 256 ^ n" using le_nat_less [of "take n bs"] \<open>n \<le> length bs\<close> by simp
  ultimately show ?thesis by simp
qed

lemma le_nat_take: "n \<le> length bs \<Longrightarrow> le_nat (take n bs) = le_nat bs mod 256 ^ n"
proof -
  assume "n \<le> length bs"
  then have "le_nat bs = le_nat (take n bs) + 256 ^ n * le_nat (drop n bs)"
    using le_nat_append [of "take n bs" "drop n bs"] by simp
  moreover have "le_nat (take n bs) < 256 ^ n" using le_nat_less [of "take n bs"] \<open>n \<le> length bs\<close> by simp
  ultimately show ?thesis by simp
qed

lemma shifted_or_byte: "push_bit 8 w OR ucast (b :: byte) = (of_nat 256 * w + of_nat (unat b) :: 'a::len word)"
proof -
  have "push_bit 8 w AND (ucast b :: 'a word) = 0"
    by (rule bit_word_eqI) (auto simp: bit_simps dest: bit_imp_le_length)
  then have 1: "push_bit 8 w OR ucast b = push_bit 8 w + (ucast b :: 'a word)"
    by (simp only: disjunctive_add_eq_or)
  have 2: "push_bit 8 w = of_nat 256 * w" by (simp add: push_bit_eq_mult)
  have 3: "(ucast b :: 'a word) = of_nat (unat b)" by simp
  show ?thesis by (rule trans [OF 1]) (simp only: 2 3)
qed

lemma from_le_nat: "from_le bs = (of_nat (le_nat bs) :: 'a::len word)"
proof (induction bs)
  case (Cons b bs)
  have "(from_le (b # bs) :: 'a word) = push_bit 8 (from_le bs) OR ucast b"
    by (simp add: from_le_def from_be_def)
  then show ?case unfolding Cons.IH shifted_or_byte by (simp add: add.commute)
qed (simp add: from_le_def from_be_def)

lemma word_at_nat: "i + 4 \<le> length bs \<Longrightarrow> unat (word_at bs i) = le_nat bs div 2 ^ (8 * i) mod 2 ^ 32"
proof -
  assume i: "i + 4 \<le> length bs"
  have "unat (word_at bs i) = le_nat (take 4 (drop i bs)) mod 2 ^ 32"
    by (simp add: word_at_def from_le_nat unat_of_nat)
  also have "\<dots> = le_nat bs div 256 ^ i mod 256 ^ 4 mod 2 ^ 32"
    using i by (simp add: le_nat_take le_nat_drop)
  finally show ?thesis by (simp add: power_mult)
qed

section \<open>Limbs\<close>

lemma limb_of_word: "s + 26 \<le> 32 \<Longrightarrow> (n div 2 ^ a mod 2 ^ 32) div 2 ^ s mod 2 ^ 26 = n div 2 ^ (a + s) mod (2 ^ 26 :: nat)"
proof -
  assume "s + 26 \<le> 32"
  then have "min 26 (32 - s) = 26" by simp
  then have "take_bit 26 (drop_bit s (take_bit 32 (drop_bit a n))) = take_bit 26 (drop_bit (a + s) n)"
    by (simp only: drop_bit_take_bit take_bit_take_bit drop_bit_drop_bit add.commute)
  then show ?thesis by (simp only: take_bit_nat_def drop_bit_nat_def)
qed

lemma nested_limbs:
  "r0 + 2 ^ 26 * (r1 + 2 ^ 26 * (r2 + 2 ^ 26 * (r3 + 2 ^ 26 * d)))
     = r0 + 2 ^ 26 * r1 + 2 ^ 52 * r2 + 2 ^ 78 * r3 + 2 ^ 104 * (d :: nat)"
  by simp

lemma limbs_sum:
  "n = n mod 2 ^ 26 + 2 ^ 26 * (n div 2 ^ 26 mod 2 ^ 26) + 2 ^ 52 * (n div 2 ^ 52 mod 2 ^ 26)
     + 2 ^ 78 * (n div 2 ^ 78 mod 2 ^ 26) + 2 ^ 104 * (n div 2 ^ (104 :: nat) :: nat)"
proof -
  have s: "m = m mod 2 ^ 26 + 2 ^ 26 * (m div 2 ^ 26)" for m :: nat
    by (simp only: mod_mult_div_eq)
  obtain a b c d where v: "a = n div 2 ^ 26" "b = n div 2 ^ 52" "c = n div 2 ^ 78" "d = n div 2 ^ 104" by blast
  have q: "b = a div 2 ^ 26" "c = b div 2 ^ 26" "d = c div 2 ^ 26" unfolding v by (simp_all add: div_mult2_eq [symmetric])
  have "n = n mod 2 ^ 26 + 2 ^ 26 * a" "a = a mod 2 ^ 26 + 2 ^ 26 * b" "b = b mod 2 ^ 26 + 2 ^ 26 * c" "c = c mod 2 ^ 26 + 2 ^ 26 * d"
    unfolding q using s [of n] s [of a] s [of "a div 2 ^ 26"] s [of "a div 2 ^ 26 div 2 ^ 26"] v(1) by metis+
  then have "n = n mod 2 ^ 26 + 2 ^ 26 * (a mod 2 ^ 26 + 2 ^ 26 * (b mod 2 ^ 26 + 2 ^ 26 * (c mod 2 ^ 26 + 2 ^ 26 * d)))"
    by metis
  then show ?thesis unfolding nested_limbs v .
qed

section \<open>A block of the message\<close>

abbreviation poly_block :: "bytes \<Rightarrow> bytes" where
  "poly_block chunk \<equiv> (chunk @ drop (length chunk) (replicate 17 0))[length chunk := 1]"

lemma poly_block_nat:
  assumes "length chunk \<le> 16"
  shows "length (poly_block chunk) = 17" and "le_nat (poly_block chunk) = le_nat chunk + 256 ^ length chunk"
    and "le_nat (poly_block chunk) < 2 ^ 129"
proof -
  show "length (poly_block chunk) = 17" using assms by simp
  obtain k where k: "17 - length chunk = Suc k" using assms by (metis Suc_diff_le diff_Suc_Suc numeral_nat(3) Suc_numeral semiring_norm(5,8) )
  then have "poly_block chunk = chunk @ 1 # replicate k 0" by (simp add: list_update_append)
  then show v: "le_nat (poly_block chunk) = le_nat chunk + 256 ^ length chunk"
    by (simp add: le_nat_append le_nat_zeros)
  have "le_nat chunk < 256 ^ length chunk" by (rule le_nat_less)
  moreover have "(256 :: nat) ^ length chunk \<le> 256 ^ 16" using assms by (intro power_increasing) auto
  ultimately show "le_nat (poly_block chunk) < 2 ^ 129" unfolding v by simp
qed

end

