(* ===== verification/PolyProps.thy ===== *)
theory PolyProps
  imports PolyBytes
begin

text \<open>
  The code's Poly1305 is the one of RFC 8439: evaluate the message, cut into blocks of sixteen bytes
  with a one put after each, as a polynomial at the clamped key modulo \<open>2^130 - 5\<close>, and add the
  second half of the key modulo \<open>2^128\<close>.
\<close>

section \<open>Adding a block\<close>

lemma unat_top_limb:
  "unat (drop_bit 8 w OR push_bit 24 (ucast (b :: byte)) :: u32) = unat w div 2 ^ 8 + 2 ^ 24 * unat b" if "unat b \<le> 1"
proof -
  have "drop_bit 8 w AND push_bit 24 (ucast b) = (0 :: u32)"
    by (rule bit_word_eqI) (auto simp: bit_simps dest: bit_imp_le_length)
  then have e: "drop_bit 8 w OR push_bit 24 (ucast b) = drop_bit 8 w + push_bit 24 (ucast b :: u32)"
    by (simp only: disjunctive_add_eq_or)
  have p: "unat (push_bit 24 (ucast b :: u32)) = 2 ^ 24 * unat b"
  proof -
    have "push_bit 24 (ucast b :: u32) = of_nat (2 ^ 24 * unat b)" by (simp add: push_bit_eq_mult)
    then show ?thesis using that by (simp only: unat_of_nat) simp
  qed
  have d: "unat (drop_bit 8 w) = unat w div 2 ^ 8" by (rule unat_drop)
  have "unat w div 2 ^ 8 < 2 ^ 24"
    using unsigned_less [of w] by (intro less_mult_imp_div_less) simp
  then have "unat w div 2 ^ 8 + 2 ^ 24 * unat b < 2 ^ LENGTH(32)" using that by simp
  then show ?thesis unfolding e by (subst unat_add_fits) (simp_all only: p d)
qed

lemma block_limbs:
  assumes "length chunk \<le> 16"
  defines "n \<equiv> le_nat (poly_block chunk)"
  shows "unat (word_at (poly_block chunk) 0 AND 0x03ffffff) = n mod 2 ^ 26"
    and "unat (drop_bit 2 (word_at (poly_block chunk) 3) AND 0x03ffffff) = n div 2 ^ 26 mod 2 ^ 26"
    and "unat (drop_bit 4 (word_at (poly_block chunk) 6) AND 0x03ffffff) = n div 2 ^ 52 mod 2 ^ 26"
    and "unat (drop_bit 6 (word_at (poly_block chunk) 9) AND 0x03ffffff) = n div 2 ^ 78 mod 2 ^ 26"
    and "unat (drop_bit 8 (word_at (poly_block chunk) 12) OR push_bit 24 (ucast (poly_block chunk ! 16))) = n div 2 ^ 104"
proof -
  define B where "B = poly_block chunk"
  have l: "length B = 17" unfolding B_def by (rule poly_block_nat(1) [OF assms(1)])
  have n: "n < 2 ^ 129" "n = le_nat B" unfolding n_def B_def by (rule poly_block_nat(3) [OF assms(1)]) (rule refl)
  have w: "unat (word_at B i) = n div 2 ^ (8 * i) mod 2 ^ 32" if "i + 4 \<le> 17" for i
    using word_at_nat [of i B] that l n(2) by simp
  show "unat (word_at (poly_block chunk) 0 AND 0x03ffffff) = n mod 2 ^ 26"
    using limb_of_word [of 0 n 0] w [of 0] unfolding unat_mask26 B_def [symmetric] by simp
  show "unat (drop_bit 2 (word_at (poly_block chunk) 3) AND 0x03ffffff) = n div 2 ^ 26 mod 2 ^ 26"
    using limb_of_word [of 2 n 24] w [of 3] unfolding unat_mask26 unat_drop B_def [symmetric] by simp
  show "unat (drop_bit 4 (word_at (poly_block chunk) 6) AND 0x03ffffff) = n div 2 ^ 52 mod 2 ^ 26"
    using limb_of_word [of 4 n 48] w [of 6] unfolding unat_mask26 unat_drop B_def [symmetric] by simp
  show "unat (drop_bit 6 (word_at (poly_block chunk) 9) AND 0x03ffffff) = n div 2 ^ 78 mod 2 ^ 26"
    using limb_of_word [of 6 n 72] w [of 9] unfolding unat_mask26 unat_drop B_def [symmetric] by simp
  have "drop 16 B = [B ! 16]" using l by (simp add: Cons_nth_drop_Suc [symmetric])
  then have b: "unat (B ! 16) = n div 2 ^ 128" using le_nat_drop [of 16 B] l n(2) by simp
  then have "unat (B ! 16) \<le> 1" using n(1) less_mult_imp_div_less [of n 2 "2 ^ 128"] by simp
  then have "unat (drop_bit 8 (word_at B 12) OR push_bit 24 (ucast (B ! 16)))
      = n div 2 ^ 96 mod 2 ^ 32 div 2 ^ 8 + 2 ^ 24 * (n div 2 ^ 128)"
    using unat_top_limb [of "B ! 16" "word_at B 12"] w [of 12] b by simp
  also have "n div 2 ^ 96 mod 2 ^ 32 div 2 ^ 8 = n div 2 ^ 104 mod 2 ^ 24"
  proof -
    have "drop_bit 8 (take_bit 32 (drop_bit 96 n)) = take_bit 24 (drop_bit 104 n)"
      by (simp only: drop_bit_take_bit drop_bit_drop_bit) simp
    then show ?thesis by (simp only: take_bit_nat_def drop_bit_nat_def)
  qed
  also have "n div 2 ^ 104 mod 2 ^ 24 + 2 ^ 24 * (n div 2 ^ 128) = n div 2 ^ 104"
  proof -
    have "n div 2 ^ 128 = n div 2 ^ 104 div 2 ^ 24" by (simp add: div_mult2_eq [symmetric])
    then show ?thesis by (simp only: mod_mult_div_eq)
  qed
  finally show "unat (drop_bit 8 (word_at (poly_block chunk) 12) OR push_bit 24 (ucast (poly_block chunk ! 16))) = n div 2 ^ 104"
    unfolding B_def .
qed

definition carried_bounds :: "limbs \<Rightarrow> bool" where
  "carried_bounds = (\<lambda>(h0, h1, h2, h3, h4). unat h0 < 2 ^ 26 \<and> unat h1 < 2 ^ 26 + 2 ^ 6 \<and> unat h2 < 2 ^ 26
     \<and> unat h3 < 2 ^ 26 \<and> unat h4 < 2 ^ 26)"

lemma unat_add_small: "unat a < 2 ^ 27 \<Longrightarrow> unat b < 2 ^ 27 \<Longrightarrow> unat (a + b :: u32) = unat a + unat b"
  by (rule unat_add_fits) simp

lemma added:
  assumes "carried_bounds h" and "length chunk \<le> 16"
  shows "limb_bounds (2 ^ 27 + 2 ^ 7) (poly_add h chunk)
     \<and> poly_value (poly_add h chunk) = poly_value h + (le_nat chunk + 256 ^ length chunk)"
proof -
  obtain h0 h1 h2 h3 h4 where h: "h = (h0, h1, h2, h3, h4)" by (cases h)
  have hb: "unat h0 < 2 ^ 26" "unat h1 < 2 ^ 26 + 2 ^ 6" "unat h2 < 2 ^ 26" "unat h3 < 2 ^ 26" "unat h4 < 2 ^ 26"
    using assms(1) unfolding carried_bounds_def h prod.case by blast+
  define n where "n = le_nat (poly_block chunk)"
  note L = block_limbs [OF assms(2), folded n_def]
  have n: "n = le_nat chunk + 256 ^ length chunk" "n < 2 ^ 129"
    using poly_block_nat(2,3) [OF assms(2)] unfolding n_def by blast+
  have m: "n mod 2 ^ 26 < 2 ^ 26" "n div 2 ^ 26 mod 2 ^ 26 < 2 ^ 26" "n div 2 ^ 52 mod 2 ^ 26 < 2 ^ 26"
    "n div 2 ^ 78 mod 2 ^ 26 < 2 ^ 26" "n div 2 ^ 104 < 2 ^ 25"
    using n(2) less_mult_imp_div_less [of n "2 ^ 25" "2 ^ 104"] by simp_all
  obtain l0 l1 l2 l3 l4 where
    l: "word_at (poly_block chunk) 0 AND 0x03ffffff = l0" "drop_bit 2 (word_at (poly_block chunk) 3) AND 0x03ffffff = l1"
      "drop_bit 4 (word_at (poly_block chunk) 6) AND 0x03ffffff = l2" "drop_bit 6 (word_at (poly_block chunk) 9) AND 0x03ffffff = l3"
      "drop_bit 8 (word_at (poly_block chunk) 12) OR push_bit 24 (ucast (poly_block chunk ! 16)) = l4" by blast
  note u = L [unfolded l]
  have a: "poly_add h chunk = (h0 + l0, h1 + l1, h2 + l2, h3 + l3, h4 + l4)"
    unfolding poly_add_def h prod.case Let_def l by (rule refl)
  have lb: "unat l0 < 2 ^ 26" "unat l1 < 2 ^ 26" "unat l2 < 2 ^ 26" "unat l3 < 2 ^ 26" "unat l4 < 2 ^ 26"
    unfolding u by (fact m(1), fact m(2), fact m(3), fact m(4), rule less_trans [OF m(5)], simp)
  have s: "unat (h0 + l0) = unat h0 + unat l0" "unat (h1 + l1) = unat h1 + unat l1" "unat (h2 + l2) = unat h2 + unat l2"
    "unat (h3 + l3) = unat h3 + unat l3" "unat (h4 + l4) = unat h4 + unat l4"
    using hb lb by (simp_all add: unat_add_small)
  have "n = unat l0 + 2 ^ 26 * unat l1 + 2 ^ 52 * unat l2 + 2 ^ 78 * unat l3 + 2 ^ 104 * unat l4"
    unfolding u by (rule limbs_sum)
  then have "poly_value (poly_add h chunk) = poly_value h + n"
    unfolding a unfolding h poly_value_def prod.case s by (simp add: algebra_simps)
  moreover have "limb_bounds (2 ^ 27 + 2 ^ 7) (poly_add h chunk)"
    unfolding limb_bounds_def a prod.case s using hb lb by simp
  ultimately show ?thesis using n(1) by simp
qed

section \<open>The key\<close>

definition clamp :: nat where "clamp = 0x0ffffffc0ffffffc0ffffffc0fffffff"

lemma clamped_limb:
  fixes m :: u32
  assumes "i + 4 \<le> 16" "16 \<le> length key" "unat m < 2 ^ (32 - s)" "unat m = clamp div 2 ^ (8 * i + s) mod 2 ^ 26"
  shows "unat (drop_bit s (word_at key i) AND m) = (le_nat (take 16 key) AND clamp) div 2 ^ (8 * i + s) mod 2 ^ 26"
proof -
  let ?n = "le_nat (take 16 key)"
  have "word_at key i = word_at (take 16 key) i"
    using assms(1) by (simp add: word_at_def take_drop min_def)
  then have w: "unat (word_at key i) = take_bit 32 (drop_bit (8 * i) ?n)"
    using word_at_nat [of i "take 16 key"] assms(1,2) by (simp only: take_bit_nat_def drop_bit_nat_def) simp
  have "unat (drop_bit s (word_at key i) AND m)
      = drop_bit s (take_bit 32 (drop_bit (8 * i) ?n)) AND take_bit 26 (drop_bit (8 * i + s) clamp)"
    unfolding unsigned_and_eq unat_drop w assms(4) by (simp only: take_bit_nat_def drop_bit_nat_def)
  also have "\<dots> = take_bit 26 (drop_bit (8 * i + s) (?n AND clamp))"
  proof (rule bit_eqI)
    fix n
    have "take_bit (32 - s) (unat m) = unat m" using assms(3) by (rule take_bit_nat_eq_self)
    then have "n < 32 - s" if "bit (unat m) n" using that by (metis bit_take_bit_iff)
    moreover have "unat m = take_bit 26 (drop_bit (8 * i + s) clamp)"
      unfolding assms(4) by (simp only: take_bit_nat_def drop_bit_nat_def)
    ultimately have "n + s < 32" if "n < 26" "bit clamp (8 * i + s + n)"
      using that by (simp add: bit_simps less_diff_conv)
    then show "bit (drop_bit s (take_bit 32 (drop_bit (8 * i) ?n)) AND take_bit 26 (drop_bit (8 * i + s) clamp)) n
        = bit (take_bit 26 (drop_bit (8 * i + s) (?n AND clamp))) n"
      by (auto simp: bit_simps ac_simps)
  qed
  finally show ?thesis by (simp only: take_bit_nat_def drop_bit_nat_def)
qed

lemma clamp_limbs:
  "clamp mod 2 ^ 26 = 0x03ffffff" "clamp div 2 ^ 26 mod 2 ^ 26 = 0x03ffff03" "clamp div 2 ^ 52 mod 2 ^ 26 = 0x03ffc0ff"
  "clamp div 2 ^ 78 mod 2 ^ 26 = 0x03f03fff" "clamp div 2 ^ 104 mod 2 ^ 26 = 0x000fffff"
  by (simp_all add: clamp_def)

lemma keyed:
  assumes "16 \<le> length key"
  shows "limb_bounds (2 ^ 26) (poly_key key) \<and> poly_value (poly_key key) = le_nat (take 16 key) AND clamp"
proof -
  define r where "r = le_nat (take 16 key) AND clamp"
  have "unat (drop_bit 0 (word_at key 0) AND 0x03ffffff) = r div 2 ^ (8 * 0 + 0) mod 2 ^ 26"
    unfolding r_def by (rule clamped_limb) (simp_all add: assms clamp_def)
  then have u0: "unat (word_at key 0 AND 0x03ffffff) = r mod 2 ^ 26" by simp
  have "unat (drop_bit 2 (word_at key 3) AND 0x03ffff03) = r div 2 ^ (8 * 3 + 2) mod 2 ^ 26"
    unfolding r_def by (rule clamped_limb) (simp_all add: assms clamp_def)
  then have u1: "unat (drop_bit 2 (word_at key 3) AND 0x03ffff03) = r div 2 ^ 26 mod 2 ^ 26" by simp
  have "unat (drop_bit 4 (word_at key 6) AND 0x03ffc0ff) = r div 2 ^ (8 * 6 + 4) mod 2 ^ 26"
    unfolding r_def by (rule clamped_limb) (simp_all add: assms clamp_def)
  then have u2: "unat (drop_bit 4 (word_at key 6) AND 0x03ffc0ff) = r div 2 ^ 52 mod 2 ^ 26" by simp
  have "unat (drop_bit 6 (word_at key 9) AND 0x03f03fff) = r div 2 ^ (8 * 9 + 6) mod 2 ^ 26"
    unfolding r_def by (rule clamped_limb) (simp_all add: assms clamp_def)
  then have u3: "unat (drop_bit 6 (word_at key 9) AND 0x03f03fff) = r div 2 ^ 78 mod 2 ^ 26" by simp
  have "unat (drop_bit 8 (word_at key 12) AND 0x000fffff) = r div 2 ^ (8 * 12 + 8) mod 2 ^ 26"
    unfolding r_def by (rule clamped_limb) (simp_all add: assms clamp_def)
  then have u4: "unat (drop_bit 8 (word_at key 12) AND 0x000fffff) = r div 2 ^ 104 mod 2 ^ 26" by simp
  note u = u0 u1 u2 u3 u4
  have "r \<le> clamp" unfolding r_def by (simp add: and_nat_def nat_le_iff AND_upper2)
  then have "r div 2 ^ 104 < 2 ^ 20"
    unfolding clamp_def by (intro less_mult_imp_div_less) simp
  then have t: "r div 2 ^ 104 mod 2 ^ 26 = r div 2 ^ 104" by simp
  have "poly_value (poly_key key) = r"
    unfolding poly_key_def poly_value_def prod.case u t by (rule limbs_sum [symmetric])
  moreover have "limb_bounds (2 ^ 26) (poly_key key)"
    unfolding poly_key_def limb_bounds_def prod.case u by simp
  ultimately show ?thesis by (simp add: r_def)
qed

section \<open>The last carries\<close>

lemma cascade:
  fixes h0 h1 h2 h3 h4 :: nat
  assumes b: "h0 < 2 ^ 26" "h1 < 2 ^ 26 + 2 ^ 6" "h2 < 2 ^ 26" "h3 < 2 ^ 26" "h4 < 2 ^ 26"
    and s: "s2 = h2 + h1 div 2 ^ 26" "s3 = h3 + s2 div 2 ^ 26" "s4 = h4 + s3 div 2 ^ 26" "s0 = h0 + 5 * (s4 div 2 ^ 26)"
  shows "h1 div 2 ^ 26 \<le> 1 \<and> s2 div 2 ^ 26 \<le> 1 \<and> s3 div 2 ^ 26 \<le> 1 \<and> s4 div 2 ^ 26 \<le> 1 \<and> s0 div 2 ^ 26 \<le> 1
     \<and> h1 mod 2 ^ 26 + s0 div 2 ^ 26 < 2 ^ 26"
proof -
  have le: "x div 2 ^ 26 \<le> 1" if "x < 2 * 2 ^ 26" for x :: nat
    using less_mult_imp_div_less [OF that] by simp
  have l: "h1 div 2 ^ 26 \<le> 1" using b(2) by (intro le) simp
  have l2: "s2 div 2 ^ 26 \<le> 1" using b(3) l s(1) by (intro le) simp
  have l3: "s3 div 2 ^ 26 \<le> 1" using b(4) l2 s(2) by (intro le) simp
  have l4: "s4 div 2 ^ 26 \<le> 1" using b(5) l3 s(3) by (intro le) simp
  have l0: "s0 div 2 ^ 26 \<le> 1" using b(1) l4 s(4) by (intro le) simp
  have none: "x div 2 ^ 26 = 0" if "x < 2 ^ 26" for x :: nat using that by (rule div_less)
  show ?thesis
  proof (cases "h1 < 2 ^ 26")
    case True
    then have "s2 div 2 ^ 26 = 0" using none [of h1] b(3) s(1) by (intro none) simp
    then have "s3 div 2 ^ 26 = 0" using b(4) s(2) by (intro none) simp
    then have "s4 div 2 ^ 26 = 0" using b(5) s(3) by (intro none) simp
    then have "s0 div 2 ^ 26 = 0" using b(1) s(4) by (intro none) simp
    then show ?thesis using l l2 l3 l4 l0 True by simp
  next
    case False
    then have "h1 mod 2 ^ 26 < 2 ^ 6" using b(2) by (simp add: le_mod_geq)
    then show ?thesis using l l2 l3 l4 l0 by simp
  qed
qed

lemma carried:
  assumes "carried_bounds h"
  shows "limb_bounds (2 ^ 26) (poly_carried h) \<and> (\<exists>c. poly_value h = poly_value (poly_carried h) + poly_prime * c)"
proof -
  obtain h0 h1 h2 h3 h4 where h: "h = (h0, h1, h2, h3, h4)" by (cases h)
  have hb: "unat h0 < 2 ^ 26" "unat h1 < 2 ^ 26 + 2 ^ 6" "unat h2 < 2 ^ 26" "unat h3 < 2 ^ 26" "unat h4 < 2 ^ 26"
    using assms unfolding carried_bounds_def h prod.case by blast+
  define s2 where "s2 = unat h2 + unat h1 div 2 ^ 26"
  define s3 where "s3 = unat h3 + s2 div 2 ^ 26"
  define s4 where "s4 = unat h4 + s3 div 2 ^ 26"
  define s0 where "s0 = unat h0 + 5 * (s4 div 2 ^ 26)"
  note c = cascade [OF hb s2_def s3_def s4_def s0_def]
  define w2 where "w2 = h2 + drop_bit 26 h1"
  define w3 where "w3 = h3 + drop_bit 26 w2"
  define w4 where "w4 = h4 + drop_bit 26 w3"
  define w0 where "w0 = h0 + drop_bit 26 w4 * 5"
  define w1 where "w1 = (h1 AND 0x03ffffff) + drop_bit 26 w0"
  have p: "poly_carried h = (w0 AND 0x03ffffff, w1, w2 AND 0x03ffffff, w3 AND 0x03ffffff, w4 AND 0x03ffffff)"
    unfolding poly_carried_def h prod.case Let_def w0_def w1_def w2_def w3_def w4_def by (rule refl)
  have u2: "unat w2 = s2" unfolding w2_def s2_def using c hb
    by (subst unat_add_small) (simp_all add: unat_drop)
  have u3: "unat w3 = s3" unfolding w3_def s3_def using c hb u2
    by (subst unat_add_small) (simp_all add: unat_drop)
  have u4: "unat w4 = s4" unfolding w4_def s4_def using c hb u3
    by (subst unat_add_small) (simp_all add: unat_drop)
  have five: "unat (drop_bit 26 w4 * 5) = 5 * (s4 div 2 ^ 26)"
    using c u4 by (subst unat_times_five) (simp_all add: unat_drop)
  have u0: "unat w0 = s0" unfolding w0_def s0_def using c hb five
    by (subst unat_add_small) simp_all
  have u1: "unat w1 = unat h1 mod 2 ^ 26 + s0 div 2 ^ 26"
    unfolding w1_def using c u0 by (subst unat_add_small) (simp_all add: unat_drop unat_mask26)
  have "limb_bounds (2 ^ 26) (poly_carried h)"
    unfolding p limb_bounds_def prod.case unat_mask26 u1 using c by simp
  moreover have "poly_value h = poly_value (poly_carried h) + poly_prime * (s4 div 2 ^ 26)"
  proof -
    have "unat h1 = unat h1 + 0 div 2 ^ 26" by simp
    note sum = carried_sum [OF this s2_def s3_def s4_def]
    have "s0 = s0 mod 2 ^ 26 + 2 ^ 26 * (s0 div 2 ^ 26)" by (simp only: mod_mult_div_eq)
    then have "unat h0 + 5 * (s4 div 2 ^ 26) = s0 mod 2 ^ 26 + 2 ^ 26 * (s0 div 2 ^ 26)" by (simp only: s0_def)
    with sum show ?thesis
      unfolding p unfolding h poly_value_def prod.case unat_mask26 u0 u1 u2 u3 u4 poly_prime_def by simp
  qed
  ultimately show ?thesis by blast
qed

end
