(* ===== verification/PolyTag.thy ===== *)
theory PolyTag
  imports PolyProps
begin

text \<open>
  The end of Poly1305: the choice between the value and the value less the prime, made with a mask,
  and the addition of the second half of the key in four 32-bit steps.
\<close>

section \<open>Full reduction\<close>

lemma poly_value_less:
  assumes "limb_bounds (2 ^ 26) h"
  shows "poly_value h < 2 ^ 130"
  using assms by (cases h) (simp add: limb_bounds_def poly_value_def)

lemma chosen:
  "(h AND NOT (0 :: u32)) OR (g AND 0) = h" "(h AND NOT (- 1 :: u32)) OR (g AND - 1) = g"
  by simp_all

lemma sign_mask:
  fixes s :: u32
  assumes "unat s < 2 ^ 27"
  shows "drop_bit 31 (s - push_bit 26 1) - 1 = (if unat s < 2 ^ 26 then 0 else - 1)
     \<and> (2 ^ 26 \<le> unat s \<longrightarrow> unat (s - push_bit 26 1) = unat s - 2 ^ 26)"
proof (cases "unat s < 2 ^ 26")
  case True
  then have "s < 2 ^ 26" by (simp add: word_less_nat_alt)
  then have "unat (s - push_bit 26 1) = 2 ^ 32 + unat s - 2 ^ 26"
    by (simp add: unat_sub_if' word_le_nat_alt word_less_nat_alt)
  then have "unat (drop_bit 31 (s - push_bit 26 1)) = 1"
    using True unfolding unat_drop by simp
  then have "drop_bit 31 (s - push_bit 26 1) = 1" by (metis unsigned_1 word_unat_eq_iff)
  with True show ?thesis by simp
next
  case False
  then have u: "unat (s - push_bit 26 1) = unat s - 2 ^ 26"
    by (simp add: unat_sub_if' word_le_nat_alt)
  then have "unat (drop_bit 31 (s - push_bit 26 1)) = 0"
    using assms unfolding unat_drop by simp
  then have "drop_bit 31 (s - push_bit 26 1) = 0" by (metis unsigned_0 word_unat_eq_iff)
  with False u show ?thesis by simp
qed

lemma reduced:
  assumes "limb_bounds (2 ^ 26) h"
  shows "limb_bounds (2 ^ 26) (poly_reduced h) \<and> poly_value (poly_reduced h) = poly_value h mod poly_prime"
proof -
  obtain h0 h1 h2 h3 h4 where h: "h = (h0, h1, h2, h3, h4)" by (cases h)
  have hb: "unat h0 < 2 ^ 26" "unat h1 < 2 ^ 26" "unat h2 < 2 ^ 26" "unat h3 < 2 ^ 26" "unat h4 < 2 ^ 26"
    using assms unfolding limb_bounds_def h prod.case by blast+
  define g0 where "g0 = h0 + 5"
  define g1 where "g1 = h1 + drop_bit 26 g0"
  define g2 where "g2 = h2 + drop_bit 26 g1"
  define g3 where "g3 = h3 + drop_bit 26 g2"
  define g4 where "g4 = h4 + drop_bit 26 g3"
  have le: "unat x div 2 ^ 26 \<le> 1" if "unat x < 2 * 2 ^ 26" for x :: u32
    using less_mult_imp_div_less [OF that] by simp
  have u0: "unat g0 = unat h0 + 5" using hb unfolding g0_def by (subst unat_add_small) simp_all
  have c0: "unat g0 div 2 ^ 26 \<le> 1" using hb(1) u0 by (intro le) simp
  have u1: "unat g1 = unat h1 + unat g0 div 2 ^ 26"
    unfolding g1_def using hb(2) c0 by (subst unat_add_small) (simp_all add: unat_drop)
  have c1: "unat g1 div 2 ^ 26 \<le> 1" using hb(2) u1 c0 by (intro le) simp
  have u2: "unat g2 = unat h2 + unat g1 div 2 ^ 26"
    unfolding g2_def using hb(3) c1 by (subst unat_add_small) (simp_all add: unat_drop)
  have c2: "unat g2 div 2 ^ 26 \<le> 1" using hb(3) u2 c1 by (intro le) simp
  have u3: "unat g3 = unat h3 + unat g2 div 2 ^ 26"
    unfolding g3_def using hb(4) c2 by (subst unat_add_small) (simp_all add: unat_drop)
  have c3: "unat g3 div 2 ^ 26 \<le> 1" using hb(4) u3 c2 by (intro le) simp
  have u4: "unat g4 = unat h4 + unat g3 div 2 ^ 26" "unat g4 < 2 ^ 27"
    unfolding g4_def using hb(5) c3 by ((subst unat_add_small, simp_all add: unat_drop)[1])+
  define mask where "mask = drop_bit 31 (g4 - push_bit 26 1) - 1"
  have m: "mask = (if unat g4 < 2 ^ 26 then 0 else - 1)" "2 ^ 26 \<le> unat g4 \<Longrightarrow> unat (g4 - push_bit 26 1) = unat g4 - 2 ^ 26"
    using sign_mask [OF u4(2)] unfolding mask_def by blast+
  have p: "poly_reduced h = ((h0 AND NOT mask) OR ((g0 AND 0x03ffffff) AND mask), (h1 AND NOT mask) OR ((g1 AND 0x03ffffff) AND mask),
      (h2 AND NOT mask) OR ((g2 AND 0x03ffffff) AND mask), (h3 AND NOT mask) OR ((g3 AND 0x03ffffff) AND mask),
      (h4 AND NOT mask) OR ((g4 - push_bit 26 1) AND mask))"
    unfolding poly_reduced_def h prod.case Let_def g0_def g1_def g2_def g3_def g4_def mask_def by (rule refl)
  have v: "poly_value h < 2 ^ 130" by (rule poly_value_less [OF assms])
  have sum: "poly_value h + 5 = unat g0 mod 2 ^ 26 + 2 ^ 26 * (unat g1 mod 2 ^ 26) + 2 ^ 52 * (unat g2 mod 2 ^ 26)
      + 2 ^ 78 * (unat g3 mod 2 ^ 26) + 2 ^ 104 * unat g4"
  proof -
    have "poly_value h + 5 = unat g0 + 2 ^ 26 * unat h1 + 2 ^ 52 * unat h2 + 2 ^ 78 * unat h3 + 2 ^ 104 * unat h4"
      unfolding u0 h poly_value_def prod.case by simp
    also have "\<dots> = unat g0 mod 2 ^ 26 + 2 ^ 26 * (unat g1 mod 2 ^ 26) + 2 ^ 52 * (unat g2 mod 2 ^ 26)
      + 2 ^ 78 * (unat g3 mod 2 ^ 26) + 2 ^ 104 * (unat g4 mod 2 ^ 26) + 2 ^ 130 * (unat g4 div 2 ^ 26)"
      by (rule carried_sum [OF u1 u2 u3 u4(1)])
    finally have f: "poly_value h + 5 = unat g0 mod 2 ^ 26 + 2 ^ 26 * (unat g1 mod 2 ^ 26) + 2 ^ 52 * (unat g2 mod 2 ^ 26)
      + 2 ^ 78 * (unat g3 mod 2 ^ 26) + 2 ^ 104 * (unat g4 mod 2 ^ 26) + 2 ^ 130 * (unat g4 div 2 ^ 26)" .
    have "(2 :: nat) ^ 130 = 2 ^ 104 * 2 ^ 26" by simp
    then have t: "2 ^ 104 * (unat g4 mod 2 ^ 26) + 2 ^ 130 * (unat g4 div 2 ^ 26) = 2 ^ 104 * unat g4"
      by (simp only: mult.assoc distrib_left [symmetric] mod_mult_div_eq)
    show ?thesis unfolding f by (simp only: add.assoc t)
  qed
  show ?thesis
  proof (cases "unat g4 < 2 ^ 26")
    case True
    have "poly_reduced h = h" unfolding p m(1) if_P [OF True] chosen unfolding h by (rule refl)
    moreover have "poly_value h + 5 < 2 ^ 130"
    proof -
      have "unat g0 mod 2 ^ 26 < 2 ^ 26" "unat g1 mod 2 ^ 26 < 2 ^ 26" "unat g2 mod 2 ^ 26 < 2 ^ 26" "unat g3 mod 2 ^ 26 < 2 ^ 26"
        by simp_all
      then show ?thesis unfolding sum using True by simp
    qed
    ultimately show ?thesis using assms by (simp add: poly_prime_def)
  next
    case False
    have r: "poly_reduced h = (g0 AND 0x03ffffff, g1 AND 0x03ffffff, g2 AND 0x03ffffff, g3 AND 0x03ffffff, g4 - push_bit 26 1)"
      unfolding p m(1) if_not_P [OF False] chosen by (rule refl)
    have t: "unat (g4 - push_bit 26 1) = unat g4 - 2 ^ 26" using m(2) False by simp
    have pv: "poly_value (poly_reduced h) + 2 ^ 130 = poly_value h + 5"
      unfolding sum unfolding r poly_value_def prod.case unat_mask26 t using False by simp
    then have e: "poly_value (poly_reduced h) = poly_value h - poly_prime" "poly_prime \<le> poly_value h"
      by (simp_all add: poly_prime_def)
    then have "poly_value h mod poly_prime = poly_value (poly_reduced h)"
      using v by (simp add: le_mod_geq poly_prime_def)
    moreover have "limb_bounds (2 ^ 26) (poly_reduced h)"
      unfolding limb_bounds_def r prod.case unat_mask26 t using u4(2) by simp
    ultimately show ?thesis by simp
  qed
qed

section \<open>The tag\<close>

lemma le_nat_le_bytes: "le_nat (le_bytes 4 (t :: u32)) = unat t"
proof -
  have b: "unat (ucast (drop_bit n t) :: byte) = unat t div 2 ^ n mod 256" for n
    by (simp add: unsigned_ucast_eq unat_drop take_bit_eq_mod [where n = 8, simplified])
  have l: "unat t < 2 ^ 32" using unsigned_less [of t] by simp
  have e: "le_bytes 4 t = [ucast (drop_bit 0 t), ucast (drop_bit 8 t), ucast (drop_bit 16 t), ucast (drop_bit 24 t)]"
    by (simp add: le_bytes_def upt_rec)
  have d: "m = m mod 256 + 256 * (m div 256)" for m :: nat by (simp only: mod_mult_div_eq)
  have "unat t div 2 ^ 24 < 256" using l by (intro less_mult_imp_div_less) simp
  then have top: "unat t div 2 ^ 24 mod 256 = unat t div 2 ^ 24" by simp
  have "unat t = unat t mod 256 + 256 * (unat t div 2 ^ 8 mod 256 + 256 * (unat t div 2 ^ 16 mod 256 + 256 * (unat t div 2 ^ 24)))"
    using d [of "unat t"] d [of "unat t div 2 ^ 8"] d [of "unat t div 2 ^ 16"]
    by (simp add: div_mult2_eq [symmetric] del: mod_mult_div_eq)
  then show ?thesis unfolding e le_nat.simps b top by simp
qed

lemma joined_limbs:
  fixes a b :: u32
  assumes "unat a < 2 ^ k" and "k \<le> 32"
  shows "unat (a OR push_bit k b) = (unat a + 2 ^ k * unat b) mod 2 ^ 32"
proof -
  have "take_bit k (unat a) = unat a" by (rule take_bit_nat_eq_self [OF assms(1)])
  then have "take_bit k a = a" by (metis unsigned_take_bit_eq word_unat_eq_iff)
  then have lt: "bit a n \<Longrightarrow> n < k" for n by (metis bit_take_bit_iff)
  have "a AND push_bit k b = 0" by (intro bit_word_eqI) (auto simp: bit_simps dest: lt)
  then have "a OR push_bit k b = a + push_bit k b" by (simp only: disjunctive_add_eq_or)
  also have "\<dots> = of_nat (unat a + 2 ^ k * unat b)" by (simp add: push_bit_eq_mult)
  finally show ?thesis by (simp only: unat_of_nat) simp
qed

lemma four_sums:
  fixes w0 w1 w2 w3 s0 s1 s2 s3 :: nat
  assumes "f1 = w1 + s1 + (w0 + s0) div 2 ^ 32" "f2 = w2 + s2 + f1 div 2 ^ 32" "f3 = w3 + s3 + f2 div 2 ^ 32"
  shows "(w0 + s0) mod 2 ^ 32 + 2 ^ 32 * (f1 mod 2 ^ 32) + 2 ^ 64 * (f2 mod 2 ^ 32) + 2 ^ 96 * (f3 mod 2 ^ 32)
     = ((w0 + 2 ^ 32 * w1 + 2 ^ 64 * w2 + 2 ^ 96 * w3) + (s0 + 2 ^ 32 * s1 + 2 ^ 64 * s2 + 2 ^ 96 * s3)) mod 2 ^ 128"
proof -
  obtain a0 r0 where 0: "(w0 + s0) div 2 ^ 32 = a0" "(w0 + s0) mod 2 ^ 32 = r0" "w0 + s0 = 2 ^ 32 * a0 + r0" "r0 < 2 ^ 32"
    by (metis mult_div_mod_eq mod_less_divisor zero_less_power zero_less_numeral)
  obtain a1 r1 where 1: "f1 div 2 ^ 32 = a1" "f1 mod 2 ^ 32 = r1" "f1 = 2 ^ 32 * a1 + r1" "r1 < 2 ^ 32"
    by (metis mult_div_mod_eq mod_less_divisor zero_less_power zero_less_numeral)
  obtain a2 r2 where 2: "f2 div 2 ^ 32 = a2" "f2 mod 2 ^ 32 = r2" "f2 = 2 ^ 32 * a2 + r2" "r2 < 2 ^ 32"
    by (metis mult_div_mod_eq mod_less_divisor zero_less_power zero_less_numeral)
  obtain a3 r3 where 3: "f3 div 2 ^ 32 = a3" "f3 mod 2 ^ 32 = r3" "f3 = 2 ^ 32 * a3 + r3" "r3 < 2 ^ 32"
    by (metis mult_div_mod_eq mod_less_divisor zero_less_power zero_less_numeral)
  have "f1 = w1 + s1 + a0" "f2 = w2 + s2 + a1" "f3 = w3 + s3 + a2"
    using assms unfolding 0(1) 1(1) 2(1) by simp_all
  then have "(w0 + 2 ^ 32 * w1 + 2 ^ 64 * w2 + 2 ^ 96 * w3) + (s0 + 2 ^ 32 * s1 + 2 ^ 64 * s2 + 2 ^ 96 * s3)
      = r0 + 2 ^ 32 * r1 + 2 ^ 64 * r2 + 2 ^ 96 * r3 + 2 ^ 128 * a3"
    using 0(3) 1(3) 2(3) 3(3) by simp
  moreover have "r0 + 2 ^ 32 * r1 + 2 ^ 64 * r2 + 2 ^ 96 * r3 < 2 ^ 128"
    using 0(4) 1(4) 2(4) 3(4) by simp
  ultimately show ?thesis unfolding 0(2) 1(2) 2(2) 3(2) by simp
qed

lemma nested_words:
  "2 ^ 32 * (2 ^ 32 * (2 ^ 32 * r3 + r2) + r1) + r0 = r0 + 2 ^ 32 * r1 + 2 ^ 64 * r2 + 2 ^ 96 * (r3 :: nat)"
  by simp

lemma words_sum:
  "v mod 2 ^ 128 = v mod 2 ^ 32 + 2 ^ 32 * (v div 2 ^ 32 mod 2 ^ 32) + 2 ^ 64 * (v div 2 ^ 64 mod 2 ^ 32)
      + 2 ^ 96 * (v div 2 ^ 96 mod 2 ^ (32 :: nat) :: nat)"
proof -
  have p: "(2 :: nat) ^ 128 = 2 ^ 32 * 2 ^ 96" "(2 :: nat) ^ 96 = 2 ^ 32 * 2 ^ 64" "(2 :: nat) ^ 64 = 2 ^ 32 * 2 ^ 32" by simp_all
  have d: "v div 2 ^ 32 div 2 ^ 32 = v div 2 ^ 64" "v div 2 ^ 64 div 2 ^ 32 = v div 2 ^ 96"
    by (simp_all only: div_mult2_eq [symmetric] power_add [symmetric]) simp_all
  have 1: "v mod 2 ^ 128 = 2 ^ 32 * (v div 2 ^ 32 mod 2 ^ 96) + v mod 2 ^ 32"
    unfolding p(1) by (rule mod_mult2_eq)
  have 2: "v div 2 ^ 32 mod 2 ^ 96 = 2 ^ 32 * (v div 2 ^ 64 mod 2 ^ 64) + v div 2 ^ 32 mod 2 ^ 32"
    unfolding p(2) by (subst mod_mult2_eq) (simp only: d)
  have 3: "v div 2 ^ 64 mod 2 ^ 64 = 2 ^ 32 * (v div 2 ^ 96 mod 2 ^ 32) + v div 2 ^ 64 mod 2 ^ 32"
    by (subst (2) p(3), subst mod_mult2_eq) (simp only: d)
  show ?thesis unfolding 1 2 3 by (simp only: nested_words)
qed

lemma value_words:
  fixes v0 v1 v2 v3 v4 :: nat
  assumes "v0 < 2 ^ 26" "v1 < 2 ^ 26" "v2 < 2 ^ 26" "v3 < 2 ^ 26"
  defines "v \<equiv> v0 + 2 ^ 26 * v1 + 2 ^ 52 * v2 + 2 ^ 78 * v3 + 2 ^ 104 * v4"
  shows "v mod 2 ^ 128 = (v0 + 2 ^ 26 * v1) mod 2 ^ 32 + 2 ^ 32 * ((v1 div 2 ^ 6 + 2 ^ 20 * v2) mod 2 ^ 32)
    + 2 ^ 64 * ((v2 div 2 ^ 12 + 2 ^ 14 * v3) mod 2 ^ 32) + 2 ^ 96 * ((v3 div 2 ^ 18 + 2 ^ 8 * v4) mod 2 ^ 32)"
proof -
  have d: "(a + 2 ^ 26 * b) div 2 ^ 26 = b" if "a < 2 ^ 26" for a b :: nat using that by simp
  have 1: "v div 2 ^ 26 = v1 + 2 ^ 26 * (v2 + 2 ^ 26 * (v3 + 2 ^ 26 * v4))"
    using d [OF assms(1), of "v1 + 2 ^ 26 * (v2 + 2 ^ 26 * (v3 + 2 ^ 26 * v4))"] unfolding v_def
    by (simp add: algebra_simps)
  have 2: "v div 2 ^ 52 = v2 + 2 ^ 26 * (v3 + 2 ^ 26 * v4)"
    using d [OF assms(2), of "v2 + 2 ^ 26 * (v3 + 2 ^ 26 * v4)"] 1 div_mult2_eq [of v "2 ^ 26" "2 ^ 26"] by simp
  have 3: "v div 2 ^ 78 = v3 + 2 ^ 26 * v4"
    using d [OF assms(3), of "v3 + 2 ^ 26 * v4"] 2 div_mult2_eq [of v "2 ^ 52" "2 ^ 26"] by simp
  have w0: "v mod 2 ^ 32 = (v0 + 2 ^ 26 * v1) mod 2 ^ 32"
  proof -
    have "v = (v0 + 2 ^ 26 * v1) + 2 ^ 32 * (2 ^ 20 * v2 + 2 ^ 46 * v3 + 2 ^ 72 * v4)" unfolding v_def by simp
    then show ?thesis by (metis mod_mult_self2)
  qed
  have w1: "v div 2 ^ 32 mod 2 ^ 32 = (v1 div 2 ^ 6 + 2 ^ 20 * v2) mod 2 ^ 32"
  proof -
    have "v div 2 ^ 32 = (v1 + 2 ^ 6 * (2 ^ 20 * v2 + 2 ^ 46 * v3 + 2 ^ 72 * v4)) div 2 ^ 6"
      using div_mult2_eq [of v "2 ^ 26" "2 ^ 6"] 1 by (simp add: algebra_simps)
    also have "\<dots> = (v1 div 2 ^ 6 + 2 ^ 20 * v2) + 2 ^ 32 * (2 ^ 14 * v3 + 2 ^ 40 * v4)"
      by (subst div_mult_self2) simp_all
    finally show ?thesis by (metis mod_mult_self2)
  qed
  have w2: "v div 2 ^ 64 mod 2 ^ 32 = (v2 div 2 ^ 12 + 2 ^ 14 * v3) mod 2 ^ 32"
  proof -
    have "v div 2 ^ 64 = (v2 + 2 ^ 12 * (2 ^ 14 * v3 + 2 ^ 40 * v4)) div 2 ^ 12"
      using div_mult2_eq [of v "2 ^ 52" "2 ^ 12"] 2 by (simp add: algebra_simps)
    also have "\<dots> = (v2 div 2 ^ 12 + 2 ^ 14 * v3) + 2 ^ 32 * (2 ^ 8 * v4)"
      by (subst div_mult_self2) simp_all
    finally show ?thesis by (metis mod_mult_self2)
  qed
  have w3: "v div 2 ^ 96 mod 2 ^ 32 = (v3 div 2 ^ 18 + 2 ^ 8 * v4) mod 2 ^ 32"
  proof -
    have "v div 2 ^ 96 = (v3 + 2 ^ 18 * (2 ^ 8 * v4)) div 2 ^ 18"
      using div_mult2_eq [of v "2 ^ 78" "2 ^ 18"] 3 by (simp add: algebra_simps)
    also have "\<dots> = v3 div 2 ^ 18 + 2 ^ 8 * v4" by (subst div_mult_self2) simp_all
    finally show ?thesis by simp
  qed
  show ?thesis using words_sum [of v] unfolding w0 w1 w2 w3 .
qed

lemma tagged:
  assumes "limb_bounds (2 ^ 26) h" and "length key = 32"
  shows "le_nat (poly_tag key h) = (poly_value h + le_nat (drop 16 key)) mod 2 ^ 128"
proof -
  obtain h0 h1 h2 h3 h4 where h: "h = (h0, h1, h2, h3, h4)" by (cases h)
  have hb: "unat h0 < 2 ^ 26" "unat h1 < 2 ^ 26" "unat h2 < 2 ^ 26" "unat h3 < 2 ^ 26" "unat h4 < 2 ^ 26"
    using assms(1) unfolding limb_bounds_def h prod.case by blast+
  define w0 w1 w2 w3 where w: "w0 = h0 OR push_bit 26 h1" "w1 = drop_bit 6 h1 OR push_bit 20 h2"
    "w2 = drop_bit 12 h2 OR push_bit 14 h3" "w3 = drop_bit 18 h3 OR push_bit 8 h4"
  have dl: "unat (drop_bit a x) < 2 ^ (26 - a)" if "unat x < 2 ^ 26" "a \<le> 26" for x :: u32 and a
    unfolding unat_drop using that by (intro less_mult_imp_div_less) (simp add: power_add [symmetric])
  have l: "unat (drop_bit 6 h1) < 2 ^ 20" "unat (drop_bit 12 h2) < 2 ^ 14" "unat (drop_bit 18 h3) < 2 ^ 8"
    using dl [OF hb(2), of 6] dl [OF hb(3), of 12] dl [OF hb(4), of 18] by simp_all
  have uw: "unat w0 = (unat h0 + 2 ^ 26 * unat h1) mod 2 ^ 32"
    "unat w1 = (unat h1 div 2 ^ 6 + 2 ^ 20 * unat h2) mod 2 ^ 32"
    "unat w2 = (unat h2 div 2 ^ 12 + 2 ^ 14 * unat h3) mod 2 ^ 32"
    "unat w3 = (unat h3 div 2 ^ 18 + 2 ^ 8 * unat h4) mod 2 ^ 32"
    unfolding w using joined_limbs [OF hb(1), of h1] joined_limbs [OF l(1), of h2] joined_limbs [OF l(2), of h3]
      joined_limbs [OF l(3), of h4] by (simp_all only: unat_drop)
  define s where "s = le_nat (drop 16 key)"
  have "le_nat (drop 16 key) < 256 ^ 16" using le_nat_less [of "drop 16 key"] assms(2) by simp
  then have sl: "s mod 2 ^ 128 = s" unfolding s_def by simp
  have at: "word_at key (16 + i) = word_at (drop 16 key) i" for i by (simp add: word_at_def add.commute)
  have word: "unat (word_at key (16 + i)) = s div 2 ^ (8 * i) mod 2 ^ 32" if "i + 4 \<le> 16" for i
    unfolding at s_def by (rule word_at_nat) (use that assms(2) in simp)
  have us0: "unat (word_at key 16) = s mod 2 ^ 32" using word [of 0] by simp
  have us1: "unat (word_at key 20) = s div 2 ^ 32 mod 2 ^ 32" using word [of 4] by simp
  have us2: "unat (word_at key 24) = s div 2 ^ 64 mod 2 ^ 32" using word [of 8] by simp
  have us3: "unat (word_at key 28) = s div 2 ^ 96 mod 2 ^ 32" using word [of 12] by simp
  define f0 f1 f2 f3 where f: "f0 = wide w0 + wide (word_at key 16)" "f1 = wide w1 + wide (word_at key 20) + drop_bit 32 f0"
    "f2 = wide w2 + wide (word_at key 24) + drop_bit 32 f1" "f3 = wide w3 + wide (word_at key 28) + drop_bit 32 f2"
  have small: "unat x < 2 ^ 32" for x :: u32 using unsigned_less [of x] by simp
  have fit: "unat (wide x + wide y + drop_bit 32 f) = unat x + unat y + unat f div 2 ^ 32" for x y f
  proof -
    have "unat f div 2 ^ 32 < 2 ^ 32" using unsigned_less [of f] by (intro less_mult_imp_div_less) simp
    then show ?thesis using small [of x] small [of y]
      by (subst unat_add_fits; (subst unat_add_fits)?) (simp_all add: unat_wide unat_drop)
  qed
  have uf: "unat f0 = unat w0 + unat (word_at key 16)" "unat f1 = unat w1 + unat (word_at key 20) + unat f0 div 2 ^ 32"
    "unat f2 = unat w2 + unat (word_at key 24) + unat f1 div 2 ^ 32" "unat f3 = unat w3 + unat (word_at key 28) + unat f2 div 2 ^ 32"
    using fit [of w0 "word_at key 16" 0] fit unfolding f by simp_all
  have "poly_tag key h = le_bytes 4 (low f0) @ le_bytes 4 (low f1) @ le_bytes 4 (low f2) @ le_bytes 4 (low f3)"
    unfolding poly_tag_def h prod.case Let_def f w by (rule refl)
  then have "le_nat (poly_tag key h) = unat f0 mod 2 ^ 32 + 2 ^ 32 * (unat f1 mod 2 ^ 32) + 2 ^ 64 * (unat f2 mod 2 ^ 32)
      + 2 ^ 96 * (unat f3 mod 2 ^ 32)"
    by (simp add: le_nat_append le_nat_le_bytes unat_low)
  also have "\<dots> = ((unat w0 + 2 ^ 32 * unat w1 + 2 ^ 64 * unat w2 + 2 ^ 96 * unat w3)
      + (unat (word_at key 16) + 2 ^ 32 * unat (word_at key 20) + 2 ^ 64 * unat (word_at key 24) + 2 ^ 96 * unat (word_at key 28))) mod 2 ^ 128"
    using four_sums [OF uf(2) [unfolded uf(1)] uf(3) uf(4)] unfolding uf(1) .
  also have "unat (word_at key 16) + 2 ^ 32 * unat (word_at key 20) + 2 ^ 64 * unat (word_at key 24) + 2 ^ 96 * unat (word_at key 28) = s"
    unfolding us0 us1 us2 us3 words_sum [of s, symmetric] by (rule sl)
  also have "unat w0 + 2 ^ 32 * unat w1 + 2 ^ 64 * unat w2 + 2 ^ 96 * unat w3 = poly_value h mod 2 ^ 128"
    unfolding uw h poly_value_def prod.case by (rule value_words [OF hb(1-4), symmetric])
  finally show ?thesis unfolding s_def by (simp only: mod_add_left_eq)
qed

section \<open>RFC 8439\<close>

text \<open>The message as RFC 8439 section 2.5 evaluates it.\<close>

definition rfc_poly1305 :: "bytes \<Rightarrow> bytes \<Rightarrow> nat" where
  "rfc_poly1305 key message =
     (foldl (\<lambda>acc chunk. (acc + (le_nat chunk + 256 ^ length chunk)) * (le_nat (take 16 key) AND clamp) mod poly_prime)
        0 (chunks 16 message) + le_nat (drop 16 key)) mod 2 ^ 128"

lemma mod_first: "(a + b) * r mod p = (a mod p + b) * r mod (p :: nat)"
  by (metis mod_mult_left_eq mod_add_left_eq)

lemma poly_step:
  assumes "carried_bounds h" "16 \<le> length key" "length chunk \<le> 16"
  shows "carried_bounds (poly_narrow (poly_products (poly_key key) (poly_add h chunk)))
    \<and> poly_value (poly_narrow (poly_products (poly_key key) (poly_add h chunk))) mod poly_prime
      = (poly_value h mod poly_prime + (le_nat chunk + 256 ^ length chunk)) * (le_nat (take 16 key) AND clamp) mod poly_prime"
proof -
  note a = added [OF assms(1,3)] and k = keyed [OF assms(2)]
  obtain k0 k1 k2 k3 k4 c where n: "poly_narrow (poly_products (poly_key key) (poly_add h chunk)) = (k0, k1, k2, k3, k4)"
    "unat k0 < 2 ^ 26" "unat k1 < 2 ^ 26 + 2 ^ 6" "unat k2 < 2 ^ 26" "unat k3 < 2 ^ 26" "unat k4 < 2 ^ 26"
    "poly_value (poly_add h chunk) * poly_value (poly_key key) = poly_value (k0, k1, k2, k3, k4) + poly_prime * c"
    using multiplied [OF conjunct1 [OF k] conjunct1 [OF a]] by blast
  have "poly_value (k0, k1, k2, k3, k4) mod poly_prime = poly_value (poly_add h chunk) * poly_value (poly_key key) mod poly_prime"
    unfolding n(7) by simp
  also have "\<dots> = (poly_value h mod poly_prime + (le_nat chunk + 256 ^ length chunk)) * (le_nat (take 16 key) AND clamp) mod poly_prime"
    unfolding conjunct2 [OF a] conjunct2 [OF k] by (rule mod_first)
  finally show ?thesis unfolding n(1) carried_bounds_def prod.case using n(2-6) by blast
qed

lemma poly_steps:
  assumes "16 \<le> length key" "carried_bounds h" "poly_value h mod poly_prime = acc" "\<forall>c \<in> set cs. length c \<le> 16"
  shows "carried_bounds (foldl (\<lambda>h chunk. poly_narrow (poly_products (poly_key key) (poly_add h chunk))) h cs)
    \<and> poly_value (foldl (\<lambda>h chunk. poly_narrow (poly_products (poly_key key) (poly_add h chunk))) h cs) mod poly_prime
      = foldl (\<lambda>acc chunk. (acc + (le_nat chunk + 256 ^ length chunk)) * (le_nat (take 16 key) AND clamp) mod poly_prime) acc cs"
  using assms(2-4)
proof (induction cs arbitrary: h acc)
  case (Cons c cs)
  have "length c \<le> 16" using Cons.prems(3) by simp
  note s = poly_step [OF Cons.prems(1) assms(1) this]
  have "\<forall>c \<in> set cs. length c \<le> 16" using Cons.prems(3) by simp
  from Cons.IH [OF conjunct1 [OF s] conjunct2 [OF s] this] show ?case
    unfolding foldl.simps Cons.prems(2) .
qed simp

text \<open>C28: Poly1305 computed on five 26-bit limbs is RFC 8439's: for every 32-byte key and every message the
  tag is 16 bytes and, read as a little-endian number, the polynomial of the message at the clamped key
  modulo \<open>2^130 - 5\<close>, plus the key's second half, modulo \<open>2^128\<close>; no limb or product overflows.\<close>

theorem poly1305_correct:
  assumes "length key = 32"
  shows "length (poly1305 key message) = 16 \<and> le_nat (poly1305 key message) = rfc_poly1305 key message"
proof -
  let ?h = "foldl (\<lambda>h chunk. poly_narrow (poly_products (poly_key key) (poly_add h chunk))) (0, 0, 0, 0, 0) (chunks 16 message)"
  have c: "\<forall>c \<in> set (chunks 16 message). length c \<le> 16" using chunks_map_length [of 16 message] by simp
  have h: "carried_bounds ?h" "poly_value ?h mod poly_prime
      = foldl (\<lambda>acc chunk. (acc + (le_nat chunk + 256 ^ length chunk)) * (le_nat (take 16 key) AND clamp) mod poly_prime) 0 (chunks 16 message)"
    using poly_steps [of key "(0, 0, 0, 0, 0)" 0 "chunks 16 message"] assms c by (simp_all add: carried_bounds_def poly_value_def)
  obtain q where q: "limb_bounds (2 ^ 26) (poly_carried ?h)" "poly_value ?h = poly_value (poly_carried ?h) + poly_prime * q"
    using carried [OF h(1)] by blast
  have "poly_value (poly_carried ?h) mod poly_prime = poly_value ?h mod poly_prime" unfolding q(2) by simp
  then have "le_nat (poly1305 key message) = rfc_poly1305 key message"
    unfolding poly1305_def tagged [OF conjunct1 [OF reduced [OF q(1)]] assms] conjunct2 [OF reduced [OF q(1)]] rfc_poly1305_def
    by (simp only: h(2))
  then show ?thesis by simp
qed

theorem poly1305_correct_witness:
  "length (poly1305 (replicate 32 255) [1, 2, 3]) = 16
     \<and> le_nat (poly1305 (replicate 32 255) [1, 2, 3]) = rfc_poly1305 (replicate 32 255) [1, 2, 3]"
  using poly1305_correct [of "replicate 32 255" "[1, 2, 3]"] by simp

end
