(* ===== verification/Sha.thy ===== *)
theory Sha
  imports Bytes
begin

text \<open>
  SHA-1, SHA-256, SHA-384 and SHA-512 (FIPS 180-4), \<open>crates/crypto/src/sha.rs\<close>. The macro
  \<open>buffered!\<close> is \<open>hasher\<close> and \<open>absorb\<close>, over the block length and the compression
  function it is instantiated at; the trait \<open>Digest\<close> is the record \<open>digest\<close> of its constants and methods.
\<close>

section \<open>Buffering\<close>

record ('w, 'l) hasher =
  hash_state :: "'w list"
  buffer :: bytes
  filled :: nat
  hash_length :: 'l

function absorb_blocks :: "nat \<Rightarrow> ('w list \<Rightarrow> bytes \<Rightarrow> 'w list) \<Rightarrow> 'w list \<Rightarrow> bytes \<Rightarrow> 'w list \<times> bytes" where
  "absorb_blocks n compress state data =
     (if 0 < n \<and> n \<le> length data then absorb_blocks n compress (compress state (take n data)) (drop n data)
      else (state, data))"
  by pat_completeness auto

termination
  by (relation "measure (\<lambda>(n, compress, state, data). length data)") auto

declare absorb_blocks.simps [simp del]

definition absorb ::
  "nat \<Rightarrow> ('w list \<Rightarrow> bytes \<Rightarrow> 'w list) \<Rightarrow> ('w, 'l::len word) hasher \<Rightarrow> bytes \<Rightarrow> ('w, 'l word) hasher" where
  "absorb n compress h data =
     (let h = h\<lparr>hash_length := hash_length h + of_nat (length data)\<rparr>;
          taken = min (n - filled h) (length data);
          h1 = (if filled h > 0
                then h\<lparr>buffer := take (filled h) (buffer h) @ take taken data @ drop (filled h + taken) (buffer h),
                       filled := filled h + taken\<rparr>
                else h);
          data1 = (if filled h > 0 then drop taken data else data)
      in if filled h > 0 \<and> filled h1 < n then h1
         else
           let h2 = (if filled h > 0
                     then h1\<lparr>hash_state := compress (hash_state h1) (buffer h1), filled := 0\<rparr> else h1);
               (state, rest) = absorb_blocks n compress (hash_state h2) data1
           in h2\<lparr>hash_state := state, buffer := rest @ drop (length rest) (buffer h2), filled := length rest\<rparr>)"

section \<open>SHA-1\<close>

definition words32 :: "bytes \<Rightarrow> 32 word list" where
  "words32 block = map (\<lambda>i. from_be [block ! (4 * i), block ! (4 * i + 1), block ! (4 * i + 2), block ! (4 * i + 3)]) [0..<16]"

definition sha1_schedule :: "bytes \<Rightarrow> 32 word list" where
  "sha1_schedule block =
     foldl (\<lambda>w i. w @ [word_rotl 1 (w ! (i - 3) XOR w ! (i - 8) XOR w ! (i - 14) XOR w ! (i - 16))])
       (words32 block) [16..<80]"

type_synonym five = "32 word \<times> 32 word \<times> 32 word \<times> 32 word \<times> 32 word"

definition sha1_round :: "32 word list \<Rightarrow> five \<Rightarrow> nat \<Rightarrow> five" where
  "sha1_round w = (\<lambda>(a, b, c, d, e) i.
     let (f, k) = (if i \<le> 19 then ((b AND c) OR (NOT b AND d), 0x5a827999)
                   else if i \<le> 39 then (b XOR c XOR d, 0x6ed9eba1)
                   else if i \<le> 59 then ((b AND c) OR (b AND d) OR (c AND d), 0x8f1bbcdc)
                   else (b XOR c XOR d, 0xca62c1d6));
         t = word_rotl 5 a + f + e + k + w ! i
     in (t, a, word_rotl 30 b, c, d))"

definition sha1_compress :: "32 word list \<Rightarrow> bytes \<Rightarrow> 32 word list" where
  "sha1_compress state block =
     (let w = sha1_schedule block;
          (a, b, c, d, e) = foldl (sha1_round w) (state ! 0, state ! 1, state ! 2, state ! 3, state ! 4) [0..<80]
      in map2 (+) state [a, b, c, d, e])"

section \<open>SHA-256\<close>

text \<open>The round constants of \<open>sha.rs\<close>, which writes them in hexadecimal, here in decimal.\<close>

definition k256 :: "32 word list" where
  "k256 =
     [1116352408, 1899447441, 3049323471, 3921009573, 961987163, 1508970993, 2453635748, 2870763221,
      3624381080, 310598401, 607225278, 1426881987, 1925078388, 2162078206, 2614888103, 3248222580,
      3835390401, 4022224774, 264347078, 604807628, 770255983, 1249150122, 1555081692, 1996064986,
      2554220882, 2821834349, 2952996808, 3210313671, 3336571891, 3584528711, 113926993, 338241895,
      666307205, 773529912, 1294757372, 1396182291, 1695183700, 1986661051, 2177026350, 2456956037,
      2730485921, 2820302411, 3259730800, 3345764771, 3516065817, 3600352804, 4094571909, 275423344,
      430227734, 506948616, 659060556, 883997877, 958139571, 1322822218, 1537002063, 1747873779,
      1955562222, 2024104815, 2227730452, 2361852424, 2428436474, 2756734187, 3204031479, 3329325298]"

definition sha256_schedule :: "bytes \<Rightarrow> 32 word list" where
  "sha256_schedule block =
     foldl (\<lambda>w i.
       let s0 = word_rotr 7 (w ! (i - 15)) XOR word_rotr 18 (w ! (i - 15)) XOR drop_bit 3 (w ! (i - 15));
           s1 = word_rotr 17 (w ! (i - 2)) XOR word_rotr 19 (w ! (i - 2)) XOR drop_bit 10 (w ! (i - 2))
       in w @ [w ! (i - 16) + s0 + w ! (i - 7) + s1])
       (words32 block) [16..<64]"

type_synonym 'w eight = "'w \<times> 'w \<times> 'w \<times> 'w \<times> 'w \<times> 'w \<times> 'w \<times> 'w"

definition sha256_round :: "32 word list \<Rightarrow> 32 word eight \<Rightarrow> nat \<Rightarrow> 32 word eight" where
  "sha256_round w = (\<lambda>(a, b, c, d, e, f, g, h) i.
     let s1 = word_rotr 6 e XOR word_rotr 11 e XOR word_rotr 25 e;
         ch = (e AND f) XOR (NOT e AND g);
         t1 = h + s1 + ch + k256 ! i + w ! i;
         s0 = word_rotr 2 a XOR word_rotr 13 a XOR word_rotr 22 a;
         maj = (a AND b) XOR (a AND c) XOR (b AND c);
         t2 = s0 + maj
     in (t1 + t2, a, b, c, d + t1, e, f, g))"

definition sha256_compress :: "32 word list \<Rightarrow> bytes \<Rightarrow> 32 word list" where
  "sha256_compress state block =
     (let w = sha256_schedule block;
          (a, b, c, d, e, f, g, h) =
            foldl (sha256_round w)
              (state ! 0, state ! 1, state ! 2, state ! 3, state ! 4, state ! 5, state ! 6, state ! 7) [0..<64]
      in map2 (+) state [a, b, c, d, e, f, g, h])"

section \<open>SHA-512\<close>

definition k512 :: "64 word list" where
  "k512 =
     [4794697086780616226, 8158064640168781261, 13096744586834688815, 16840607885511220156,
      4131703408338449720, 6480981068601479193, 10538285296894168987, 12329834152419229976,
      15566598209576043074, 1334009975649890238, 2608012711638119052, 6128411473006802146,
      8268148722764581231, 9286055187155687089, 11230858885718282805, 13951009754708518548,
      16472876342353939154, 17275323862435702243, 1135362057144423861, 2597628984639134821,
      3308224258029322869, 5365058923640841347, 6679025012923562964, 8573033837759648693,
      10970295158949994411, 12119686244451234320, 12683024718118986047, 13788192230050041572,
      14330467153632333762, 15395433587784984357, 489312712824947311, 1452737877330783856,
      2861767655752347644, 3322285676063803686, 5560940570517711597, 5996557281743188959,
      7280758554555802590, 8532644243296465576, 9350256976987008742, 10552545826968843579,
      11727347734174303076, 12113106623233404929, 14000437183269869457, 14369950271660146224,
      15101387698204529176, 15463397548674623760, 17586052441742319658, 1182934255886127544,
      1847814050463011016, 2177327727835720531, 2830643537854262169, 3796741975233480872,
      4115178125766777443, 5681478168544905931, 6601373596472566643, 7507060721942968483,
      8399075790359081724, 8693463985226723168, 9568029438360202098, 10144078919501101548,
      10430055236837252648, 11840083180663258601, 13761210420658862357, 14299343276471374635,
      14566680578165727644, 15097957966210449927, 16922976911328602910, 17689382322260857208,
      500013540394364858, 748580250866718886, 1242879168328830382, 1977374033974150939,
      2944078676154940804, 3659926193048069267, 4368137639120453308, 4836135668995329356,
      5532061633213252278, 6448918945643986474, 6902733635092675308, 7801388544844847127]"

definition words64 :: "bytes \<Rightarrow> 64 word list" where
  "words64 block = map (\<lambda>i. from_be (take 8 (drop (8 * i) block))) [0..<16]"

definition sha512_schedule :: "bytes \<Rightarrow> 64 word list" where
  "sha512_schedule block =
     foldl (\<lambda>w i.
       let s0 = word_rotr 1 (w ! (i - 15)) XOR word_rotr 8 (w ! (i - 15)) XOR drop_bit 7 (w ! (i - 15));
           s1 = word_rotr 19 (w ! (i - 2)) XOR word_rotr 61 (w ! (i - 2)) XOR drop_bit 6 (w ! (i - 2))
       in w @ [w ! (i - 16) + s0 + w ! (i - 7) + s1])
       (words64 block) [16..<80]"

definition sha512_round :: "64 word list \<Rightarrow> 64 word eight \<Rightarrow> nat \<Rightarrow> 64 word eight" where
  "sha512_round w = (\<lambda>(a, b, c, d, e, f, g, h) i.
     let s1 = word_rotr 14 e XOR word_rotr 18 e XOR word_rotr 41 e;
         ch = (e AND f) XOR (NOT e AND g);
         t1 = h + s1 + ch + k512 ! i + w ! i;
         s0 = word_rotr 28 a XOR word_rotr 34 a XOR word_rotr 39 a;
         maj = (a AND b) XOR (a AND c) XOR (b AND c);
         t2 = s0 + maj
     in (t1 + t2, a, b, c, d + t1, e, f, g))"

definition sha512_compress :: "64 word list \<Rightarrow> bytes \<Rightarrow> 64 word list" where
  "sha512_compress state block =
     (let w = sha512_schedule block;
          (a, b, c, d, e, f, g, h) =
            foldl (sha512_round w)
              (state ! 0, state ! 1, state ! 2, state ! 3, state ! 4, state ! 5, state ! 6, state ! 7) [0..<80]
      in map2 (+) state [a, b, c, d, e, f, g, h])"

section \<open>Padding and the digests\<close>

definition pad64 :: "(('w, 64 word) hasher \<Rightarrow> bytes \<Rightarrow> ('w, 64 word) hasher) \<Rightarrow> ('w, 64 word) hasher
    \<Rightarrow> 64 word \<Rightarrow> ('w, 64 word) hasher" where
  "pad64 absorb_raw h bits =
     (let zeros = (if filled h < 56 then 55 - filled h else 119 - filled h)
      in absorb_raw h (0x80 # replicate zeros 0 @ be_bytes 8 bits))"

definition pad128 :: "(64 word, 128 word) hasher \<Rightarrow> (64 word, 128 word) hasher" where
  "pad128 h =
     (let bits = hash_length h * 8;
          zeros = (if filled h < 112 then 111 - filled h else 239 - filled h)
      in absorb 128 sha512_compress h (0x80 # replicate zeros 0 @ be_bytes 16 bits))"

record 'h digest =
  OUTPUT :: nat
  BLOCK :: nat
  new_hash :: 'h
  update :: "'h \<Rightarrow> bytes \<Rightarrow> 'h"
  finish :: "'h \<Rightarrow> bytes"

definition sha1_digest :: "(32 word, 64 word) hasher digest" where
  "sha1_digest =
     \<lparr>OUTPUT = 20, BLOCK = 64,
      new_hash = \<lparr>hash_state = [0x67452301, 0xefcdab89, 0x98badcfe, 0x10325476, 0xc3d2e1f0],
                  buffer = replicate 64 0, filled = 0, hash_length = 0\<rparr>,
      update = absorb 64 sha1_compress,
      finish = (\<lambda>h. concat (map (be_bytes 4) (hash_state (pad64 (absorb 64 sha1_compress) h (hash_length h * 8)))))\<rparr>"

definition sha256_digest :: "(32 word, 64 word) hasher digest" where
  "sha256_digest =
     \<lparr>OUTPUT = 32, BLOCK = 64,
      new_hash = \<lparr>hash_state = [0x6a09e667, 0xbb67ae85, 0x3c6ef372, 0xa54ff53a, 0x510e527f, 0x9b05688c, 0x1f83d9ab, 0x5be0cd19],
                  buffer = replicate 64 0, filled = 0, hash_length = 0\<rparr>,
      update = absorb 64 sha256_compress,
      finish = (\<lambda>h. concat (map (be_bytes 4) (hash_state (pad64 (absorb 64 sha256_compress) h (hash_length h * 8)))))\<rparr>"

definition sha512_digest :: "(64 word, 128 word) hasher digest" where
  "sha512_digest =
     \<lparr>OUTPUT = 64, BLOCK = 128,
      new_hash = \<lparr>hash_state = [0x6a09e667f3bcc908, 0xbb67ae8584caa73b, 0x3c6ef372fe94f82b, 0xa54ff53a5f1d36f1,
                    0x510e527fade682d1, 0x9b05688c2b3e6c1f, 0x1f83d9abfb41bd6b, 0x5be0cd19137e2179],
                  buffer = replicate 128 0, filled = 0, hash_length = 0\<rparr>,
      update = absorb 128 sha512_compress,
      finish = (\<lambda>h. concat (map (be_bytes 8) (hash_state (pad128 h))))\<rparr>"

definition sha384_digest :: "(64 word, 128 word) hasher digest" where
  "sha384_digest =
     \<lparr>OUTPUT = 48, BLOCK = 128,
      new_hash = \<lparr>hash_state = [0xcbbb9d5dc1059ed8, 0x629a292a367cd507, 0x9159015a3070dd17, 0x152fecd8f70e5939,
                    0x67332667ffc00b31, 0x8eb44a8768581511, 0xdb0c2e0d64f98fa7, 0x47b5481dbefa4fa4],
                  buffer = replicate 128 0, filled = 0, hash_length = 0\<rparr>,
      update = absorb 128 sha512_compress,
      finish = (\<lambda>h. concat (map (be_bytes 8) (take 6 (hash_state (pad128 h)))))\<rparr>"

definition one_shot :: "'h digest \<Rightarrow> bytes \<Rightarrow> bytes" where
  "one_shot d data = finish d (update d (new_hash d) data)"

definition sha1 :: "bytes \<Rightarrow> bytes" where "sha1 data = one_shot sha1_digest data"
definition sha256 :: "bytes \<Rightarrow> bytes" where "sha256 data = one_shot sha256_digest data"
definition sha384 :: "bytes \<Rightarrow> bytes" where "sha384 data = one_shot sha384_digest data"
definition sha512 :: "bytes \<Rightarrow> bytes" where "sha512 data = one_shot sha512_digest data"

end
