(* ===== verification/ShaProps.thy ===== *)
theory ShaProps
  imports Sha
begin

text \<open>
  What the buffered hashes compute: however the data is handed over, the digest is the compression
  function folded over the blocks of the message padded as FIPS 180-4 section 5.1 pads it.
\<close>

section \<open>The interface\<close>

text \<open>The laws of the trait \<open>Digest\<close>: the digest depends on the bytes absorbed only, and has the
  length the trait states, which fits the block HMAC puts it in.\<close>

locale hash_function =
  fixes d :: "'h digest"
    and spec :: "bytes \<Rightarrow> bytes"
  assumes streamed: "finish d (foldl (update d) (new_hash d) ds) = spec (concat ds)"
    and output_length: "length (spec m) = OUTPUT d"
    and output_fits: "OUTPUT d \<le> BLOCK d"
begin

lemma one_shot_spec: "one_shot d m = spec m"
  using streamed [of "[m]"] by (simp add: one_shot_def)

lemma two_updates: "finish d (update d (update d (new_hash d) a) b) = spec (a @ b)"
  using streamed [of "[a, b]"] by simp

end

section \<open>Buffering\<close>

definition holds_message ::
  "nat \<Rightarrow> ('w list \<Rightarrow> bytes \<Rightarrow> 'w list) \<Rightarrow> 'w list \<Rightarrow> ('w, 'l::len word) hasher \<Rightarrow> bytes \<Rightarrow> bool" where
  "holds_message n compress iv h m \<longleftrightarrow>
     hash_state h = foldl compress iv (fst (as_chunks n m)) \<and> filled h = length (snd (as_chunks n m))
     \<and> take (filled h) (buffer h) = snd (as_chunks n m) \<and> length (buffer h) = n
     \<and> hash_length h = of_nat (length m)"

lemma absorb_blocks_chunks:
  assumes "0 < n"
  shows "absorb_blocks n compress state data
     = (foldl compress state (fst (as_chunks n data)), snd (as_chunks n data))"
  using assms
proof (induction n compress state data rule: absorb_blocks.induct)
  case (1 n compress state data)
  show ?case
  proof (cases "n \<le> length data")
    case True
    then have "as_chunks n (concat [take n data] @ drop n data)
        = ([take n data] @ fst (as_chunks n (drop n data)), snd (as_chunks n (drop n data)))"
      using "1.prems" by (intro as_chunks_append) auto
    then show ?thesis
      using "1.IH" True "1.prems" by (subst absorb_blocks.simps) simp
  next
    case False
    then show ?thesis by (subst absorb_blocks.simps) (simp add: as_chunks_short)
  qed
qed

lemma holds_new:
  "0 < n \<Longrightarrow> holds_message n compress iv \<lparr>hash_state = iv, buffer = replicate n 0, filled = 0, hash_length = 0\<rparr> []"
  by (simp add: holds_message_def as_chunks_short)

lemma holds_absorb:
  assumes "0 < n" and "holds_message n compress iv h m"
  shows "holds_message n compress iv (absorb n compress h data) (m @ data)"
proof -
  obtain bs r where c: "as_chunks n m = (bs, r)" by fastforce
  note p = as_chunks_parts [OF assms(1) c]
  have h: "hash_state h = foldl compress iv bs" "filled h = length r" "take (length r) (buffer h) = r"
    "length (buffer h) = n" "hash_length h = of_nat (length m)"
    using assms(2) c by (auto simp: holds_message_def)
  have all: "as_chunks n (m @ data) = (bs @ fst (as_chunks n (r @ data)), snd (as_chunks n (r @ data)))"
    using as_chunks_append [OF assms(1), of bs "r @ data"] p by simp
  obtain cs q where d: "as_chunks n data = (cs, q)" by fastforce
  note pd = as_chunks_parts [OF assms(1) d]
  consider (empty) "r = []" | (short) "r \<noteq> []" "length r + length data < n"
    | (block) "r \<noteq> []" "n \<le> length r + length data" by linarith
  then show ?thesis
  proof cases
    case empty
    then show ?thesis using h c all d pd assms(1)
      by (simp add: absorb_def holds_message_def absorb_blocks_chunks Let_def)
  next
    case short
    then have "as_chunks n (r @ data) = ([], r @ data)" by (intro as_chunks_short) simp
    moreover have "min (n - length r) (length data) = length data" using short by simp
    moreover have "take (length r) (buffer h) @ data @ drop (length r + length data) (buffer h)
        = (r @ data) @ drop (length r + length data) (buffer h)" using h(3) by simp
    ultimately show ?thesis unfolding absorb_def Let_def using h all short
      by (simp add: holds_message_def)
  next
    case block
    define t where "t = n - length r"
    have t: "t \<le> length data" "length r + t = n" using block p by (auto simp: t_def)
    obtain cs' q' where d': "as_chunks n (drop t data) = (cs', q')" by fastforce
    note pd' = as_chunks_parts [OF assms(1) d']
    have "as_chunks n (concat [r @ take t data] @ drop t data) = ([r @ take t data] @ cs', q')"
      using as_chunks_append [OF assms(1), of "[r @ take t data]" "drop t data"] t d' by simp
    then have s: "as_chunks n (r @ data) = ((r @ take t data) # cs', q')" by simp
    have b: "take (length r) (buffer h) @ take t data @ drop (length r + t) (buffer h) = r @ take t data"
      using h(3,4) t by simp
    have m: "min (n - length r) (length data) = t" using t by (simp add: t_def)
    have f: "\<not> length r + t < n" using t by simp
    have "absorb n compress h data = h\<lparr>hash_length := hash_length h + of_nat (length data),
        hash_state := foldl compress (compress (hash_state h) (r @ take t data)) cs',
        buffer := q' @ drop (length q') (r @ take t data), filled := length q'\<rparr>"
      unfolding absorb_def Let_def using block(1) h(2) f
      by (simp add: m b absorb_blocks_chunks assms(1) d')
    moreover have "length (q' @ drop (length q') (r @ take t data)) = n" using pd' t by (simp only: length_append length_drop length_take) simp
    ultimately show ?thesis using all s h by (simp add: holds_message_def)
  qed
qed

lemma holds_updates:
  assumes "0 < n" and "holds_message n compress iv h m"
  shows "holds_message n compress iv (foldl (absorb n compress) h ds) (m @ concat ds)"
  using assms(2)
proof (induction ds arbitrary: h m)
  case (Cons data ds)
  from Cons.IH [OF holds_absorb [OF assms(1) Cons.prems]] show ?case by simp
qed simp

section \<open>FIPS 180-4\<close>

definition fips_padded :: "nat \<Rightarrow> bytes \<Rightarrow> bytes \<Rightarrow> bytes" where
  "fips_padded n len m =
     m @ 0x80 # replicate ((2 * n - 1 - length len - length m mod n) mod n) 0 @ len"

definition fips_hash :: "nat \<Rightarrow> ('w list \<Rightarrow> bytes \<Rightarrow> 'w list) \<Rightarrow> 'w list \<Rightarrow> bytes \<Rightarrow> bytes \<Rightarrow> 'w list" where
  "fips_hash n compress iv len m = foldl compress iv (chunks n (fips_padded n len m))"

definition sha1_spec :: "bytes \<Rightarrow> bytes" where
  "sha1_spec m = concat (map (be_bytes 4)
     (fips_hash 64 sha1_compress (hash_state (new_hash sha1_digest)) (be_bytes 8 (of_nat (length m * 8) :: 64 word)) m))"

definition sha256_spec :: "bytes \<Rightarrow> bytes" where
  "sha256_spec m = concat (map (be_bytes 4)
     (fips_hash 64 sha256_compress (hash_state (new_hash sha256_digest)) (be_bytes 8 (of_nat (length m * 8) :: 64 word)) m))"

definition sha512_spec :: "bytes \<Rightarrow> bytes" where
  "sha512_spec m = concat (map (be_bytes 8)
     (fips_hash 128 sha512_compress (hash_state (new_hash sha512_digest)) (be_bytes 16 (of_nat (length m * 8) :: 128 word)) m))"

definition sha384_spec :: "bytes \<Rightarrow> bytes" where
  "sha384_spec m = take 48 (concat (map (be_bytes 8)
     (fips_hash 128 sha512_compress (hash_state (new_hash sha384_digest)) (be_bytes 16 (of_nat (length m * 8) :: 128 word)) m)))"

lemma padded_whole:
  assumes "holds_message n compress iv h m" and "0 < n" and "n dvd length (m @ tail)"
  shows "hash_state (absorb n compress h tail) = foldl compress iv (chunks n (m @ tail))"
proof -
  have "holds_message n compress iv (absorb n compress h tail) (m @ tail)" by (rule holds_absorb [OF assms(2,1)])
  moreover have "fst (as_chunks n (m @ tail)) = chunks n (m @ tail)"
    using assms(3) by (simp add: as_chunks_def Let_def)
  ultimately show ?thesis by (simp add: holds_message_def)
qed

lemma filled_mod: "0 < n \<Longrightarrow> holds_message n compress iv h m \<Longrightarrow> filled h = length m mod n"
  by (simp add: holds_message_def as_chunks_def Let_def minus_mult_div_eq_mod)

lemma padded_dvd:
  assumes "length len < n"
  shows "n dvd length (fips_padded n len m)"
proof -
  let ?z = "2 * n - 1 - length len - length m mod n"
  have "length m mod n < n" using assms by simp
  then have e: "(1 + length len + ?z) + length m mod n = 2 * n" using assms by linarith
  have "(?z mod n + (1 + length len + length m)) mod n = (?z + (1 + length len + length m)) mod n"
    by (rule mod_add_left_eq)
  also have "?z + (1 + length len + length m) = (1 + length len + ?z) + length m" by (simp only: ac_simps)
  also have "\<dots> mod n = ((1 + length len + ?z) + length m mod n) mod n" by (rule mod_add_right_eq [symmetric])
  also have "\<dots> = 0" unfolding e by simp
  finally have d: "n dvd ?z mod n + (1 + length len + length m)" by (rule dvd_eq_mod_eq_0 [THEN iffD2])
  have "length (fips_padded n len m) = ?z mod n + (1 + length len + length m)" by (simp add: fips_padded_def)
  with d show ?thesis by (simp only:)
qed

lemma pad64_spec:
  assumes "holds_message 64 compress iv h m"
  shows "hash_state (pad64 (absorb 64 compress) h (hash_length h * 8))
     = fips_hash 64 compress iv (be_bytes 8 (of_nat (length m * 8) :: 64 word)) m"
proof -
  let ?len = "be_bytes 8 (of_nat (length m * 8) :: 64 word)"
  have f: "filled h = length m mod 64" using filled_mod [OF _ assms] by simp
  have l: "hash_length h * 8 = of_nat (length m * 8)" using assms by (simp add: holds_message_def)
  have "length m mod 64 < 64" by simp
  then have z: "(if filled h < 56 then 55 - filled h else 119 - filled h) = (2 * 64 - 1 - length ?len - length m mod 64) mod 64"
    unfolding f by (cases "length m mod 64 < 56") (simp_all add: le_mod_geq)
  define tail where "tail = 0x80 # replicate (if filled h < 56 then 55 - filled h else 119 - filled h) 0 @ ?len"
  have e: "m @ tail = fips_padded 64 ?len m"
    unfolding tail_def z fips_padded_def by (rule refl)
  have "64 dvd length (m @ tail)" unfolding e by (rule padded_dvd) simp
  from padded_whole [OF assms _ this] have "hash_state (absorb 64 compress h tail) = fips_hash 64 compress iv ?len m"
    unfolding fips_hash_def e by simp
  then show ?thesis unfolding pad64_def Let_def l tail_def .
qed

lemma pad128_spec:
  assumes "holds_message 128 sha512_compress iv h m"
  shows "hash_state (pad128 h)
     = fips_hash 128 sha512_compress iv (be_bytes 16 (of_nat (length m * 8) :: 128 word)) m"
proof -
  let ?len = "be_bytes 16 (of_nat (length m * 8) :: 128 word)"
  have f: "filled h = length m mod 128" using filled_mod [OF _ assms] by simp
  have l: "hash_length h * 8 = of_nat (length m * 8)" using assms by (simp add: holds_message_def)
  have "length m mod 128 < 128" by simp
  then have z: "(if filled h < 112 then 111 - filled h else 239 - filled h) = (2 * 128 - 1 - length ?len - length m mod 128) mod 128"
    unfolding f by (cases "length m mod 128 < 112") (simp_all add: le_mod_geq)
  define tail where "tail = 0x80 # replicate (if filled h < 112 then 111 - filled h else 239 - filled h) 0 @ ?len"
  have e: "m @ tail = fips_padded 128 ?len m"
    unfolding tail_def z fips_padded_def by (rule refl)
  have "128 dvd length (m @ tail)" unfolding e by (rule padded_dvd) simp
  from padded_whole [OF assms _ this] have "hash_state (absorb 128 sha512_compress h tail) = fips_hash 128 sha512_compress iv ?len m"
    unfolding fips_hash_def e by simp
  then show ?thesis unfolding pad128_def Let_def l tail_def .
qed

section \<open>The four hashes\<close>

lemma length_fold_compress:
  "(\<And>s b. length (compress s b) = min (length s) k) \<Longrightarrow> length iv = k \<Longrightarrow> length (foldl compress iv bs) = k"
  by (induction bs arbitrary: iv) auto

lemma length_compress:
  "length (sha1_compress s b) = min (length s) 5" "length (sha256_compress s b) = min (length s) 8"
  "length (sha512_compress s' b) = min (length s') 8"
  by (simp_all add: sha1_compress_def sha256_compress_def sha512_compress_def Let_def numeral_eq_Suc split: prod.splits)

lemma length_iv:
  "length (hash_state (new_hash sha1_digest)) = 5" "length (hash_state (new_hash sha256_digest)) = 8"
  "length (hash_state (new_hash sha512_digest)) = 8" "length (hash_state (new_hash sha384_digest)) = 8"
  by (simp_all add: sha1_digest_def sha256_digest_def sha512_digest_def sha384_digest_def)

lemma length_concat_be: "length (concat (map (be_bytes n) ws)) = n * length ws"
  by (induction ws) auto

lemma length_specs:
  "length (sha1_spec m) = 20" "length (sha256_spec m) = 32" "length (sha512_spec m) = 64" "length (sha384_spec m) = 48"
  by (simp_all add: sha1_spec_def sha256_spec_def sha512_spec_def sha384_spec_def length_concat_be fips_hash_def
      length_fold_compress [OF length_compress(1) length_iv(1)] length_fold_compress [OF length_compress(2) length_iv(2)]
      length_fold_compress [OF length_compress(3) length_iv(3)] length_fold_compress [OF length_compress(3) length_iv(4)])

lemma digest_shape:
  "update sha1_digest = absorb 64 sha1_compress" "update sha256_digest = absorb 64 sha256_compress"
  "update sha512_digest = absorb 128 sha512_compress" "update sha384_digest = absorb 128 sha512_compress"
  by (simp_all add: sha1_digest_def sha256_digest_def sha512_digest_def sha384_digest_def)

lemma new_holds:
  "holds_message 64 sha1_compress (hash_state (new_hash sha1_digest)) (new_hash sha1_digest) []"
  "holds_message 64 sha256_compress (hash_state (new_hash sha256_digest)) (new_hash sha256_digest) []"
  "holds_message 128 sha512_compress (hash_state (new_hash sha512_digest)) (new_hash sha512_digest) []"
  "holds_message 128 sha512_compress (hash_state (new_hash sha384_digest)) (new_hash sha384_digest) []"
  by (simp_all add: sha1_digest_def sha256_digest_def sha512_digest_def sha384_digest_def holds_new)

lemma take_concat_be: "take 48 (concat (map (be_bytes 8) ws)) = concat (map (be_bytes 8) (take 6 ws))" if "length ws = 8"
proof -
  have "concat (map (be_bytes 8) ws) = concat (map (be_bytes 8) (take 6 ws)) @ concat (map (be_bytes 8) (drop 6 ws))"
    by (simp flip: concat_append map_append)
  moreover have "length (concat (map (be_bytes 8) (take 6 ws))) = 48" using that by (simp add: length_concat_be)
  ultimately show ?thesis by simp
qed

lemma sha1_streamed: "finish sha1_digest (foldl (update sha1_digest) (new_hash sha1_digest) ds) = sha1_spec (concat ds)"
proof -
  have "finish sha1_digest h = concat (map (be_bytes 4) (hash_state (pad64 (absorb 64 sha1_compress) h (hash_length h * 8))))" for h
    by (simp add: sha1_digest_def)
  then show ?thesis
    using pad64_spec [OF holds_updates [OF _ new_holds(1), of ds]] unfolding digest_shape sha1_spec_def by simp
qed

lemma sha256_streamed: "finish sha256_digest (foldl (update sha256_digest) (new_hash sha256_digest) ds) = sha256_spec (concat ds)"
proof -
  have "finish sha256_digest h = concat (map (be_bytes 4) (hash_state (pad64 (absorb 64 sha256_compress) h (hash_length h * 8))))" for h
    by (simp add: sha256_digest_def)
  then show ?thesis
    using pad64_spec [OF holds_updates [OF _ new_holds(2), of ds]] unfolding digest_shape sha256_spec_def by simp
qed

lemma sha512_streamed: "finish sha512_digest (foldl (update sha512_digest) (new_hash sha512_digest) ds) = sha512_spec (concat ds)"
proof -
  have "finish sha512_digest h = concat (map (be_bytes 8) (hash_state (pad128 h)))" for h
    by (simp add: sha512_digest_def)
  then show ?thesis
    using pad128_spec [OF holds_updates [OF _ new_holds(3), of ds]] unfolding digest_shape sha512_spec_def by simp
qed

lemma sha384_streamed: "finish sha384_digest (foldl (update sha384_digest) (new_hash sha384_digest) ds) = sha384_spec (concat ds)"
proof -
  have f: "finish sha384_digest h = concat (map (be_bytes 8) (take 6 (hash_state (pad128 h))))" for h
    by (simp add: sha384_digest_def)
  have "length (fips_hash 128 sha512_compress (hash_state (new_hash sha384_digest)) len m) = 8" for len m
    unfolding fips_hash_def by (rule length_fold_compress [OF length_compress(3) length_iv(4)])
  note t = take_concat_be [OF this]
  have "holds_message 128 sha512_compress (hash_state (new_hash sha384_digest))
      (foldl (absorb 128 sha512_compress) (new_hash sha384_digest) ds) (concat ds)"
    using holds_updates [OF _ new_holds(4), of ds] by simp
  from pad128_spec [OF this] show ?thesis unfolding f digest_shape sha384_spec_def t by (rule arg_cong)
qed

lemma digest_lengths:
  "OUTPUT sha1_digest = 20" "BLOCK sha1_digest = 64" "OUTPUT sha256_digest = 32" "BLOCK sha256_digest = 64"
  "OUTPUT sha512_digest = 64" "BLOCK sha512_digest = 128" "OUTPUT sha384_digest = 48" "BLOCK sha384_digest = 128"
  by (simp_all add: sha1_digest_def sha256_digest_def sha512_digest_def sha384_digest_def)

interpretation sha1_hash: hash_function sha1_digest sha1_spec
  by unfold_locales (simp_all add: sha1_streamed length_specs digest_lengths)

interpretation sha256_hash: hash_function sha256_digest sha256_spec
  by unfold_locales (simp_all add: sha256_streamed length_specs digest_lengths)

interpretation sha512_hash: hash_function sha512_digest sha512_spec
  by unfold_locales (simp_all add: sha512_streamed length_specs digest_lengths)

interpretation sha384_hash: hash_function sha384_digest sha384_spec
  by unfold_locales (simp_all add: sha384_streamed length_specs digest_lengths)


end
