(* ===== verification/Hmac.thy ===== *)
theory Hmac
  imports ShaProps
begin

text \<open>
  HMAC over any of the hashes and HKDF-SHA256, \<open>crates/crypto/src/hmac.rs\<close>. The loop of
  \<open>hkdf_expand\<close> ends because every block it appends is 32 bytes long, which is proved first.
\<close>

section \<open>HMAC\<close>

definition hmac_into :: "'h digest \<Rightarrow> bytes \<Rightarrow> bytes \<Rightarrow> bytes" where
  "hmac_into d key message =
     (let block = (if length key > BLOCK d
                   then finish d (update d (new_hash d) key) @ drop (OUTPUT d) (replicate (BLOCK d) 0)
                   else key @ drop (length key) (replicate (BLOCK d) 0));
          pad = map (\<lambda>k. k XOR 0x36) block;
          inner = update d (update d (new_hash d) pad) message;
          inner_digest = finish d inner;
          pad = map (\<lambda>k. k XOR 0x5c) block;
          outer = update d (update d (new_hash d) pad) inner_digest
      in finish d outer)"

definition hmac_sha256 :: "bytes \<Rightarrow> bytes \<Rightarrow> bytes" where
  "hmac_sha256 key message = hmac_into sha256_digest key message"

text \<open>RFC 2104 over the hash as a function of the whole message.\<close>

definition rfc_hmac :: "(bytes \<Rightarrow> bytes) \<Rightarrow> nat \<Rightarrow> bytes \<Rightarrow> bytes \<Rightarrow> bytes" where
  "rfc_hmac H block key m =
     (let k = (if length key > block then H key else key);
          k = k @ replicate (block - length k) 0
      in H (map (\<lambda>b. b XOR 0x5c) k @ H (map (\<lambda>b. b XOR 0x36) k @ m)))"

context hash_function
begin

lemma hmac_spec: "hmac_into d key m = rfc_hmac spec (BLOCK d) key m"
proof -
  have "update d (new_hash d) x = foldl (update d) (new_hash d) [x]" for x by simp
  then have one: "finish d (update d (new_hash d) x) = spec x" for x using streamed [of "[x]"] by simp
  show ?thesis
    unfolding hmac_into_def rfc_hmac_def Let_def one two_updates by (simp add: output_length)
qed

lemma length_hmac: "length (hmac_into d key m) = OUTPUT d"
  unfolding hmac_spec rfc_hmac_def Let_def by (rule output_length)

end

lemma length_hmac_sha256 [simp]: "length (hmac_sha256 key m) = 32"
  unfolding hmac_sha256_def sha256_hash.length_hmac digest_lengths by (rule refl)

section \<open>HKDF\<close>

function hkdf_loop :: "bytes \<Rightarrow> bytes \<Rightarrow> nat \<Rightarrow> bytes \<Rightarrow> bytes \<Rightarrow> byte \<Rightarrow> bytes" where
  "hkdf_loop prk info n okm previous counter =
     (if length okm < n then
        let input = previous @ info @ [counter];
            block = hmac_sha256 prk input;
            taken = min (n - length okm) 32
        in hkdf_loop prk info n (okm @ take taken block) block (counter + 1)
      else okm)"
  by pat_completeness auto

termination
  by (relation "measure (\<lambda>(prk, info, n, okm, previous, counter). n - length okm)") auto

declare hkdf_loop.simps [simp del]

definition hkdf_expand :: "bytes \<Rightarrow> bytes \<Rightarrow> nat \<Rightarrow> bytes" where
  "hkdf_expand prk info n = hkdf_loop prk info n [] [] 1"

definition hkdf_sha256_extract :: "bytes \<Rightarrow> bytes \<Rightarrow> bytes" where
  "hkdf_sha256_extract salt ikm = hmac_sha256 (if salt = [] then replicate 32 0 else salt) ikm"

definition hkdf_sha256 :: "bytes \<Rightarrow> bytes \<Rightarrow> bytes \<Rightarrow> nat \<Rightarrow> bytes option" where
  "hkdf_sha256 salt ikm info n =
     (if n > 255 * 32 then None
      else let prk = hmac_sha256 (if salt = [] then replicate 32 0 else salt) ikm
           in Some (hkdf_expand prk info n))"

section \<open>The expansion loop\<close>

text \<open>Both expansion loops of the crate, this one and the one of the TLS key schedule, append blocks
  of a MAC until enough is there; what they produce follows from that one step.\<close>

primrec expand_block :: "(bytes \<Rightarrow> bytes) \<Rightarrow> bytes \<Rightarrow> nat \<Rightarrow> bytes" where
  "expand_block mac info 0 = []"
| "expand_block mac info (Suc k) = mac (expand_block mac info k @ info @ [of_nat (Suc k)])"

definition expanded :: "(bytes \<Rightarrow> bytes) \<Rightarrow> bytes \<Rightarrow> nat \<Rightarrow> bytes" where
  "expanded mac info k = concat (map (\<lambda>i. expand_block mac info (Suc i)) [0..<k])"

locale expansion =
  fixes loop :: "nat \<Rightarrow> bytes \<Rightarrow> bytes \<Rightarrow> byte \<Rightarrow> bytes"
    and mac :: "bytes \<Rightarrow> bytes"
    and info :: bytes
    and size :: nat
  assumes loop_step: "loop n okm previous counter =
      (if length okm < n
       then loop n (okm @ take (min (n - length okm) size) (mac (previous @ info @ [counter])))
              (mac (previous @ info @ [counter])) (counter + 1)
       else okm)"
    and mac_length: "length (mac x) = size"
    and size_pos: "0 < size"
begin

lemma expanded_Suc: "expanded mac info (Suc k) = expanded mac info k @ expand_block mac info (Suc k)"
  by (simp add: expanded_def)

lemma length_expanded: "length (expanded mac info k) = size * k"
proof (induction k)
  case (Suc k)
  then show ?case unfolding expanded_Suc by (simp add: mac_length)
qed (simp add: expanded_def)

lemma expanded_prefix: "n \<le> size * j \<Longrightarrow> n \<le> size * k \<Longrightarrow> take n (expanded mac info j) = take n (expanded mac info k)"
proof (induction j k rule: linorder_wlog)
  case (le j k)
  obtain m where "k = j + m" using le(1) le_Suc_ex by blast
  then have "expanded mac info k = expanded mac info j @ concat (map (\<lambda>i. expand_block mac info (Suc i)) [j..<k])"
    unfolding expanded_def by (simp flip: concat_append map_append upt_add_eq_append)
  then show ?case using le(2) by (simp add: length_expanded)
qed simp

lemma loop_from:
  assumes "n \<le> size * j"
  shows "loop n (take n (expanded mac info k)) (expand_block mac info k) (of_nat k + 1) = take n (expanded mac info j)"
proof (induction "n - size * k" arbitrary: k rule: less_induct)
  case less
  show ?case
  proof (cases "size * k < n")
    case True
    let ?b = "expand_block mac info (Suc k)"
    have l: "length (take n (expanded mac info k)) = size * k" using True by (simp add: length_expanded)
    have t: "take n (expanded mac info k) = expanded mac info k" using True by (simp add: length_expanded)
    have b: "mac (expand_block mac info k @ info @ [of_nat k + 1]) = ?b" by (simp add: add.commute)
    have "expanded mac info k @ take (min (n - size * k) size) ?b = take n (expanded mac info (Suc k))"
      unfolding expanded_Suc using True by (simp add: length_expanded mac_length min_def)
    then have "loop n (take n (expanded mac info k)) (expand_block mac info k) (of_nat k + 1)
        = loop n (take n (expanded mac info (Suc k))) ?b (of_nat (Suc k) + 1)"
      using True l t b by (subst loop_step) (simp add: add.commute)
    moreover have "n - size * Suc k < n - size * k" using True size_pos by simp
    ultimately show ?thesis using less.hyps [of "Suc k"] by simp
  next
    case False
    then have "loop n (take n (expanded mac info k)) (expand_block mac info k) (of_nat k + 1) = take n (expanded mac info k)"
      by (subst loop_step) (simp add: length_expanded)
    also have "\<dots> = take n (expanded mac info j)" using False assms by (intro expanded_prefix) auto
    finally show ?thesis .
  qed
qed

lemma loop_expands: "n \<le> size * j \<Longrightarrow> loop n [] [] 1 = take n (expanded mac info j)"
  using loop_from [of n j 0] by (simp add: expanded_def)

end

interpretation hkdf_sha256_loop: expansion "hkdf_loop prk info" "hmac_sha256 prk" info 32
  by unfold_locales (subst hkdf_loop.simps, simp_all add: Let_def)

lemma length_hkdf_expand [simp]: "length (hkdf_expand prk info n) = n"
proof -
  have "n \<le> 32 * n" by simp
  from hkdf_sha256_loop.loop_expands [OF this] show ?thesis
    unfolding hkdf_expand_def by (simp add: hkdf_sha256_loop.length_expanded)
qed

text \<open>HKDF-SHA256 is RFC 5869's: up to 255 blocks it gives exactly as many bytes as were asked for, the
  beginning of T(1), T(2), ... with HMAC as RFC 2104 defines it over FIPS 180-4's SHA-256, so a shorter
  request is a prefix of a longer one; past that it gives nothing.\<close>

theorem hkdf_sha256_is_rfc:
  "hkdf_sha256 salt ikm info n =
    (let prk = rfc_hmac sha256_spec 64 (if salt = [] then replicate 32 0 else salt) ikm in
     if n \<le> 255 * 32 then Some (take n (expanded (rfc_hmac sha256_spec 64 prk) info 255)) else None)"
proof -
  have h: "hmac_sha256 k m = rfc_hmac sha256_spec 64 k m" for k m
    unfolding hmac_sha256_def sha256_hash.hmac_spec digest_lengths by (rule refl)
  have f: "hmac_sha256 k = rfc_hmac sha256_spec 64 k" for k by (rule ext) (rule h)
  show ?thesis
    unfolding hkdf_sha256_def hkdf_expand_def Let_def
    using hkdf_sha256_loop.loop_expands [of n 255] by (simp add: f)
qed

end
