(* ===== verification/Tls.thy ===== *)
theory Tls
  imports Hmac Gcm Chacha
begin

text \<open>
  The TLS 1.3 key schedule, cipher suites and record protection, \<open>crates/crypto/src/tls/schedule.rs\<close>,
  \<open>suite.rs\<close> and \<open>record.rs\<close>. A panic (an \<open>assert!\<close>, an \<open>expect\<close>, a
  \<open>copy_from_slice\<close> between different lengths) is the value \<open>None\<close>.
\<close>

section \<open>The hash of a suite\<close>

datatype tls_hash = Sha256 | Sha384

definition output_len :: "tls_hash \<Rightarrow> nat" where
  "output_len h = (case h of Sha256 \<Rightarrow> 32 | Sha384 \<Rightarrow> 48)"

definition tls_digest :: "tls_hash \<Rightarrow> bytes \<Rightarrow> bytes" where
  "tls_digest h data =
     (case h of
        Sha256 \<Rightarrow> finish sha256_digest (update sha256_digest (new_hash sha256_digest) data)
      | Sha384 \<Rightarrow> finish sha384_digest (update sha384_digest (new_hash sha384_digest) data))"

definition tls_hmac :: "tls_hash \<Rightarrow> bytes \<Rightarrow> bytes \<Rightarrow> bytes" where
  "tls_hmac h key message =
     (case h of
        Sha256 \<Rightarrow> hmac_into sha256_digest key message
      | Sha384 \<Rightarrow> hmac_into sha384_digest key message)"

lemma length_tls_hmac [simp]: "length (tls_hmac h key m) = output_len h"
  by (cases h) (simp_all add: tls_hmac_def output_len_def sha256_hash.length_hmac sha384_hash.length_hmac digest_lengths)

lemma output_len_pos [simp]: "0 < output_len h"
  by (cases h) (simp_all add: output_len_def)

definition tls_extract :: "tls_hash \<Rightarrow> bytes \<Rightarrow> bytes \<Rightarrow> bytes" where
  "tls_extract h salt ikm = tls_hmac h (if salt = [] then replicate (output_len h) 0 else salt) ikm"

function expand_loop :: "tls_hash \<Rightarrow> bytes \<Rightarrow> bytes \<Rightarrow> nat \<Rightarrow> bytes \<Rightarrow> bytes \<Rightarrow> byte \<Rightarrow> bytes" where
  "expand_loop h prk info n okm previous counter =
     (if length okm < n then
        let input = previous @ info @ [counter];
            block = tls_hmac h prk input;
            taken = min (n - length okm) (length block)
        in expand_loop h prk info n (okm @ take taken block) block (counter + 1)
      else okm)"
  by pat_completeness auto

termination
  by (relation "measure (\<lambda>(h, prk, info, n, okm, previous, counter). n - length okm)") (auto simp: min_def intro!: diff_less_mono2)

declare expand_loop.simps [simp del]

definition tls_expand :: "tls_hash \<Rightarrow> bytes \<Rightarrow> bytes \<Rightarrow> nat \<Rightarrow> bytes option" where
  "tls_expand h prk info n = (if n \<le> 255 * output_len h then Some (expand_loop h prk info n [] [] 1) else None)"

definition ascii :: "string \<Rightarrow> bytes" where
  "ascii s = map of_char s"

definition label_info :: "string \<Rightarrow> bytes \<Rightarrow> nat \<Rightarrow> bytes" where
  "label_info label context' n =
     (let full = ascii (''tls13 '' @ label)
      in be_bytes 2 (of_nat n :: 16 word) @ [of_nat (length full)] @ full @ [of_nat (length context')] @ context')"

definition expand_label :: "tls_hash \<Rightarrow> bytes \<Rightarrow> string \<Rightarrow> bytes \<Rightarrow> nat \<Rightarrow> bytes option" where
  "expand_label h secret label context' n = tls_expand h secret (label_info label context' n) n"

definition derive_secret :: "tls_hash \<Rightarrow> bytes \<Rightarrow> string \<Rightarrow> bytes \<Rightarrow> bytes option" where
  "derive_secret h secret label transcript_hash = expand_label h secret label transcript_hash (output_len h)"

section \<open>The schedule\<close>

record traffic_keys =
  traffic_secret_key :: bytes
  traffic_iv :: bytes

definition traffic_key :: "tls_hash \<Rightarrow> bytes \<Rightarrow> nat \<Rightarrow> traffic_keys option" where
  "traffic_key h secret key_len =
     Option.bind (expand_label h secret ''key'' [] key_len) (\<lambda>key.
     Option.bind (expand_label h secret ''iv'' [] 12) (\<lambda>iv.
     Some \<lparr>traffic_secret_key = key, traffic_iv = iv\<rparr>))"

record schedule =
  schedule_hash :: tls_hash
  handshake_secret :: bytes
  master_secret :: bytes

definition schedule_new :: "tls_hash \<Rightarrow> bytes \<Rightarrow> schedule option" where
  "schedule_new h shared =
     (let zeros = replicate (output_len h) 0;
          empty = tls_digest h [];
          early = tls_extract h [] zeros
      in Option.bind (derive_secret h early ''derived'' empty) (\<lambda>derived.
         let handshake = tls_extract h derived shared
         in Option.bind (derive_secret h handshake ''derived'' empty) (\<lambda>derived.
            let master = tls_extract h derived zeros
            in Some \<lparr>schedule_hash = h, handshake_secret = handshake, master_secret = master\<rparr>)))"

definition handshake_traffic :: "schedule \<Rightarrow> bytes \<Rightarrow> (bytes \<times> bytes) option" where
  "handshake_traffic s transcript_hash =
     Option.bind (derive_secret (schedule_hash s) (handshake_secret s) ''c hs traffic'' transcript_hash) (\<lambda>c.
     Option.bind (derive_secret (schedule_hash s) (handshake_secret s) ''s hs traffic'' transcript_hash) (\<lambda>s.
     Some (c, s)))"

definition application_traffic :: "schedule \<Rightarrow> bytes \<Rightarrow> (bytes \<times> bytes) option" where
  "application_traffic s transcript_hash =
     Option.bind (derive_secret (schedule_hash s) (master_secret s) ''c ap traffic'' transcript_hash) (\<lambda>c.
     Option.bind (derive_secret (schedule_hash s) (master_secret s) ''s ap traffic'' transcript_hash) (\<lambda>s.
     Some (c, s)))"

definition finished :: "schedule \<Rightarrow> bytes \<Rightarrow> bytes \<Rightarrow> bytes option" where
  "finished s base transcript_hash =
     Option.bind (expand_label (schedule_hash s) base ''finished'' [] (output_len (schedule_hash s))) (\<lambda>key.
     Some (tls_hmac (schedule_hash s) key transcript_hash))"

definition update_traffic_secret :: "tls_hash \<Rightarrow> bytes \<Rightarrow> bytes option" where
  "update_traffic_secret h secret = expand_label h secret ''traffic upd'' [] (output_len h)"

section \<open>Suites\<close>

record suite =
  suite_code :: "16 word"
  suite_hash :: tls_hash
  suite_key_len :: nat
  suite_name :: string

definition tls_aes_128_gcm_sha256 :: suite where
  "tls_aes_128_gcm_sha256 =
     \<lparr>suite_code = 0x1301, suite_hash = Sha256, suite_key_len = 16, suite_name = ''TLS_AES_128_GCM_SHA256''\<rparr>"

definition tls_aes_256_gcm_sha384 :: suite where
  "tls_aes_256_gcm_sha384 =
     \<lparr>suite_code = 0x1302, suite_hash = Sha384, suite_key_len = 32, suite_name = ''TLS_AES_256_GCM_SHA384''\<rparr>"

definition tls_chacha20_poly1305_sha256 :: suite where
  "tls_chacha20_poly1305_sha256 =
     \<lparr>suite_code = 0x1303, suite_hash = Sha256, suite_key_len = 32, suite_name = ''TLS_CHACHA20_POLY1305_SHA256''\<rparr>"

definition offered :: "suite list" where
  "offered = [tls_aes_128_gcm_sha256, tls_aes_256_gcm_sha384, tls_chacha20_poly1305_sha256]"

definition by_code :: "16 word \<Rightarrow> suite option" where
  "by_code code = find (\<lambda>s. suite_code s = code) offered"

datatype suite_aead = GcmKey gcm | ChaChaKey bytes

definition aead_new :: "suite \<Rightarrow> bytes \<Rightarrow> suite_aead option" where
  "aead_new s key =
     (if s = tls_chacha20_poly1305_sha256
      then if length key = 32 then Some (ChaChaKey key) else None
      else map_option GcmKey (gcm_new key))"

definition aead_tag_len :: "suite_aead \<Rightarrow> nat" where
  "aead_tag_len a = 16"

definition aead_seal :: "suite_aead \<Rightarrow> bytes \<Rightarrow> bytes \<Rightarrow> bytes \<Rightarrow> bytes" where
  "aead_seal a nonce associated plaintext =
     (case a of
        GcmKey g \<Rightarrow> gcm_seal g nonce associated plaintext
      | ChaChaKey key \<Rightarrow> chacha_seal key nonce associated plaintext)"

definition aead_open :: "suite_aead \<Rightarrow> bytes \<Rightarrow> bytes \<Rightarrow> bytes \<Rightarrow> bytes option" where
  "aead_open a nonce associated sealed =
     (case a of
        GcmKey g \<Rightarrow> (case gcm_open g nonce associated sealed of Inr p \<Rightarrow> Some p | Inl _ \<Rightarrow> None)
      | ChaChaKey key \<Rightarrow> (case chacha_open key nonce associated sealed of Inr p \<Rightarrow> Some p | Inl _ \<Rightarrow> None))"

section \<open>Records\<close>

datatype record_error = Overflow nat | BadRecordMac | NoContentType | SequenceExhausted

definition record_header :: "byte \<Rightarrow> nat \<Rightarrow> bytes" where
  "record_header content_type n = [content_type, 0x03, 0x03] @ be_bytes 2 (of_nat n :: 16 word)"

definition application_data :: byte where "application_data = 23"

record protection =
  protection_aead :: suite_aead
  protection_iv :: bytes
  sequence :: "64 word"

definition protection_new :: "(bytes \<Rightarrow> suite_aead option) \<Rightarrow> traffic_keys \<Rightarrow> protection option" where
  "protection_new aead_of key =
     (if length (traffic_iv key) \<noteq> 12 then None
      else map_option (\<lambda>a. \<lparr>protection_aead = a, protection_iv = traffic_iv key, sequence = 0\<rparr>)
             (aead_of (traffic_secret_key key)))"

definition record_nonce :: "protection \<Rightarrow> bytes" where
  "record_nonce p = take 4 (protection_iv p) @ xor_bytes (drop 4 (protection_iv p)) (be_bytes 8 (sequence p))"

definition advance :: "protection \<Rightarrow> (record_error + protection)" where
  "advance p = (if sequence p = - 1 then Inl SequenceExhausted else Inr (p\<lparr>sequence := sequence p + 1\<rparr>))"

definition record_seal :: "protection \<Rightarrow> byte \<Rightarrow> bytes \<Rightarrow> (record_error + bytes) \<times> protection" where
  "record_seal p content_type content =
     (let inner = content @ [content_type];
          sealed_len = length inner + aead_tag_len (protection_aead p);
          head = record_header application_data sealed_len;
          sealed = aead_seal (protection_aead p) (record_nonce p) head inner
      in case advance p of
           Inl e \<Rightarrow> (Inl e, p)
         | Inr p' \<Rightarrow> (Inr (head @ sealed), p'))"

fun strip_zeros :: "bytes \<Rightarrow> bytes" where
  "strip_zeros xs = (if xs \<noteq> [] \<and> last xs = 0 then strip_zeros (butlast xs) else xs)"

declare strip_zeros.simps [simp del]

definition record_open :: "protection \<Rightarrow> bytes \<Rightarrow> bytes \<Rightarrow> (record_error + byte \<times> bytes) \<times> protection" where
  "record_open p head body =
     (case aead_open (protection_aead p) (record_nonce p) head body of
        None \<Rightarrow> (Inl BadRecordMac, p)
      | Some inner \<Rightarrow>
          (case advance p of
             Inl e \<Rightarrow> (Inl e, p)
           | Inr p' \<Rightarrow>
               let inner = strip_zeros inner
               in if inner = [] then (Inl NoContentType, p')
                  else (Inr (last inner, butlast inner), p')))"

end
