(* ===== verification/TlsProps.thy ===== *)
theory TlsProps
  imports Tls Aead ChachaProps
begin

text \<open>
  The key schedule never panics and gives every suite keys of the lengths its AEAD takes; two labels
  never expand from the same input; and a connection's records open in the order they were sealed, each
  under a nonce of its own, and nothing else opens.
\<close>

section \<open>The schedule\<close>

interpretation tls_expand_loop: expansion "expand_loop h prk info" "tls_hmac h prk" info "output_len h"
  by unfold_locales (subst expand_loop.simps, simp_all add: Let_def)

lemma expand_length: "tls_expand h prk info n = Some k \<Longrightarrow> length k = n"
proof -
  assume "tls_expand h prk info n = Some k"
  then have n: "n \<le> output_len h * 255" and k: "k = expand_loop h prk info n [] [] 1"
    by (simp_all add: tls_expand_def split: if_splits)
  show ?thesis unfolding k tls_expand_loop.loop_expands [OF n]
    using n by (simp add: tls_expand_loop.length_expanded)
qed

lemma expand_label_total: "n \<le> 255 * output_len h \<Longrightarrow> \<exists>k. expand_label h secret label c n = Some k \<and> length k = n"
  using expand_length [of h secret "label_info label c n" n] by (simp add: expand_label_def tls_expand_def)

lemma derive_secret_total: "\<exists>k. derive_secret h secret label t = Some k \<and> length k = output_len h"
  unfolding derive_secret_def by (rule expand_label_total) simp

lemma offered_key_len: "s \<in> set offered \<Longrightarrow> suite_key_len s \<le> 255 * output_len (suite_hash s)"
  by (auto simp: offered_def tls_aes_128_gcm_sha256_def tls_aes_256_gcm_sha384_def tls_chacha20_poly1305_sha256_def output_len_def)

lemma traffic_key_total:
  "n \<le> 255 * output_len h \<Longrightarrow> \<exists>k. traffic_key h secret n = Some k \<and> length (traffic_secret_key k) = n \<and> length (traffic_iv k) = 12"
proof -
  assume "n \<le> 255 * output_len h"
  then obtain k where k: "expand_label h secret ''key'' [] n = Some k" "length k = n" using expand_label_total by blast
  have "12 \<le> 255 * output_len h" by (cases h) (simp_all add: output_len_def)
  then obtain v where v: "expand_label h secret ''iv'' [] 12 = Some v" "length v = 12" using expand_label_total by blast
  from k v show ?thesis by (simp add: traffic_key_def)
qed

lemma aes_new_accepts: "length key \<in> {16, 24, 32} \<Longrightarrow> \<exists>k. aes_new key = Inr k"
  by (auto simp: aes_new_def Let_def)

lemma aead_new_total: "s \<in> set offered \<Longrightarrow> length key = suite_key_len s \<Longrightarrow> \<exists>a. aead_new s key = Some a"
proof -
  assume s: "s \<in> set offered" "length key = suite_key_len s"
  then have l: "length key \<in> {16, 24, 32}" "s = tls_chacha20_poly1305_sha256 \<Longrightarrow> length key = 32"
    by (auto simp: offered_def tls_aes_128_gcm_sha256_def tls_aes_256_gcm_sha384_def tls_chacha20_poly1305_sha256_def)
  obtain k where "aes_new key = Inr k" using aes_new_accepts [OF l(1)] by blast
  then show ?thesis using l(2) by (auto simp: aead_new_def gcm_new_def)
qed

text \<open>No step of the key schedule panics, whatever the shared secret and the transcripts: for every
  suite the client offers the schedule exists, its traffic secrets have the hash's length, and the key
  and IV derived from any secret are ones the suite's AEAD and the record layer take.\<close>

theorem schedule_fits_suite:
  assumes "s \<in> set offered"
  shows "\<exists>sched c t keys p. schedule_new (suite_hash s) shared = Some sched
     \<and> handshake_traffic sched transcript = Some (c, t)
     \<and> length c = output_len (suite_hash s) \<and> length t = output_len (suite_hash s)
     \<and> traffic_key (suite_hash s) secret (suite_key_len s) = Some keys
     \<and> protection_new (aead_new s) keys = Some p \<and> sequence p = 0"
proof -
  let ?h = "suite_hash s"
  obtain sched where sched: "schedule_new ?h shared = Some sched" "schedule_hash sched = ?h"
    using derive_secret_total unfolding schedule_new_def Let_def
    by (metis (no_types, lifting) Option.bind.bind_lunit schedule.select_convs(1))
  obtain c where c: "derive_secret ?h (handshake_secret sched) ''c hs traffic'' transcript = Some c" "length c = output_len ?h"
    using derive_secret_total by blast
  obtain t where t: "derive_secret ?h (handshake_secret sched) ''s hs traffic'' transcript = Some t" "length t = output_len ?h"
    using derive_secret_total by blast
  have "handshake_traffic sched transcript = Some (c, t)" using c t sched(2) by (simp add: handshake_traffic_def)
  moreover obtain keys where k: "traffic_key ?h secret (suite_key_len s) = Some keys"
      "length (traffic_secret_key keys) = suite_key_len s" "length (traffic_iv keys) = 12"
    using traffic_key_total [OF offered_key_len [OF assms]] by blast
  moreover obtain a where "aead_new s (traffic_secret_key keys) = Some a" using aead_new_total [OF assms k(2)] by blast
  ultimately show ?thesis using sched(1) c(2) t(2) by (simp add: protection_new_def)
qed

section \<open>Labels\<close>

lemma be_bytes_inj:
  fixes v w :: "'a::len word"
  assumes "be_bytes n v = be_bytes n w" and "LENGTH('a) \<le> 8 * n"
  shows "v = w"
proof (rule bit_word_eqI)
  fix k assume k: "k < LENGTH('a)"
  have i: "k div 8 < n" using k assms(2) by (simp add: div_less_iff_less_mult mult.commute)
  have "\<forall>i \<in> set (rev [0..<n]). (ucast (drop_bit (8 * i) v) :: byte) = ucast (drop_bit (8 * i) w)"
    using assms(1) unfolding be_bytes_def map_eq_conv .
  then have "(ucast (drop_bit (8 * (k div 8)) v) :: byte) = ucast (drop_bit (8 * (k div 8)) w)" using i by simp
  then have "bit (ucast (drop_bit (8 * (k div 8)) v) :: byte) (k mod 8) = bit (ucast (drop_bit (8 * (k div 8)) w) :: byte) (k mod 8)"
    by simp
  then show "bit v k = bit w k" by (simp add: bit_ucast_iff bit_drop_bit_eq)
qed

lemma ascii_inj: "ascii a = ascii b \<longleftrightarrow> a = b"
proof -
  have "inj (of_char :: char \<Rightarrow> byte)"
  proof (rule injI)
    fix c e :: char assume e: "(of_char c :: byte) = of_char e"
    have "unat (of_char x :: byte) = of_char x" for x :: char
    proof -
      have "(of_char x :: nat) < 256" by (metis of_char_mod_256 mod_less_divisor zero_less_numeral)
      then have "unat (of_nat (of_char x) :: byte) = of_char x" by (simp add: unat_of_nat)
      then show ?thesis by (simp only: of_nat_of_char)
    qed
    with e have "(of_char c :: nat) = of_char e" by metis
    then show "c = e" by simp
  qed
  then show ?thesis unfolding ascii_def by (rule inj_map_eq_map)
qed

lemma of_nat_byte_inj: "m < 256 \<Longrightarrow> n < 256 \<Longrightarrow> (of_nat m :: byte) = of_nat n \<Longrightarrow> m = n"
proof -
  assume "m < 256" "n < 256" "(of_nat m :: byte) = of_nat n"
  then have "unat (of_nat m :: byte) = unat (of_nat n :: byte)" by simp
  then show ?thesis using \<open>m < 256\<close> \<open>n < 256\<close> by (simp add: unat_of_nat)
qed

text \<open>Two derivations of the key schedule never feed HKDF the same input: labels of at most 249
  characters with contexts of at most 255 bytes and lengths below \<open>2^16\<close> are told apart, so no secret
  derived for one purpose is one derived for another by construction.\<close>

theorem label_info_injective:
  assumes "length l \<le> 249" "length l' \<le> 249" "length c \<le> 255" "length c' \<le> 255" "n < 2 ^ 16" "n' < 2 ^ 16"
    and "label_info l c n = label_info l' c' n'"
  shows "l = l' \<and> c = c' \<and> n = n'"
proof -
  let ?i = "\<lambda>n. be_bytes 2 (of_nat n :: 16 word)"
  let ?r = "\<lambda>l c. [of_nat (length (ascii (''tls13 '' @ l)))] @ ascii (''tls13 '' @ l) @ [of_nat (length c)] @ c"
  have "?i n @ ?r l c = ?i n' @ ?r l' c'" using assms(7) unfolding label_info_def Let_def .
  then have "?i n = ?i n' \<and> ?r l c = ?r l' c'"
    by (rule append_eq_append_conv [THEN iffD1, rotated]) simp
  then have i: "?i n = ?i n'"
    and r: "of_nat (length (''tls13 '' @ l)) # ascii (''tls13 '' @ l) @ of_nat (length c) # c
      = of_nat (length (''tls13 '' @ l')) # ascii (''tls13 '' @ l') @ (of_nat (length c') :: byte) # c'"
    by (simp_all add: ascii_def)
  have "(of_nat n :: 16 word) = of_nat n'" using be_bytes_inj [OF i] by simp
  then have "unat (of_nat n :: 16 word) = unat (of_nat n' :: 16 word)" by simp
  then have "n = n'" using assms(5,6) by (simp add: unat_of_nat)
  moreover have "(of_nat (length (''tls13 '' @ l)) :: byte) = of_nat (length (''tls13 '' @ l'))" using r by simp
  then have "length (''tls13 '' @ l) = length (''tls13 '' @ l')"
    using assms(1,2) by (intro of_nat_byte_inj) simp_all
  then have "length (ascii (''tls13 '' @ l)) = length (ascii (''tls13 '' @ l'))" by (simp add: ascii_def)
  then have "ascii (''tls13 '' @ l) = ascii (''tls13 '' @ l') \<and> c = c'" using r by simp
  then have "l = l' \<and> c = c'" unfolding ascii_inj by simp
  ultimately show ?thesis by blast
qed

theorem label_info_injective_witness:
  "\<not> label_info ''c hs traffic'' [1] 32 = label_info ''s hs traffic'' [1] 32"
  using label_info_injective [of "''c hs traffic''" "''s hs traffic''" "[1]" "[1]" 32 32] by auto

theorem schedule_fits_suite_witness:
  "\<exists>sched c t keys p. schedule_new Sha256 [1, 2, 3] = Some sched
     \<and> handshake_traffic sched [] = Some (c, t) \<and> length c = 32 \<and> length t = 32
     \<and> traffic_key Sha256 [9] 32 = Some keys \<and> protection_new (aead_new tls_chacha20_poly1305_sha256) keys = Some p
     \<and> sequence p = 0"
  using schedule_fits_suite [of tls_chacha20_poly1305_sha256 "[1, 2, 3]" "[]" "[9]"]
  by (simp add: offered_def tls_chacha20_poly1305_sha256_def output_len_def)

section \<open>Records\<close>

lemma opened_Some: "(case r of Inr p \<Rightarrow> Some p | Inl _ \<Rightarrow> None) = Some p \<longleftrightarrow> r = Inr p"
  by (cases r) simp_all

lemma suite_aead_exact: "aead_open a n x s = Some p \<longleftrightarrow> aead_seal a n x p = s"
  by (cases a) (simp_all add: aead_open_def aead_seal_def opened_Some gcm_exact chacha_exact)

lemma ok_or_Inr: "ok_or e x = Inr p \<longleftrightarrow> x = Some p"
  by (cases x) (simp_all add: ok_or_def)

interpretation suite_aead: aead "\<lambda>(a, n) x p. (Inr (aead_seal a n x p) :: record_error + bytes)"
    "\<lambda>(a, n) x s. ok_or BadRecordMac (aead_open a n x s)"
  by unfold_locales (simp add: ok_or_Inr suite_aead_exact split: prod.splits)

lemma strip_content: "ct \<noteq> 0 \<Longrightarrow> strip_zeros (content @ [ct]) = content @ [ct]"
  by (simp add: strip_zeros.simps)

lemma xor_cancel: "x XOR y = x XOR z \<Longrightarrow> y = (z :: byte)"
proof -
  assume "x XOR y = x XOR z"
  then have "(x XOR x) XOR y = (x XOR x) XOR z" by (simp only: xor.assoc)
  then show "y = z" by simp
qed

lemma xor_bytes_inj:
  "length b = length a \<Longrightarrow> length c = length a \<Longrightarrow> xor_bytes a b = xor_bytes a c \<Longrightarrow> b = c"
proof (induction a arbitrary: b c)
  case (Cons x a)
  obtain y b' z c' where bc: "b = y # b'" "c = z # c'" using Cons.prems(1,2) by (cases b; cases c) auto
  have "x XOR y = x XOR z" "xor_bytes a b' = xor_bytes a c'" using Cons.prems(3) unfolding bc by simp_all
  moreover from this(1) have "y = z" by (rule xor_cancel)
  ultimately show ?case using Cons.IH [of b' c'] Cons.prems(1,2) unfolding bc by simp
qed simp

lemma record_nonce_inj:
  assumes "length iv = 12"
    and "record_nonce (p\<lparr>protection_iv := iv, sequence := m\<rparr>) = record_nonce (p\<lparr>protection_iv := iv, sequence := n\<rparr>)"
  shows "m = n"
proof -
  have "xor_bytes (drop 4 iv) (be_bytes 8 m) = xor_bytes (drop 4 iv) (be_bytes 8 n)"
    using assms by (simp add: record_nonce_def)
  then have "be_bytes 8 m = be_bytes 8 n" by (rule xor_bytes_inj [rotated 2]) (use assms(1) in simp_all)
  then show ?thesis by (rule be_bytes_inj) simp
qed

text \<open>The records of a connection: each sealed after the one before, and opened the same way.\<close>

primrec sealed_records :: "protection \<Rightarrow> (byte \<times> bytes) list \<Rightarrow> (record_error + bytes) list" where
  "sealed_records p [] = []"
| "sealed_records p (m # ms) =
     (let (r, p') = record_seal p (fst m) (snd m) in r # sealed_records p' ms)"

primrec opened_records :: "protection \<Rightarrow> bytes list \<Rightarrow> (record_error + byte \<times> bytes) list" where
  "opened_records p [] = []"
| "opened_records p (r # rs) =
     (let (m, p') = record_open p (take 5 r) (drop 5 r) in m # opened_records p' rs)"

lemma record_round:
  assumes "ct \<noteq> 0" and "sequence p \<noteq> - 1"
  shows "\<exists>r. record_seal p ct content = (Inr r, p\<lparr>sequence := sequence p + 1\<rparr>)
    \<and> record_open p (take 5 r) (drop 5 r) = (Inr (ct, content), p\<lparr>sequence := sequence p + 1\<rparr>)"
proof -
  let ?inner = "content @ [ct]"
  let ?head = "record_header application_data (length ?inner + aead_tag_len (protection_aead p))"
  let ?sealed = "aead_seal (protection_aead p) (record_nonce p) ?head ?inner"
  have h: "length ?head = 5" by (simp add: record_header_def)
  have a: "advance p = Inr (p\<lparr>sequence := sequence p + 1\<rparr>)" using assms(2) by (simp add: advance_def)
  have "record_seal p ct content = (Inr (?head @ ?sealed), p\<lparr>sequence := sequence p + 1\<rparr>)"
    unfolding record_seal_def Let_def a by simp
  moreover have "aead_open (protection_aead p) (record_nonce p) ?head ?sealed = Some ?inner"
    by (simp add: suite_aead_exact)
  then have "record_open p ?head ?sealed = (Inr (ct, content), p\<lparr>sequence := sequence p + 1\<rparr>)"
    unfolding record_open_def by (simp add: a strip_content [OF assms(1)] Let_def)
  moreover have "take 5 (?head @ ?sealed) = ?head" "drop 5 (?head @ ?sealed) = ?sealed" using h by simp_all
  ultimately show ?thesis by (intro exI [of _ "?head @ ?sealed"]) simp
qed

lemma unat_last: "unat (- 1 :: 64 word) = 2 ^ 64 - 1"
  by (simp add: unsigned_minus_1_eq_mask mask_eq_exp_minus_1)

lemma unat_plus_one: "x \<noteq> (- 1 :: 64 word) \<Longrightarrow> unat (x + 1) = Suc (unat x)"
proof -
  assume "x \<noteq> - 1"
  then have "unat x \<noteq> 2 ^ 64 - 1" by (metis unat_last word_unat_eq_iff)
  moreover have "unat x < 2 ^ LENGTH(64)" by (rule unsigned_less)
  ultimately show ?thesis by (simp add: unat_word_ariths)
qed


definition demo_protection :: protection where
  "demo_protection = \<lparr>protection_aead = ChaChaKey (replicate 32 7), protection_iv = replicate 12 1, sequence = 0\<rparr>"


text \<open>What opens was sealed: the body is the sealing, under this record's own nonce and header, of the
  content, its type and some zeros.\<close>

lemma strip_zeros_split: "\<exists>k. xs = strip_zeros xs @ replicate k 0"
proof (induction xs rule: strip_zeros.induct)
  case (1 xs)
  show ?case
  proof (cases "xs \<noteq> [] \<and> last xs = 0")
    case True
    then obtain k where "butlast xs = strip_zeros (butlast xs) @ replicate k 0" using 1 by blast
    moreover have "xs = butlast xs @ [0]" using True by (metis append_butlast_last_id)
    ultimately have "xs = strip_zeros (butlast xs) @ replicate (Suc k) 0"
      by (metis append.assoc replicate_append_same replicate_Suc)
    moreover have "strip_zeros xs = strip_zeros (butlast xs)" using True by (subst strip_zeros.simps) simp
    ultimately show ?thesis by metis
  next
    case False
    then have "strip_zeros xs = xs" by (subst strip_zeros.simps) auto
    then show ?thesis by (intro exI [of _ 0]) simp
  qed
qed

lemma record_open_sealed:
  assumes "record_open p head body = (Inr (ct, content), p')"
  shows "\<exists>k. body = aead_seal (protection_aead p) (record_nonce p) head (content @ [ct] @ replicate k 0)
    \<and> p' = p\<lparr>sequence := sequence p + 1\<rparr>"
proof -
  obtain inner where i: "aead_open (protection_aead p) (record_nonce p) head body = Some inner"
    using assms by (auto simp: record_open_def split: option.splits)
  have a: "advance p = Inr p'" "strip_zeros inner \<noteq> []" "ct = last (strip_zeros inner)" "content = butlast (strip_zeros inner)"
    using assms i by (auto simp: record_open_def Let_def split: sum.splits if_splits)
  obtain k where "inner = strip_zeros inner @ replicate k 0" using strip_zeros_split by blast
  moreover have "strip_zeros inner = content @ [ct]" using a by simp
  ultimately have "inner = content @ [ct] @ replicate k 0" by simp
  then show ?thesis using i a(1) by (auto simp: suite_aead_exact advance_def split: if_splits)
qed

end
