(* ===== verification/CryptoProps.thy ===== *)
theory CryptoProps
  imports Aead PolyTag TlsProps
begin

text \<open>
  What the primitives of \<open>crates/crypto\<close> promise their callers, stated over the objects the code
  builds (\<open>Aes::new\<close>, \<open>Ocb::new\<close>) and proved from the laws of \<open>AesProps\<close>, \<open>Aead\<close> and \<open>PolyTag\<close>.
\<close>

lemma aes_new_rounds: "aes_new key = Inr k \<Longrightarrow> 1 < length (round_keys k)"
  using aes_new_ok [of key k] by (simp add: wf_aes_def)

section \<open>AES\<close>

text \<open>Under every key the cipher accepts, decrypting a block undoes encrypting it and encrypting undoes
  decrypting, so a block cipher key is a permutation of the 16-byte blocks.\<close>

theorem aes_is_a_permutation:
  assumes "aes_new key = Inr k" and "length b = 16"
  shows "decrypt_block k (encrypt_block k b) = b \<and> encrypt_block k (decrypt_block k b) = b"
  using decrypt_encrypt_block [OF assms(2) aes_new_rounds [OF assms(1)]]
    encrypt_decrypt_block [OF _ assms(2)] aes_new_rounds [OF assms(1)] by simp

theorem aes_is_a_permutation_witness:
  "\<exists>k. aes_new (replicate 24 7) = Inr k \<and> decrypt_block k (encrypt_block k (replicate 16 9)) = replicate 16 9"
proof -
  obtain k where k: "aes_new (replicate 24 7) = Inr k" using aes_new_accepts [of "replicate 24 7"] by auto
  then show ?thesis using aes_is_a_permutation [OF k, of "replicate 16 9"] by simp
qed

text \<open>Unwrapping undoes wrapping (RFC 3394): under every key encryption key, data of at least two whole
  8-byte blocks is wrapped, and what is wrapped is unwrapped to the same data; other lengths are refused.\<close>

theorem wrapped_key_unwraps:
  assumes "aes_new secret = Inr kek"
  shows "Option.bind (key_wrap kek key) (key_unwrap kek)
    = (if 16 \<le> length key \<and> length key mod 8 = 0 then Some key else None)"
proof (cases "16 \<le> length key \<and> length key mod 8 = 0")
  case True
  then show ?thesis using key_unwrap_wrap [OF aes_new_rounds [OF assms], of key] by (simp add: dvd_eq_mod_eq_0)
next
  case False
  then have "key_wrap kek key = None" by (auto simp: key_wrap_def dvd_eq_mod_eq_0)
  then show ?thesis using False by simp
qed

theorem wrapped_key_unwraps_witness:
  "\<exists>kek w. aes_new (replicate 16 1) = Inr kek \<and> key_wrap kek (replicate 32 5) = Some w
     \<and> key_unwrap kek w = Some (replicate 32 5) \<and> key_wrap kek (replicate 12 5) = None"
proof -
  obtain kek where k: "aes_new (replicate 16 1) = Inr kek" using aes_new_accepts [of "replicate 16 1"] by auto
  have "Option.bind (key_wrap kek (replicate 32 5)) (key_unwrap kek) = Some (replicate 32 5)"
    using wrapped_key_unwraps [OF k, of "replicate 32 5"] by simp
  then obtain w where "key_wrap kek (replicate 32 5) = Some w" "key_unwrap kek w = Some (replicate 32 5)"
    by (auto simp: Option.bind_eq_Some_conv)
  moreover have "key_wrap kek (replicate 12 5) = None" by (simp add: key_wrap_def)
  ultimately show ?thesis using k by blast
qed

section \<open>Authenticated encryption\<close>

text \<open>C29: OCB opens exactly what it seals: under every key and tag length it accepts, and for every nonce
  and associated data, opening gives a plaintext if and only if the sealed bytes are what sealing that
  plaintext gives, so anything else is refused.\<close>

theorem ocb_opens_exactly:
  assumes "aes_new key = Inr k" and "ocb_new k n = Inr o'"
  shows "ocb_open o' nonce a s = Inr p \<longleftrightarrow> ocb_seal o' nonce a p = Inr s"
  by (rule ocb_exact) (use ocb_new_wf [OF assms] in simp)

lemma initial_offset_some: "nonce \<noteq> [] \<Longrightarrow> \<not> 15 < length nonce \<Longrightarrow> \<exists>off. initial_offset o' nonce = Inr off"
  unfolding initial_offset_def Let_def by (simp only: if_False simp_thms) blast

lemma ocb_seal_some: "initial_offset o' nonce = Inr off \<Longrightarrow> \<exists>s. ocb_seal o' nonce a p = Inr s"
  by (simp add: ocb_seal_def Let_def split: prod.split)

theorem ocb_opens_exactly_witness:
  "\<exists>k o' s. aes_new (replicate 16 0) = Inr k \<and> ocb_new k 16 = Inr o'
     \<and> ocb_seal o' (replicate 15 3) [1] [1, 2, 3] = Inr s \<and> ocb_open o' (replicate 15 3) [1] s = Inr [1, 2, 3]"
proof -
  obtain k where k: "aes_new (replicate 16 0) = Inr k" using aes_new_accepts [of "replicate 16 0"] by auto
  moreover obtain o' where o': "ocb_new k 16 = Inr o'" by (auto simp: ocb_new_def Let_def)
  moreover obtain s where "ocb_seal o' (replicate 15 3) [1] [1, 2, 3] = Inr s"
    using initial_offset_some [of "replicate 15 3" o'] ocb_seal_some by fastforce
  ultimately show ?thesis using ocb_opens_exactly [OF k o'] by blast
qed

text \<open>The AEAD of every TLS suite, AES-GCM and ChaCha20-Poly1305, opens exactly what it seals: a record
  body opens to a plaintext if and only if it is what sealing that plaintext under the same key, nonce
  and header gives.\<close>

theorem suite_opens_exactly: "aead_open key nonce header body = Some p \<longleftrightarrow> aead_seal key nonce header p = body"
  by (rule suite_aead_exact)

end
