(* ===== verification/Inflate.thy ===== *)
theory Inflate
  imports Bytes
begin

text \<open>
  \<open>crates/crypto/src/inflate.rs\<close>: inflate (RFC 1951) and the zlib wrapper (RFC 1950). The bit
  reader, the canonical Huffman codes, the fixed and dynamic tables, the three kinds of block, the
  back-references, Adler-32 and the header and trailer of zlib. An index the code would panic at is
  the error \<open>Panicked\<close>; \<open>InflateProps\<close> shows it never happens. The counters of a Huffman code are
  natural numbers: at most 316 lengths are counted, so no \<open>u16\<close> wraps.
\<close>

unbundle bit_operations_syntax

datatype inflate_error =
    MiddleOfBlock | Oversubscribed | CodeTooLong | TooManyCodes | NoPreviousLength
  | LengthSymbolRange | LengthsPastCount | NoEndOfBlock | NoStoredLength | StoredLengthCheck
  | StoredShort | DistanceRange | BeforeStart | PastLimit nat | SymbolRange | ReservedType
  | NoZlibHeader | ZlibMethod byte | ZlibHeaderCheck | PresetDictionary | NoZlibTrailer
  | AdlerMismatch | Panicked

section \<open>The bits of the stream\<close>

record bits =
  bits_data :: bytes
  bits_at :: nat
  bits_bit :: nat

definition next_bit :: "bits \<Rightarrow> bits" where
  "next_bit b = (if bits_bit b + 1 = 8 then b\<lparr>bits_bit := 0, bits_at := bits_at b + 1\<rparr>
                 else b\<lparr>bits_bit := bits_bit b + 1\<rparr>)"

primrec take_loop :: "nat \<Rightarrow> nat \<Rightarrow> 32 word \<Rightarrow> bits \<Rightarrow> inflate_error + 32 word \<times> bits" where
  "take_loop 0 i w b = Inr (w, b)"
| "take_loop (Suc n) i w b =
     (if bits_at b < length (bits_data b)
      then if bits_bit b < 8
           then take_loop n (i + 1)
                  (w OR push_bit i (ucast (drop_bit (bits_bit b) (bits_data b ! bits_at b) AND 1)))
                  (next_bit b)
           else Inl Panicked
      else Inl MiddleOfBlock)"

definition take_bits :: "nat \<Rightarrow> bits \<Rightarrow> inflate_error + nat \<times> bits" where
  "take_bits count b = bindR (take_loop count 0 0 b) (\<lambda>(w, b'). Inr (unat w, b'))"

definition align :: "bits \<Rightarrow> bits" where
  "align b = (if bits_bit b \<noteq> 0 then b\<lparr>bits_bit := 0, bits_at := bits_at b + 1\<rparr> else b)"

text \<open>The bits still to read: every bit taken is one less, which is why the loops end.\<close>

definition bits_left :: "bits \<Rightarrow> nat" where
  "bits_left b = 8 * (length (bits_data b) - bits_at b) - bits_bit b"

lemma bits_left_next: "bits_at b < length (bits_data b) \<Longrightarrow> bits_bit b < 8 \<Longrightarrow> bits_left b = bits_left (next_bit b) + 1"
  by (auto simp: bits_left_def next_bit_def)

lemma take_loop_left: "take_loop n i w b = Inr (w', b') \<Longrightarrow> bits_left b = bits_left b' + n"
  by (induction n arbitrary: i w b) (auto dest: bits_left_next split: if_splits)

lemma take_bits_left: "take_bits n b = Inr (v, b') \<Longrightarrow> bits_left b = bits_left b' + n"
  by (auto simp: take_bits_def result_simps dest: take_loop_left)

lemma next_bit_below: "bits_bit b < 8 \<Longrightarrow> bits_bit (next_bit b) < 8"
  by (auto simp: next_bit_def)

lemma take_loop_below: "take_loop n i w b = Inr (w', b') \<Longrightarrow> bits_bit b < 8 \<or> 0 < n \<Longrightarrow> bits_bit b' < 8"
proof (induction n arbitrary: i w b)
  case (Suc n)
  then have "bits_bit b < 8" by (auto split: if_splits)
  then show ?case using Suc next_bit_below [of b] by (auto split: if_splits)
qed simp

lemma take_bits_below: "take_bits n b = Inr (v, b') \<Longrightarrow> bits_bit b < 8 \<or> 0 < n \<Longrightarrow> bits_bit b' < 8"
  by (auto simp: take_bits_def result_simps dest: take_loop_below)

lemma align_left: "bits_bit b < 8 \<Longrightarrow> bits_left (align b) \<le> bits_left b"
  by (auto simp: align_def bits_left_def)

section \<open>Huffman codes\<close>

record huffman =
  code_counts :: "nat list"
  code_symbols :: "nat list"

definition count_length :: "nat list \<Rightarrow> nat \<Rightarrow> inflate_error + nat list" where
  "count_length cs l = (if l < 16 then Inr (cs[l := cs ! l + 1]) else Inl Panicked)"

definition left_after :: "int \<Rightarrow> nat \<Rightarrow> inflate_error + int" where
  "left_after left c = (let left' = left * 2 - int c in if left' < 0 then Inl Oversubscribed else Inr left')"

definition code_offsets :: "nat list \<Rightarrow> nat list" where
  "code_offsets cs = foldl (\<lambda>os l. os[l := os ! (l - 1) + cs ! (l - 1)]) (replicate 16 0) [1..<16]"

definition place_symbol :: "nat list \<times> nat list \<Rightarrow> nat \<times> nat \<Rightarrow> inflate_error + nat list \<times> nat list" where
  "place_symbol = (\<lambda>(syms, os) (symbol, l).
     if l = 0 then Inr (syms, os)
     else if os ! l < length syms then Inr (syms[os ! l := symbol], os[l := os ! l + 1])
     else Inl Panicked)"

definition huffman_new :: "nat list \<Rightarrow> inflate_error + huffman" where
  "huffman_new ls =
     bindR (foldR count_length (replicate 16 0) ls) (\<lambda>cs0.
     let cs = cs0[0 := 0] in
     bindR (foldR left_after 1 (drop 1 cs)) (\<lambda>_.
     bindR (foldR place_symbol (replicate (length ls) 0, code_offsets cs) (enumerate 0 ls)) (\<lambda>(syms, _).
     Inr \<lparr>code_counts = cs, code_symbols = syms\<rparr>)))"

primrec decode_over :: "huffman \<Rightarrow> nat list \<Rightarrow> int \<Rightarrow> int \<Rightarrow> int \<Rightarrow> bits \<Rightarrow> inflate_error + nat \<times> bits" where
  "decode_over h [] code first index b = Inl CodeTooLong"
| "decode_over h (l # ls) code first index b =
     bindR (take_bits 1 b) (\<lambda>(w, b').
     let code' = code OR int w; count = int (code_counts h ! l) in
     if code' - count < first
     then let i = index + (code' - first) in
          if 0 \<le> i \<and> i < int (length (code_symbols h)) then Inr (code_symbols h ! nat i, b')
          else Inl Panicked
     else decode_over h ls (push_bit 1 code') (push_bit 1 (first + count)) (index + count) b')"

definition decode :: "huffman \<Rightarrow> bits \<Rightarrow> inflate_error + nat \<times> bits" where
  "decode h b = decode_over h [1..<16] 0 0 0 b"

lemma decode_over_left: "decode_over h ls code first index b = Inr (s, b') \<Longrightarrow> bits_left b' < bits_left b"
proof (induction ls arbitrary: code first index b)
  case (Cons l ls)
  then obtain w b1 where t: "take_bits 1 b = Inr (w, b1)" by (auto simp: result_simps)
  note bits_left = take_bits_left [OF t]
  show ?case
  proof (cases "b' = b1")
    case False
    then show ?thesis using Cons.prems Cons.IH t bits_left
      by (fastforce simp: result_simps Let_def split: if_splits)
  qed (use bits_left in simp)
qed simp

lemma decode_left: "decode h b = Inr (s, b') \<Longrightarrow> bits_left b' < bits_left b"
  by (simp add: decode_def decode_over_left)

section \<open>The tables\<close>

definition LENGTH_BASE :: "nat list" where
  "LENGTH_BASE = [3, 4, 5, 6, 7, 8, 9, 10, 11, 13, 15, 17, 19, 23, 27, 31, 35, 43, 51, 59, 67, 83, 99,
     115, 131, 163, 195, 227, 258]"

definition LENGTH_EXTRA :: "nat list" where
  "LENGTH_EXTRA = [0, 0, 0, 0, 0, 0, 0, 0, 1, 1, 1, 1, 2, 2, 2, 2, 3, 3, 3, 3, 4, 4, 4, 4, 5, 5, 5, 5, 0]"

definition DISTANCE_BASE :: "nat list" where
  "DISTANCE_BASE = [1, 2, 3, 4, 5, 7, 9, 13, 17, 25, 33, 49, 65, 97, 129, 193, 257, 385, 513, 769, 1025,
     1537, 2049, 3073, 4097, 6145, 8193, 12289, 16385, 24577]"

definition DISTANCE_EXTRA :: "nat list" where
  "DISTANCE_EXTRA = [0, 0, 0, 0, 1, 1, 2, 2, 3, 3, 4, 4, 5, 5, 6, 6, 7, 7, 8, 8, 9, 9, 10, 10, 11, 11, 12,
     12, 13, 13]"

definition CODE_LENGTH_ORDER :: "nat list" where
  "CODE_LENGTH_ORDER = [16, 17, 18, 0, 8, 7, 9, 6, 10, 5, 11, 4, 12, 3, 13, 2, 14, 1, 15]"

definition fixed_codes :: "inflate_error + huffman \<times> huffman" where
  "fixed_codes =
     bindR (huffman_new (replicate 144 8 @ replicate 112 9 @ replicate 24 7 @ replicate 8 8)) (\<lambda>lit.
     bindR (huffman_new (replicate 30 5)) (\<lambda>dist. Inr (lit, dist)))"

definition order_step :: "nat list \<times> bits \<Rightarrow> nat \<Rightarrow> inflate_error + nat list \<times> bits" where
  "order_step = (\<lambda>(order, b) position.
     bindR (take_bits 3 b) (\<lambda>(v, b'). Inr (order[position := v], b')))"

definition repeat_of :: "nat list \<Rightarrow> nat \<Rightarrow> nat \<Rightarrow> bits \<Rightarrow> inflate_error + (nat \<times> nat) \<times> bits" where
  "repeat_of lengths i symbol b =
     (if symbol \<le> 15 then Inr ((symbol, 1), b)
      else if symbol = 16 then
        (if i = 0 then Inl NoPreviousLength
         else bindR (take_bits 2 b) (\<lambda>(n, b'). Inr ((lengths ! (i - 1), 3 + n), b')))
      else if symbol = 17 then bindR (take_bits 3 b) (\<lambda>(n, b'). Inr ((0, 3 + n), b'))
      else if symbol = 18 then bindR (take_bits 7 b) (\<lambda>(n, b'). Inr ((0, 11 + n), b'))
      else Inl LengthSymbolRange)"

lemma repeat_positive: "repeat_of lengths i symbol b = Inr ((v, n), b') \<Longrightarrow> 0 < n"
  by (auto simp: repeat_of_def result_simps split: if_splits)

function read_lengths :: "huffman \<Rightarrow> nat list \<Rightarrow> nat \<Rightarrow> bits \<Rightarrow> inflate_error + nat list \<times> bits" where
  "read_lengths h lengths i b =
     (if i < length lengths then
        bindR (decode h b) (\<lambda>(symbol, b1).
        bindR (repeat_of lengths i symbol b1) (\<lambda>((v, n), b2).
        if i + n > length lengths then Inl LengthsPastCount
        else read_lengths h (take i lengths @ replicate n v @ drop (i + n) lengths) (i + n) b2))
      else Inr (lengths, b))"
  by pat_completeness auto

termination
  by (relation "measure (\<lambda>(h, lengths, i, b). length lengths - i)") (auto dest: repeat_positive)

declare read_lengths.simps [simp del]

definition dynamic_tables :: "nat \<Rightarrow> nat \<Rightarrow> nat \<Rightarrow> bits \<Rightarrow> inflate_error + (huffman \<times> huffman) \<times> bits" where
  "dynamic_tables literals distances code_lengths b =
     bindR (foldR order_step (replicate 19 0, b) (take code_lengths CODE_LENGTH_ORDER)) (\<lambda>(order, b1).
     bindR (huffman_new order) (\<lambda>length_code.
     bindR (read_lengths length_code (replicate (literals + distances) 0) 0 b1) (\<lambda>(lengths, b2).
     if length lengths \<le> 256 then Inl Panicked
     else if lengths ! 256 = 0 then Inl NoEndOfBlock
     else
     bindR (huffman_new (take literals lengths)) (\<lambda>lit.
     bindR (huffman_new (drop literals lengths)) (\<lambda>dist. Inr ((lit, dist), b2))))))"

definition dynamic_codes :: "bits \<Rightarrow> inflate_error + (huffman \<times> huffman) \<times> bits" where
  "dynamic_codes b =
     bindR (take_bits 5 b) (\<lambda>(hlit, b1).
     bindR (take_bits 5 b1) (\<lambda>(hdist, b2).
     bindR (take_bits 4 b2) (\<lambda>(hclen, b3).
     let literals = hlit + 257; distances = hdist + 1; code_lengths = hclen + 4 in
     if literals > 286 \<or> distances > 30 then Inl TooManyCodes
     else dynamic_tables literals distances code_lengths b3)))"

section \<open>Blocks\<close>

definition over :: "nat \<Rightarrow> nat \<Rightarrow> inflate_error + unit" where
  "over limit grown = (if grown > limit then Inl (PastLimit limit) else Inr ())"

definition copy_step :: "nat \<Rightarrow> bytes \<Rightarrow> nat \<Rightarrow> inflate_error + bytes" where
  "copy_step start out k = (if start + k < length out then Inr (out @ [out ! (start + k)]) else Inl Panicked)"

definition copy_match :: "huffman \<Rightarrow> nat \<Rightarrow> nat \<Rightarrow> bytes \<Rightarrow> bits \<Rightarrow> inflate_error + bytes \<times> bits" where
  "copy_match distance limit symbol out b =
     (let index = symbol - 257 in
     bindR (take_bits (LENGTH_EXTRA ! index) b) (\<lambda>(extra, b1).
     let length' = LENGTH_BASE ! index + extra in
     bindR (decode distance b1) (\<lambda>(code, b2).
     if code \<ge> 30 then Inl DistanceRange
     else
     bindR (take_bits (DISTANCE_EXTRA ! code) b2) (\<lambda>(extra', b3).
     let back = DISTANCE_BASE ! code + extra' in
     if back > length out then Inl BeforeStart
     else
     bindR (over limit (length out + length')) (\<lambda>_.
     bindR (foldR (copy_step (length out - back)) out [0..<length']) (\<lambda>out'. Inr (out', b3)))))))"

lemma copy_match_left: "copy_match distance limit symbol out b = Inr (out', b') \<Longrightarrow> bits_left b' \<le> bits_left b"
  by (fastforce simp: copy_match_def Let_def result_simps dest!: take_bits_left decode_left split: if_splits)

function inflate_symbols :: "huffman \<Rightarrow> huffman \<Rightarrow> nat \<Rightarrow> bytes \<Rightarrow> bits \<Rightarrow> inflate_error + bytes \<times> bits" where
  "inflate_symbols literal distance limit out b =
     bindR (decode literal b) (\<lambda>(symbol, b1).
     if symbol \<le> 255 then
       bindR (over limit (length out + 1)) (\<lambda>_.
       inflate_symbols literal distance limit (out @ [of_nat symbol]) b1)
     else if symbol = 256 then Inr (out, b1)
     else if symbol \<le> 285 then
       bindR (copy_match distance limit symbol out b1) (\<lambda>(out', b2).
       inflate_symbols literal distance limit out' b2)
     else Inl SymbolRange)"
  by pat_completeness auto

termination
  by (relation "measure (\<lambda>(literal, distance, limit, out, b). bits_left b)")
    (auto dest!: decode_left copy_match_left)

declare inflate_symbols.simps [simp del]

definition stored_block :: "nat \<Rightarrow> bytes \<Rightarrow> bits \<Rightarrow> inflate_error + bytes \<times> bits" where
  "stored_block limit out b0 =
     (let b = align b0; data = bits_data b in
     if length data < bits_at b + 4 then Inl NoStoredLength
     else
     let header = take 4 (drop (bits_at b) data);
         len = (from_le (take 2 header) :: 16 word); check = from_le (drop 2 header) in
     if len \<noteq> NOT check then Inl StoredLengthCheck
     else
     let at = bits_at b + 4 in
     if length data < at + unat len then Inl StoredShort
     else
     let body = take (unat len) (drop at data) in
     bindR (over limit (length out + length body)) (\<lambda>_.
     Inr (out @ body, b\<lparr>bits_at := at + unat len\<rparr>)))"

definition coded_block :: "nat \<Rightarrow> nat \<Rightarrow> bytes \<Rightarrow> bits \<Rightarrow> inflate_error + bytes \<times> bits" where
  "coded_block kind limit out b =
     bindR (if kind = 1 then bindR fixed_codes (\<lambda>codes. Inr (codes, b)) else dynamic_codes b)
       (\<lambda>((literal, distance), b1). inflate_symbols literal distance limit out b1)"

definition inflate_block :: "nat \<Rightarrow> nat \<Rightarrow> bytes \<Rightarrow> bits \<Rightarrow> inflate_error + bytes \<times> bits" where
  "inflate_block kind limit out b =
     (if kind = 0 then stored_block limit out b
      else if kind = 1 \<or> kind = 2 then coded_block kind limit out b
      else Inl ReservedType)"

lemma inflate_symbols_left:
  "inflate_symbols literal distance limit out b = Inr (out', b') \<Longrightarrow> bits_left b' \<le> bits_left b"
proof (induction literal distance limit out b arbitrary: out' b' rule: inflate_symbols.induct)
  case (1 literal distance limit out b)
  then obtain symbol b1 where d: "decode literal b = Inr (symbol, b1)"
    by (auto simp: inflate_symbols.simps [of literal distance limit out b] result_simps)
  note l = decode_left [OF d]
  consider "symbol \<le> 255" | "symbol = 256" | "256 < symbol" "symbol \<le> 285" | "285 < symbol" by linarith
  then show ?case
  proof cases
    case 1
    then have "over limit (length out + 1) = Inr ()"
      and "inflate_symbols literal distance limit (out @ [of_nat symbol]) b1 = Inr (out', b')"
      using "1.prems" d by (auto simp: inflate_symbols.simps [of literal distance limit out b] result_simps)
    then show ?thesis using "1.IH"(1) [OF d refl] 1 l by fastforce
  next
    case 3
    then obtain o2 b2 where c: "copy_match distance limit symbol out b1 = Inr (o2, b2)"
      and i: "inflate_symbols literal distance limit o2 b2 = Inr (out', b')"
      using "1.prems" d by (auto simp: inflate_symbols.simps [of literal distance limit out b] result_simps)
    then show ?thesis using "1.IH"(2) [OF d refl _ _ _ c refl i] 3 l copy_match_left [OF c] by simp
  qed (use "1.prems" d l in \<open>auto simp: inflate_symbols.simps [of literal distance limit out b]\<close>)
qed

lemma order_left:
  "foldR order_step (order, b) ps = Inr (order', b') \<Longrightarrow> bits_left b' \<le> bits_left b"
  by (induction ps arbitrary: order b) (fastforce simp: order_step_def result_simps dest: take_bits_left)+

lemma read_lengths_left:
  "read_lengths h lengths i b = Inr (lengths', b') \<Longrightarrow> bits_left b' \<le> bits_left b"
proof (induction h lengths i b rule: read_lengths.induct)
  case (1 h lengths i b)
  show ?case
  proof (cases "i < length lengths")
    case True
    then obtain s b1 v n b2 where d: "decode h b = Inr (s, b1)"
      and r: "repeat_of lengths i s b1 = Inr ((v, n), b2)" and n: "\<not> i + n > length lengths"
      and c: "read_lengths h (take i lengths @ replicate n v @ drop (i + n) lengths) (i + n) b2 = Inr (lengths', b')"
      using "1.prems" by (fastforce simp: read_lengths.simps [of h lengths i b] result_simps split: if_splits)
    have "bits_left b2 \<le> bits_left b1"
      using r by (auto simp: repeat_of_def result_simps dest: take_bits_left split: if_splits)
    moreover have "bits_left b' \<le> bits_left b2" by (rule "1.IH" [OF True d refl r refl refl n c])
    ultimately show ?thesis using decode_left [OF d] by simp
  qed (use 1 in \<open>simp add: read_lengths.simps\<close>)
qed

lemma dynamic_codes_left: "dynamic_codes b = Inr (codes, b') \<Longrightarrow> bits_left b' \<le> bits_left b"
  by (fastforce simp: dynamic_codes_def dynamic_tables_def Let_def result_simps
      dest!: take_bits_left order_left read_lengths_left split: if_splits)

lemma stored_block_left: "bits_bit b < 8 \<Longrightarrow> stored_block limit out b = Inr (out', b') \<Longrightarrow> bits_left b' \<le> bits_left b"
  using align_left [of b] by (auto simp: stored_block_def Let_def result_simps bits_left_def split: if_splits)

lemma inflate_block_left: "bits_bit b < 8 \<Longrightarrow> inflate_block kind limit out b = Inr (out', b') \<Longrightarrow> bits_left b' \<le> bits_left b"
  by (fastforce simp: inflate_block_def coded_block_def result_simps
      dest: stored_block_left inflate_symbols_left dynamic_codes_left split: if_splits)

function inflate_blocks :: "nat \<Rightarrow> bytes \<Rightarrow> bits \<Rightarrow> inflate_error + bytes \<times> bits" where
  "inflate_blocks limit out b =
     bindR (take_bits 1 b) (\<lambda>(last, b1).
     bindR (take_bits 2 b1) (\<lambda>(kind, b2).
     bindR (inflate_block kind limit out b2) (\<lambda>(out', b3).
     if last = 1 then Inr (out', b3) else inflate_blocks limit out' b3)))"
  by pat_completeness auto

termination
proof (relation "measure (\<lambda>(limit, out, b). bits_left b)", goal_cases)
  case (2 limit out b r1 last b1 r2 kind b2 r3 out' b3)
  then have t: "take_bits 1 b = Inr (last, b1)" "take_bits 2 b1 = Inr (kind, b2)"
    and i: "inflate_block kind limit out b2 = Inr (out', b3)" by simp_all
  have "bits_left b3 \<le> bits_left b2" by (rule inflate_block_left [OF take_bits_below [OF t(2)] i]) simp
  then show ?case using take_bits_left [OF t(1)] take_bits_left [OF t(2)] by simp
qed simp

declare inflate_blocks.simps [simp del]

definition inflate :: "bytes \<Rightarrow> nat \<Rightarrow> inflate_error + bytes \<times> nat" where
  "inflate data limit =
     bindR (inflate_blocks limit [] \<lparr>bits_data = data, bits_at = 0, bits_bit = 0\<rparr>) (\<lambda>(out, b).
     Inr (out, bits_at (align b)))"

section \<open>Adler-32 and zlib\<close>

definition adler_byte :: "32 word \<times> 32 word \<Rightarrow> byte \<Rightarrow> 32 word \<times> 32 word" where
  "adler_byte = (\<lambda>(a, b) byte. let a' = a + ucast byte in (a', b + a'))"

definition adler_chunk :: "32 word \<times> 32 word \<Rightarrow> bytes \<Rightarrow> 32 word \<times> 32 word" where
  "adler_chunk ab chunk = (let (a, b) = foldl adler_byte ab chunk in (a mod 65521, b mod 65521))"

definition adler32 :: "bytes \<Rightarrow> 32 word" where
  "adler32 data = (let (a, b) = foldl adler_chunk (1, 0) (chunks 5552 data) in push_bit 16 b OR a)"

definition zlib_decompress :: "bytes \<Rightarrow> nat \<Rightarrow> inflate_error + bytes" where
  "zlib_decompress data limit =
     (case data of
        cmf # flags # body \<Rightarrow>
          if cmf AND 0x0f \<noteq> 8 then Inl (ZlibMethod (cmf AND 0x0f))
          else if (push_bit 8 (ucast cmf) OR ucast flags :: 16 word) mod 31 \<noteq> 0 then Inl ZlibHeaderCheck
          else if flags AND 0x20 \<noteq> 0 then Inl PresetDictionary
          else
          bindR (inflate body limit) (\<lambda>(out, used).
          if length data < 2 + used + 4 then Inl NoZlibTrailer
          else if adler32 out \<noteq> from_be (take 4 (drop (2 + used) data)) then Inl AdlerMismatch
          else Inr out)
      | _ \<Rightarrow> Inl NoZlibHeader)"

end
