(* ===== verification/InflateBits.thy ===== *)
theory InflateBits
  imports Inflate
begin

text \<open>
  The bit reader of inflate as a list of booleans: \<open>stream_bits\<close> is what is still to read, least
  significant bit of a byte first. A good reader is one inside its data, which every step keeps.
\<close>

unbundle bit_operations_syntax

definition byte_bits :: "byte \<Rightarrow> bool list" where
  "byte_bits c = map (bit c) [0..<8]"

definition stream_bits :: "bits \<Rightarrow> bool list" where
  "stream_bits b = drop (bits_bit b) (concat (map byte_bits (drop (bits_at b) (bits_data b))))"

definition good_bits :: "bits \<Rightarrow> bool" where
  "good_bits b \<longleftrightarrow> bits_bit b < 8 \<and> (bits_at b < length (bits_data b) \<or> bits_at b = length (bits_data b) \<and> bits_bit b = 0)"

lemma good_start: "good_bits \<lparr>bits_data = data, bits_at = 0, bits_bit = 0\<rparr>"
  by (auto simp: good_bits_def)

lemma good_next: "good_bits b \<Longrightarrow> bits_at b < length (bits_data b) \<Longrightarrow> good_bits (next_bit b)"
  by (auto simp: good_bits_def next_bit_def)

lemma next_bit_data [simp]: "bits_data (next_bit b) = bits_data b"
  by (simp add: next_bit_def)

lemma drop_byte_bits: "k < 8 \<Longrightarrow> drop k (byte_bits c) = bit c k # drop (Suc k) (byte_bits c)"
  using Cons_nth_drop_Suc [of k "byte_bits c"] by (simp add: byte_bits_def)

lemma length_byte_bits [simp]: "length (byte_bits c) = 8"
  by (simp add: byte_bits_def)

lemma stream_next:
  assumes "bits_at b < length (bits_data b)" "bits_bit b < 8"
  shows "stream_bits b = bit (bits_data b ! bits_at b) (bits_bit b) # stream_bits (next_bit b)"
proof -
  let ?c = "bits_data b ! bits_at b" and ?k = "bits_bit b"
  have d: "drop (bits_at b) (bits_data b) = ?c # drop (Suc (bits_at b)) (bits_data b)"
    by (rule Cons_nth_drop_Suc [symmetric, OF assms(1)])
  have "stream_bits b = drop ?k (byte_bits ?c) @ concat (map byte_bits (drop (Suc (bits_at b)) (bits_data b)))"
    using assms(2) by (simp add: stream_bits_def d)
  also have "\<dots> = bit ?c ?k # drop (Suc ?k) (byte_bits ?c) @ concat (map byte_bits (drop (Suc (bits_at b)) (bits_data b)))"
    by (simp add: drop_byte_bits [OF assms(2)])
  also have "\<dots> = bit ?c ?k # stream_bits (next_bit b)"
    using assms(2) by (auto simp: stream_bits_def next_bit_def d)
  finally show ?thesis .
qed

lemma stream_end: "good_bits b \<Longrightarrow> \<not> bits_at b < length (bits_data b) \<Longrightarrow> stream_bits b = []"
  by (auto simp: good_bits_def stream_bits_def)

text \<open>One bit.\<close>

lemma one_bit: "(0 OR push_bit 0 (ucast (drop_bit k (c :: byte) AND 1)) :: 32 word) = of_bool (bit c k)"
  by (simp add: and_one_eq flip: bit_iff_odd_drop_bit odd_iff_mod_2_eq_one) (simp add: bit_iff_odd_drop_bit odd_iff_mod_2_eq_one)

lemma take_one:
  assumes "good_bits b"
  shows "take_bits 1 b = (case stream_bits b of [] \<Rightarrow> Inl MiddleOfBlock | x # r \<Rightarrow> Inr (of_bool x, next_bit b))"
    and "stream_bits b = x # r \<Longrightarrow> stream_bits (next_bit b) = r \<and> good_bits (next_bit b)"
proof -
  have k: "bits_bit b < 8" using assms by (simp add: good_bits_def)
  show "take_bits 1 b = (case stream_bits b of [] \<Rightarrow> Inl MiddleOfBlock | x # r \<Rightarrow> Inr (of_bool x, next_bit b))"
  proof (cases "bits_at b < length (bits_data b)")
    case True
    then show ?thesis using k stream_next [OF True k]
      by (simp only: take_bits_def One_nat_def take_loop.simps if_True one_bit) simp
  qed (use assms stream_end in \<open>simp add: take_bits_def\<close>)
  show "stream_bits b = x # r \<Longrightarrow> stream_bits (next_bit b) = r \<and> good_bits (next_bit b)"
    using stream_next [OF _ k] stream_end [OF assms] good_next [OF assms]
    by (cases "bits_at b < length (bits_data b)") auto
qed

text \<open>Any number of bits: no panic, the reader stays good and over the same data.\<close>

lemma take_loop_good:
  "good_bits b \<Longrightarrow> take_loop n i w b = r \<Longrightarrow>
     (case r of Inl e \<Rightarrow> e \<noteq> Panicked | Inr (_, b') \<Rightarrow> good_bits b' \<and> bits_data b' = bits_data b)"
proof (induction n arbitrary: i w b)
  case 0
  then show ?case by auto
next
  case (Suc n)
  show ?case
  proof (cases "bits_at b < length (bits_data b)")
    case True
    then have "take_loop n (i + 1)
        (w OR push_bit i (ucast (drop_bit (bits_bit b) (bits_data b ! bits_at b) AND 1))) (next_bit b) = r"
      using Suc.prems by (simp add: good_bits_def)
    from Suc.IH [OF good_next [OF Suc.prems(1) True] this] show ?thesis by (simp only: next_bit_data)
  qed (use Suc.prems in auto)
qed

lemma take_bits_good:
  assumes "good_bits b"
  shows "take_bits n b \<noteq> Inl Panicked"
    and "take_bits n b = Inr (v, b') \<Longrightarrow> good_bits b'"
    and "take_bits n b = Inr (v, b') \<Longrightarrow> bits_data b' = bits_data b"
  using take_loop_good [OF assms refl, of n 0 0] by (auto simp: take_bits_def result_simps split: sum.splits)

lemma take_loop_below_power:
  "take_loop n i w b = Inr (w', b') \<Longrightarrow> (\<forall>j. bit w j \<longrightarrow> j < i) \<Longrightarrow> \<forall>j. bit w' j \<longrightarrow> j < i + n"
proof (induction n arbitrary: i w b)
  case (Suc n)
  let ?w = "w OR push_bit i (ucast (drop_bit (bits_bit b) (bits_data b ! bits_at b) AND 1))"
  have "\<forall>j. bit ?w j \<longrightarrow> j < i + 1"
    using Suc.prems(2) by (auto simp: bit_or_iff bit_push_bit_iff bit_unsigned_iff bit_and_iff bit_1_iff less_Suc_eq)
  moreover have "take_loop n (i + 1) ?w (next_bit b) = Inr (w', b')"
    using Suc.prems(1) by (simp split: if_splits)
  ultimately have "\<forall>j. bit w' j \<longrightarrow> j < (i + 1) + n" using Suc.IH by blast
  then show ?case by simp
qed auto

lemma bits_below_unat: "(\<forall>j. bit (w :: 32 word) j \<longrightarrow> j < n) \<Longrightarrow> unat w < 2 ^ n"
proof -
  assume "\<forall>j. bit w j \<longrightarrow> j < n"
  then have "take_bit n w = w" by (auto simp: bit_eq_iff bit_take_bit_iff)
  then have "unat w = take_bit n (unat w)" by (metis unsigned_take_bit_eq)
  then show ?thesis by (metis take_bit_nat_less_exp)
qed

lemma take_bits_less: "take_bits n b = Inr (v, b') \<Longrightarrow> v < 2 ^ n"
  by (auto simp: take_bits_def result_simps dest!: take_loop_below_power intro!: bits_below_unat)

lemma align_good: "good_bits b \<Longrightarrow> good_bits (align b) \<and> bits_data (align b) = bits_data b"
  by (auto simp: good_bits_def align_def)

end
