(* ===== verification/HuffmanLaws.thy ===== *)
theory HuffmanLaws
  imports InflateBits
begin

text \<open>
  What \<open>Huffman::new\<close> builds and \<open>decode\<close> reads: the counts, the symbols in code order, and the
  canonical codes of RFC 1951 section 3.2.2, given here as that section gives them. A code is
  accepted only when its codes fit their lengths; then decoding a symbol is reading its code.
\<close>

section \<open>The canonical code of RFC 1951\<close>

definition tally :: "nat list \<Rightarrow> nat \<Rightarrow> nat" where
  "tally ls l = (if l = 0 then 0 else count_list ls l)"

primrec next_code :: "nat list \<Rightarrow> nat \<Rightarrow> nat" where
  "next_code ls 0 = 0"
| "next_code ls (Suc l) = 2 * (next_code ls l + tally ls l)"

definition rfc_code :: "nat list \<Rightarrow> nat \<Rightarrow> nat" where
  "rfc_code ls s = next_code ls (ls ! s) + count_list (take s ls) (ls ! s)"

definition bits_value :: "bool list \<Rightarrow> nat" where
  "bits_value xs = foldl (\<lambda>v x. 2 * v + of_bool x) 0 xs"

definition spells :: "nat list \<Rightarrow> nat \<Rightarrow> bool list \<Rightarrow> bool" where
  "spells ls s xs \<longleftrightarrow> s < length ls \<and> 0 < ls ! s \<and> length xs = ls ! s \<and> bits_value xs = rfc_code ls s"

lemma count_take_less:
  assumes "s < length ls"
  shows "count_list (take s ls) (ls ! s) < count_list ls (ls ! s)"
proof -
  have "count_list ls (ls ! s) = count_list (take s ls) (ls ! s) + count_list (ls ! s # drop (Suc s) ls) (ls ! s)"
    using id_take_nth_drop [OF assms] by (metis count_list_append)
  then show ?thesis by simp
qed

lemma count_take_mono: "i \<le> j \<Longrightarrow> count_list (take i ls) x \<le> count_list (take j ls) x"
  by (metis count_list_append le_add1 le_add_diff_inverse take_add)

lemma count_take_strict:
  assumes "i < j" "j \<le> length ls"
  shows "count_list (take i ls) (ls ! i) < count_list (take j ls) (ls ! i)"
proof -
  have "take (Suc i) ls = take i ls @ [ls ! i]" using assms by (simp add: take_Suc_conv_app_nth)
  then have "count_list (take i ls) (ls ! i) < count_list (take (Suc i) ls) (ls ! i)" by simp
  also have "\<dots> \<le> count_list (take j ls) (ls ! i)" using assms by (intro count_take_mono) simp
  finally show ?thesis .
qed

text \<open>The n-th place at which a list holds a value.\<close>

lemma nth_occurrence:
  "k < count_list ls x \<Longrightarrow> \<exists>s < length ls. ls ! s = x \<and> count_list (take s ls) x = k"
proof (induction ls rule: rev_induct)
  case (snoc y ls)
  show ?case
  proof (cases "k < count_list ls x")
    case True
    then obtain s where "s < length ls" "ls ! s = x" "count_list (take s ls) x = k" using snoc.IH by blast
    then show ?thesis by (intro exI [of _ s]) (simp add: nth_append)
  next
    case False
    then have "y = x" "k = count_list ls x" using snoc.prems by (auto split: if_splits)
    then show ?thesis by (intro exI [of _ "length ls"]) simp
  qed
qed simp

section \<open>Counting\<close>

lemma count_fold:
  "foldR count_length cs ls = Inr cs' \<Longrightarrow> length cs = 16 \<Longrightarrow>
     length cs' = 16 \<and> (\<forall>l < 16. cs' ! l = cs ! l + count_list ls l) \<and> (\<forall>l \<in> set ls. l < 16)"
proof (induction ls arbitrary: cs)
  case (Cons x ls)
  then obtain cs1 where c: "count_length cs x = Inr cs1" and r1: "foldR count_length cs1 ls = Inr cs'"
    by (auto simp: result_simps)
  then have x: "x < 16" and r: "foldR count_length (cs[x := cs ! x + 1]) ls = Inr cs'"
    by (simp_all add: count_length_def split: if_splits)
  show ?case using Cons.IH [OF r] Cons.prems(2) x by (simp add: nth_list_update)
qed simp

lemma count_fold_total: "(\<forall>l \<in> set ls. l < 16) \<Longrightarrow> \<exists>cs'. foldR count_length cs ls = Inr cs'"
  by (induction ls arbitrary: cs) (auto simp: count_length_def)

definition offset_of :: "nat list \<Rightarrow> nat \<Rightarrow> nat" where
  "offset_of ls l = (\<Sum>k < l. tally ls k)"

lemma offset_Suc: "offset_of ls (Suc l) = offset_of ls l + tally ls l"
  by (simp add: offset_of_def)

lemma offset_mono: "l < m \<Longrightarrow> offset_of ls l + tally ls l \<le> offset_of ls m"
proof -
  assume "l < m"
  then have "offset_of ls (Suc l) \<le> offset_of ls m"
    unfolding offset_of_def by (intro sum_mono2) auto
  then show ?thesis by (simp add: offset_Suc)
qed

lemma tally_total: "(\<Sum>k < m. tally ls k) \<le> length ls"
proof (induction ls)
  case (Cons x ls)
  have "(\<Sum>k < m. tally (x # ls) k) \<le> (\<Sum>k < m. tally ls k + (if k = x then 1 else 0))"
    by (rule sum_mono) (simp add: tally_def)
  also have "\<dots> \<le> length ls + 1" using Cons by (simp add: sum.distrib)
  finally show ?case by simp
qed (simp add: tally_def)

lemma offset_total: "offset_of ls l + tally ls l \<le> length ls"
  using tally_total [of ls "Suc l"] by (simp add: offset_of_def)

lemma code_offsets_ok:
  assumes "length cs = 16" "\<forall>l < 16. cs ! l = tally ls l"
  shows "length (code_offsets cs) = 16" "l < 16 \<Longrightarrow> code_offsets cs ! l = offset_of ls l"
proof -
  define F where "F = (\<lambda>os l. os[l := os ! (l - 1) + cs ! (l - 1)])"
  have f: "n \<le> 16 \<Longrightarrow> 1 \<le> n \<Longrightarrow> length (foldl F (replicate 16 0) [1..<n]) = 16 \<and>
      (\<forall>l < n. foldl F (replicate 16 0) [1..<n] ! l = offset_of ls l)" for n
  proof (induction n)
    case (Suc n)
    show ?case
    proof (cases "n = 0")
      case False
      then have IH: "length (foldl F (replicate 16 0) [1..<n]) = 16"
        "\<forall>l < n. foldl F (replicate 16 0) [1..<n] ! l = offset_of ls l" using Suc by auto
      have e: "foldl F (replicate 16 0) [1..<Suc n] = F (foldl F (replicate 16 0) [1..<n]) n" using False by simp
      obtain m where m: "n = Suc m" using False by (cases n) auto
      show ?thesis unfolding e using IH m Suc.prems assms(2)
        by (auto simp: F_def nth_list_update less_Suc_eq offset_Suc)
    qed (simp add: offset_of_def)
  qed simp
  have e: "code_offsets cs = foldl F (replicate 16 0) [1..<16]" by (simp only: code_offsets_def F_def)
  show "length (code_offsets cs) = 16" "l < 16 \<Longrightarrow> code_offsets cs ! l = offset_of ls l"
    unfolding e using f [of 16] by auto
qed

section \<open>The check that the codes fit\<close>

lemma left_fold:
  assumes "foldR left_after (2 ^ j - int (next_code ls j + tally ls j)) (map (tally ls) [Suc j..<m]) = Inr z"
    and "j < l" "l < m"
  shows "next_code ls l + tally ls l \<le> 2 ^ l"
  using assms
proof (induction "m - j" arbitrary: j)
  case (Suc n)
  have e: "[Suc j..<m] = Suc j # [Suc (Suc j)..<m]" using Suc.prems by (simp add: upt_conv_Cons)
  have k: "(2 ^ j - int (next_code ls j + tally ls j)) * 2 - int (tally ls (Suc j))
      = 2 ^ Suc j - int (next_code ls (Suc j) + tally ls (Suc j))" by simp
  have fit: "\<not> 2 ^ Suc j - int (next_code ls (Suc j) + tally ls (Suc j)) < 0"
    and rest: "foldR left_after (2 ^ Suc j - int (next_code ls (Suc j) + tally ls (Suc j)))
      (map (tally ls) [Suc (Suc j)..<m]) = Inr z"
    using Suc.prems(1) unfolding e list.map foldR.simps left_after_def k Let_def
    by (simp_all only: result_simps split: if_splits) auto
  have "int (next_code ls (Suc j) + tally ls (Suc j)) \<le> int (2 ^ Suc j)" using fit by simp
  then have this': "next_code ls (Suc j) + tally ls (Suc j) \<le> 2 ^ Suc j" by (simp only: of_nat_le_iff)
  show ?case
  proof (cases "l = Suc j")
    case False
    then show ?thesis using Suc.hyps(1) [OF _ rest] Suc.hyps(2) Suc.prems by simp
  qed (use this' in simp)
qed simp

section \<open>Placing the symbols\<close>

definition place_of :: "nat list \<Rightarrow> nat \<Rightarrow> nat" where
  "place_of ls s = offset_of ls (ls ! s) + count_list (take s ls) (ls ! s)"

lemma place_less: "s < length ls \<Longrightarrow> 0 < ls ! s \<Longrightarrow> place_of ls s < offset_of ls (ls ! s) + tally ls (ls ! s)"
  using count_take_less [of s ls] by (simp add: place_of_def tally_def)

lemma place_inj:
  assumes "s < t" "t < length ls" "0 < ls ! s" "0 < ls ! t"
  shows "place_of ls s \<noteq> place_of ls t"
proof -
  have s: "s < length ls" using assms by simp
  consider "ls ! s = ls ! t" | "ls ! s < ls ! t" | "ls ! t < ls ! s" by linarith
  then show ?thesis
  proof cases
    case 1
    then show ?thesis using count_take_strict [of s t ls] assms by (simp add: place_of_def)
  next
    case 2
    then show ?thesis using place_less [OF s assms(3)] offset_mono [OF 2, of ls] by (simp add: place_of_def)
  next
    case 3
    then show ?thesis using place_less [OF assms(2,4)] offset_mono [OF 3, of ls] by (simp add: place_of_def)
  qed
qed

lemma enumerate_snoc: "m < length ls \<Longrightarrow> take (Suc m) (enumerate 0 ls) = take m (enumerate 0 ls) @ [(m, ls ! m)]"
  by (simp add: take_Suc_conv_app_nth nth_enumerate_eq)

lemma place_fold:
  assumes "\<forall>l \<in> set ls. l < 16" "length os = 16" "\<forall>l < 16. os ! l = offset_of ls l" "m \<le> length ls"
  shows "\<exists>syms os'. foldR place_symbol (replicate (length ls) 0, os) (take m (enumerate 0 ls)) = Inr (syms, os')
     \<and> length syms = length ls \<and> length os' = 16
     \<and> (\<forall>l. 0 < l \<longrightarrow> l < 16 \<longrightarrow> os' ! l = offset_of ls l + count_list (take m ls) l)
     \<and> (\<forall>s < m. 0 < ls ! s \<longrightarrow> syms ! place_of ls s = s)"
  using assms(4)
proof (induction m)
  case (Suc m)
  then obtain syms os' where IH: "foldR place_symbol (replicate (length ls) 0, os) (take m (enumerate 0 ls)) = Inr (syms, os')"
    "length syms = length ls" "length os' = 16"
    "\<forall>l. 0 < l \<longrightarrow> l < 16 \<longrightarrow> os' ! l = offset_of ls l + count_list (take m ls) l"
    "\<forall>s < m. 0 < ls ! s \<longrightarrow> syms ! place_of ls s = s" by auto
  have m: "m < length ls" and l: "ls ! m < 16" using Suc.prems assms(1) by auto
  have t: "take (Suc m) ls = take m ls @ [ls ! m]" using m by (simp add: take_Suc_conv_app_nth)
  show ?case
  proof (cases "ls ! m = 0")
    case True
    then show ?thesis using IH m
      by (auto simp: enumerate_snoc foldR_append place_symbol_def t less_Suc_eq)
  next
    case False
    have p: "os' ! (ls ! m) = place_of ls m" using IH(4) l False by (simp add: place_of_def)
    have less: "place_of ls m < length syms"
      using place_less [OF m] offset_total [of ls "ls ! m"] False IH(2) by simp
    have kept: "syms[place_of ls m := m] ! place_of ls s = s" if "s < m" "0 < ls ! s" for s
      using place_inj [OF that(1) m that(2)] IH(5) that False by simp
    have offs: "os'[ls ! m := os' ! (ls ! m) + 1] ! k = offset_of ls k + count_list (take (Suc m) ls) k"
      if "0 < k" "k < 16" for k
      using IH(3,4) that l by (simp add: nth_list_update t)
    have "foldR place_symbol (replicate (length ls) 0, os) (take (Suc m) (enumerate 0 ls))
        = Inr (syms[place_of ls m := m], os'[ls ! m := os' ! (ls ! m) + 1])"
      using IH(1) False less by (simp add: enumerate_snoc [OF m] foldR_append place_symbol_def p)
    then show ?thesis using IH(2,3) less kept offs by (auto simp: less_Suc_eq)
  qed
qed (use assms(2,3) in simp)

section \<open>What a built code holds\<close>

definition holds_code :: "nat list \<Rightarrow> huffman \<Rightarrow> bool" where
  "holds_code ls h \<longleftrightarrow> (\<forall>l \<in> set ls. l < 16)
     \<and> (\<forall>l < 16. code_counts h ! l = tally ls l)
     \<and> length (code_symbols h) = length ls
     \<and> (\<forall>s < length ls. 0 < ls ! s \<longrightarrow> code_symbols h ! place_of ls s = s)
     \<and> (\<forall>l < 16. next_code ls l + tally ls l \<le> 2 ^ l)"

lemma huffman_new_cases:
  assumes "\<forall>l \<in> set ls. l < 16"
  shows "case huffman_new ls of Inl e \<Rightarrow> e = Oversubscribed | Inr h \<Rightarrow> holds_code ls h"
proof -
  obtain cs0 where c0: "foldR count_length (replicate 16 0) ls = Inr cs0" using count_fold_total [OF assms] by blast
  define cs where "cs = cs0[0 := 0]"
  have c: "length cs = 16" "\<forall>l < 16. cs ! l = tally ls l"
    using count_fold [OF c0] by (auto simp: cs_def tally_def nth_list_update)
  have d: "drop 1 cs = map (tally ls) [Suc 0..<16]"
    by (rule nth_equalityI) (use c in \<open>auto simp del: upt_rec_numeral\<close>)
  have s: "(1 :: int) = 2 ^ 0 - int (next_code ls 0 + tally ls 0)" by (simp add: tally_def)
  obtain syms os where p: "foldR place_symbol (replicate (length ls) 0, code_offsets cs) (enumerate 0 ls) = Inr (syms, os)"
    "length syms = length ls" "\<forall>s < length ls. 0 < ls ! s \<longrightarrow> syms ! place_of ls s = s"
    using place_fold [OF assms code_offsets_ok(1) [OF c], of "length ls"] code_offsets_ok(2) [OF c] by auto
  show ?thesis
  proof (cases "foldR left_after 1 (drop 1 cs)")
    case (Inl e)
    have "foldR left_after z xs = Inl e \<Longrightarrow> e = Oversubscribed" for z xs
      by (induction xs arbitrary: z) (auto simp: left_after_def result_simps Let_def split: if_splits)
    then have "e = Oversubscribed" using Inl by blast
    then show ?thesis using Inl by (simp only: huffman_new_def c0 bindR_simps Let_def cs_def [symmetric]) simp
  next
    case (Inr z)
    have "next_code ls l + tally ls l \<le> 2 ^ l" if "l < 16" for l
      using left_fold [of 0 ls 16 z l] Inr that unfolding d s by (cases "l = 0") (simp_all add: tally_def)
    then have "holds_code ls \<lparr>code_counts = cs, code_symbols = syms\<rparr>"
      using assms c p by (simp add: holds_code_def)
    then show ?thesis using p Inr by (simp only: huffman_new_def c0 bindR_simps Let_def cs_def [symmetric]) simp
  qed
qed

lemma huffman_new_holds: "huffman_new ls = Inr h \<Longrightarrow> holds_code ls h"
proof -
  assume h: "huffman_new ls = Inr h"
  then obtain cs0 where "foldR count_length (replicate 16 0) ls = Inr cs0" by (auto simp: huffman_new_def result_simps)
  then have "\<forall>l \<in> set ls. l < 16" using count_fold by fastforce
  from huffman_new_cases [OF this] h show "holds_code ls h" by simp
qed

end
