(* ===== verification/HuffmanDecode.thy ===== *)
theory HuffmanDecode
  imports HuffmanLaws
begin

text \<open>
  Decoding with an accepted code reads exactly the canonical codes of RFC 1951: the loop over the
  lengths 1 to 15 keeps the value of the bits read so far, the first code of the length and the
  place of its first symbol.
\<close>

unbundle bit_operations_syntax

lemma bits_value_from: "foldl (\<lambda>v x. 2 * v + of_bool x) v xs = v * 2 ^ length xs + bits_value xs"
proof (induction xs arbitrary: v)
  case (Cons x xs)
  show ?case using Cons [of "2 * v + of_bool x"] Cons [of "of_bool x"]
    by (simp add: bits_value_def algebra_simps)
qed (simp add: bits_value_def)

lemma bits_value_Cons: "bits_value (x # xs) = of_bool x * 2 ^ length xs + bits_value xs"
  using bits_value_from [of "of_bool x" xs] by (simp add: bits_value_def)

lemma bits_value_less: "bits_value xs < 2 ^ length xs"
  by (induction xs) (auto simp: bits_value_Cons, simp add: bits_value_def)

lemma extended_value: "c * 2 ^ length (x # xs) + bits_value (x # xs) = (2 * c + of_bool x) * 2 ^ length xs + bits_value xs"
  by (simp add: bits_value_Cons algebra_simps)

lemma next_code_grows:
  "l < m \<Longrightarrow> (next_code ls l + tally ls l) * 2 ^ (m - l) \<le> next_code ls m"
proof (induction m)
  case (Suc m)
  show ?case
  proof (cases "l = m")
    case False
    then have "(next_code ls l + tally ls l) * 2 ^ (m - l) \<le> next_code ls m" using Suc by simp
    then have "2 * ((next_code ls l + tally ls l) * 2 ^ (m - l)) \<le> 2 * (next_code ls m + tally ls m)" by simp
    moreover have "Suc m - l = Suc (m - l)" using False Suc.prems by simp
    ultimately show ?thesis by (simp add: algebra_simps)
  qed simp
qed simp

lemma rfc_code_bounds:
  assumes "s < length ls" "0 < ls ! s"
  shows "next_code ls (ls ! s) \<le> rfc_code ls s" "rfc_code ls s < next_code ls (ls ! s) + tally ls (ls ! s)"
  using count_take_less [OF assms(1)] assms(2) by (simp_all add: rfc_code_def tally_def)

lemma rfc_code_inj:
  assumes "s < length ls" "t < length ls" "ls ! s = ls ! t" "rfc_code ls s = rfc_code ls t"
  shows "s = t"
proof (rule ccontr)
  assume "s \<noteq> t"
  then consider "s < t" | "t < s" by linarith
  then show False
  proof cases
    case 1
    then show False using count_take_strict [OF 1, of ls] assms by (simp add: rfc_code_def)
  next
    case 2
    then show False using count_take_strict [OF 2, of ls] assms by (simp add: rfc_code_def)
  qed
qed

lemma or_new_bit: "(2 * int c) OR int (of_bool x) = int (2 * c + of_bool x)"
  by (cases x) (simp_all add: or_one_eq)

lemma decode_step:
  assumes h: "holds_code ls h" and l: "0 < l" "l < 16" and b: "good_bits b" "stream_bits b = x # r"
    and c: "next_code ls l \<le> 2 * c"
  defines "c' \<equiv> 2 * c + of_bool x"
  shows "decode_over h (l # rest) (2 * int c) (int (next_code ls l)) (int (offset_of ls l)) b =
     (if c' < next_code ls l + tally ls l
      then Inr (code_symbols h ! (offset_of ls l + (c' - next_code ls l)), next_bit b)
      else decode_over h rest (2 * int c') (int (next_code ls (Suc l))) (int (offset_of ls (Suc l))) (next_bit b))"
proof -
  have t: "take_bits 1 b = Inr (of_bool x, next_bit b)" using take_one(1) [OF b(1)] b(2) by simp
  have counts: "code_counts h ! l = tally ls l" and len: "length (code_symbols h) = length ls"
    using h l(2) by (simp_all add: holds_code_def)
  have total: "offset_of ls l + tally ls l \<le> length ls" by (rule offset_total)
  have ge: "next_code ls l \<le> c'" using c by (simp add: c'_def)
  have o: "(2 * int c) OR int (of_bool x) = int c'" unfolding c'_def by (rule or_new_bit)
  have i: "int (offset_of ls l) + (int c' - int (next_code ls l)) = int (offset_of ls l + (c' - next_code ls l))"
    using ge by simp
  have in': "c' < next_code ls l + tally ls l \<Longrightarrow>
      0 \<le> int (offset_of ls l + (c' - next_code ls l))
      \<and> int (offset_of ls l + (c' - next_code ls l)) < int (length (code_symbols h))"
    using ge len total by simp
  have p: "push_bit 1 (int c') = 2 * int c'"
    "push_bit 1 (int (next_code ls l) + int (tally ls l)) = int (next_code ls (Suc l))"
    "int (offset_of ls l) + int (tally ls l) = int (offset_of ls (Suc l))"
    by (simp_all add: push_bit_eq_mult offset_Suc)
  have lt: "int c' - int (tally ls l) < int (next_code ls l) \<longleftrightarrow> c' < next_code ls l + tally ls l" by linarith
  show ?thesis
    unfolding decode_over.simps t bindR_simps prod.case Let_def o counts lt i p nat_int
    by (simp only: in' simp_thms if_True cong: if_cong)
qed

lemma decode_here:
  assumes h: "holds_code ls h" and "0 < l" "l < 16" "next_code ls l \<le> c'" "c' < next_code ls l + tally ls l"
  shows "\<exists>s < length ls. ls ! s = l \<and> rfc_code ls s = c'
    \<and> code_symbols h ! (offset_of ls l + (c' - next_code ls l)) = s"
proof -
  have "c' - next_code ls l < count_list ls l" using assms(2,4,5) by (simp add: tally_def less_diff_conv2)
  from nth_occurrence [OF this] obtain s
    where s: "s < length ls" "ls ! s = l" "count_list (take s ls) l = c' - next_code ls l" by (elim exE conjE)
  have "code_symbols h ! place_of ls s = s" using h s(1,2) assms(2) by (simp add: holds_code_def)
  moreover have "place_of ls s = offset_of ls l + (c' - next_code ls l)" by (simp only: place_of_def s)
  moreover have "rfc_code ls s = c'" unfolding rfc_code_def s using assms(4) by simp
  ultimately show ?thesis using s(1,2) by metis
qed

definition codeword_ahead :: "nat list \<Rightarrow> nat \<Rightarrow> nat \<Rightarrow> bits \<Rightarrow> nat \<Rightarrow> bits \<Rightarrow> bool" where
  "codeword_ahead ls l c b s b' \<longleftrightarrow> (\<exists>xs r. stream_bits b = xs @ r \<and> xs \<noteq> [] \<and> b' = (next_bit ^^ length xs) b
     \<and> s < length ls \<and> ls ! s = l + length xs \<and> rfc_code ls s = c * 2 ^ length xs + bits_value xs)"

lemma codeword_ahead_Nil: "stream_bits b = [] \<Longrightarrow> \<not> codeword_ahead ls l c b s b'"
  by (auto simp: codeword_ahead_def)

lemma codeword_ahead_Cons:
  assumes "good_bits b" "stream_bits b = x # r"
  shows "codeword_ahead ls l c b s b' \<longleftrightarrow>
     (b' = next_bit b \<and> s < length ls \<and> ls ! s = Suc l \<and> rfc_code ls s = 2 * c + of_bool x)
     \<or> codeword_ahead ls (Suc l) (2 * c + of_bool x) (next_bit b) s b'" (is "_ \<longleftrightarrow> ?one \<or> ?more")
proof
  note n = take_one(2) [OF assms]
  assume "codeword_ahead ls l c b s b'"
  then obtain xs r' where x: "x # r = xs @ r'" "xs \<noteq> []" "b' = (next_bit ^^ length xs) b"
    "s < length ls" "ls ! s = l + length xs" "rfc_code ls s = c * 2 ^ length xs + bits_value xs"
    using assms(2) by (auto simp: codeword_ahead_def)
  then obtain ys where ys: "xs = x # ys" "r = ys @ r'" by (cases xs) auto
  show "?one \<or> ?more"
  proof (cases "ys = []")
    case True
    then show ?thesis using x ys by (simp add: bits_value_def)
  next
    case False
    have "rfc_code ls s = (2 * c + of_bool x) * 2 ^ length ys + bits_value ys"
      using x(6) unfolding ys(1) extended_value .
    moreover have "b' = (next_bit ^^ length ys) (next_bit b)" using x(3) ys(1) by (simp add: funpow_swap1)
    ultimately have ?more unfolding codeword_ahead_def
      using False x(4,5) ys n by (intro exI [of _ ys] exI [of _ r']) simp
    then show ?thesis ..
  qed
next
  note n = take_one(2) [OF assms]
  assume "?one \<or> ?more"
  then show "codeword_ahead ls l c b s b'"
  proof
    assume ?one
    then show ?thesis unfolding codeword_ahead_def
      using assms(2) by (intro exI [of _ "[x]"] exI [of _ r]) (simp add: bits_value_def)
  next
    assume ?more
    then obtain ys r' where y: "r = ys @ r'" "ys \<noteq> []" "b' = (next_bit ^^ length ys) (next_bit b)"
      "s < length ls" "ls ! s = Suc l + length ys"
      "rfc_code ls s = (2 * c + of_bool x) * 2 ^ length ys + bits_value ys"
      using n by (auto simp: codeword_ahead_def)
    have "rfc_code ls s = c * 2 ^ length (x # ys) + bits_value (x # ys)" unfolding extended_value by (rule y(6))
    then show ?thesis unfolding codeword_ahead_def
      using assms(2) y by (intro exI [of _ "x # ys"] exI [of _ r']) (simp add: funpow_swap1)
  qed
qed

lemma codeword_ahead_code:
  assumes "codeword_ahead ls l c b s b'"
  shows "l < ls ! s" "next_code ls (ls ! s) \<le> rfc_code ls s" "rfc_code ls s < (c + 1) * 2 ^ (ls ! s - l)"
  using assms rfc_code_bounds(1) [of s ls] bits_value_less by (fastforce simp: codeword_ahead_def)+

lemma decode_over_exact:
  assumes h: "holds_code ls h"
  shows "good_bits b \<Longrightarrow> 0 < l \<Longrightarrow> l \<le> 16 \<Longrightarrow> next_code ls l \<le> 2 * c \<Longrightarrow>
    decode_over h [l..<16] (2 * int c) (int (next_code ls l)) (int (offset_of ls l)) b = Inr (s, b')
     \<longleftrightarrow> codeword_ahead ls (l - 1) c b s b'"
proof (induction "16 - l" arbitrary: l c b)
  case 0
  then have l: "l = 16" by simp
  have "s < length ls \<Longrightarrow> ls ! s < 16" using h by (simp add: holds_code_def)
  then have "\<not> codeword_ahead ls (l - 1) c b s b'" unfolding codeword_ahead_def l by auto
  then show ?case unfolding l by simp
next
  case (Suc n)
  then have l: "l < 16" and e: "[l..<16] = l # [Suc l..<16]" by (simp_all add: upt_conv_Cons)
  show ?case
  proof (cases "stream_bits b")
    case Nil
    then show ?thesis using take_one(1) [OF Suc.prems(1)] codeword_ahead_Nil [OF Nil] by (simp add: e)
  next
    case (Cons x r)
    define c' where "c' = 2 * c + of_bool x"
    have ge: "next_code ls l \<le> c'" using Suc.prems(4) by (simp add: c'_def)
    note step = decode_step [OF h Suc.prems(2) l Suc.prems(1) Cons Suc.prems(4), folded c'_def]
    have l1: "Suc (l - 1) = l" using Suc.prems(2) by simp
    note ahead = codeword_ahead_Cons [OF Suc.prems(1) Cons, of ls "l - 1" c s b', folded c'_def, unfolded l1]
    show ?thesis
    proof (cases "c' < next_code ls l + tally ls l")
      case True
      obtain s0 where s0: "s0 < length ls" "ls ! s0 = l" "rfc_code ls s0 = c'"
        "code_symbols h ! (offset_of ls l + (c' - next_code ls l)) = s0"
        using decode_here [OF h Suc.prems(2) l ge True] by blast
      have "\<not> codeword_ahead ls l c' (next_bit b) s b'"
      proof
        assume a: "codeword_ahead ls l c' (next_bit b) s b'"
        have "(c' + 1) * 2 ^ (ls ! s - l) \<le> (next_code ls l + tally ls l) * 2 ^ (ls ! s - l)"
          using True by (intro mult_right_mono) simp_all
        also have "\<dots> \<le> next_code ls (ls ! s)" by (rule next_code_grows) (rule codeword_ahead_code(1) [OF a])
        finally show False using codeword_ahead_code(2,3) [OF a] by simp
      qed
      then show ?thesis unfolding e step ahead using True s0 rfc_code_inj [of s ls s0] by auto
    next
      case False
      have "2 * (next_code ls l + tally ls l) \<le> 2 * c'" using False by simp
      then have le: "next_code ls (Suc l) \<le> 2 * c'" by simp
      have "\<not> (s < length ls \<and> ls ! s = l \<and> rfc_code ls s = c')"
        using rfc_code_bounds(2) [of s ls] Suc.prems(2) False by auto
      moreover have "good_bits (next_bit b)" using take_one(2) [OF Suc.prems(1) Cons] by simp
      ultimately show ?thesis unfolding e step ahead
        using Suc.hyps(1) [of "Suc l" "next_bit b" c'] Suc.hyps(2) False l le by auto
    qed
  qed
qed

lemma decode_exact:
  assumes "huffman_new ls = Inr h" and "good_bits b"
  shows "decode h b = Inr (s, b')
    \<longleftrightarrow> (\<exists>xs r. stream_bits b = xs @ r \<and> spells ls s xs \<and> b' = (next_bit ^^ length xs) b)"
proof -
  have z: "int (next_code ls 1) = 0" "int (offset_of ls 1) = 0" by (simp_all add: tally_def offset_of_def)
  have "decode h b = Inr (s, b') \<longleftrightarrow> codeword_ahead ls 0 0 b s b'"
    using decode_over_exact [OF huffman_new_holds [OF assms(1)] assms(2), of 1 0 s b'] z
    by (simp add: decode_def)
  also have "\<dots> \<longleftrightarrow> (\<exists>xs r. stream_bits b = xs @ r \<and> spells ls s xs \<and> b' = (next_bit ^^ length xs) b)"
    unfolding codeword_ahead_def spells_def by fastforce
  finally show ?thesis .
qed

text \<open>No panic, and a reader inside its data stays there.\<close>

lemma decode_over_errors:
  assumes h: "holds_code ls h"
  shows "good_bits b \<Longrightarrow> 0 < l \<Longrightarrow> l \<le> 16 \<Longrightarrow> next_code ls l \<le> 2 * c \<Longrightarrow>
    decode_over h [l..<16] (2 * int c) (int (next_code ls l)) (int (offset_of ls l)) b \<noteq> Inl Panicked"
proof (induction "16 - l" arbitrary: l c b)
  case (Suc n)
  then have l: "l < 16" and e: "[l..<16] = l # [Suc l..<16]" by (simp_all add: upt_conv_Cons)
  show ?case
  proof (cases "stream_bits b")
    case Nil
    then show ?thesis using take_one(1) [OF Suc.prems(1)] by (simp add: e)
  next
    case (Cons x r)
    note step = decode_step [OF h Suc.prems(2) l Suc.prems(1) Cons Suc.prems(4)]
    have "good_bits (next_bit b)" using take_one(2) [OF Suc.prems(1) Cons] by simp
    then show ?thesis unfolding e step using Suc.hyps(1) [of "Suc l" "next_bit b" "2 * c + of_bool x"] Suc.hyps(2) l
      by (auto simp del: decode_over.simps)
  qed
qed simp

lemma decode_over_good:
  "good_bits b \<Longrightarrow> decode_over h ls code first index b = Inr (s, b') \<Longrightarrow> good_bits b' \<and> bits_data b' = bits_data b"
proof (induction ls arbitrary: code first index b)
  case (Cons l ls)
  then obtain w b1 where t: "take_bits 1 b = Inr (w, b1)" by (auto simp: result_simps)
  note g = take_bits_good(2,3) [OF Cons.prems(1) t]
  show ?case
  proof (cases "b' = b1")
    case False
    then obtain c f i where "decode_over h ls c f i b1 = Inr (s, b')"
      using Cons.prems(2) unfolding decode_over.simps t bindR_simps prod.case Let_def
      by (auto split: if_splits)
    from Cons.IH [OF g(1) this] g(2) show ?thesis by simp
  qed (use g in simp)
qed simp

lemma decode_good:
  assumes "huffman_new ls = Inr h" and "good_bits b"
  shows "decode h b \<noteq> Inl Panicked"
    and "decode h b = Inr (s, b') \<Longrightarrow> good_bits b' \<and> bits_data b' = bits_data b \<and> s < length ls"
proof -
  have z: "int (next_code ls 1) = 0" "int (offset_of ls 1) = 0" by (simp_all add: tally_def offset_of_def)
  show "decode h b \<noteq> Inl Panicked"
    using decode_over_errors [OF huffman_new_holds [OF assms(1)] assms(2), of 1 0] z by (simp add: decode_def)
  assume d: "decode h b = Inr (s, b')"
  have "s < length ls" using d decode_exact [OF assms] by (auto simp: spells_def)
  then show "good_bits b' \<and> bits_data b' = bits_data b \<and> s < length ls"
    using decode_over_good [OF assms(2)] d unfolding decode_def by blast
qed

end
