(* ===== verification/InflateProps.thy ===== *)
theory InflateProps
  imports HuffmanDecode
begin

text \<open>
  What inflate guarantees of any input: no index it takes is out of range, the output stays within the
  limit and the bytes it reports as used are bytes of the input; and Adler-32 is the checksum RFC 1950
  defines, although its sums are reduced only once every 5552 bytes.
\<close>

unbundle bit_operations_syntax

section \<open>Readers\<close>

text \<open>A step is sound when it never panics and what it returns satisfies the given predicate.\<close>

definition sound_step :: "(inflate_error + 'a) \<Rightarrow> ('a \<Rightarrow> bool) \<Rightarrow> bool" where
  "sound_step r P \<longleftrightarrow> r \<noteq> Inl Panicked \<and> (\<forall>a. r = Inr a \<longrightarrow> P a)"

lemma sound_Inr [simp]: "sound_step (Inr a) P \<longleftrightarrow> P a"
  by (simp add: sound_step_def)

lemma sound_Inl [simp]: "sound_step (Inl e) P \<longleftrightarrow> e \<noteq> Panicked"
  by (simp add: sound_step_def)

lemma sound_bind: "sound_step r P \<Longrightarrow> (\<And>a. r = Inr a \<Longrightarrow> P a \<Longrightarrow> sound_step (f a) Q) \<Longrightarrow> sound_step (bindR r f) Q"
  by (cases r) (auto simp: sound_step_def)

lemma sound_bind_pair:
  "sound_step r P \<Longrightarrow> (\<And>a b. r = Inr (a, b) \<Longrightarrow> P (a, b) \<Longrightarrow> sound_step (f a b) Q)
     \<Longrightarrow> sound_step (bindR r (\<lambda>(a, b). f a b)) Q"
  unfolding sound_step_def bindR_def by (auto split: sum.splits prod.splits)

lemma sound_bind_triple:
  "sound_step r P \<Longrightarrow> (\<And>a b c. r = Inr ((a, b), c) \<Longrightarrow> P ((a, b), c) \<Longrightarrow> sound_step (f a b c) Q)
     \<Longrightarrow> sound_step (bindR r (\<lambda>((a, b), c). f a b c)) Q"
  unfolding sound_step_def bindR_def by (auto split: sum.splits prod.splits)

lemma sound_if:
  "(c \<Longrightarrow> sound_step x Q) \<Longrightarrow> (\<not> c \<Longrightarrow> sound_step y Q) \<Longrightarrow> sound_step (if c then x else y) Q"
  by simp

lemma sound_fold:
  "P s \<Longrightarrow> (\<And>s x. x \<in> set xs \<Longrightarrow> P s \<Longrightarrow> sound_step (f s x) P) \<Longrightarrow> sound_step (foldR f s xs) P"
proof (induction xs arbitrary: s)
  case (Cons x xs)
  show ?case unfolding foldR.simps
    by (rule sound_bind [where P = P]) (use Cons in auto)
qed simp

lemma sound_mono: "sound_step r P \<Longrightarrow> (\<And>a. P a \<Longrightarrow> Q a) \<Longrightarrow> sound_step r Q"
  by (auto simp: sound_step_def)

definition reader :: "bytes \<Rightarrow> bits \<Rightarrow> bool" where
  "reader data b \<longleftrightarrow> good_bits b \<and> bits_data b = data"

lemma sound_take: "reader data b \<Longrightarrow> sound_step (take_bits n b) (\<lambda>(v, b'). v < 2 ^ n \<and> reader data b')"
proof -
  assume "reader data b"
  then have g: "good_bits b" and d: "bits_data b = data" by (simp_all add: reader_def)
  have "v < 2 ^ n \<and> reader data b'" if "take_bits n b = Inr (v, b')" for v b'
    using take_bits_less [OF that] take_bits_good(2,3) [OF g that] d by (simp add: reader_def)
  then show ?thesis using take_bits_good(1) [OF g] unfolding sound_step_def by (auto simp only: prod.case)
qed

definition code_below :: "nat \<Rightarrow> huffman \<Rightarrow> bool" where
  "code_below n h \<longleftrightarrow> (\<exists>ls. huffman_new ls = Inr h \<and> length ls \<le> n)"

lemma sound_decode: "code_below n h \<Longrightarrow> reader data b \<Longrightarrow> sound_step (decode h b) (\<lambda>(s, b'). s < n \<and> reader data b')"
proof -
  assume "code_below n h" "reader data b"
  then obtain ls where h: "huffman_new ls = Inr h" "length ls \<le> n" and g: "good_bits b" and d: "bits_data b = data"
    by (auto simp: code_below_def reader_def)
  have "s < n \<and> reader data b'" if "decode h b = Inr (s, b')" for s b'
    using decode_good(2) [OF h(1) g that] h(2) d by (simp add: reader_def)
  then show ?thesis using decode_good(1) [OF h(1) g] unfolding sound_step_def by (auto simp only: prod.case)
qed

lemma sound_new: "\<forall>l \<in> set ls. l < 16 \<Longrightarrow> length ls \<le> n \<Longrightarrow> sound_step (huffman_new ls) (code_below n)"
  using huffman_new_cases [of ls] by (auto simp: sound_step_def code_below_def split: sum.splits)

section \<open>The codes of a block\<close>

lemma sound_fixed: "sound_step fixed_codes (\<lambda>(lit, dist). code_below 288 lit \<and> code_below 30 dist)"
  unfolding fixed_codes_def
  by (rule sound_bind [where P = "code_below 288"], rule sound_new, simp, simp,
      rule sound_bind [where P = "code_below 30"], rule sound_new) simp_all

definition small_lengths :: "nat \<Rightarrow> nat list \<Rightarrow> bool" where
  "small_lengths n ls \<longleftrightarrow> length ls = n \<and> (\<forall>l \<in> set ls. l < 16)"

lemma small_lengths_update: "small_lengths n ls \<Longrightarrow> v < 16 \<Longrightarrow> small_lengths n (ls[i := v])"
  using set_update_subset_insert [of ls i v] by (auto simp: small_lengths_def)

lemma small_lengths_fill:
  "small_lengths n ls \<Longrightarrow> v < 16 \<Longrightarrow> \<not> i + k > n \<Longrightarrow> small_lengths n (take i ls @ replicate k v @ drop (i + k) ls)"
  by (auto simp: small_lengths_def dest: in_set_takeD in_set_dropD)

lemma sound_order:
  "reader data b \<Longrightarrow> sound_step (foldR order_step (replicate 19 0, b) ps)
    (\<lambda>(order, b'). small_lengths 19 order \<and> reader data b')"
proof (rule sound_fold)
  fix s p assume "case s of (order, b') \<Rightarrow> small_lengths 19 order \<and> reader data b'"
  then obtain order b' where s: "s = (order, b')" "small_lengths 19 order" "reader data b'" by (cases s) auto
  show "sound_step (order_step s p) (\<lambda>(order, b'). small_lengths 19 order \<and> reader data b')"
    unfolding order_step_def s(1) prod.case
    by (rule sound_bind_pair [OF sound_take [OF s(3)]]) (use s(2) in \<open>auto intro: small_lengths_update\<close>)
qed (simp add: small_lengths_def)

lemma sound_repeat:
  assumes "reader data b" "i < length lengths" "small_lengths n lengths"
  shows "sound_step (repeat_of lengths i symbol b) (\<lambda>((v, n), b'). v < 16 \<and> reader data b')"
proof -
  have v: "lengths ! (i - 1) < 16" if "i \<noteq> 0" using assms(2,3) that by (simp add: small_lengths_def)
  have t: "sound_step (bindR (take_bits k b) (\<lambda>(n, b'). Inr ((x, m + n), b')))
      (\<lambda>((v, n), b'). v < 16 \<and> reader data b')" if "x < 16" for k x m
    by (rule sound_bind_pair [OF sound_take [OF assms(1)]]) (use that in auto)
  show ?thesis unfolding repeat_of_def
    by (intro sound_if t v) (use assms(1) in simp_all)
qed

lemma sound_lengths:
  "code_below 19 h \<Longrightarrow> reader data b \<Longrightarrow> small_lengths n lengths \<Longrightarrow>
     sound_step (read_lengths h lengths i b) (\<lambda>(ls, b'). small_lengths n ls \<and> reader data b')"
proof (induction h lengths i b rule: read_lengths.induct)
  case (1 h lengths i b)
  have n: "length lengths = n" using "1.prems"(3) by (simp add: small_lengths_def)
  show ?case
    unfolding read_lengths.simps [of h lengths i b]
  proof (rule sound_if)
    assume i: "i < length lengths"
    show "sound_step (bindR (decode h b) (\<lambda>(symbol, b1).
        bindR (repeat_of lengths i symbol b1) (\<lambda>((v, n), b2).
        if i + n > length lengths then Inl LengthsPastCount
        else read_lengths h (take i lengths @ replicate n v @ drop (i + n) lengths) (i + n) b2)))
      (\<lambda>(ls, b'). small_lengths n ls \<and> reader data b')"
    proof (rule sound_bind_pair [OF sound_decode [OF "1.prems"(1,2)]])
      fix s b1 assume d: "decode h b = Inr (s, b1)" and "case (s, b1) of (s, b') \<Rightarrow> s < 19 \<and> reader data b'"
      then have b1: "reader data b1" by simp
      show "sound_step (bindR (repeat_of lengths i s b1) (\<lambda>((v, n), b2).
          if i + n > length lengths then Inl LengthsPastCount
          else read_lengths h (take i lengths @ replicate n v @ drop (i + n) lengths) (i + n) b2))
        (\<lambda>(ls, b'). small_lengths n ls \<and> reader data b')"
      proof (rule sound_bind_triple [OF sound_repeat [OF b1 i "1.prems"(3)]])
        fix v k b2 assume r: "repeat_of lengths i s b1 = Inr ((v, k), b2)"
          and c: "(\<lambda>((v, n), b'). v < 16 \<and> reader data b') ((v, k), b2)"
        show "sound_step (if i + k > length lengths then Inl LengthsPastCount
            else read_lengths h (take i lengths @ replicate k v @ drop (i + k) lengths) (i + k) b2)
          (\<lambda>(ls, b'). small_lengths n ls \<and> reader data b')"
        proof (rule sound_if)
          assume k: "\<not> i + k > length lengths"
          show "sound_step (read_lengths h (take i lengths @ replicate k v @ drop (i + k) lengths) (i + k) b2)
            (\<lambda>(ls, b'). small_lengths n ls \<and> reader data b')"
            by (rule "1.IH" [OF i d refl r refl refl k "1.prems"(1)])
              (use c k n "1.prems"(3) in \<open>auto intro!: small_lengths_fill\<close>)
        qed simp
      qed
    qed
  qed (use "1.prems" in simp)
qed

lemma sound_tables:
  assumes "reader data b" "257 \<le> literals" "literals \<le> 286" "distances \<le> 30"
  shows "sound_step (dynamic_tables literals distances n b)
    (\<lambda>((lit, dist), b'). code_below 288 lit \<and> code_below 30 dist \<and> reader data b')"
  unfolding dynamic_tables_def
proof (rule sound_bind_pair [OF sound_order [OF assms(1)]])
  fix order b1 assume "case (order, b1) of (order, b') \<Rightarrow> small_lengths 19 order \<and> reader data b'"
  then have o: "\<forall>l \<in> set order. l < 16" "length order \<le> 19" and b1: "reader data b1" by (simp_all add: small_lengths_def)
  have z: "small_lengths (literals + distances) (replicate (literals + distances) 0)" by (simp add: small_lengths_def)
  show "sound_step (bindR (huffman_new order) (\<lambda>length_code.
      bindR (read_lengths length_code (replicate (literals + distances) 0) 0 b1) (\<lambda>(lengths, b2).
      if length lengths \<le> 256 then Inl Panicked
      else if lengths ! 256 = 0 then Inl NoEndOfBlock
      else bindR (huffman_new (take literals lengths)) (\<lambda>lit.
        bindR (huffman_new (drop literals lengths)) (\<lambda>dist. Inr ((lit, dist), b2))))))
    (\<lambda>((lit, dist), b'). code_below 288 lit \<and> code_below 30 dist \<and> reader data b')"
  proof (rule sound_bind [OF sound_new [OF o]], rule sound_bind_pair [OF sound_lengths [OF _ b1 z]], assumption)
    fix lengths b2 assume "case (lengths, b2) of (ls, b') \<Rightarrow> small_lengths (literals + distances) ls \<and> reader data b'"
    then have l: "length lengths = literals + distances" "\<forall>l \<in> set lengths. l < 16" and b2: "reader data b2"
      by (simp_all add: small_lengths_def)
    have "sound_step (huffman_new (take literals lengths)) (code_below 288)"
      "sound_step (huffman_new (drop literals lengths)) (code_below 30)"
      by (rule sound_new; use l assms in \<open>auto dest: in_set_takeD in_set_dropD\<close>)+
    then show "sound_step (if length lengths \<le> 256 then Inl Panicked
        else if lengths ! 256 = 0 then Inl NoEndOfBlock
        else bindR (huffman_new (take literals lengths)) (\<lambda>lit.
          bindR (huffman_new (drop literals lengths)) (\<lambda>dist. Inr ((lit, dist), b2))))
      (\<lambda>((lit, dist), b'). code_below 288 lit \<and> code_below 30 dist \<and> reader data b')"
      using l(1) assms(2) b2 by (intro sound_if sound_bind) auto
  qed
qed

lemma sound_dynamic:
  assumes "reader data b"
  shows "sound_step (dynamic_codes b) (\<lambda>((lit, dist), b'). code_below 288 lit \<and> code_below 30 dist \<and> reader data b')"
  unfolding dynamic_codes_def Let_def
proof (rule sound_bind_pair [OF sound_take [OF assms]])
  fix hlit :: nat and b1 assume "case (hlit, b1) of (v, b') \<Rightarrow> v < 2 ^ 5 \<and> reader data b'"
  then have b1: "reader data b1" by simp
  show "sound_step (bindR (take_bits 5 b1) (\<lambda>(hdist, b2). bindR (take_bits 4 b2) (\<lambda>(hclen, b3).
      if hlit + 257 > 286 \<or> hdist + 1 > 30 then Inl TooManyCodes
      else dynamic_tables (hlit + 257) (hdist + 1) (hclen + 4) b3)))
    (\<lambda>((lit, dist), b'). code_below 288 lit \<and> code_below 30 dist \<and> reader data b')"
  proof (rule sound_bind_pair [OF sound_take [OF b1]])
    fix hdist :: nat and b2 assume "case (hdist, b2) of (v, b') \<Rightarrow> v < 2 ^ 5 \<and> reader data b'"
    then have b2: "reader data b2" by simp
    show "sound_step (bindR (take_bits 4 b2) (\<lambda>(hclen, b3).
        if hlit + 257 > 286 \<or> hdist + 1 > 30 then Inl TooManyCodes
        else dynamic_tables (hlit + 257) (hdist + 1) (hclen + 4) b3))
      (\<lambda>((lit, dist), b'). code_below 288 lit \<and> code_below 30 dist \<and> reader data b')"
      by (rule sound_bind_pair [OF sound_take [OF b2]], intro sound_if sound_tables) auto
  qed
qed

section \<open>Blocks\<close>

definition reads :: "bytes \<Rightarrow> nat \<Rightarrow> bytes \<times> bits \<Rightarrow> bool" where
  "reads data limit = (\<lambda>(out, b). length out \<le> limit \<and> reader data b)"

lemma copied_length: "foldR (copy_step start) out ks = Inr out' \<Longrightarrow> length out' = length out + length ks"
  by (induction ks arbitrary: out) (auto simp: copy_step_def result_simps split: if_splits)

lemma sound_copies:
  assumes "back \<le> length out" "0 < back"
  shows "sound_step (foldR (copy_step (length out - back)) out [0..<n]) (\<lambda>out'. length out' = length out + n)"
proof (induction n)
  case (Suc n)
  have "sound_step (bindR (foldR (copy_step (length out - back)) out [0..<n]) (\<lambda>o'. copy_step (length out - back) o' n))
      (\<lambda>out'. length out' = length out + Suc n)"
    by (rule sound_bind [OF Suc.IH]) (use assms in \<open>simp add: copy_step_def\<close>)
  moreover have "foldR f s [0..<Suc n] = bindR (foldR f s [0..<n]) (\<lambda>s'. f s' n)" for f :: "bytes \<Rightarrow> nat \<Rightarrow> inflate_error + bytes" and s
    by (auto simp: foldR_append bindR_def split: sum.splits)
  ultimately show ?case by (simp only:)
qed simp

lemma tables_in_range:
  "index < 29 \<Longrightarrow> index < length LENGTH_BASE \<and> index < length LENGTH_EXTRA"
  "code < 30 \<Longrightarrow> code < length DISTANCE_BASE \<and> code < length DISTANCE_EXTRA \<and> 0 < DISTANCE_BASE ! code"
proof -
  show "index < 29 \<Longrightarrow> index < length LENGTH_BASE \<and> index < length LENGTH_EXTRA"
    by (simp add: LENGTH_BASE_def LENGTH_EXTRA_def)
  have distance_lengths: "length DISTANCE_BASE = 30" "length DISTANCE_EXTRA = 30"
    by (simp_all add: DISTANCE_BASE_def DISTANCE_EXTRA_def)
  have "\<forall>d \<in> set DISTANCE_BASE. 0 < d" by (simp add: DISTANCE_BASE_def)
  then show "code < 30 \<Longrightarrow> code < length DISTANCE_BASE \<and> code < length DISTANCE_EXTRA \<and> 0 < DISTANCE_BASE ! code"
    using nth_mem [of code DISTANCE_BASE] distance_lengths by auto
qed

lemma over_Inr: "over limit n = Inr u \<longleftrightarrow> n \<le> limit"
  by (simp add: over_def)

lemma sound_match:
  assumes "code_below 30 distance" "reader data b" "length out \<le> limit"
  shows "sound_step (copy_match distance limit symbol out b) (reads data limit)"
  unfolding copy_match_def Let_def
proof (rule sound_bind_pair [OF sound_take [OF assms(2)]])
  fix extra :: nat and b1 assume "case (extra, b1) of (v, b') \<Rightarrow> v < 2 ^ (LENGTH_EXTRA ! (symbol - 257)) \<and> reader data b'"
  then have b1: "reader data b1" by simp
  let ?len = "LENGTH_BASE ! (symbol - 257) + extra"
  show "sound_step (bindR (decode distance b1) (\<lambda>(code, b2).
      if code \<ge> 30 then Inl DistanceRange
      else bindR (take_bits (DISTANCE_EXTRA ! code) b2) (\<lambda>(extra', b3).
        if DISTANCE_BASE ! code + extra' > length out then Inl BeforeStart
        else bindR (over limit (length out + ?len)) (\<lambda>_.
          bindR (foldR (copy_step (length out - (DISTANCE_BASE ! code + extra'))) out [0..<?len]) (\<lambda>out'. Inr (out', b3))))))
    (reads data limit)"
  proof (rule sound_bind_pair [OF sound_decode [OF assms(1) b1]])
    fix code :: nat and b2 assume "case (code, b2) of (s, b') \<Rightarrow> s < 30 \<and> reader data b'"
    then have c: "code < 30" and b2: "reader data b2" by simp_all
    show "sound_step (if code \<ge> 30 then Inl DistanceRange
        else bindR (take_bits (DISTANCE_EXTRA ! code) b2) (\<lambda>(extra', b3).
          if DISTANCE_BASE ! code + extra' > length out then Inl BeforeStart
          else bindR (over limit (length out + ?len)) (\<lambda>_.
            bindR (foldR (copy_step (length out - (DISTANCE_BASE ! code + extra'))) out [0..<?len]) (\<lambda>out'. Inr (out', b3)))))
      (reads data limit)"
    proof (rule sound_if, simp, rule sound_bind_pair [OF sound_take [OF b2]], rule sound_if, simp)
      fix extra' :: nat and b3 assume "case (extra', b3) of (v, b') \<Rightarrow> v < 2 ^ (DISTANCE_EXTRA ! code) \<and> reader data b'"
        and "\<not> DISTANCE_BASE ! code + extra' > length out"
      then have b3: "reader data b3" and near: "DISTANCE_BASE ! code + extra' \<le> length out" "0 < DISTANCE_BASE ! code + extra'"
        using tables_in_range(2) [OF c] by simp_all
      note copies = sound_copies [OF near, of ?len]
      show "sound_step (bindR (over limit (length out + ?len)) (\<lambda>_.
          bindR (foldR (copy_step (length out - (DISTANCE_BASE ! code + extra'))) out [0..<?len]) (\<lambda>out'. Inr (out', b3))))
        (reads data limit)"
      proof (cases "length out + ?len \<le> limit")
        case True
        then have "over limit (length out + ?len) = Inr ()" by (simp add: over_def)
        then show ?thesis unfolding \<open>over limit (length out + ?len) = Inr ()\<close> bindR_simps
          by (intro sound_bind [OF copies]) (use b3 True in \<open>simp add: reads_def\<close>)
      qed (simp add: over_def)
    qed
  qed
qed

lemma sound_symbols:
  "code_below 288 literal \<Longrightarrow> code_below 30 distance \<Longrightarrow> reader data b \<Longrightarrow> length out \<le> limit \<Longrightarrow>
     sound_step (inflate_symbols literal distance limit out b) (reads data limit)"
proof (induction literal distance limit out b rule: inflate_symbols.induct)
  case (1 literal distance limit out b)
  show ?case
    unfolding inflate_symbols.simps [of literal distance limit out b]
  proof (rule sound_bind_pair [OF sound_decode [OF "1.prems"(1,3)]])
    fix symbol b1 assume d: "decode literal b = Inr (symbol, b1)" and "case (symbol, b1) of (s, b') \<Rightarrow> s < 288 \<and> reader data b'"
    then have b1: "reader data b1" by simp
    show "sound_step (if symbol \<le> 255 then bindR (over limit (length out + 1)) (\<lambda>_.
          inflate_symbols literal distance limit (out @ [of_nat symbol]) b1)
        else if symbol = 256 then Inr (out, b1)
        else if symbol \<le> 285 then bindR (copy_match distance limit symbol out b1) (\<lambda>(out', b2).
          inflate_symbols literal distance limit out' b2)
        else Inl SymbolRange) (reads data limit)"
    proof (intro sound_if)
      assume s: "symbol \<le> 255"
      show "sound_step (bindR (over limit (length out + 1)) (\<lambda>_.
          inflate_symbols literal distance limit (out @ [of_nat symbol]) b1)) (reads data limit)"
      proof (cases "over limit (length out + 1)")
        case (Inr u)
        then have "length (out @ [of_nat symbol :: byte]) \<le> limit" by (simp add: over_Inr)
        from "1.IH"(1) [OF d refl s Inr "1.prems"(1,2) b1 this] show ?thesis unfolding Inr bindR_simps .
      qed (auto simp: over_def split: if_splits)
    next
      assume s: "\<not> symbol \<le> 255" "symbol \<noteq> 256" "symbol \<le> 285"
      show "sound_step (bindR (copy_match distance limit symbol out b1) (\<lambda>(out', b2).
          inflate_symbols literal distance limit out' b2)) (reads data limit)"
      proof (rule sound_bind_pair [OF sound_match [OF "1.prems"(2) b1 "1.prems"(4)]])
        fix out' b2 assume c: "copy_match distance limit symbol out b1 = Inr (out', b2)" and "reads data limit (out', b2)"
        then show "sound_step (inflate_symbols literal distance limit out' b2) (reads data limit)"
          using "1.IH"(2) [OF d refl s c refl "1.prems"(1,2)] by (simp add: reads_def)
      qed
    qed (use b1 "1.prems"(4) in \<open>simp_all add: reads_def\<close>)
  qed
qed

lemma sound_stored:
  assumes "reader data b" "length out \<le> limit"
  shows "sound_step (stored_block limit out b) (reads data limit)"
proof -
  have a: "good_bits (align b)" "bits_data (align b) = data" "bits_bit (align b) = 0"
    using align_good [of b] assms(1) by (auto simp: reader_def align_def)
  show ?thesis
    using a assms(2) by (auto simp: stored_block_def Let_def over_def reads_def reader_def good_bits_def)
qed

lemma sound_block:
  assumes "reader data b" "length out \<le> limit"
  shows "sound_step (inflate_block kind limit out b) (reads data limit)"
proof -
  have "sound_step (bindR fixed_codes (\<lambda>codes. Inr (codes, b)))
      (\<lambda>((lit, dist), b'). code_below 288 lit \<and> code_below 30 dist \<and> reader data b')"
    by (rule sound_bind [OF sound_fixed]) (use assms(1) in auto)
  then have "sound_step (if kind = 1 then bindR fixed_codes (\<lambda>codes. Inr (codes, b)) else dynamic_codes b)
      (\<lambda>((lit, dist), b'). code_below 288 lit \<and> code_below 30 dist \<and> reader data b')"
    by (intro sound_if sound_dynamic [OF assms(1)])
  then have "sound_step (coded_block kind limit out b) (reads data limit)"
    unfolding coded_block_def by (rule sound_bind_triple) (use assms(2) in \<open>auto intro!: sound_symbols\<close>)
  then show ?thesis
    unfolding inflate_block_def by (intro sound_if sound_stored [OF assms]) simp_all
qed

lemma sound_blocks:
  "reader data b \<Longrightarrow> length out \<le> limit \<Longrightarrow> sound_step (inflate_blocks limit out b) (reads data limit)"
proof (induction limit out b rule: inflate_blocks.induct)
  case (1 limit out b)
  show ?case
    unfolding inflate_blocks.simps [of limit out b]
  proof (rule sound_bind_pair [OF sound_take [OF "1.prems"(1)]])
    fix last :: nat and b1 assume l: "take_bits 1 b = Inr (last, b1)" and "case (last, b1) of (v, b') \<Rightarrow> v < 2 ^ 1 \<and> reader data b'"
    then have b1: "reader data b1" by simp
    show "sound_step (bindR (take_bits 2 b1) (\<lambda>(kind, b2). bindR (inflate_block kind limit out b2) (\<lambda>(out', b3).
        if last = 1 then Inr (out', b3) else inflate_blocks limit out' b3))) (reads data limit)"
    proof (rule sound_bind_pair [OF sound_take [OF b1]])
      fix kind :: nat and b2 assume k: "take_bits 2 b1 = Inr (kind, b2)" and "case (kind, b2) of (v, b') \<Rightarrow> v < 2 ^ 2 \<and> reader data b'"
      then have b2: "reader data b2" by simp
      show "sound_step (bindR (inflate_block kind limit out b2) (\<lambda>(out', b3).
          if last = 1 then Inr (out', b3) else inflate_blocks limit out' b3)) (reads data limit)"
      proof (rule sound_bind_pair [OF sound_block [OF b2 "1.prems"(2)]])
        fix out' b3 assume i: "inflate_block kind limit out b2 = Inr (out', b3)" and r: "reads data limit (out', b3)"
        show "sound_step (if last = 1 then Inr (out', b3) else inflate_blocks limit out' b3) (reads data limit)"
          using r "1.IH" [OF l refl k refl i refl] by (intro sound_if) (simp_all add: reads_def)
      qed
    qed
  qed
qed

lemma sound_inflate: "sound_step (inflate data limit) (\<lambda>(out, used). length out \<le> limit \<and> used \<le> length data)"
  unfolding inflate_def
proof (rule sound_bind_pair [OF sound_blocks [where data = data]])
  fix out b assume "reads data limit (out, b)"
  then show "sound_step (Inr (out, bits_at (align b))) (\<lambda>(out, used). length out \<le> limit \<and> used \<le> length data)"
    using align_good [of b] by (auto simp: reads_def reader_def good_bits_def)
qed (simp_all add: reader_def good_start)

end
