(* ===== verification/Adler.thy ===== *)
theory Adler
  imports InflateProps
begin

text \<open>
  Adler-32: the code reduces its sums once every 5552 bytes, the longest run after which 32 bits still
  hold them; RFC 1950 reduces at every byte. And the properties of inflate, stated for any input.
\<close>

unbundle bit_operations_syntax

definition adler_modulus :: nat where
  "adler_modulus = 65521"

definition rfc_adler_step :: "nat \<times> nat \<Rightarrow> byte \<Rightarrow> nat \<times> nat" where
  "rfc_adler_step = (\<lambda>(a, b) c. ((a + unat c) mod adler_modulus, (b + (a + unat c)) mod adler_modulus))"

definition rfc_adler :: "bytes \<Rightarrow> nat" where
  "rfc_adler data = (let (a, b) = foldl rfc_adler_step (1, 0) data in b * 2 ^ 16 + a)"

text \<open>The sums without any reduction.\<close>

definition plain_step :: "nat \<times> nat \<Rightarrow> byte \<Rightarrow> nat \<times> nat" where
  "plain_step = (\<lambda>(a, b) c. (a + unat c, b + (a + unat c)))"

definition unats :: "32 word \<times> 32 word \<Rightarrow> nat \<times> nat" where
  "unats = (\<lambda>(a, b). (unat a, unat b))"

lemma adler_add_small: "unat x + unat y < 2 ^ 32 \<Longrightarrow> unat (x + y :: 32 word) = unat x + unat y"
  by (simp add: unat_word_ariths)

lemma byte_le: "unat (c :: byte) \<le> 255"
proof -
  have "unat c < 256" using unsigned_less [of c] by simp
  then show ?thesis by simp
qed

lemma adler_fits:
  "unat a + 255 * length cs < 2 ^ 32 \<Longrightarrow>
   2 * unat b + 2 * (length cs * unat a) + 255 * (length cs * (length cs + 1)) < 2 ^ 33 \<Longrightarrow>
   unats (foldl adler_byte (a, b) cs) = foldl plain_step (unat a, unat b) cs"
proof (induction cs arbitrary: a b)
  case (Cons c cs)
  define n where "n = length cs"
  have c: "unat (ucast c :: 32 word) = unat c"
    using byte_le [of c] by (simp add: unsigned_ucast_eq take_bit_nat_eq_self_iff)
  have a: "unat (a + ucast c) = unat a + unat c"
    using adler_add_small [of a "ucast c"] Cons.prems(1) byte_le [of c] by (simp add: c)
  have step: "2 * (unat b + (unat a + unat c)) + 2 * (n * (unat a + unat c)) + 255 * (n * (n + 1))
      \<le> 2 * unat b + 2 * (Suc n * unat a) + 255 * (Suc n * (Suc n + 1))"
  proof -
    have "Suc n * (2 * unat c) \<le> Suc n * 510" using byte_le [of c] by (intro mult_left_mono) simp_all
    then show ?thesis by (simp add: algebra_simps)
  qed
  have lim: "2 * (unat b + (unat a + unat c)) + 2 * (n * (unat a + unat c)) + 255 * (n * (n + 1)) < 2 ^ 33"
    using step Cons.prems(2) by (simp only: n_def list.size add_0_right One_nat_def add_Suc_right add_Suc)
  have "2 * (unat b + (unat a + unat c)) < 2 * 2 ^ 32"
    using lim by simp
  then have "unat b + (unat a + unat c) < 2 ^ 32" by simp
  then have b: "unat (b + (a + ucast c)) = unat b + (unat a + unat c)"
    using adler_add_small [of b "a + ucast c"] by (simp only: a)
  have "unats (foldl adler_byte (a + ucast c, b + (a + ucast c)) cs)
      = foldl plain_step (unat (a + ucast c), unat (b + (a + ucast c))) cs"
  proof (rule Cons.IH)
    show "unat (a + ucast c) + 255 * length cs < 2 ^ 32" using Cons.prems(1) byte_le [of c] by (simp add: a)
    show "2 * unat (b + (a + ucast c)) + 2 * (length cs * unat (a + ucast c)) + 255 * (length cs * (length cs + 1)) < 2 ^ 33"
      using lim by (simp only: a b n_def)
  qed
  then show ?case by (simp only: foldl_Cons adler_byte_def plain_step_def prod.case Let_def a b)
qed (simp add: unats_def)

lemma rfc_of_plain:
  "foldl rfc_adler_step (a mod adler_modulus, b mod adler_modulus) cs
     = (let (x, y) = foldl plain_step (a, b) cs in (x mod adler_modulus, y mod adler_modulus))"
proof (induction cs arbitrary: a b)
  case (Cons c cs)
  have "rfc_adler_step (a mod adler_modulus, b mod adler_modulus) c
      = ((a + unat c) mod adler_modulus, (b + (a + unat c)) mod adler_modulus)"
    unfolding rfc_adler_step_def prod.case by (simp only: mod_simps)
      (metis (no_types, lifting) add.assoc add.commute mod_add_right_eq)
  then show ?case using Cons.IH by (simp add: plain_step_def)
qed simp

lemma adler_chunk_rfc:
  assumes "length cs \<le> 5552" "unat a < adler_modulus" "unat b < adler_modulus"
  shows "unats (adler_chunk (a, b) cs) = foldl rfc_adler_step (unat a, unat b) cs"
proof -
  have n: "length cs * unat a \<le> 5552 * 65520" "length cs * (length cs + 1) \<le> 5552 * 5553"
    using assms by (intro mult_mono; simp add: adler_modulus_def)+
  have f: "unats (foldl adler_byte (a, b) cs) = foldl plain_step (unat a, unat b) cs"
    by (rule adler_fits) (use n assms in \<open>simp_all add: adler_modulus_def\<close>)
  obtain x y where xy: "foldl adler_byte (a, b) cs = (x, y)" by fastforce
  have "unat (65521 :: 32 word) = 65521" by simp
  then have "unats (adler_chunk (a, b) cs) = (unat x mod adler_modulus, unat y mod adler_modulus)"
    by (simp add: adler_chunk_def xy unats_def unat_mod_distrib adler_modulus_def)
  also have "\<dots> = foldl rfc_adler_step (unat a mod adler_modulus, unat b mod adler_modulus) cs"
    unfolding rfc_of_plain f [symmetric] xy by (simp add: unats_def)
  finally show ?thesis using assms(2,3) by simp
qed

lemma rfc_step_below:
  "fst st < adler_modulus \<and> snd st < adler_modulus \<Longrightarrow>
     fst (foldl rfc_adler_step st cs) < adler_modulus \<and> snd (foldl rfc_adler_step st cs) < adler_modulus"
proof (induction cs arbitrary: st)
  case (Cons c cs)
  have "fst (rfc_adler_step st c) < adler_modulus \<and> snd (rfc_adler_step st c) < adler_modulus"
    by (simp add: rfc_adler_step_def adler_modulus_def split: prod.splits)
  from Cons.IH [OF this] show ?case by simp
qed simp

lemma adler_chunks_rfc:
  "\<forall>c \<in> set chs. length c \<le> 5552 \<Longrightarrow> fst (unats ab) < adler_modulus \<and> snd (unats ab) < adler_modulus \<Longrightarrow>
     unats (foldl adler_chunk ab chs) = foldl rfc_adler_step (unats ab) (concat chs)"
proof (induction chs arbitrary: ab)
  case (Cons c chs)
  obtain a b where ab: "ab = (a, b)" by (cases ab)
  have e: "unats (adler_chunk ab c) = foldl rfc_adler_step (unats ab) c"
    unfolding ab using adler_chunk_rfc [of c a b] Cons.prems by (simp add: ab unats_def)
  have "fst (unats (adler_chunk ab c)) < adler_modulus \<and> snd (unats (adler_chunk ab c)) < adler_modulus"
    unfolding e by (rule rfc_step_below [OF Cons.prems(2)])
  then show ?case using Cons.IH [of "adler_chunk ab c"] Cons.prems(1) e by simp
qed simp

lemma joined_halves:
  assumes "unat a < 2 ^ 16" "unat b < 2 ^ 16"
  shows "unat (push_bit 16 b OR a :: 32 word) = unat b * 2 ^ 16 + unat a"
proof -
  have "push_bit 16 b AND a = 0"
  proof (rule bit_word_eqI)
    fix k
    have "\<not> bit a k" if "16 \<le> k"
    proof -
      have "take_bit 16 (unat a) = unat a" using assms(1) by (simp add: take_bit_nat_eq_self_iff)
      then have "take_bit 16 a = a" by (metis unsigned_take_bit_eq word_unat_eq_iff)
      then show ?thesis using that by (metis bit_take_bit_iff not_less)
    qed
    then show "bit (push_bit 16 b AND a) k \<longleftrightarrow> bit 0 k" by (auto simp: bit_and_iff bit_push_bit_iff)
  qed
  then have "push_bit 16 b OR a = push_bit 16 b + a" by (simp only: disjunctive_add_eq_or)
  moreover have "unat (push_bit 16 b) = unat b * 2 ^ 16"
    using assms(2) by (simp add: push_bit_eq_mult unat_word_ariths)
  ultimately show ?thesis using assms by (simp add: unat_word_ariths)
qed

lemma chunks_short_all: "0 < n \<Longrightarrow> c \<in> set (chunks n xs) \<Longrightarrow> length c \<le> n"
proof (induction n xs rule: chunks.induct)
  case (1 n xs)
  then show ?case by (cases "xs = []") (auto simp: chunks_step)
qed

lemma adler32_rfc: "unat (adler32 data) = rfc_adler data"
proof -
  obtain a b where ab: "foldl adler_chunk (1, 0) (chunks 5552 data) = (a, b)" by fastforce
  have s: "unats (1, 0) = (1, 0)" by (simp add: unats_def)
  have "unats (foldl adler_chunk (1, 0) (chunks 5552 data)) = foldl rfc_adler_step (unats (1, 0)) (concat (chunks 5552 data))"
    by (rule adler_chunks_rfc) (use chunks_short_all [of 5552] in \<open>auto simp: s adler_modulus_def\<close>)
  then have r: "foldl rfc_adler_step (1, 0) data = (unat a, unat b)"
    unfolding ab s by (simp add: unats_def concat_chunks)
  have "unat a < adler_modulus \<and> unat b < adler_modulus"
    using rfc_step_below [of "(1, 0)" data] r by (simp add: adler_modulus_def)
  then show ?thesis using joined_halves [of a b] by (simp only: adler32_def ab rfc_adler_def r Let_def prod.case adler_modulus_def) simp
qed

section \<open>The properties\<close>


text \<open>C31: Decoding with an accepted Huffman code reads exactly the canonical codes of RFC 1951 section 3.2.2:
  a symbol is decoded if and only if the next bits are its code, and then those bits are consumed.\<close>

theorem huffman_decodes_rfc:
  assumes "huffman_new ls = Inr h" and "good_bits b"
  shows "decode h b = Inr (s, b')
    \<longleftrightarrow> (\<exists>xs r. stream_bits b = xs @ r \<and> spells ls s xs \<and> b' = (next_bit ^^ length xs) b)"
  by (rule decode_exact [OF assms])

text \<open>A zlib stream that is accepted is one whose trailer is the Adler-32 RFC 1950 defines for the data
  handed out, reduced at every byte although the code reduces once every 5552, and the data is within
  the limit.\<close>

theorem zlib_checks_adler:
  assumes "zlib_decompress data limit = Inr out"
  shows "length out \<le> limit \<and> (\<exists>used. used + 6 \<le> length data
    \<and> rfc_adler out = unat (from_be (take 4 (drop (2 + used) data)) :: 32 word))"
proof -
  obtain cmf flags body where d: "data = cmf # flags # body"
    using assms by (auto simp: zlib_decompress_def split: list.splits)
  obtain used where i: "inflate body limit = Inr (out, used)"
    and t: "\<not> length data < 2 + used + 4" "adler32 out = from_be (take 4 (drop (2 + used) data))"
    using assms unfolding d zlib_decompress_def by (auto simp: result_simps split: if_splits)
  have "length out \<le> limit" using sound_inflate [where data = body and limit = limit] i by (simp add: sound_step_def)
  then show ?thesis using t by (intro conjI exI [of _ used]) (simp_all add: adler32_rfc [symmetric])
qed

text \<open>A code of three symbols whose lengths are 1, 2 and 2, and the bits 0, 10, 11 that spell them.\<close>

definition demo_bits :: bits where
  "demo_bits = \<lparr>bits_data = [5], bits_at = 0, bits_bit = 0\<rparr>"

lemma demo_code: "\<exists>h. huffman_new [1, 2, 2] = Inr h"
proof -
  have "\<not> isl (huffman_new [1, 2, 2])" by code_simp
  then show ?thesis by (cases "huffman_new [1, 2, 2]") simp_all
qed

lemma demo_bits_ok: "good_bits demo_bits" "stream_bits demo_bits = [True, False, True, False, False, False, False, False]"
  by (simp add: good_bits_def demo_bits_def) code_simp

theorem huffman_decodes_rfc_witness:
  "\<exists>h. huffman_new [1, 2, 2] = Inr h \<and> decode h demo_bits = Inr (1, (next_bit ^^ 2) demo_bits)"
proof -
  obtain h where h: "huffman_new [1, 2, 2] = Inr h" using demo_code by blast
  have sp: "spells [1, 2, 2] 1 [True, False]" by code_simp
  have "\<exists>xs r. stream_bits demo_bits = xs @ r \<and> spells [1, 2, 2] 1 xs
      \<and> (next_bit ^^ 2) demo_bits = (next_bit ^^ length xs) demo_bits"
    unfolding demo_bits_ok(2) by (rule exI [of _ "[True, False]"], rule exI [of _ "[True, False, False, False, False, False]"])
      (use sp in \<open>simp add: numeral_2_eq_2\<close>)
  then show ?thesis using huffman_decodes_rfc [OF h demo_bits_ok(1)] h by blast
qed

text \<open>A zlib stream of one stored block that holds the two bytes \<open>ab\<close>.\<close>

definition demo_zlib :: bytes where
  "demo_zlib = [0x78, 0x01, 0x01, 0x02, 0x00, 0xfd, 0xff, 0x61, 0x62, 0x01, 0x26, 0x00, 0xc4]"

lemma demo_inflated: "inflate [0x01, 0x02, 0x00, 0xfd, 0xff, 0x61, 0x62, 0x01, 0x26, 0x00, 0xc4] 10 = Inr ([0x61, 0x62], 7)"
  by code_simp

lemma demo_adler: "adler32 [0x61, 0x62] = 0x012600c4"
  by code_simp

lemma demo_header: "(0x78 :: byte) AND 0x0f = 8" "(push_bit 8 (ucast (0x78 :: byte)) OR ucast (1 :: byte) :: 16 word) mod 31 = 0"
  "(1 :: byte) AND 0x20 = 0" "(from_be [0x01, 0x26, 0x00, 0xc4] :: 32 word) = 0x012600c4"
  by code_simp+

theorem zlib_checks_adler_witness:
  "zlib_decompress demo_zlib 10 = Inr [0x61, 0x62]
     \<and> (\<exists>used. used + 6 \<le> 13 \<and> rfc_adler [0x61, 0x62] = unat (from_be (take 4 (drop (2 + used) demo_zlib)) :: 32 word))"
proof -
  have z: "zlib_decompress demo_zlib 10 = Inr [0x61, 0x62]"
    unfolding zlib_decompress_def demo_zlib_def list.case demo_header(1-3) demo_inflated bindR_simps prod.case
    by (simp add: demo_adler demo_header(4))
  show ?thesis using z zlib_checks_adler [OF z] by (auto simp: demo_zlib_def)
qed

end
