(* ===== verification/Armor.thy ===== *)
theory Armor
  imports Bytes Text
begin

text \<open>
  ASCII armor (RFC 4880 section 6), \<open>crates/crypto/src/openpgp/armor.rs\<close>: CRC-24, radix-64 both ways,
  and armoring and reading an armored block. A text is its UTF-8 bytes. Where the code indexes the
  three bytes of a checksum that decodes to fewer, it panics: \<open>ChecksumPanic\<close>.
\<close>

unbundle bit_operations_syntax

datatype armor_error =
  NotRadix64 char | NoBeginLine string | NoEndLine string | ChecksumPanic | CrcMismatch string

section \<open>CRC-24\<close>

definition crc_bit :: "32 word \<Rightarrow> 32 word" where
  "crc_bit crc = (let crc = push_bit 1 crc in if crc AND 0x01000000 \<noteq> 0 then crc XOR 0x01864cfb else crc)"

definition crc_byte :: "32 word \<Rightarrow> byte \<Rightarrow> 32 word" where
  "crc_byte crc byte = (crc_bit ^^ 8) (crc XOR push_bit 16 (ucast byte))"

definition crc24 :: "bytes \<Rightarrow> 32 word" where
  "crc24 data = foldl crc_byte 0x00b704ce data AND 0x00ffffff"

section \<open>Radix-64\<close>

definition ALPHABET :: string where
  "ALPHABET = ''ABCDEFGHIJKLMNOPQRSTUVWXYZabcdefghijklmnopqrstuvwxyz0123456789+/''"

definition group_word :: "bytes \<Rightarrow> 32 word" where
  "group_word c =
     push_bit 16 (ucast (c ! 0)) OR push_bit 8 (ucast (if 1 < length c then c ! 1 else 0))
       OR ucast (if 2 < length c then c ! 2 else 0)"

definition encode_group :: "bytes \<Rightarrow> string" where
  "encode_group c =
     map (\<lambda>i. if i \<le> length c then ALPHABET ! unat (drop_bit (18 - 6 * i) (group_word c) AND 63) else CHR ''='') [0..<4]"

definition base64_encode :: "bytes \<Rightarrow> string" where
  "base64_encode data = concat (map encode_group (chunks 3 data))"

definition radix_ws :: "char \<Rightarrow> bool" where
  "radix_ws c \<longleftrightarrow> c \<in> {CHR '' '', CHR 0x09, CHR 0x0A, CHR 0x0C, CHR 0x0D}"

fun char_position :: "char \<Rightarrow> string \<Rightarrow> nat option" where
  "char_position c [] = None"
| "char_position c (x # xs) = (if x = c then Some 0 else map_option Suc (char_position c xs))"

fun decode_radix :: "string \<Rightarrow> bytes \<Rightarrow> 32 word \<Rightarrow> nat \<Rightarrow> armor_error + bytes" where
  "decode_radix [] out acc bits = Inr out"
| "decode_radix (c # cs) out acc bits =
     (if c = CHR ''='' then Inr out
      else if radix_ws c then decode_radix cs out acc bits
      else
      bindR (ok_or (NotRadix64 c) (char_position c ALPHABET)) (\<lambda>v.
      let acc = push_bit 6 acc OR of_nat v; bits = bits + 6 in
      if bits \<ge> 8 then decode_radix cs (out @ [ucast (drop_bit (bits - 8) acc)]) acc (bits - 8)
      else decode_radix cs out acc bits))"

definition base64_decode :: "string \<Rightarrow> armor_error + bytes" where
  "base64_decode text = decode_radix text [] 0 0"

section \<open>Reading an armored block\<close>

text \<open>\<open>str::find\<close>: what comes before the first occurrence and what comes after it.\<close>

fun cut_at :: "string \<Rightarrow> string \<Rightarrow> (string \<times> string) option" where
  "cut_at p [] = (if p = [] then Some ([], []) else None)"
| "cut_at p (x # xs) =
     (if starts_with p (x # xs) then Some ([], drop (length p) (x # xs))
      else map_option (\<lambda>(a, b). (x # a, b)) (cut_at p xs))"

definition begin_line :: "string \<Rightarrow> string" where
  "begin_line kind = ''-----BEGIN '' @ kind @ ''-----''"

definition end_line :: "string \<Rightarrow> string" where
  "end_line kind = ''-----END '' @ kind @ ''-----''"

definition blank_line :: "string \<Rightarrow> bool" where
  "blank_line l \<longleftrightarrow> trim l = []"

definition without_headers :: "string list \<Rightarrow> string list" where
  "without_headers ls =
     (if \<exists>l \<in> set (takeWhile (\<lambda>l. \<not> blank_line l) ls). contains_text '': '' l
      then drop 1 (dropWhile (\<lambda>l. \<not> blank_line l) ls)
      else ls)"

definition armor_line :: "string \<times> string option \<Rightarrow> string \<Rightarrow> string \<times> string option" where
  "armor_line = (\<lambda>(body, checksum) line.
     let line = trim line in
     case strip_prefix ''='' line of
       Some s \<Rightarrow> if length s = 4 then (body, Some s) else (body @ line, checksum)
     | None \<Rightarrow> (body @ line, checksum))"

definition check_sum :: "string \<Rightarrow> bytes \<Rightarrow> string option \<Rightarrow> armor_error + bytes" where
  "check_sum kind data checksum =
     (case checksum of
        None \<Rightarrow> Inr data
      | Some s \<Rightarrow>
          bindR (base64_decode s) (\<lambda>e.
          if length e < 3 then Inl ChecksumPanic
          else if crc24 data \<noteq> push_bit 16 (ucast (e ! 0)) OR push_bit 8 (ucast (e ! 1)) OR ucast (e ! 2)
          then Inl (CrcMismatch kind) else Inr data))"

definition dearmor :: "string \<Rightarrow> string \<Rightarrow> armor_error + bytes" where
  "dearmor text kind =
     (case cut_at (begin_line kind) text of
        None \<Rightarrow> Inl (NoBeginLine kind)
      | Some (_, rest) \<Rightarrow>
          (case cut_at (end_line kind) rest of
             None \<Rightarrow> Inl (NoEndLine kind)
           | Some (block, _) \<Rightarrow>
               let (body, checksum) = foldl armor_line ([], None) (without_headers (drop 1 (lines block))) in
               bindR (base64_decode body) (\<lambda>data. check_sum kind data checksum)))"

definition crc_bytes :: "32 word \<Rightarrow> bytes" where
  "crc_bytes crc = [ucast (drop_bit 16 crc), ucast (drop_bit 8 crc), ucast crc]"

definition newline :: string where
  "newline = [CHR 0x0A]"

definition armor :: "bytes \<Rightarrow> string \<Rightarrow> string" where
  "armor data kind =
     begin_line kind @ newline @ newline
     @ concat (map (\<lambda>line. line @ newline) (chunks 64 (base64_encode data)))
     @ ''='' @ base64_encode (crc_bytes (crc24 data)) @ newline
     @ end_line kind @ newline"

end
