(* ===== verification/ArmorProps.thy ===== *)
theory ArmorProps
  imports Armor
begin

text \<open>
  What is armored reads back: radix-64 of any bytes decodes to them, the lines of an armored block
  are found and trimmed to the same text, and the checksum is the one written.
\<close>

unbundle bit_operations_syntax

section \<open>The alphabet\<close>

lemma alphabet_positions: "list_all (\<lambda>i. char_position (ALPHABET ! i) ALPHABET = Some i) [0..<64]"
  by code_simp

lemma alphabet_plain: "list_all (\<lambda>c. plain_byte c \<and> c \<noteq> CHR ''='' \<and> c \<noteq> CHR ''-'' \<and> \<not> radix_ws c) ALPHABET"
  by code_simp

lemma length_ALPHABET: "length ALPHABET = 64"
  by (simp add: ALPHABET_def)

definition six :: "32 word \<Rightarrow> nat \<Rightarrow> 32 word" where
  "six n i = drop_bit (18 - 6 * i) n AND 63"

lemma six_below: "unat (six n i) < 64"
proof -
  have "six n i = take_bit 6 (drop_bit (18 - 6 * i) n)" by (simp add: six_def take_bit_eq_mask mask_eq_exp_minus_1)
  then have "unat (six n i) = take_bit 6 (unat (drop_bit (18 - 6 * i) n))" by (simp add: unsigned_take_bit_eq)
  then show ?thesis using take_bit_nat_less_exp [of 6 "unat (drop_bit (18 - 6 * i) n)"] by simp
qed

lemma alphabet_char:
  assumes "v < 64"
  shows "char_position (ALPHABET ! v) ALPHABET = Some v" "plain_byte (ALPHABET ! v)"
    "ALPHABET ! v \<noteq> CHR ''=''" "ALPHABET ! v \<noteq> CHR ''-''" "\<not> radix_ws (ALPHABET ! v)"
  using alphabet_positions alphabet_plain assms nth_mem [of v ALPHABET]
  by (auto simp: list_all_iff length_ALPHABET)

definition letter :: "32 word \<Rightarrow> nat \<Rightarrow> char" where
  "letter n i = ALPHABET ! unat (six n i)"

lemma decode_letter:
  "decode_radix (letter n i # cs) out acc bits =
     (let acc = push_bit 6 acc OR six n i; bits = bits + 6 in
      if bits \<ge> 8 then decode_radix cs (out @ [ucast (drop_bit (bits - 8) acc)]) acc (bits - 8)
      else decode_radix cs out acc bits)"
  unfolding letter_def by (simp add: alphabet_char [OF six_below] Let_def)

lemma encode_groups:
  "encode_group [a] = [letter (group_word [a]) 0, letter (group_word [a]) 1, CHR ''='', CHR ''='']"
  "encode_group [a, b] = [letter (group_word [a, b]) 0, letter (group_word [a, b]) 1, letter (group_word [a, b]) 2, CHR ''='']"
  "encode_group [a, b, c] = map (letter (group_word [a, b, c])) [0, 1, 2, 3]"
  by (simp_all add: encode_group_def letter_def six_def upt_rec numeral_eq_Suc)

section \<open>A group\<close>

text \<open>The three bytes of a group from its four sixes, whatever the bits before them.\<close>

lemma bits_below_8: "(\<And>k. k < 8 \<Longrightarrow> bit (v :: byte) k \<longleftrightarrow> bit w k) \<Longrightarrow> v = w"
  by (rule bit_word_eqI) simp

lemma below_8: "k < 8 \<longleftrightarrow> k = 0 \<or> k = 1 \<or> k = 2 \<or> k = 3 \<or> k = 4 \<or> k = 5 \<or> k = 6 \<or> k = (7 :: nat)"
  by arith

lemma bit_group:
  "length c \<le> 3 \<Longrightarrow> c \<noteq> [] \<Longrightarrow> k < 24 \<Longrightarrow> bit (group_word c) k =
     (if k \<ge> 16 then bit (c ! 0) (k - 16)
      else if k \<ge> 8 then 1 < length c \<and> bit (c ! 1) (k - 8)
      else 2 < length c \<and> bit (c ! 2) k)"
  by (auto simp: group_word_def bit_or_iff bit_push_bit_iff bit_ucast_iff dest: bit_imp_le_length)

lemma bit_six: "bit (six n i) k \<longleftrightarrow> k < 6 \<and> bit n (18 - 6 * i + k)"
proof -
  have "six n i = take_bit 6 (drop_bit (18 - 6 * i) n)" by (simp add: six_def take_bit_eq_mask mask_eq_exp_minus_1)
  then show ?thesis by (simp add: bit_take_bit_iff bit_drop_bit_eq)
qed

lemma six_bytes:
  fixes acc :: "32 word"
  defines "a1 \<equiv> \<lambda>n. push_bit 6 acc OR six n 0"
  defines "a2 \<equiv> \<lambda>n. push_bit 6 (a1 n) OR six n 1"
  defines "a3 \<equiv> \<lambda>n. push_bit 6 (a2 n) OR six n 2"
  assumes c: "length c \<le> 3" "c \<noteq> []"
  shows "(ucast (drop_bit 4 (a2 (group_word c))) :: byte) = c ! 0"
    and "1 < length c \<Longrightarrow> (ucast (drop_bit 2 (a3 (group_word c))) :: byte) = c ! 1"
    and "2 < length c \<Longrightarrow> (ucast (push_bit 6 (a3 (group_word c)) OR six (group_word c) 3) :: byte) = c ! 2"
proof -
  note bits = bit_ucast_iff bit_drop_bit_eq bit_or_iff bit_push_bit_iff bit_six bit_group [OF c]
  show "(ucast (drop_bit 4 (a2 (group_word c))) :: byte) = c ! 0"
    by (rule bits_below_8) (unfold below_8, elim disjE; simp add: a1_def a2_def bits)
  show "1 < length c \<Longrightarrow> (ucast (drop_bit 2 (a3 (group_word c))) :: byte) = c ! 1"
    by (rule bits_below_8) (unfold below_8, elim disjE; simp add: a1_def a2_def a3_def bits)
  show "2 < length c \<Longrightarrow> (ucast (push_bit 6 (a3 (group_word c)) OR six (group_word c) 3) :: byte) = c ! 2"
    by (rule bits_below_8) (unfold below_8, elim disjE; simp add: a1_def a2_def a3_def bits flip: numeral_2_eq_2)
qed

lemma decode_whole:
  "length c = 3 \<Longrightarrow> \<exists>acc'. decode_radix (encode_group c @ rest) out acc 0 = decode_radix rest (out @ c) acc' 0"
proof -
  assume "length c = 3"
  then obtain x y z where c: "c = [x, y, z]" by (auto simp: numeral_eq_Suc length_Suc_conv)
  show ?thesis using six_bytes [of c acc] unfolding c encode_groups list.map append_Cons append_Nil decode_letter Let_def
    by (auto simp: decode_letter Let_def)
qed

lemma decode_last:
  "c \<noteq> [] \<Longrightarrow> length c < 3 \<Longrightarrow> decode_radix (encode_group c @ rest) out acc 0 = Inr (out @ c)"
proof -
  assume "c \<noteq> []" "length c < 3"
  then consider x where "c = [x]" | x y where "c = [x, y]"
    by (cases c; cases "tl c") (auto simp: Suc_le_eq)
  then show ?thesis
  proof cases
    case (1 x)
    show ?thesis using six_bytes(1) [of c acc] unfolding 1 encode_groups append_Cons append_Nil decode_letter Let_def
      by (auto simp: decode_letter Let_def)
  next
    case (2 x y)
    show ?thesis using six_bytes(1,2) [of c acc] unfolding 2 encode_groups append_Cons append_Nil decode_letter Let_def
      by (auto simp: decode_letter Let_def)
  qed
qed

lemma decode_encoded: "decode_radix (base64_encode data) out acc 0 = Inr (out @ data)"
proof (induction "length data" arbitrary: data out acc rule: less_induct)
  case less
  show ?case
  proof (cases "length data < 3")
    case True
    show ?thesis
    proof (cases "data = []")
      case False
      have "chunks 3 data = [data]" using False True by (simp add: chunks_short)
      then show ?thesis using decode_last [OF False True, of "[]"] by (simp add: base64_encode_def)
    qed (simp add: base64_encode_def)
  next
    case False
    then have c: "chunks 3 data = take 3 data # chunks 3 (drop 3 data)" by (intro chunks_step) auto
    obtain acc' where "decode_radix (encode_group (take 3 data) @ base64_encode (drop 3 data)) out acc 0
        = decode_radix (base64_encode (drop 3 data)) (out @ take 3 data) acc' 0"
      using decode_whole [of "take 3 data"] False by fastforce
    then show ?thesis using less [of "drop 3 data"] False by (simp add: base64_encode_def c)
  qed
qed

lemma base64_round: "base64_decode (base64_encode data) = Inr data"
  by (simp add: base64_decode_def decode_encoded)

section \<open>Armored text\<close>

definition armor_char :: "char \<Rightarrow> bool" where
  "armor_char c \<longleftrightarrow> c \<in> set ALPHABET \<or> c = CHR ''=''"

lemma letter_in: "letter n i \<in> set ALPHABET"
  unfolding letter_def using six_below by (simp add: length_ALPHABET)

lemma encode_group_shape:
  assumes "c \<noteq> []" "length c \<le> 3"
  shows "length (encode_group c) = 4 \<and> hd (encode_group c) \<in> set ALPHABET \<and> list_all armor_char (encode_group c)"
proof -
  consider x where "c = [x]" | x y where "c = [x, y]" | x y z where "c = [x, y, z]"
    using assms by (cases c; cases "tl c"; cases "tl (tl c)") (auto simp: Suc_le_eq)
  then show ?thesis using letter_in by cases (simp_all add: encode_groups armor_char_def)
qed

lemma chunk_sizes: "0 < n \<Longrightarrow> c \<in> set (chunks n xs) \<Longrightarrow> c \<noteq> [] \<and> length c \<le> n"
proof (induction n xs rule: chunks.induct)
  case (1 n xs)
  then show ?case by (cases "xs = []") (auto simp: chunks_step)
qed

lemma encoded_groups: "\<exists>qs. base64_encode data = concat qs
    \<and> (\<forall>q \<in> set qs. length q = 4 \<and> hd q \<in> set ALPHABET \<and> list_all armor_char q)"
  unfolding base64_encode_def
  using encode_group_shape chunk_sizes [of 3 _ data] by (intro exI [of _ "map encode_group (chunks 3 data)"]) auto

lemma cut_groups:
  "\<forall>q \<in> set qs. length q = 4 \<and> hd q \<in> set ALPHABET \<and> list_all armor_char q \<Longrightarrow>
     l \<in> set (chunks 64 (concat qs)) \<Longrightarrow> l \<noteq> [] \<and> hd l \<in> set ALPHABET \<and> list_all armor_char l"
proof (induction "length qs" arbitrary: qs rule: less_induct)
  case less
  show ?case
  proof (cases qs)
    case (Cons q qs')
    have four: "\<forall>q \<in> set qs. length q = 4" using less.prems(1) by blast
    have ne: "concat qs \<noteq> []" using less.prems(1) Cons by auto
    have len: "length (concat xs) = 4 * length xs" if "set xs \<subseteq> set qs" for xs
      using length_concat_same [of xs 4] four that by auto
    have split: "concat qs = concat (take 16 qs) @ concat (drop 16 qs)"
      by (simp flip: concat_append)
    have t: "take 64 (concat qs) = concat (take 16 qs)" "drop 64 (concat qs) = concat (drop 16 qs)"
      unfolding split using len [of "take 16 qs"] len [of "drop 16 qs"] set_take_subset [of 16 qs] set_drop_subset [of 16 qs]
      by (cases "length qs \<le> 16"; simp)+
    have "chunks 64 (concat qs) = concat (take 16 qs) # chunks 64 (concat (drop 16 qs))"
      using chunks_step [OF ne, of 64] t by simp
    then consider "l = concat (take 16 qs)" | "l \<in> set (chunks 64 (concat (drop 16 qs)))" using less.prems(2) by auto
    then show ?thesis
    proof cases
      case 1
      have "list_all armor_char l" unfolding 1 using less.prems(1) by (auto simp: list_all_iff dest: in_set_takeD)
      moreover have "q \<noteq> []" "hd q \<in> set ALPHABET" using less.prems(1) Cons by auto
      ultimately show ?thesis by (simp add: 1 Cons)
    next
      case 2
      show ?thesis by (rule less.hyps [OF _ _ 2]) (use Cons less.prems(1) in \<open>auto dest: in_set_dropD\<close>)
    qed
  qed (use less.prems in simp)
qed

lemma encoded_lines: "l \<in> set (chunks 64 (base64_encode data)) \<Longrightarrow> l \<noteq> [] \<and> hd l \<in> set ALPHABET \<and> list_all armor_char l"
  using encoded_groups [of data] cut_groups by metis

lemma encoded_chars: "list_all armor_char (base64_encode data)"
  using encoded_groups [of data] by (auto simp: list_all_iff)

lemma armor_char_plain: "armor_char c \<Longrightarrow> plain_byte c \<and> c \<noteq> CHR ''-'' \<and> c \<noteq> CHR 0x0A \<and> c \<noteq> CHR 0x0D"
proof -
  have "list_all (\<lambda>c. plain_byte c \<and> c \<noteq> CHR ''-'' \<and> c \<noteq> CHR 0x0A \<and> c \<noteq> CHR 0x0D) (''='' @ ALPHABET)" by code_simp
  moreover assume "armor_char c"
  ultimately show ?thesis by (auto simp: armor_char_def list_all_iff)
qed

section \<open>Finding the lines\<close>

lemma cut_here: "cut_at p (p @ r) = Some ([], r)"
proof (cases "p @ r")
  case (Cons x xs)
  have "starts_with p (x # xs)" unfolding Cons [symmetric] by (simp add: starts_with_iff)
  then show ?thesis unfolding Cons cut_at.simps by (simp add: Cons [symmetric])
qed simp

lemma cut_after: "p \<noteq> [] \<Longrightarrow> hd p \<notin> set a \<Longrightarrow> cut_at p (a @ p @ r) = Some (a, r)"
proof (induction a)
  case (Cons x a)
  then have "\<not> starts_with p ((x # a) @ p @ r)" by (cases p) (auto simp: starts_with_iff)
  then show ?case using Cons by simp
qed (simp add: cut_here)

definition text_of_lines :: "string list \<Rightarrow> string" where
  "text_of_lines ls = concat (map (\<lambda>l. l @ newline) ls)"

lemma split_lines: "\<forall>l \<in> set ls. CHR 0x0A \<notin> set l \<Longrightarrow> split_on (CHR 0x0A) (text_of_lines ls) = ls @ [[]]"
  by (induction ls) (simp_all add: text_of_lines_def newline_def split_on_append)

lemma lines_of_text:
  assumes "\<forall>l \<in> set ls. CHR 0x0A \<notin> set l \<and> CHR 0x0D \<notin> set l"
  shows "lines (text_of_lines ls) = ls"
proof -
  have "map strip_cr ls = ls" using assms by (intro map_idI) (metis last_in_set strip_cr_def)
  then show ?thesis using split_lines [of ls] assms by (simp add: lines_def Let_def)
qed

lemma blank_Nil: "blank_line []"
  by (simp add: blank_line_def trim_plain)

lemma fold_lines:
  "\<forall>l \<in> set ls. l = [] \<or> (list_all armor_char l \<and> hd l \<in> set ALPHABET) \<Longrightarrow>
     foldl armor_line (body, s) ls = (body @ concat ls, s)"
proof (induction ls arbitrary: body)
  case (Cons l ls)
  have "list_all plain_byte l" using Cons.prems armor_char_plain by (auto simp: list_all_iff)
  then have t: "trim l = l" by (rule trim_plain)
  have "strip_prefix ''='' l = None"
  proof (cases l)
    case (Cons x xs)
    then have "x \<noteq> CHR ''=''" using Cons.prems alphabet_plain by (auto simp: list_all_iff)
    then show ?thesis by (simp add: Cons strip_prefix_def)
  qed (simp add: strip_prefix_def)
  then have "armor_line (body, s) l = (body @ l, s)" by (simp add: armor_line_def t)
  then show ?case using Cons by simp
qed simp

section \<open>The checksum\<close>

lemma crc24_below: "k \<ge> 24 \<Longrightarrow> \<not> bit (crc24 data) k"
proof -
  assume k: "24 \<le> k"
  have "crc24 data = take_bit 24 (foldl crc_byte 0x00b704ce data)"
    by (simp add: crc24_def take_bit_eq_mask mask_eq_exp_minus_1)
  then show ?thesis using k by (simp add: bit_take_bit_iff)
qed

lemma crc_bytes_join:
  assumes "\<And>k. k \<ge> 24 \<Longrightarrow> \<not> bit crc k"
  shows "push_bit 16 (ucast (crc_bytes crc ! 0)) OR push_bit 8 (ucast (crc_bytes crc ! 1)) OR ucast (crc_bytes crc ! 2) = crc"
proof (rule bit_word_eqI)
  fix k assume k: "k < LENGTH(32)"
  consider "k < 8" | "8 \<le> k" "k < 16" | "16 \<le> k" "k < 24" | "24 \<le> k" by linarith
  then show "bit (push_bit 16 (ucast (crc_bytes crc ! 0)) OR push_bit 8 (ucast (crc_bytes crc ! 1)) OR ucast (crc_bytes crc ! 2) :: 32 word) k
      \<longleftrightarrow> bit crc k"
    using k assms by cases (auto simp: crc_bytes_def bit_or_iff bit_push_bit_iff bit_ucast_iff bit_drop_bit_eq)
qed

lemma check_sum_ok: "check_sum kind data (Some (base64_encode (crc_bytes (crc24 data)))) = Inr data"
  using crc_bytes_join [OF crc24_below] by (simp add: check_sum_def base64_round) (simp add: crc_bytes_def)

lemma length_three: "length (base64_encode [a, b, c]) = 4"
  by (simp add: base64_encode_def chunks_short encode_groups)

lemma sum_line: "armor_line (body, s) (''='' @ base64_encode (crc_bytes crc)) = (body, Some (base64_encode (crc_bytes crc)))"
proof -
  have "list_all plain_byte (''='' @ base64_encode (crc_bytes crc))"
    using encoded_chars [of "crc_bytes crc"] armor_char_plain by (auto simp: list_all_iff plain_byte_def less_eq_char_def)
  then have t: "trim (''='' @ base64_encode (crc_bytes crc)) = ''='' @ base64_encode (crc_bytes crc)" by (rule trim_plain)
  have "length (base64_encode (crc_bytes crc)) = 4" by (simp add: crc_bytes_def length_three)
  then show ?thesis unfolding armor_line_def prod.case Let_def t strip_prefix_append by simp
qed

text \<open>C35: What is armored reads back: dearmoring the armor of any bytes as any kind gives those bytes, with the
  line breaks, the padding of radix-64 and the CRC-24 in between.\<close>

theorem dearmor_armor: "dearmor (armor data kind) kind = Inr data"
proof -
  let ?chs = "chunks 64 (base64_encode data)" and ?sum = "''='' @ base64_encode (crc_bytes (crc24 data))"
  let ?block = "text_of_lines ([] # [] # ?chs @ [?sum])"
  have a: "armor data kind = begin_line kind @ ?block @ end_line kind @ newline"
    by (simp add: armor_def text_of_lines_def)
  have chs: "\<forall>l \<in> set ?chs. \<forall>c \<in> set l. armor_char c" using encoded_lines [of _ data] by (auto simp: list_all_iff)
  have sum: "\<forall>c \<in> set ?sum. armor_char c"
    using encoded_chars [of "crc_bytes (crc24 data)"] by (auto simp: list_all_iff armor_char_def)
  have "hd (end_line kind) = CHR ''-''" "end_line kind \<noteq> []" by (simp_all add: end_line_def)
  moreover have "CHR ''-'' \<notin> set ?block"
    using chs sum armor_char_plain by (auto simp: text_of_lines_def newline_def)
  ultimately have c: "cut_at (end_line kind) (?block @ end_line kind @ newline) = Some (?block, newline)"
    by (intro cut_after) simp_all
  have l: "lines ?block = [] # [] # ?chs @ [?sum]"
    by (rule lines_of_text) (use chs sum armor_char_plain in auto)
  have "without_headers ([] # ?chs @ [?sum]) = [] # ?chs @ [?sum]"
    by (simp add: without_headers_def blank_Nil)
  moreover have "foldl armor_line ([], None) ([] # ?chs) = (base64_encode data, None)"
    using fold_lines [of "[] # ?chs" "[]" None] encoded_lines [of _ data] by (simp add: concat_chunks)
  moreover have drop_one: "drop 1 ([] # ls) = ls" for ls :: "string list" by simp
  ultimately have f: "foldl armor_line ([], None) (without_headers (drop 1 (lines ?block)))
      = (base64_encode data, Some (base64_encode (crc_bytes (crc24 data))))"
    unfolding l drop_one by (simp only: foldl_append foldl_Cons foldl_Nil sum_line flip: append_Cons)
  show ?thesis
    unfolding dearmor_def a cut_here option.case prod.case c f Let_def base64_round bindR_simps by (rule check_sum_ok)
qed

text \<open>A checksum line that decodes to fewer than three bytes is not an error of the code but an index past
  the end of what it decoded.\<close>

lemma short_checksum_panics: "check_sum kind data (Some ''AAA='') = Inl ChecksumPanic"
proof -
  have "base64_decode ''AAA='' = Inr [0, 0]" by code_simp
  then show ?thesis by (simp add: check_sum_def)
qed

end
