(* ===== verification/Packets.thy ===== *)
theory Packets
  imports Bytes
begin

text \<open>
  OpenPGP packets, \<open>crates/crypto/src/openpgp/mod.rs\<close>: the cursor that refuses to read past the end,
  the length forms of old and new packets with partial bodies, multiprecision integers, and writing
  both. Lengths read from the data are at most \<open>2^32\<close>, so they are natural numbers.
\<close>

unbundle bit_operations_syntax

datatype packet_error = CutShort string | NotAHeader byte

record packet =
  packet_tag :: byte
  packet_body :: bytes

record cursor =
  cursor_data :: bytes
  cursor_at :: nat

definition cursor_new :: "bytes \<Rightarrow> cursor" where
  "cursor_new data = \<lparr>cursor_data = data, cursor_at = 0\<rparr>"

definition remaining :: "cursor \<Rightarrow> nat" where
  "remaining r = length (cursor_data r) - cursor_at r"

definition cursor_rest :: "cursor \<Rightarrow> bytes \<times> cursor" where
  "cursor_rest r = (drop (cursor_at r) (cursor_data r), r\<lparr>cursor_at := length (cursor_data r)\<rparr>)"

definition cursor_take :: "nat \<Rightarrow> string \<Rightarrow> cursor \<Rightarrow> packet_error + bytes \<times> cursor" where
  "cursor_take n what r =
     (if remaining r < n then Inl (CutShort what)
      else Inr (take n (drop (cursor_at r) (cursor_data r)), r\<lparr>cursor_at := cursor_at r + n\<rparr>))"

definition cursor_byte :: "string \<Rightarrow> cursor \<Rightarrow> packet_error + byte \<times> cursor" where
  "cursor_byte what r = bindR (cursor_take 1 what r) (\<lambda>(b, r'). Inr (b ! 0, r'))"

definition cursor_u16 :: "string \<Rightarrow> cursor \<Rightarrow> packet_error + nat \<times> cursor" where
  "cursor_u16 what r = bindR (cursor_take 2 what r) (\<lambda>(b, r'). Inr (unat (from_be b :: 16 word), r'))"

definition cursor_u32 :: "string \<Rightarrow> cursor \<Rightarrow> packet_error + nat \<times> cursor" where
  "cursor_u32 what r = bindR (cursor_take 4 what r) (\<lambda>(b, r'). Inr (unat (from_be b :: 32 word), r'))"

definition cursor_mpi :: "string \<Rightarrow> cursor \<Rightarrow> packet_error + bytes \<times> cursor" where
  "cursor_mpi what r = bindR (cursor_u16 what r) (\<lambda>(bits, r'). cursor_take ((bits + 7) div 8) what r')"

definition new_length :: "cursor \<Rightarrow> packet_error + nat \<times> bool \<times> cursor" where
  "new_length r =
     bindR (cursor_byte ''a packet length'' r) (\<lambda>(first, r1).
     let f = unat first in
     if f \<le> 191 then Inr (f, False, r1)
     else if f \<le> 223 then
       bindR (cursor_byte ''a packet length'' r1) (\<lambda>(second, r2).
       Inr (push_bit 8 (f - 192) + unat second + 192, False, r2))
     else if f \<le> 254 then Inr (2 ^ unat (first AND 0x1f), True, r1)
     else bindR (cursor_u32 ''a packet length'' r1) (\<lambda>(n, r2). Inr (n, False, r2)))"

lemma take_remaining: "cursor_take n what r = Inr (b, r') \<Longrightarrow> remaining r = remaining r' + n"
  by (auto simp: cursor_take_def remaining_def split: if_splits)

lemma byte_remaining: "cursor_byte what r = Inr (b, r') \<Longrightarrow> remaining r = remaining r' + 1"
  by (auto simp: cursor_byte_def result_simps dest: take_remaining)

lemma u16_remaining: "cursor_u16 what r = Inr (b, r') \<Longrightarrow> remaining r = remaining r' + 2"
  by (auto simp: cursor_u16_def result_simps dest: take_remaining)

lemma u32_remaining: "cursor_u32 what r = Inr (b, r') \<Longrightarrow> remaining r = remaining r' + 4"
  by (auto simp: cursor_u32_def result_simps dest: take_remaining)

lemma length_remaining: "new_length r = Inr (n, p, r') \<Longrightarrow> remaining r' < remaining r"
  by (auto simp: new_length_def Let_def result_simps split: if_splits
      dest!: byte_remaining u32_remaining)

lemma chunk_remaining:
  "new_length r = Inr (n, p, r1) \<Longrightarrow> cursor_take k what r1 = Inr (chunk, r2) \<Longrightarrow> remaining r2 < remaining r"
  using length_remaining [of r n p r1] take_remaining [of k what r1 chunk r2] by simp

function new_body :: "bytes \<Rightarrow> cursor \<Rightarrow> packet_error + bytes \<times> cursor" where
  "new_body body r =
     bindR (new_length r) (\<lambda>(n, partial, r1).
     bindR (cursor_take n ''a packet body'' r1) (\<lambda>(chunk, r2).
     if partial then new_body (body @ chunk) r2 else Inr (body @ chunk, r2)))"
  by pat_completeness auto

termination
  by (relation "measure (\<lambda>(body, r). remaining r)") (auto intro: chunk_remaining)

declare new_body.simps [simp del]

definition old_body :: "byte \<Rightarrow> cursor \<Rightarrow> packet_error + bytes \<times> cursor" where
  "old_body header r =
     (let form = header AND 3 in
      if form = 0 then bindR (cursor_byte ''a packet length'' r) (\<lambda>(n, r1). cursor_take (unat n) ''a packet body'' r1)
      else if form = 1 then bindR (cursor_u16 ''a packet length'' r) (\<lambda>(n, r1). cursor_take n ''a packet body'' r1)
      else if form = 2 then bindR (cursor_u32 ''a packet length'' r) (\<lambda>(n, r1). cursor_take n ''a packet body'' r1)
      else Inr (cursor_rest r))"

definition read_packet :: "cursor \<Rightarrow> packet_error + packet \<times> cursor" where
  "read_packet r =
     bindR (cursor_byte ''a packet header'' r) (\<lambda>(header, r1).
     if header AND 0x80 = 0 then Inl (NotAHeader header)
     else if header AND 0x40 \<noteq> 0 then
       bindR (new_body [] r1) (\<lambda>(body, r2).
       Inr (\<lparr>packet_tag = header AND 0x3f, packet_body = body\<rparr>, r2))
     else
       bindR (old_body header r1) (\<lambda>(body, r2).
       Inr (\<lparr>packet_tag = drop_bit 2 header AND 0x0f, packet_body = body\<rparr>, r2)))"

lemma new_body_remaining: "new_body body r = Inr (b, r') \<Longrightarrow> remaining r' \<le> remaining r"
proof (induction body r rule: new_body.induct)
  case (1 body r)
  then obtain n partial r1 chunk r2 where l: "new_length r = Inr (n, partial, r1)"
    and t: "cursor_take n ''a packet body'' r1 = Inr (chunk, r2)"
    and e: "(if partial then new_body (body @ chunk) r2 else Inr (body @ chunk, r2)) = Inr (b, r')"
    unfolding new_body.simps [of body r] by (auto simp: result_simps)
  have "remaining r2 < remaining r" using length_remaining [OF l] take_remaining [OF t] by simp
  moreover have "remaining r' \<le> remaining r2"
    using "1.IH" [OF l refl refl t refl] e by (cases partial) auto
  ultimately show ?case by simp
qed

lemma old_body_remaining: "old_body header r = Inr (b, r') \<Longrightarrow> remaining r' \<le> remaining r"
  by (auto simp: old_body_def Let_def result_simps cursor_rest_def remaining_def [of "_\<lparr>cursor_at := _\<rparr>"]
      split: if_splits dest!: byte_remaining u16_remaining u32_remaining take_remaining)

lemma read_packet_remaining: "read_packet r = Inr (p, r') \<Longrightarrow> remaining r' < remaining r"
  by (fastforce simp: read_packet_def result_simps split: if_splits
      dest!: byte_remaining new_body_remaining old_body_remaining)

function packets_from :: "cursor \<Rightarrow> packet list \<Rightarrow> packet_error + packet list" where
  "packets_from r out =
     (if remaining r > 0
      then bindR (read_packet r) (\<lambda>(p, r'). packets_from r' (out @ [p]))
      else Inr out)"
  by pat_completeness auto

termination
  by (relation "measure (\<lambda>(r, out). remaining r)") (auto dest: read_packet_remaining)

declare packets_from.simps [simp del]

definition packets :: "bytes \<Rightarrow> packet_error + packet list" where
  "packets data = packets_from (cursor_new data) []"

section \<open>Writing\<close>

definition write_packet :: "byte \<Rightarrow> bytes \<Rightarrow> bytes" where
  "write_packet tag body = [0xc0 OR tag, 0xff] @ be_bytes 4 (of_nat (length body) :: 32 word) @ body"

definition leading_zeros :: "byte \<Rightarrow> nat" where
  "leading_zeros b = length (takeWhile (\<lambda>i. \<not> bit b i) (rev [0..<8]))"

definition write_mpi :: "bytes \<Rightarrow> bytes" where
  "write_mpi bytes =
     (let trimmed = dropWhile (\<lambda>b. b = 0) bytes;
          bits = (case trimmed of first # _ \<Rightarrow> length trimmed * 8 - leading_zeros first | [] \<Rightarrow> 0)
      in be_bytes 2 (of_nat bits :: 16 word) @ trimmed)"

definition hex_upper :: "bytes \<Rightarrow> string" where
  "hex_upper bytes = concat (map (\<lambda>b. map (\<lambda>n. ''0123456789ABCDEF'' ! n) [unat b div 16, unat b mod 16]) bytes)"

end
