(* ===== verification/PacketsProps.thy ===== *)
theory PacketsProps
  imports Packets
begin

text \<open>
  Reading back what is written: packets one after the other, and multiprecision integers with the zero
  bytes before them taken off.
\<close>

unbundle bit_operations_syntax

definition ahead :: "cursor \<Rightarrow> bytes" where
  "ahead r = drop (cursor_at r) (cursor_data r)"

lemma remaining_ahead: "remaining r = length (ahead r)"
  by (simp add: remaining_def ahead_def)

lemma take_ahead:
  assumes "ahead r = xs @ ys" "length xs = n"
  shows "\<exists>r'. cursor_take n what r = Inr (xs, r') \<and> ahead r' = ys"
proof -
  have "\<not> remaining r < n" using assms by (simp add: remaining_ahead)
  moreover have "take n (drop (cursor_at r) (cursor_data r)) = xs" using assms by (simp add: ahead_def)
  moreover have "ahead (r\<lparr>cursor_at := cursor_at r + n\<rparr>) = ys"
    using assms by (simp add: ahead_def add.commute flip: drop_drop)
  ultimately show ?thesis by (simp add: cursor_take_def)
qed

lemma byte_ahead: "ahead r = x # ys \<Longrightarrow> \<exists>r'. cursor_byte what r = Inr (x, r') \<and> ahead r' = ys"
  using take_ahead [of r "[x]" ys 1 what] by (auto simp: cursor_byte_def)

lemma from_be_be_bytes_4: "from_be (be_bytes 4 w) = (w :: 32 word)"
proof (rule bit_word_eqI)
  fix k assume k: "k < LENGTH(32)"
  have b: "be_bytes 4 w = [ucast (drop_bit 24 w), ucast (drop_bit 16 w), ucast (drop_bit 8 w), ucast w]"
    by (simp add: be_bytes_def upt_rec numeral_eq_Suc)
  consider "k < 8" | "8 \<le> k" "k < 16" | "16 \<le> k" "k < 24" | "24 \<le> k" by linarith
  then show "bit (from_be (be_bytes 4 w) :: 32 word) k \<longleftrightarrow> bit w k"
    using k by cases (auto simp: b from_be_def bit_or_iff bit_push_bit_iff bit_ucast_iff bit_drop_bit_eq)
qed

lemma from_be_be_bytes_2: "from_be (be_bytes 2 w) = (w :: 16 word)"
proof (rule bit_word_eqI)
  fix k assume k: "k < LENGTH(16)"
  have b: "be_bytes 2 w = [ucast (drop_bit 8 w), ucast w]"
    by (simp add: be_bytes_def upt_rec numeral_eq_Suc)
  consider "k < 8" | "8 \<le> k" by linarith
  then show "bit (from_be (be_bytes 2 w) :: 16 word) k \<longleftrightarrow> bit w k"
    using k by cases (auto simp: b from_be_def bit_or_iff bit_push_bit_iff bit_ucast_iff bit_drop_bit_eq)
qed

lemma u32_ahead:
  assumes "ahead r = be_bytes 4 (of_nat n :: 32 word) @ ys" "n < 2 ^ 32"
  shows "\<exists>r'. cursor_u32 what r = Inr (n, r') \<and> ahead r' = ys"
  using take_ahead [OF assms(1), of 4 what] assms(2)
  by (auto simp: cursor_u32_def from_be_be_bytes_4 unat_of_nat)

lemma u16_ahead:
  assumes "ahead r = be_bytes 2 (of_nat n :: 16 word) @ ys" "n < 2 ^ 16"
  shows "\<exists>r'. cursor_u16 what r = Inr (n, r') \<and> ahead r' = ys"
  using take_ahead [OF assms(1), of 2 what] assms(2)
  by (auto simp: cursor_u16_def from_be_be_bytes_2 unat_of_nat)

lemma header_bits:
  fixes tag :: byte
  assumes "unat tag < 64"
  shows "(0xc0 OR tag) AND 0x80 \<noteq> 0" "(0xc0 OR tag) AND 0x40 \<noteq> 0" "(0xc0 OR tag) AND 0x3f = tag"
proof -
  have c: "(0xc0 :: byte) = set_bit 6 (set_bit 7 0)" "(0x80 :: byte) = set_bit 7 0" "(0x40 :: byte) = set_bit 6 0"
    "(0x3f :: byte) = mask 6" by code_simp+
  have "bit ((0xc0 OR tag) AND 0x80) 7" unfolding c by (simp add: bit_and_iff bit_or_iff bit_set_bit_iff)
  then show "(0xc0 OR tag) AND 0x80 \<noteq> 0" by auto
  have "bit ((0xc0 OR tag) AND 0x40) 6" unfolding c by (simp add: bit_and_iff bit_or_iff bit_set_bit_iff)
  then show "(0xc0 OR tag) AND 0x40 \<noteq> 0" by auto
  have "take_bit 6 (unat tag) = unat tag" using assms by (simp add: take_bit_nat_eq_self_iff)
  then have t: "take_bit 6 tag = tag" by (metis unsigned_take_bit_eq word_unat_eq_iff)
  have "take_bit 6 (0xc0 OR tag) = take_bit 6 0xc0 OR take_bit 6 tag" by (rule take_bit_or)
  also have "take_bit 6 (0xc0 :: byte) = 0" by code_simp
  finally show "(0xc0 OR tag) AND 0x3f = tag" by (simp add: t c(4) flip: take_bit_eq_mask)
qed

lemma full_header: "unat (0xff :: byte) = 255"
  by simp

lemma read_written:
  assumes "ahead r = write_packet tag body @ ys" "unat tag < 64" "length body < 2 ^ 32"
  shows "\<exists>r'. read_packet r = Inr (\<lparr>packet_tag = tag, packet_body = body\<rparr>, r') \<and> ahead r' = ys"
proof -
  have "ahead r = (0xc0 OR tag) # 0xff # be_bytes 4 (of_nat (length body) :: 32 word) @ body @ ys"
    using assms(1) by (simp add: write_packet_def)
  then obtain r1 where h: "cursor_byte ''a packet header'' r = Inr (0xc0 OR tag, r1)"
    "ahead r1 = 0xff # be_bytes 4 (of_nat (length body) :: 32 word) @ body @ ys"
    using byte_ahead by blast
  obtain r2 where f: "cursor_byte ''a packet length'' r1 = Inr (0xff, r2)"
    "ahead r2 = be_bytes 4 (of_nat (length body) :: 32 word) @ body @ ys"
    using byte_ahead [OF h(2)] by blast
  obtain r3 where l: "cursor_u32 ''a packet length'' r2 = Inr (length body, r3)" "ahead r3 = body @ ys"
    using u32_ahead [OF f(2) assms(3)] by blast
  obtain r4 where b: "cursor_take (length body) ''a packet body'' r3 = Inr (body, r4)" "ahead r4 = ys"
    using take_ahead [OF l(2) refl] by blast
  have "new_length r1 = Inr (length body, False, r3)"
    unfolding new_length_def f(1) bindR_simps prod.case Let_def full_header using l(1) by simp
  then have "new_body [] r1 = Inr (body, r4)" by (simp add: new_body.simps [of "[]" r1] b(1))
  then show ?thesis
    using h(1) b(2) header_bits [OF assms(2)] by (simp add: read_packet_def)
qed

lemma packets_written:
  assumes "\<forall>(tag, body) \<in> set ps. unat tag < 64 \<and> length body < 2 ^ 32"
    and "ahead r = concat (map (\<lambda>(tag, body). write_packet tag body) ps)"
  shows "packets_from r out = Inr (out @ map (\<lambda>(tag, body). \<lparr>packet_tag = tag, packet_body = body\<rparr>) ps)"
  using assms
proof (induction ps arbitrary: r out)
  case Nil
  then show ?case by (simp add: packets_from.simps [of r] remaining_ahead)
next
  case (Cons p ps)
  obtain tag body where p: "p = (tag, body)" by (cases p)
  have a: "ahead r = write_packet tag body @ concat (map (\<lambda>(tag, body). write_packet tag body) ps)"
    using Cons.prems(2) p by simp
  obtain r' where r': "read_packet r = Inr (\<lparr>packet_tag = tag, packet_body = body\<rparr>, r')"
    "ahead r' = concat (map (\<lambda>(tag, body). write_packet tag body) ps)"
    using read_written [OF a] Cons.prems(1) p by auto
  have "0 < remaining r" using a by (simp add: remaining_ahead write_packet_def)
  then show ?case using r'(1) Cons.IH [OF _ r'(2)] Cons.prems(1) by (simp add: packets_from.simps [of r] p)
qed

text \<open>C36: Packets written one after the other are read back as they were: each with its tag and its whole
  body, in order and nothing more, for tags below 64 and bodies a four-octet length can say.\<close>

theorem packets_read_back:
  assumes "\<forall>(tag, body) \<in> set ps. unat tag < 64 \<and> length body < 2 ^ 32"
  shows "packets (concat (map (\<lambda>(tag, body). write_packet tag body) ps))
    = Inr (map (\<lambda>(tag, body). \<lparr>packet_tag = tag, packet_body = body\<rparr>) ps)"
  using packets_written [OF assms, of "cursor_new (concat (map (\<lambda>(tag, body). write_packet tag body) ps))" "[]"]
  by (simp add: packets_def ahead_def cursor_new_def)

theorem packets_read_back_witness:
  "packets (write_packet 1 [1, 2, 3] @ write_packet 63 [])
     = Inr [\<lparr>packet_tag = 1, packet_body = [1, 2, 3]\<rparr>, \<lparr>packet_tag = 63, packet_body = []\<rparr>]"
  using packets_read_back [of "[(1, [1, 2, 3]), (63, [])]"] by simp

text \<open>A multiprecision integer reads back without the zero bytes before it.\<close>

lemma takeWhile_shorter: "x \<in> set xs \<Longrightarrow> \<not> P x \<Longrightarrow> length (takeWhile P xs) < length xs"
  by (induction xs) auto

lemma leading_zeros_less: "b \<noteq> 0 \<Longrightarrow> leading_zeros b < 8"
proof -
  assume "b \<noteq> 0"
  then obtain k where "bit b k" by (auto simp: bit_eq_iff)
  then have "k \<in> set (rev [0..<8])" "\<not> \<not> bit b k" using bit_imp_le_length [of b k] by simp_all
  then have "length (takeWhile (\<lambda>i. \<not> bit b i) (rev [0..<8])) < length (rev [0..<8::nat])"
    by (rule takeWhile_shorter)
  then show ?thesis by (simp add: leading_zeros_def)
qed

lemma mpi_read_back:
  assumes "ahead r = write_mpi bytes @ ys" "8 * length bytes < 2 ^ 16"
  shows "\<exists>r'. cursor_mpi what r = Inr (dropWhile (\<lambda>b. b = 0) bytes, r') \<and> ahead r' = ys"
proof -
  define t where "t = dropWhile (\<lambda>b. b = 0) bytes"
  define bits where "bits = (case t of first # _ \<Rightarrow> length t * 8 - leading_zeros first | [] \<Rightarrow> 0)"
  have len: "length t \<le> length bytes" unfolding t_def by (rule length_dropWhile_le)
  have w: "write_mpi bytes = be_bytes 2 (of_nat bits :: 16 word) @ t" by (simp add: write_mpi_def bits_def t_def [symmetric] Let_def)
  have "bits \<le> length t * 8" by (simp add: bits_def split: list.splits)
  then have "bits < 2 ^ 16" using len assms(2) by simp
  moreover have d: "(bits + 7) div 8 = length t"
  proof (cases t)
    case (Cons x xs)
    then have "x \<noteq> 0" unfolding t_def by (auto simp: dropWhile_eq_Cons_conv)
    from leading_zeros_less [OF this] show ?thesis by (simp add: bits_def Cons)
  qed (simp add: bits_def)
  ultimately obtain r1 where u: "cursor_u16 what r = Inr (bits, r1)" "ahead r1 = t @ ys"
    using u16_ahead [of r bits "t @ ys"] assms(1) w by auto
  then show ?thesis using take_ahead [OF u(2) refl, of what] by (simp add: cursor_mpi_def d t_def)
qed

end
