(* ===== verification/MigrateGrants.thy ===== *)
theory MigrateGrants
  imports Patterns Migrate GrantOps
begin

text \<open>
  What a legacy grant becomes: \<open>src/core/migrate/grants.rs\<close>. A grant's capabilities, scopes and
  acquisition scopes are expanded, one name at a time, into a sorted set of encoded capabilities
  (the action, the item and the field, a NUL between them), which is then decoded into the list
  the grant records. A \<open>BTreeSet<String>\<close> is the ordered map of the objects with \<open>()\<close> for values.
  The lines printed for a capability that is dropped are not modelled.
\<close>

type_synonym text_set = "(string \<times> unit) list"

type_synonym item_fields = "(string \<times> string list) list"

datatype grant_error =
    UnsupportedLegacyAction string
  | ContextReadOnly
  | TokenNotObject
  | LegacyNoAction
  | LegacyNoItem
  | ScopeNotText
  | ScopeNoItem
  | ScopeNoField
  | MixesAcquisition string

section \<open>Expanding one name\<close>

definition canonical_item_id :: "string \<Rightarrow> string" where
  "canonical_item_id ident =
     (case strip_prefix ''request:credential/'' ident of
        Some suffix \<Rightarrow> ''operation:credential/'' @ suffix
      | None \<Rightarrow> ident)"

definition nul :: char where
  "nul = CHR 0x00"

definition encoded :: "action \<Rightarrow> string \<Rightarrow> string \<Rightarrow> string" where
  "encoded a item f = action_str a @ [nul] @ item @ [nul] @ f"

definition renamed_action :: "string \<Rightarrow> grant_error + action" where
  "renamed_action raw =
     (let renamed = (if raw = ''write'' then ''stage'' else if raw = ''delete'' then ''trash'' else raw)
      in case action_parse renamed of
           Some a \<Rightarrow> if legacy_action a then Inr a else Inl (UnsupportedLegacyAction raw)
         | None \<Rightarrow> Inl (UnsupportedLegacyAction raw))"

definition target_parts :: "string \<Rightarrow> string \<times> string option" where
  "target_parts target =
     (case split_once (CHR ''#'') target of Some (item, f) \<Rightarrow> (item, Some f) | None \<Rightarrow> (target, None))"

text \<open>A name that no item matches: a field a later item will have, a whole item, or nothing.\<close>

definition expand_absent :: "action \<Rightarrow> string \<Rightarrow> string option \<Rightarrow> bool \<Rightarrow> text_set \<Rightarrow> text_set" where
  "expand_absent a item requested wildcard out =
     (case (if wildcard then None else future_contract_field item requested) of
        Some f \<Rightarrow> map_insert (encoded a item f) () out
      | None \<Rightarrow>
          if reads_context a \<and> requested = None \<and> \<not> wildcard then map_insert (encoded a item []) () out
          else if \<not> needs_field a \<and> requested = None \<and> \<not> wildcard then map_insert (encoded a item []) () out
          else out)"

definition expand_match ::
  "action \<Rightarrow> string option \<Rightarrow> text_set \<Rightarrow> string \<times> string list \<Rightarrow> grant_error + text_set" where
  "expand_match a requested out e =
     (case e of (item, names) \<Rightarrow>
        case requested of
          Some name \<Rightarrow>
            (case canonical_field name names of
               None \<Rightarrow> Inr out
             | Some f \<Rightarrow>
                 if f = ''context'' \<and> \<not> reads_context a then Inl ContextReadOnly
                 else Inr (map_insert (encoded a item f) () out))
        | None \<Rightarrow>
            Inr (if per_field a then fold (\<lambda>f. map_insert (encoded a item f) ()) names out
                 else map_insert (encoded a item []) () out))"

definition expand_capability ::
  "item_fields \<Rightarrow> text_set \<Rightarrow> string \<times> string \<Rightarrow> grant_error + text_set" where
  "expand_capability items out asked =
     (case asked of (raw, target) \<Rightarrow>
        bindR (renamed_action raw) (\<lambda>a.
          case target_parts target of (pattern, requested) \<Rightarrow>
            let wildcard = (CHR ''*'' \<in> set pattern \<or> CHR ''?'' \<in> set pattern);
                canonical = canonical_item_id pattern;
                matches = filter (\<lambda>(item, _). glob_matches canonical item) items
            in if matches = [] then Inr (expand_absent a canonical requested wildcard out)
               else foldR (expand_match a requested) out matches))"

section \<open>What a legacy grant names\<close>

definition capability_asks :: "json \<Rightarrow> grant_error + string \<times> string" where
  "capability_asks capability =
     bindR (ok_or LegacyNoAction (get_str capability ''action'')) (\<lambda>a.
     bindR (ok_or LegacyNoItem (get_str capability ''item'')) (\<lambda>item.
       Inr (a, case get_str capability ''field'' of Some f \<Rightarrow> item @ ''#'' @ f | None \<Rightarrow> item)))"

definition scope_asks :: "json \<Rightarrow> grant_error + string \<times> string" where
  "scope_asks scope =
     bindR (ok_or ScopeNotText (as_str scope)) (\<lambda>text.
       Inr (case split_once (CHR '':'') text of
              Some pair \<Rightarrow> pair
            | None \<Rightarrow> (action_str Read, text)))"

definition acquisition_asks :: "bool \<Rightarrow> json \<Rightarrow> grant_error + string \<times> string" where
  "acquisition_asks has_key scope =
     bindR (ok_or ScopeNoItem (get_str scope ''item'')) (\<lambda>item.
     bindR (ok_or ScopeNoField (get_str scope ''field'')) (\<lambda>f.
       Inr (action_str (if has_key then Acquire else Read), item @ ''#'' @ f)))"

text \<open>One list of the grant, each name read and expanded in turn; a list that is absent or is
  not a list names nothing.\<close>

definition expand_listed ::
  "item_fields \<Rightarrow> (json \<Rightarrow> grant_error + string \<times> string) \<Rightarrow> json \<Rightarrow> string \<Rightarrow> text_set
     \<Rightarrow> grant_error + text_set" where
  "expand_listed items asks entry name out =
     (case get_array entry name of
        None \<Rightarrow> Inr out
      | Some xs \<Rightarrow> foldR (\<lambda>out x. bindR (asks x) (expand_capability items out)) out xs)"

definition has_workload_key :: "json \<Rightarrow> bool" where
  "has_workload_key entry \<longleftrightarrow> get_str entry ''workload_public_key'' \<noteq> None"

definition expanded_set :: "item_fields \<Rightarrow> json \<Rightarrow> grant_error + text_set" where
  "expanded_set items entry =
     bindR (expand_listed items capability_asks entry ''capabilities'' []) (\<lambda>out.
     bindR (expand_listed items scope_asks entry ''scopes'' out) (\<lambda>out'.
       expand_listed items (acquisition_asks (has_workload_key entry)) entry ''acquisition_scopes'' out'))"

definition decoded :: "string \<Rightarrow> json option" where
  "decoded text =
     (case split_on nul text of
        a # item # rest \<Rightarrow>
          Some (mk_obj [(''action'', JStr a), (''item'', JStr item),
            (''field'', case rest of f # _ \<Rightarrow> if f = [] then JNull else JStr f | [] \<Rightarrow> JNull)])
      | _ \<Rightarrow> None)"

definition entry_or :: "string \<Rightarrow> json \<Rightarrow> obj \<Rightarrow> obj" where
  "entry_or k v m = (if map_of m k = None then map_insert k v m else m)"

definition migrate_grant :: "item_fields \<Rightarrow> string \<times> json \<Rightarrow> grant_error + string \<times> json" where
  "migrate_grant items e =
     (case e of (consumer, entry) \<Rightarrow>
        bindR (ok_or TokenNotObject (as_object entry)) (\<lambda>object.
        bindR (expanded_set items entry) (\<lambda>out.
          let capabilities = List.map_filter decoded (map fst out);
              has_acquire = list_ex is_acquire capabilities
          in if has_acquire \<and> \<not> list_all is_acquire capabilities then Inl (MixesAcquisition consumer)
             else Inr (consumer, JObj
               (entry_or ''workload_public_key'' JNull
               (entry_or ''expires_at'' (JUInt UNTIL_REVOKED)
               (entry_or ''audience'' (JStr consumer)
               (map_insert ''capabilities'' (JArr capabilities)
               (map_remove ''acquisition_scopes'' (map_remove ''scopes''
                 (if has_acquire then map_insert ''hash'' JNull object
                  else map_insert ''workload_public_key'' JNull object)))))))))))"

definition migrate_grants :: "item_fields \<Rightarrow> obj \<Rightarrow> grant_error + obj \<times> nat" where
  "migrate_grants items tokens =
     bindR (mapR (migrate_grant items) tokens) (\<lambda>migrated. Inr (migrated, length tokens))"

end
