(* ===== verification/MigrateGrantProps.thy ===== *)
theory MigrateGrantProps
  imports MigrateGrants Fixtures
begin

text \<open>
  What a migrated grant may reach: every capability it records comes from a name the legacy grant
  held, for an item that name matches and a field that item carries.
\<close>

section \<open>The set of encoded capabilities\<close>

definition keys :: "text_set \<Rightarrow> string set" where
  "keys out = fst ` set out"

lemma keys_insert [simp]: "keys (map_insert k v out) = insert k (keys out)"
  by (simp add: keys_def keys_map_insert)

lemma keys_inserts [simp]: "keys (fold (\<lambda>f. map_insert (enc f) ()) xs out) = enc ` set xs \<union> keys out"
  by (induction xs arbitrary: out) auto

text \<open>What a legacy name covers: an item it matches and a field it names there; or, when it
  matches none, the item it names outright.\<close>

definition covers :: "item_fields \<Rightarrow> action \<Rightarrow> string \<Rightarrow> string \<Rightarrow> string \<Rightarrow> bool" where
  "covers items a target item f \<longleftrightarrow>
     (case target_parts target of (pattern, requested) \<Rightarrow>
        (\<exists>names. (item, names) \<in> set items \<and> glob_matches (canonical_item_id pattern) item
           \<and> (case requested of
                Some name \<Rightarrow> canonical_field name names = Some f \<and> (f = ''context'' \<longrightarrow> reads_context a)
              | None \<Rightarrow> if per_field a then f \<in> set names else f = []))
      \<or> (CHR ''*'' \<notin> set pattern \<and> CHR ''?'' \<notin> set pattern \<and> item = canonical_item_id pattern
           \<and> (\<forall>e \<in> set items. \<not> glob_matches item (fst e))
           \<and> (future_contract_field item requested = Some f
              \<or> requested = None \<and> (\<not> needs_field a \<or> reads_context a) \<and> f = [])))"

lemma expand_absent_keys:
  assumes "e \<in> keys (expand_absent a item requested wildcard out)" and "e \<notin> keys out"
  shows "\<not> wildcard \<and> (\<exists>f. e = encoded a item f
    \<and> (future_contract_field item requested = Some f
       \<or> requested = None \<and> (\<not> needs_field a \<or> reads_context a) \<and> f = []))"
  using assms by (auto simp: expand_absent_def split: option.splits if_splits)

lemma expand_match_keys:
  assumes "expand_match a requested out (item, names) = Inr out'" and "e \<in> keys out'" and "e \<notin> keys out"
  shows "\<exists>f. e = encoded a item f \<and>
    (case requested of
       Some name \<Rightarrow> canonical_field name names = Some f \<and> (f = ''context'' \<longrightarrow> reads_context a)
     | None \<Rightarrow> if per_field a then f \<in> set names else f = [])"
  using assms by (auto simp: expand_match_def split: option.splits if_splits)

lemma covers_absent:
  assumes "target_parts target = (pattern, requested)"
    and "\<forall>e \<in> set items. \<not> glob_matches (canonical_item_id pattern) (fst e)"
    and "\<not> (CHR ''*'' \<in> set pattern \<or> CHR ''?'' \<in> set pattern)"
    and "future_contract_field (canonical_item_id pattern) requested = Some f
       \<or> requested = None \<and> (\<not> needs_field a \<or> reads_context a) \<and> f = []"
  shows "covers items a target (canonical_item_id pattern) f"
  unfolding covers_def assms(1) prod.case using assms(2-) by (intro disjI2) simp

lemma covers_match:
  assumes "target_parts target = (pattern, requested)"
    and "(item, names) \<in> set items" "glob_matches (canonical_item_id pattern) item"
    and "case requested of
       Some name \<Rightarrow> canonical_field name names = Some f \<and> (f = ''context'' \<longrightarrow> reads_context a)
     | None \<Rightarrow> if per_field a then f \<in> set names else f = []"
  shows "covers items a target item f"
  unfolding covers_def assms(1) prod.case using assms(2-) by blast

lemma expand_capability_keys:
  assumes "expand_capability items out (raw, target) = Inr out'" and "e \<in> keys out'" and "e \<notin> keys out"
  shows "\<exists>a item f. renamed_action raw = Inr a \<and> e = encoded a item f \<and> covers items a target item f"
proof -
  obtain pattern requested where t: "target_parts target = (pattern, requested)" by fastforce
  from assms(1) obtain a where a: "renamed_action raw = Inr a"
    by (auto simp: expand_capability_def result_simps)
  define matches where "matches = filter (\<lambda>(item, _). glob_matches (canonical_item_id pattern) item) items"
  show ?thesis
  proof (cases "matches = []")
    case True
    with assms(1) a t have "out' = expand_absent a (canonical_item_id pattern) requested
        (CHR ''*'' \<in> set pattern \<or> CHR ''?'' \<in> set pattern) out"
      by (simp add: expand_capability_def matches_def)
    from expand_absent_keys [OF assms(2) [unfolded this] assms(3)]
    obtain f where wild: "\<not> (CHR ''*'' \<in> set pattern \<or> CHR ''?'' \<in> set pattern)"
      and e: "e = encoded a (canonical_item_id pattern) f"
      and f: "future_contract_field (canonical_item_id pattern) requested = Some f
       \<or> requested = None \<and> (\<not> needs_field a \<or> reads_context a) \<and> f = []" by blast
    from True have "\<forall>e \<in> set items. \<not> glob_matches (canonical_item_id pattern) (fst e)"
      by (auto simp: matches_def filter_empty_conv)
    from covers_absent [OF t this wild f] a e show ?thesis by blast
  next
    case False
    with assms(1) a t have run: "foldR (expand_match a requested) out matches = Inr out'"
      by (simp add: expand_capability_def matches_def)
    define fresh where "fresh = (\<lambda>out'. \<forall>e \<in> keys out' - keys out.
      \<exists>item f. e = encoded a item f \<and> covers items a target item f)"
    have "fresh out'"
    proof (rule foldR_invariant [OF run])
      show "fresh out" by (simp add: fresh_def)
    next
      fix s x s' assume x: "x \<in> set matches" "fresh s" "expand_match a requested s x = Inr s'"
      obtain item names where i: "x = (item, names)" by fastforce
      show "fresh s'"
        unfolding fresh_def
      proof
        fix e assume e: "e \<in> keys s' - keys out"
        show "\<exists>item f. e = encoded a item f \<and> covers items a target item f"
        proof (cases "e \<in> keys s")
          case True
          with x(2) e show ?thesis by (auto simp: fresh_def)
        next
          case False
          from x(1) i have m: "(item, names) \<in> set items" "glob_matches (canonical_item_id pattern) item"
            by (auto simp: matches_def)
          from expand_match_keys [OF x(3) [unfolded i] _ False] e covers_match [OF t m] show ?thesis by blast
        qed
      qed
    qed
    with assms(2,3) a show ?thesis by (auto simp: fresh_def)
  qed
qed


section \<open>Every capability comes from a name the grant held\<close>

text \<open>What a legacy grant asks for: an action and a target, from any of its three lists.\<close>

definition asks :: "json \<Rightarrow> string \<times> string \<Rightarrow> bool" where
  "asks entry asked \<longleftrightarrow>
     (\<exists>xs x. get_array entry ''capabilities'' = Some xs \<and> x \<in> set xs \<and> capability_asks x = Inr asked)
   \<or> (\<exists>xs x. get_array entry ''scopes'' = Some xs \<and> x \<in> set xs \<and> scope_asks x = Inr asked)
   \<or> (\<exists>xs x. get_array entry ''acquisition_scopes'' = Some xs \<and> x \<in> set xs
              \<and> acquisition_asks (has_workload_key entry) x = Inr asked)"

definition granted :: "item_fields \<Rightarrow> json \<Rightarrow> string \<Rightarrow> bool" where
  "granted items entry e \<longleftrightarrow>
     (\<exists>raw target a item f. asks entry (raw, target) \<and> renamed_action raw = Inr a
        \<and> e = encoded a item f \<and> covers items a target item f)"

lemma expand_listed_granted:
  assumes "expand_listed items ask entry name out = Inr out'"
    and "\<And>xs x asked. get_array entry name = Some xs \<Longrightarrow> x \<in> set xs \<Longrightarrow> ask x = Inr asked \<Longrightarrow> asks entry asked"
    and "\<forall>e \<in> keys out. granted items entry e"
  shows "\<forall>e \<in> keys out'. granted items entry e"
proof (cases "get_array entry name")
  case None
  with assms(1,3) show ?thesis by (simp add: expand_listed_def)
next
  case (Some xs)
  with assms(1) have run: "foldR (\<lambda>out x. bindR (ask x) (expand_capability items out)) out xs = Inr out'"
    by (simp add: expand_listed_def)
  show ?thesis
  proof (rule foldR_invariant [where P = "\<lambda>o'. \<forall>e \<in> keys o'. granted items entry e", OF run assms(3)])
    fix s x s' assume x: "x \<in> set xs" "\<forall>e \<in> keys s. granted items entry e"
      "bindR (ask x) (expand_capability items s) = Inr s'"
    then obtain raw target where q: "ask x = Inr (raw, target)" "expand_capability items s (raw, target) = Inr s'"
      by (auto simp: result_simps)
    from assms(2) [OF Some x(1) q(1)] expand_capability_keys [OF q(2)] x(2)
    show "\<forall>e \<in> keys s'. granted items entry e" unfolding granted_def by blast
  qed
qed

lemma expanded_granted:
  assumes "expanded_set items entry = Inr out"
  shows "\<forall>e \<in> keys out. granted items entry e"
proof -
  from assms obtain o1 o2 where run: "expand_listed items capability_asks entry ''capabilities'' [] = Inr o1"
    "expand_listed items scope_asks entry ''scopes'' o1 = Inr o2"
    "expand_listed items (acquisition_asks (has_workload_key entry)) entry ''acquisition_scopes'' o2 = Inr out"
    by (auto simp: expanded_set_def result_simps)
  have "\<forall>e \<in> keys o1. granted items entry e"
    by (rule expand_listed_granted [OF run(1)]) (unfold asks_def, blast, simp add: keys_def)
  then have "\<forall>e \<in> keys o2. granted items entry e"
    by (rule expand_listed_granted [OF run(2), rotated]) (unfold asks_def, blast)
  then show ?thesis
    by (rule expand_listed_granted [OF run(3), rotated]) (unfold asks_def, blast)
qed

text \<open>An encoded capability without a NUL in its names is read back as it was.\<close>

lemma split_on_sep: "c \<notin> set a \<Longrightarrow> split_on c (a @ c # b) = a # split_on c b"
  by (induction a) auto

lemma action_str_no_nul: "nul \<notin> set (action_str a)"
  by (cases a) (simp_all add: nul_def)

lemma decoded_encoded:
  assumes "nul \<notin> set item" "nul \<notin> set f"
  shows "decoded (encoded a item f) =
    Some (mk_obj [(''action'', JStr (action_str a)), (''item'', JStr item),
            (''field'', if f = [] then JNull else JStr f)])"
  using split_on_sep [OF action_str_no_nul, of a "item @ nul # f"] split_on_sep [OF assms(1), of f]
    split_on_no_sep [OF assms(2)]
  by (simp add: decoded_def encoded_def)


text \<open>Names without a NUL: of the items and their fields, and of what a grant asks for.\<close>

definition plain_items :: "item_fields \<Rightarrow> bool" where
  "plain_items items \<longleftrightarrow>
     list_all (\<lambda>(item, names). nul \<notin> set item \<and> list_all (\<lambda>f. nul \<notin> set f) names) items"

definition plain_asks :: "json \<Rightarrow> bool" where
  "plain_asks entry \<longleftrightarrow> (\<forall>asked. asks entry asked \<longrightarrow> nul \<notin> set (snd asked))"

lemma target_parts_plain:
  "target_parts target = (pattern, requested) \<Longrightarrow> nul \<notin> set target \<Longrightarrow> nul \<notin> set pattern"
  by (auto simp: target_parts_def str_simps split: option.splits)

lemma canonical_item_id_plain:
  assumes "nul \<notin> set ident"
  shows "nul \<notin> set (canonical_item_id ident)"
proof (cases "strip_prefix ''request:credential/'' ident")
  case None
  with assms show ?thesis by (simp add: canonical_item_id_def)
next
  case (Some s)
  then have "nul \<notin> set s" using assms by (auto simp: strip_prefix_def split: if_splits dest: in_set_dropD)
  with Some show ?thesis by (simp add: canonical_item_id_def nul_def)
qed

lemma canonical_field_plain:
  assumes "canonical_field name names = Some f" "list_all (\<lambda>f. nul \<notin> set f) names"
  shows "nul \<notin> set f"
proof -
  have "f = ''context'' \<or> f \<in> set names"
    using assms(1)
    by (auto simp: canonical_field_def split: if_splits list.splits)
       (metis (mono_tags, lifting) filter_eq_Cons_iff in_set_conv_decomp)
  with assms(2) show ?thesis by (auto simp: list_all_iff nul_def)
qed

lemma covers_plain:
  assumes "covers items a target item f" "plain_items items" "nul \<notin> set target"
  shows "nul \<notin> set item" "nul \<notin> set f"
proof -
  obtain pattern requested where t: "target_parts target = (pattern, requested)" by fastforce
  have p: "nul \<notin> set (canonical_item_id pattern)"
    using canonical_item_id_plain target_parts_plain [OF t assms(3)] by blast
  have "nul \<notin> set item \<and> nul \<notin> set f"
    using assms(1) unfolding covers_def t prod.case
  proof
    assume "\<exists>names. (item, names) \<in> set items \<and> glob_matches (canonical_item_id pattern) item
      \<and> (case requested of
           Some name \<Rightarrow> canonical_field name names = Some f \<and> (f = ''context'' \<longrightarrow> reads_context a)
         | None \<Rightarrow> if per_field a then f \<in> set names else f = [])"
    then obtain names where n: "(item, names) \<in> set items"
      and c: "case requested of Some name \<Rightarrow> canonical_field name names = Some f
                \<and> (f = ''context'' \<longrightarrow> reads_context a)
              | None \<Rightarrow> if per_field a then f \<in> set names else f = []" by blast
    from assms(2) n have pl: "nul \<notin> set item" "list_all (\<lambda>f. nul \<notin> set f) names"
      by (auto simp: plain_items_def list_all_iff)
    with c canonical_field_plain show ?thesis
      by (auto simp: list_all_iff split: option.splits if_splits)
  next
    assume "CHR ''*'' \<notin> set pattern \<and> CHR ''?'' \<notin> set pattern \<and> item = canonical_item_id pattern
      \<and> (\<forall>e \<in> set items. \<not> glob_matches item (fst e))
      \<and> (future_contract_field item requested = Some f
         \<or> requested = None \<and> (\<not> needs_field a \<or> reads_context a) \<and> f = [])"
    with p show ?thesis by (auto simp: future_contract_field_def nul_def split: if_splits)
  qed
  then show "nul \<notin> set item" "nul \<notin> set f" by blast+
qed

lemma migrate_grant_capabilities:
  assumes "migrate_grant items (consumer, entry) = Inr (consumer', entry')"
  obtains out where "expanded_set items entry = Inr out" "consumer' = consumer"
    "get_array entry' ''capabilities'' = Some (List.map_filter decoded (map fst out))"
proof -
  from assms obtain object out where o: "as_object entry = Some object" "expanded_set items entry = Inr out"
    by (auto simp: migrate_grant_def result_simps)
  have "map_of (entry_or k v m) ''capabilities'' = map_of m ''capabilities''" if "k \<noteq> ''capabilities''" for k v m
    using that by (simp add: entry_or_def map_of_map_insert)
  then have "get_array entry' ''capabilities'' = Some (List.map_filter decoded (map fst out))
      \<and> consumer' = consumer"
    using assms o by (auto simp: migrate_grant_def Let_def map_of_map_insert split: if_splits)
  with o(2) that show ?thesis by blast
qed


text \<open>A bare scope on a wildcard, an action under its older name, a scope on a field under its
  older name, and one on a field that no longer exists.\<close>

definition demo_items :: item_fields where
  "demo_items = [(''mail'', [''password'', ''username'']), (''main'', [''token''])]"

definition demo_legacy_grant :: json where
  "demo_legacy_grant =
     JObj [(''scopes'', JArr [JStr ''write:mail#email'', JStr ''ma*#password'', JStr ''mail#gone''])]"

definition demo_migrated :: json where
  "demo_migrated =
     JArr [mk_obj [(''action'', JStr ''read''), (''item'', JStr ''mail''), (''field'', JStr ''password'')],
           mk_obj [(''action'', JStr ''stage''), (''item'', JStr ''mail''), (''field'', JStr ''username'')]]"

lemma demo_migrates:
  "migrate_grant demo_items (''svc'', demo_legacy_grant)
     = Inr (''svc'', mk_obj [(''audience'', JStr ''svc''), (''capabilities'', demo_migrated),
              (''expires_at'', JUInt UNTIL_REVOKED), (''workload_public_key'', JNull)])"
  by code_simp


lemma demo_plain: "plain_items demo_items" "plain_asks demo_legacy_grant"
proof -
  show "plain_items demo_items" by code_simp
  have "nul \<notin> set (snd asked)" if "asks demo_legacy_grant asked" for asked
  proof -
    have "get_array demo_legacy_grant ''capabilities'' = None"
      "get_array demo_legacy_grant ''acquisition_scopes'' = None"
      "get_array demo_legacy_grant ''scopes''
         = Some [JStr ''write:mail#email'', JStr ''ma*#password'', JStr ''mail#gone'']" by code_simp+
    with that have "asked \<in> {(''write'', ''mail#email''), (''read'', ''ma*#password''), (''read'', ''mail#gone'')}"
      by (auto simp: asks_def scope_asks_def simp del: get_Some)
    then show ?thesis by (auto simp: nul_def)
  qed
  then show "plain_asks demo_legacy_grant" by (simp add: plain_asks_def)
qed


end
