(* ===== verification/Legacy.thy ===== *)
theory Legacy
  imports Schema Text
begin

text \<open>
  Reading an item written before the item schema: \<open>src/core/schema/legacy/mod.rs\<close>,
  \<open>context.rs\<close> and \<open>fields.rs\<close>. A legacy item is an object of loosely named fields; \<open>source\<close>
  is what is left of it, \<open>ctx\<close> the canonical context built up and \<open>m\<close> the canonical fields.
  The functions that mutate these maps return them. How a value, a text and a refusal are
  worded inside a warning is the record \<open>wording\<close>.
\<close>

record wording =
  printed :: "json \<Rightarrow> string"
  quoted :: "string \<Rightarrow> string"
  refused :: "schema_error \<Rightarrow> string"

datatype legacy_error = CanonicalNoKind | LegacySchema schema_error

section \<open>Taking fields by their aliases\<close>

definition first_alias :: "obj \<Rightarrow> string list \<Rightarrow> json option" where
  "first_alias m aliases = Option.bind (find (contains_key m) aliases) (map_of m)"

definition take_alias :: "obj \<Rightarrow> string list \<Rightarrow> json option \<times> obj" where
  "take_alias source aliases =
     (case first_alias source aliases of Some JNull \<Rightarrow> None | taken \<Rightarrow> taken,
      fold map_remove aliases source)"

definition text_alias :: "obj \<Rightarrow> string list \<Rightarrow> json option \<times> obj" where
  "text_alias source aliases =
     (case take_alias source aliases of
        (Some (JStr t), rest) \<Rightarrow> (Some (JStr t), rest)
      | (_, rest) \<Rightarrow> (None, rest))"

definition warn :: "string \<Rightarrow> obj \<Rightarrow> obj" where
  "warn why ctx =
     map_insert ''import_warning''
       (JStr (case get_str (JObj ctx) ''import_warning'' of
                Some earlier \<Rightarrow> earlier @ ''; '' @ why
              | None \<Rightarrow> why)) ctx"

definition put :: "string \<Rightarrow> json option \<Rightarrow> obj \<Rightarrow> obj" where
  "put target v m = (case v of Some x \<Rightarrow> map_insert target x m | None \<Rightarrow> m)"

definition or_else :: "'a option \<Rightarrow> 'a option \<Rightarrow> 'a option" where
  "or_else a b = (case a of Some x \<Rightarrow> Some x | None \<Rightarrow> b)"

section \<open>The context\<close>

definition carry :: "obj \<Rightarrow> string \<Rightarrow> obj \<times> obj \<Rightarrow> obj \<times> obj" where
  "carry metadata name s =
     (case s of (source, ctx) \<Rightarrow>
        case take_alias source [name] of (v, rest) \<Rightarrow>
          (rest, put name (or_else v (map_of metadata name)) ctx))"

definition context_moves :: "(string \<times> string list) list" where
  "context_moves =
    [(''provider'', [''provider'']),
     (''account_ref'', [''account_ref'', ''account_identifier'', ''account_email'']),
     (''tenant_ref'', [''tenant_ref'', ''tenant_id'']),
     (''request_id'', [''_weles_request_id'', ''request_id'']),
     (''operation'', [''_weles_operation'', ''operation'']),
     (''session_label'', [''session_label'']),
     (''login_method'', [''login_method'']),
     (''name'', [''name'']),
     (''login_url'', [''login_url'', ''dashboard_url''])]"

definition move_context :: "obj \<Rightarrow> string \<times> string list \<Rightarrow> obj \<times> obj \<Rightarrow> obj \<times> obj" where
  "move_context metadata move s =
     (case move of (target, aliases) \<Rightarrow>
      case s of (source, ctx) \<Rightarrow>
      case take_alias source aliases of (v, rest) \<Rightarrow>
        (rest, put target (or_else v (first_alias metadata aliases)) (fold map_remove aliases ctx)))"

definition legacy_context :: "wording \<Rightarrow> obj \<Rightarrow> string \<Rightarrow> obj \<times> obj" where
  "legacy_context W source legacy_kind =
     (case (case map_of source ''metadata'' of
              Some (JObj metadata) \<Rightarrow> (metadata, [])
            | Some JNull \<Rightarrow> ([], [])
            | None \<Rightarrow> ([], [])
            | Some other \<Rightarrow>
                ([], map_insert ''legacy_metadata'' other
                       (warn (''legacy metadata was not an object and was kept whole: '' @ printed W other) [])))
      of (metadata, ctx) \<Rightarrow>
        let ctx' = map_insert ''source_kind'' (JStr legacy_kind)
                     (fold (\<lambda>(k, v). map_insert k v) metadata ctx)
        in carry metadata ''domain''
             (carry metadata ''domains''
               (fold (move_context metadata) context_moves (map_remove ''metadata'' source, ctx'))))"

section \<open>The fields\<close>

definition lift :: "obj \<Rightarrow> string \<Rightarrow> obj \<Rightarrow> obj" where
  "lift metadata name source =
     (if contains_key source name then source else put name (map_of metadata name) source)"

definition lift_metadata_secrets :: "obj \<Rightarrow> obj \<Rightarrow> obj" where
  "lift_metadata_secrets metadata source =
     lift metadata ''recovery_codes''
       (lift metadata ''google_totp_secret'' (lift metadata ''totp_secret'' source))"

definition USERNAME :: "string list" where
  "USERNAME = [''username'', ''email'', ''login_email'', ''login-email'']"

definition PASSWORD :: "string list" where
  "PASSWORD = [''password'', ''login_password'', ''login-password'']"

definition has_login_field :: "obj \<Rightarrow> bool" where
  "has_login_field source \<longleftrightarrow> list_ex (contains_key source) (USERNAME @ PASSWORD)"

text \<open>One field moved under its canonical name: only when it is text, or whatever it holds.\<close>

definition put_text :: "string \<times> string list \<Rightarrow> obj \<times> obj \<Rightarrow> obj \<times> obj" where
  "put_text move s =
     (case move of (target, aliases) \<Rightarrow>
      case s of (source, m) \<Rightarrow>
      case text_alias source aliases of (v, rest) \<Rightarrow> (rest, put target v m))"

definition put_any :: "string \<times> string list \<Rightarrow> obj \<times> obj \<Rightarrow> obj \<times> obj" where
  "put_any move s =
     (case move of (target, aliases) \<Rightarrow>
      case s of (source, m) \<Rightarrow>
      case take_alias source aliases of (v, rest) \<Rightarrow> (rest, put target v m))"

definition legacy_login :: "obj \<Rightarrow> obj \<Rightarrow> obj \<Rightarrow> obj \<times> obj \<times> obj" where
  "legacy_login source m ctx =
     (case text_alias source USERNAME of (username, rest) \<Rightarrow>
        let (ctx', m') =
              (case username of
                 Some v \<Rightarrow> (if contains_key ctx ''account_ref'' then ctx
                            else map_insert ''account_ref'' v ctx, map_insert ''username'' v m)
               | None \<Rightarrow> (ctx, m));
            (rest', m'') =
              put_any (''recovery_codes'', [''recovery_codes'', ''recovery-codes''])
                (put_text (''totp_secret'', [''totp_secret'', ''google_totp_secret'', ''totp-secret''])
                  (put_text (''password'', PASSWORD) (rest, m')))
        in (rest', m'', ctx'))"

definition legacy_api_key :: "obj \<times> obj \<Rightarrow> obj \<times> obj" where
  "legacy_api_key =
     fold put_text
       [(''api_key'', [''api_key'', ''api-key'', ''api_token'', ''NAMECHEAP_API_KEY'']),
        (''api_user'', [''api_user'', ''api-user'', ''NAMECHEAP_API_USER'']),
        (''username'', [''username'', ''NAMECHEAP_USERNAME'']),
        (''client_ip'', [''client_ip'', ''client-ip'', ''NAMECHEAP_CLIENT_IP''])]"

definition legacy_access_key :: "obj \<times> obj \<Rightarrow> obj \<times> obj" where
  "legacy_access_key =
     fold put_text
       [(''access_key_id'', [''access_key_id'', ''aws_access_key_id'', ''AWS_ACCESS_KEY_ID'']),
        (''secret_access_key'',
           [''secret_access_key'', ''aws_secret_access_key'', ''AWS_SECRET_ACCESS_KEY'']),
        (''session_token'', [''session_token'', ''aws_session_token'', ''AWS_SESSION_TOKEN''])]"

definition legacy_key_pair :: "obj \<Rightarrow> obj \<Rightarrow> obj \<Rightarrow> obj \<times> obj \<times> obj" where
  "legacy_key_pair source m ctx =
     (case fold put_any [(''key_id'', [''key_id'']), (''issuer_id'', [''issuer_id'']),
                         (''team_id'', [''team_id''])]
             (fold put_text
                [(''private_key'', [''private_key'', ''private_key_pem'', ''key'', ''p8'']),
                 (''public_key'', [''public_key'']), (''passphrase'', [''passphrase''])]
                (source, m))
      of (rest, m') \<Rightarrow>
        case fold put_any [(''fingerprint'', [''fingerprint'']), (''key_type'', [''key_type''])]
               (rest, ctx)
        of (rest', ctx') \<Rightarrow> (rest', m', ctx'))"

definition legacy_token :: "obj \<times> obj \<Rightarrow> obj \<times> obj" where
  "legacy_token = put_text (''token'', [''token''])"

definition legacy_named :: "string list \<Rightarrow> bool \<Rightarrow> obj \<times> obj \<Rightarrow> obj \<times> obj" where
  "legacy_named names text =
     fold (\<lambda>name. if text then put_text (name, [name]) else put_any (name, [name])) names"

definition authority_moves :: "(string \<times> string list) list" where
  "authority_moves =
    [(''url'', [''url'', ''base_url'']),
     (''token'', [''token'', ''api_token'', ''access_token'', ''worker_token'']),
     (''service_role_key'', [''service_role_key'', ''service_key'']),
     (''signing_secret'', [''signing_secret'', ''signing_key'']),
     (''agent_auth_secret'', [''agent_auth_secret'', ''auth_secret'']),
     (''id'', [''id'', ''agent_id'']),
     (''hmac_secret'', [''hmac_secret''])]"

text \<open>A field of an internal authority is taken from the item, or else from its context.\<close>

definition move_authority :: "string \<times> string list \<Rightarrow> obj \<times> obj \<times> obj \<Rightarrow> obj \<times> obj \<times> obj" where
  "move_authority move s =
     (case move of (target, aliases) \<Rightarrow>
      case s of (source, m, ctx) \<Rightarrow>
      case take_alias source aliases of
        (Some v, rest) \<Rightarrow> (rest, map_insert target v m, ctx)
      | (None, rest) \<Rightarrow>
          (case take_alias ctx aliases of (v, ctx') \<Rightarrow> (rest, put target v m, ctx')))"

definition internal_authority :: "obj \<Rightarrow> obj \<Rightarrow> obj \<Rightarrow> obj \<times> obj \<times> obj" where
  "internal_authority source m ctx = fold move_authority authority_moves (source, m, ctx)"

section \<open>Kinds as their writers spelled them\<close>

datatype legacy_kind =
    LLogin | LPlatformAdmin | LCredential | LAiCli | LGoogleSso | LAuth | LApi | LApiKey
  | LAwsCredentials | LProxy | LKey | LSshKey | LToken | LSecret | LOauthClient | LCertificate
  | LServiceAccount | LStadoSecret | LCredentialOperation | LInternalAuthority | LEnv | LConfig
  | LUnknown

definition ascii_lower :: "char \<Rightarrow> char" where
  "ascii_lower c = (if is_upper c then char_of (of_char c + 32 :: nat) else c)"

definition spelled :: "string \<Rightarrow> string" where
  "spelled written =
     map (\<lambda>c. if c = CHR ''_'' then CHR ''-'' else c) (map ascii_lower (trim written))"

text \<open>The spellings the derived reader takes, an alias beside its variant; any other text is
  the variant marked \<open>other\<close>, so reading a kind never fails.\<close>

definition legacy_kinds :: "(string \<times> legacy_kind) list" where
  "legacy_kinds =
    [(''login'', LLogin), (''platform-admin'', LPlatformAdmin), (''credential'', LCredential),
     (''ai-cli'', LAiCli), (''google-sso'', LGoogleSso), (''auth'', LAuth), (''api'', LApi),
     (''api-key'', LApiKey), (''aws-credentials'', LAwsCredentials), (''proxy'', LProxy),
     (''key'', LKey), (''ssh-key'', LSshKey), (''token'', LToken), (''secret'', LSecret),
     (''oauth-client'', LOauthClient), (''certificate'', LCertificate),
     (''service-account'', LServiceAccount), (''stado-secret'', LStadoSecret),
     (''credential-operation'', LCredentialOperation), (''credential-request'', LCredentialOperation),
     (''internal-authority'', LInternalAuthority), (''env'', LEnv), (''config'', LConfig)]"

definition read_kind :: "string \<Rightarrow> legacy_kind" where
  "read_kind written =
     (case map_of legacy_kinds (spelled written) of Some k \<Rightarrow> k | None \<Rightarrow> LUnknown)"

text \<open>
  The derived reader of a service account's credential: one field with two names, absent or
  null being none, and both names at once a duplicate.
\<close>

definition read_credential :: "obj \<Rightarrow> string + json option" where
  "read_credential source =
     (case (map_of source ''credential_json'', map_of source ''service_account_json'') of
        (Some _, Some _) \<Rightarrow> Inl ''duplicate field `credential_json`''
      | (None, None) \<Rightarrow> Inr None
      | (Some v, None) \<Rightarrow> Inr (if v = JNull then None else Some v)
      | (None, Some v) \<Rightarrow> Inr (if v = JNull then None else Some v))"

section \<open>The kind an item becomes\<close>

definition login_like :: "legacy_kind \<Rightarrow> bool" where
  "login_like written \<longleftrightarrow> written \<in> {LLogin, LPlatformAdmin, LCredential, LAiCli, LGoogleSso, LAuth}"

definition service_account :: "obj \<Rightarrow> obj \<Rightarrow> json \<times> obj" where
  "service_account source ctx =
     (let whole = (\<lambda>why. (JObj source,
                          warn (why @ ''; its whole record is kept as credential_json'') ctx))
      in case read_credential source of
           Inr (Some credential) \<Rightarrow> (credential, ctx)
         | Inr None \<Rightarrow> whole ''the legacy service account named no credential_json''
         | Inl e \<Rightarrow>
             whole (''the legacy service account'' @ [CHR 0x27] @ ''s credential cannot be read ('' @ e @ '')''))"

text \<open>The canonical kind, its fields and its context, or none for a kind without one.\<close>

definition legacy_shape ::
  "string \<Rightarrow> json \<Rightarrow> legacy_kind \<Rightarrow> obj \<Rightarrow> obj \<Rightarrow> (string \<times> obj \<times> obj) option" where
  "legacy_shape written_as fallback written source ctx =
     (let has = contains_key source in
      if login_like written \<and> has_login_field source \<and> \<not> has ''api_key'' \<and> \<not> has ''NAMECHEAP_API_KEY''
      then (case legacy_login source [] ctx of (_, m, ctx') \<Rightarrow> Some (''login'', m, ctx'))
      else if written \<in> {LApi, LApiKey, LAiCli} \<or> written = LCredential \<and> has ''api_key''
            \<or> written = LPlatformAdmin \<and> has ''NAMECHEAP_API_KEY''
      then Some (''api-key'', snd (legacy_api_key (source, [])), ctx)
      else if written = LAwsCredentials \<or> written = LAuth \<and> has ''access_key_id''
      then Some (''access-key'', snd (legacy_access_key (source, [])), ctx)
      else if written = LProxy
      then Some (''proxy'', snd (legacy_named (kind_names ''proxy'') False (source, [])), ctx)
      else if written \<in> {LKey, LSshKey} \<or> written = LCredential \<and> has ''p8''
      then (case legacy_key_pair source [] ctx of (_, m, ctx') \<Rightarrow> Some (''key-pair'', m, ctx'))
      else if written = LToken \<or> written = LSecret \<and> has ''token''
      then Some (''token'', snd (legacy_token (source, [])), ctx)
      else if written = LOauthClient
      then Some (''oauth-client'', snd (legacy_named (kind_names ''oauth-client'') True (source, [])), ctx)
      else if written = LCertificate
      then Some (''certificate'', snd (legacy_named (kind_names ''certificate'') False (source, [])), ctx)
      else if written = LServiceAccount
      then (case service_account source ctx of
              (credential, ctx') \<Rightarrow> Some (''service-account'', [(''credential_json'', credential)], ctx'))
      else if written = LStadoSecret then Some (''stado-secret'', source, ctx)
      else if written = LCredentialOperation
      then Some (''credential-operation'', [(''value'', fallback)], ctx)
      else if written = LInternalAuthority
      then (case internal_authority source [] ctx of
              (rest, m, ctx') \<Rightarrow>
                Some (''internal-authority'', fold (\<lambda>(k, v). map_insert k v) rest m, ctx'))
      else if written \<in> {LEnv, LConfig, LCredential}
      then Some (''bundle'', source, map_insert ''profile'' (JStr (spelled written_as)) ctx)
      else None)"

definition fallback_payload :: "json \<Rightarrow> obj \<Rightarrow> legacy_error + string \<times> json" where
  "fallback_payload fallback ctx =
     bindR (map_err LegacySchema (payload ''stado-secret'' [(''value'', fallback)] ctx)) (\<lambda>p.
       Inr (''stado-secret'', p))"

definition legacy_source :: "json \<Rightarrow> obj" where
  "legacy_source legacy =
     (let source = (case legacy of JObj m \<Rightarrow> m | other \<Rightarrow> [(''value'', other)]);
          source' = map_remove ''display_name'' (map_remove ''category'' (map_remove ''type'' source))
      in case get_object (JObj source') ''metadata'' of
           Some metadata \<Rightarrow> lift_metadata_secrets metadata source'
         | None \<Rightarrow> source')"

text \<open>The item's fields and its context, before its kind is chosen.\<close>

definition legacy_parts :: "wording \<Rightarrow> string \<Rightarrow> json \<Rightarrow> obj \<times> obj" where
  "legacy_parts W written_as legacy =
     (case legacy_context W (legacy_source legacy) written_as of (source, ctx) \<Rightarrow>
        (source,
         if as_object legacy = None
         then warn ''the legacy item was not an object; its whole value is kept as value'' ctx
         else ctx))"

text \<open>The payload of the kind chosen, or the item kept whole with a warning saying why.\<close>

definition legacy_payload ::
  "wording \<Rightarrow> string \<Rightarrow> json \<Rightarrow> obj \<Rightarrow> (string \<times> obj \<times> obj) option \<Rightarrow> legacy_error + string \<times> json" where
  "legacy_payload W written_as legacy ctx shape =
     (case shape of
        None \<Rightarrow>
          fallback_payload legacy
            (warn (''legacy kind '' @ quoted W written_as
                     @ '' has no canonical kind; the item is kept whole'') ctx)
      | Some (kind, m, ctx') \<Rightarrow>
          (case payload kind m ctx' of
             Inr p \<Rightarrow> Inr (kind, p)
           | Inl refusal \<Rightarrow>
               fallback_payload legacy
                 (warn (''the '' @ kind @ '' fields were refused ('' @ refused W refusal
                          @ ''); the item is kept whole'') ctx')))"

definition migrate_legacy :: "wording \<Rightarrow> string \<Rightarrow> json \<Rightarrow> legacy_error + string \<times> json" where
  "migrate_legacy W written_as legacy =
     (if get_str legacy ''schema'' = Some ITEM_SCHEMA then
        bindR (ok_or CanonicalNoKind (get_str legacy ''kind'')) (\<lambda>kind.
        bindR (map_err LegacySchema (validate_payload legacy kind)) (\<lambda>_. Inr (kind, legacy)))
      else
        case legacy_parts W written_as legacy of (source, ctx) \<Rightarrow>
          legacy_payload W written_as legacy ctx
            (legacy_shape written_as legacy (read_kind written_as) source ctx))"

end
