(* ===== verification/MigrateItems.thy ===== *)
theory MigrateItems
  imports MigrateGrants Legacy
begin

text \<open>
  Migrating one item, and the vault: \<open>src/core/migrate/items.rs\<close> and \<open>src/core/migrate/mod.rs\<close>.
  A legacy entry's ciphertexts are decrypted, read as \<open>migrate_legacy\<close> reads them and encrypted
  again, history first, each revision numbered from one. \<open>minted\<close> gives the identity minted for
  the entry of an id. The lines printed about a recipient that is gone are not modelled.
\<close>

datatype migrate_error =
    MigVault vault_error
  | MigLegacy legacy_error
  | MigInvalid invalid
  | MigGrant grant_error
  | MigSchema schema_error
  | NotRecorded string string
  | RecordedNotText string string
  | RecordedNotList string string
  | DeletedNotBool string
  | NoLegacyCiphertext
  | NoRecipientFingerprint string
  | HistoryNoCiphertext
  | HistoryNoTime string
  | LegacyRevisionOverflow
  | NoItems
  | NoTokens
  | DuplicateCanonicalId string
  | VaultNotObject

section \<open>One item\<close>

definition decrypt_payload :: "env \<Rightarrow> wording \<Rightarrow> string \<Rightarrow> string \<Rightarrow> migrate_error + string \<times> json" where
  "decrypt_payload E W ciphertext written_as =
     bindR (map_err MigVault (decrypt E ciphertext)) (\<lambda>legacy.
       map_err MigLegacy (migrate_legacy W written_as legacy))"

definition request_id :: "json \<Rightarrow> json option" where
  "request_id p = Option.bind (get_object p ''context'') (\<lambda>ctx. map_of ctx ''request_id'')"

definition recipient_fingerprints :: "vault \<Rightarrow> string list \<Rightarrow> string list" where
  "recipient_fingerprints v listed =
     (let fprs = push_fprs v [] (listed @ [owner v])
      in if recovery v \<noteq> [] \<and> recovery v \<notin> set fprs then fprs @ [recovery v] else fprs)"

definition canonical_revision ::
  "env \<Rightarrow> wording \<Rightarrow> string \<Rightarrow> string \<Rightarrow> string list \<Rightarrow> u64 \<Rightarrow> json \<Rightarrow> string
     \<Rightarrow> migrate_error + string \<times> json \<times> json" where
  "canonical_revision E W ciphertext written_as fprs revision created_at writer =
     bindR (decrypt_payload E W ciphertext written_as) (\<lambda>(kind, p).
     bindR (map_err MigVault (encrypt_to E fprs p)) (\<lambda>canonical.
       Inr (kind, p, mk_obj
         [(''revision'', JUInt revision), (''kind'', JStr kind), (''created_at'', created_at),
          (''written_by'', JStr writer), (''operation_id'', json_opt id (request_id p)),
          (''ciphertext'', JStr canonical)])))"

text \<open>One saved revision: its record is appended and the number moves on.\<close>

definition history_step ::
  "env \<Rightarrow> wording \<Rightarrow> string \<Rightarrow> string \<Rightarrow> string list \<Rightarrow> string \<Rightarrow> json list \<times> u64 \<Rightarrow> json
     \<Rightarrow> migrate_error + json list \<times> u64" where
  "history_step E W ident written_as fprs writer s r =
     (case s of (history, revision) \<Rightarrow>
        bindR (ok_or HistoryNoCiphertext
                 (Option.bind (or_else (jget r ''cipher'') (jget r ''ciphertext'')) as_str)) (\<lambda>ciphertext.
        bindR (ok_or (HistoryNoTime ident) (or_else (jget r ''at'') (jget r ''created_at''))) (\<lambda>created_at.
        bindR (canonical_revision E W ciphertext written_as fprs revision created_at writer) (\<lambda>(_, _, record).
        bindR (ok_or LegacyRevisionOverflow (checked_add revision 1)) (\<lambda>next.
          Inr (history @ [record], next))))))"

definition entry_records :: "string \<Rightarrow> json \<Rightarrow> string \<Rightarrow> migrate_error + json" where
  "entry_records ident entry name = ok_or (NotRecorded ident name) (jget entry name)"

definition legacy_management :: "vault \<Rightarrow> string \<Rightarrow> json list \<Rightarrow> string \<Rightarrow> json" where
  "legacy_management v kind tags writer =
     (if kind = ''credential-operation'' then
        mk_obj [(''mode'', JStr (mode_str ModeManaged)), (''controller'', JStr ''skarbiec-credential-lifecycle'')]
      else if list_ex (\<lambda>tag. as_str tag = Some ''managed:weles'') tags then
        mk_obj [(''mode'', JStr (mode_str ModeManaged)), (''controller'', JStr ''weles'')]
      else if writer = owner v then
        mk_obj [(''mode'', JStr (mode_str ModeOwner)), (''controller'', JStr (owner v))]
      else mk_obj [(''mode'', JStr (mode_str ModeExternal)), (''controller'', JStr writer)])"

text \<open>What is entry_records beside the revisions of a legacy entry, in the order it is read.\<close>

record legacy_entry =
  le_kind :: string
  le_current :: string
  le_recipients :: "string list"
  le_fingerprints :: "string list"
  le_writer :: string
  le_history :: "json list"

definition read_legacy_entry :: "vault \<Rightarrow> string \<Rightarrow> json \<Rightarrow> migrate_error + legacy_entry" where
  "read_legacy_entry v ident entry =
     bindR (bindR (entry_records ident entry ''type'') (\<lambda>t. ok_or (RecordedNotText ident ''type'') (as_str t))) (\<lambda>written_as.
     bindR (ok_or NoLegacyCiphertext (get_str entry ''current'')) (\<lambda>current.
     bindR (map_err MigVault (entry_texts ident entry ''recipients'')) (\<lambda>recipients.
     let fprs = recipient_fingerprints v recipients in
     bindR (ensureR (fprs \<noteq> []) (NoRecipientFingerprint ident)) (\<lambda>_.
     bindR (case jget entry ''written_by'' of
              None \<Rightarrow> Inr (owner v)
            | Some named \<Rightarrow> ok_or (RecordedNotText ident ''written_by'') (as_str named)) (\<lambda>writer.
     bindR (bindR (entry_records ident entry ''history'') (\<lambda>h. ok_or (RecordedNotList ident ''history'') (as_array h)))
       (\<lambda>history.
       Inr \<lparr>le_kind = written_as, le_current = current, le_recipients = recipients,
            le_fingerprints = fprs, le_writer = writer, le_history = history\<rparr>))))))"

definition migrate_entry ::
  "env \<Rightarrow> wording \<Rightarrow> vault \<Rightarrow> string \<Rightarrow> json \<Rightarrow> legacy_entry \<Rightarrow> migrate_error + json \<times> string list \<times> nat option" where
  "migrate_entry E W v ident entry L =
     bindR (foldR (history_step E W ident (le_kind L) (le_fingerprints L) (le_writer L)) ([], 1) (le_history L))
       (\<lambda>(history, revision).
     bindR (entry_records ident entry ''updated_at'') (\<lambda>current_at.
     bindR (canonical_revision E W (le_current L) (le_kind L) (le_fingerprints L) revision current_at (le_writer L))
       (\<lambda>(kind, p, current).
     bindR (bindR (entry_records ident entry ''tags'') (\<lambda>t. ok_or (RecordedNotList ident ''tags'') (as_array t))) (\<lambda>tags.
     let management = legacy_management v kind tags (le_writer L) in
     bindR (bindR (entry_records ident entry ''deleted'') (\<lambda>d. ok_or (DeletedNotBool ident) (as_bool d))) (\<lambda>deleted.
     let state = (if deleted then ''trashed'' else ''active'') in
     bindR (case entry_item_uid entry of
              Some existing \<Rightarrow> Inr existing
            | None \<Rightarrow> map_err MigVault (mint_item_uid E)) (\<lambda>item_uid.
     bindR (entry_records ident entry ''created_at'') (\<lambda>created_at.
     bindR (entry_records ident entry ''deleted_at'') (\<lambda>deleted_at.
     let canonical = mk_obj
           [(''format'', JUInt current_envelope), (''item_uid'', JStr item_uid), (''kind'', JStr kind),
            (''state'', JStr state), (''revision'', JUInt revision), (''management'', management),
            (''created_at'', created_at), (''updated_at'', current_at), (''deleted_at'', deleted_at),
            (''recipients'', JArr (map JStr (le_recipients L))), (''tags'', JArr tags),
            (''current'', current), (''history'', JArr history)] in
     bindR (map_err MigSchema (Schema.fields p)) (\<lambda>m.
       Inr (canonical, map fst m, Some (unat revision)))))))))))"

definition migrate_item ::
  "env \<Rightarrow> wording \<Rightarrow> vault \<Rightarrow> string \<Rightarrow> json \<Rightarrow> migrate_error + json \<times> string list \<times> nat option" where
  "migrate_item E W v ident entry =
     (if get_u64 entry ''format'' = Some current_envelope then
        bindR (map_err MigInvalid
                 (bindR (ok_or NoCurrentRevision (jget entry ''current'')) (revision_payload E))) (\<lambda>p.
        bindR (map_err MigSchema (Schema.fields p)) (\<lambda>m. Inr (entry, map fst m, None)))
      else bindR (read_legacy_entry v ident entry) (migrate_entry E W v ident entry))"

section \<open>The vault\<close>

record report =
  rep_items :: nat
  rep_revisions :: nat
  rep_grants :: nat

definition migrate_next ::
  "env \<Rightarrow> (string \<Rightarrow> vault_error + string) \<Rightarrow> wording \<Rightarrow> vault \<Rightarrow> obj \<times> item_fields \<times> nat list \<Rightarrow> string \<times> json
     \<Rightarrow> migrate_error + obj \<times> item_fields \<times> nat list" where
  "migrate_next E minted W v s e =
     (case e of (ident, entry) \<Rightarrow>
        bindR (migrate_item (E\<lparr>mint_item_uid := minted ident\<rparr>) W v ident entry) (\<lambda>(canonical, names, count).
          let canonical_id = canonical_item_id ident in
          case s of (items, item_fields, counts) \<Rightarrow>
            if map_of items canonical_id \<noteq> None then Inl (DuplicateCanonicalId canonical_id)
            else Inr (map_insert canonical_id canonical items, map_insert canonical_id names item_fields,
                      counts @ (case count of Some n \<Rightarrow> [n] | None \<Rightarrow> []))))"

text \<open>The document the migration makes of the vault, and what it counted; then the check and
  the save, which leave the document in the handle whatever they answer.\<close>

definition migrated_document ::
  "env \<Rightarrow> (string \<Rightarrow> vault_error + string) \<Rightarrow> wording \<Rightarrow> vault \<Rightarrow> migrate_error + obj \<times> report" where
  "migrated_document E minted W v =
     bindR (ok_or NoItems (get_object (doc v) ''items'')) (\<lambda>source_items.
     bindR (foldR (migrate_next E minted W v) ([], [], []) source_items) (\<lambda>(items, item_fields, counts).
     bindR (ok_or NoTokens (get_object (doc v) ''tokens'')) (\<lambda>tokens.
     bindR (map_err MigGrant (migrate_grants item_fields tokens)) (\<lambda>(tokens', grants).
     bindR (ok_or VaultNotObject (as_object (doc v))) (\<lambda>document.
       Inr (map_insert ''tokens'' (JObj tokens')
              (map_insert ''items'' (JObj items) (map_insert ''version'' (JStr ''v2'') document)),
            \<lparr>rep_items = length source_items, rep_revisions = sum_list counts, rep_grants = grants\<rparr>))))))"

definition migrate ::
  "env \<Rightarrow> (string \<Rightarrow> vault_error + string) \<Rightarrow> wording \<Rightarrow> vault \<Rightarrow> host
     \<Rightarrow> (migrate_error + report) \<times> vault \<times> host" where
  "migrate E minted W v h =
     (case migrated_document E minted W v of
        Inl e \<Rightarrow> (Inl e, v, h)
      | Inr (document, rep) \<Rightarrow>
          (let v' = v\<lparr>doc := JObj document\<rparr> in
           case validate_v2 E v' of
             Inl e \<Rightarrow> (Inl (MigInvalid e), v', h)
           | Inr _ \<Rightarrow>
               (case save v' h of
                  (Inl e, v'', h') \<Rightarrow> (Inl (MigVault e), v'', h')
                | (Inr _, v'', h') \<Rightarrow> (Inr rep, v'', h'))))"

end
