(* ===== verification/LegacyProps.thy ===== *)
theory LegacyProps
  imports Legacy
begin

lemma payload_ok:
  "payload kind m ctx = Inr p \<Longrightarrow>
     p = mk_obj [(''schema'', JStr ITEM_SCHEMA), (''kind'', JStr kind),
                 (''fields'', JObj m), (''context'', JObj ctx)]
   \<and> validate_payload p kind = Inr ()"
  by (auto simp: payload_def Let_def result_simps)

lemma fallback_ok:
  "fallback_payload fallback ctx = Inr (kind, p) \<Longrightarrow>
     kind = ''stado-secret'' \<and> payload kind [(''value'', fallback)] ctx = Inr p"
  by (auto simp: fallback_payload_def result_simps)

lemma legacy_payload_None:
  "legacy_payload W written legacy ctx None =
     fallback_payload legacy
       (warn (''legacy kind '' @ quoted W written
                @ '' has no canonical kind; the item is kept whole'') ctx)"
  by (simp only: legacy_payload_def option.case)

lemma legacy_payload_kept:
  "payload k m ctx' = Inl refusal \<Longrightarrow>
     legacy_payload W written legacy ctx (Some (k, m, ctx')) =
       fallback_payload legacy
         (warn (''the '' @ k @ '' fields were refused ('' @ refused W refusal
                  @ ''); the item is kept whole'') ctx')"
  by (simp only: legacy_payload_def option.case prod.case sum.case)

lemma legacy_payload_shaped:
  "payload k m ctx' = Inr p \<Longrightarrow> legacy_payload W written legacy ctx (Some (k, m, ctx')) = Inr (k, p)"
  by (simp only: legacy_payload_def option.case prod.case sum.case)

lemma migrate_legacy_canonical:
  "get_str legacy ''schema'' = Some ITEM_SCHEMA \<Longrightarrow>
     migrate_legacy W written legacy =
       bindR (ok_or CanonicalNoKind (get_str legacy ''kind'')) (\<lambda>kind.
       bindR (map_err LegacySchema (validate_payload legacy kind)) (\<lambda>_. Inr (kind, legacy)))"
  by (simp only: migrate_legacy_def if_True simp_thms)

lemma migrate_legacy_other:
  "get_str legacy ''schema'' \<noteq> Some ITEM_SCHEMA \<Longrightarrow> legacy_parts W written legacy = (source, ctx) \<Longrightarrow>
     migrate_legacy W written legacy =
       legacy_payload W written legacy ctx
         (legacy_shape written legacy (read_kind written) source ctx)"
  by (simp only: migrate_legacy_def if_False simp_thms prod.case)

lemma legacy_payload_built:
  assumes "legacy_payload W written legacy ctx shape = Inr (kind, p)"
  obtains m ctx' where "payload kind m ctx' = Inr p"
proof (cases shape)
  case None
  from assms [unfolded None legacy_payload_None] that show ?thesis by (auto dest!: fallback_ok)
next
  case (Some s)
  obtain k m ctx' where s: "s = (k, m, ctx')" by (cases s)
  show ?thesis
  proof (cases "payload k m ctx'")
    case (Inl e)
    from assms [unfolded Some s legacy_payload_kept [OF Inl]] that show ?thesis by (auto dest!: fallback_ok)
  next
    case (Inr q)
    from assms [unfolded Some s legacy_payload_shaped [OF Inr]] Inr that show ?thesis by simp
  qed
qed

text \<open>Whatever the item was, its payload is a canonical one, or one built by \<^const>\<open>payload\<close>.\<close>

lemma migrate_legacy_cases:
  assumes "migrate_legacy W written legacy = Inr (kind, p)"
  obtains (canonical) "get_str legacy ''schema'' = Some ITEM_SCHEMA" "get_str legacy ''kind'' = Some kind"
      "validate_payload legacy kind = Inr ()" "p = legacy"
    | (built) m ctx where "payload kind m ctx = Inr p"
proof (cases "get_str legacy ''schema'' = Some ITEM_SCHEMA")
  case True
  from assms [unfolded migrate_legacy_canonical [OF True]]
  have "get_str legacy ''kind'' = Some kind \<and> validate_payload legacy kind = Inr () \<and> p = legacy"
    by (cases "get_str legacy ''kind''"; cases "validate_payload legacy kind") (auto simp del: get_Some simp: result_simps)
  with True that(1) show ?thesis by blast
next
  case False
  obtain source ctx where parts: "legacy_parts W written legacy = (source, ctx)" by fastforce
  from assms [unfolded migrate_legacy_other [OF False parts]] that(2) show ?thesis
    by (rule legacy_payload_built)
qed

lemma migrate_legacy_valid:
  assumes "migrate_legacy W written legacy = Inr (kind, p)"
  shows "validate_payload p kind = Inr ()"
  using assms by (rule migrate_legacy_cases) (auto dest: payload_ok)

section \<open>When an item is refused\<close>

text \<open>The identity an item's metadata names, the one thing carried over that can still be refused.\<close>

definition identity_named :: "json option \<Rightarrow> bool" where
  "identity_named r = (case r of None \<Rightarrow> True | Some (JStr s) \<Rightarrow> exact_component s | Some _ \<Rightarrow> False)"

definition legacy_identity :: "json \<Rightarrow> json option" where
  "legacy_identity legacy =
     Option.bind (get_object legacy ''metadata'') (\<lambda>metadata. map_of metadata IDENTITY_REFERENCE)"

lemma check_identity_iff:
  assumes "jget p ''context'' = Some (JObj ctx)" and "kind \<noteq> ''identity''"
  shows "check_identity kind p = Inr () \<longleftrightarrow> identity_named (map_of ctx IDENTITY_REFERENCE)"
  using assms
  by (cases "map_of ctx IDENTITY_REFERENCE"; cases "the (map_of ctx IDENTITY_REFERENCE)")
     (auto simp: check_identity_def identity_named_def result_simps)

lemma payload_identity:
  assumes "payload kind m ctx = Inr p"
  shows "identity_named (map_of ctx IDENTITY_REFERENCE)"
proof -
  from payload_ok [OF assms] have c: "jget p ''context'' = Some (JObj ctx)"
    and v: "validate_payload p kind = Inr ()" by auto
  from v have i: "check_identity kind p = Inr ()"
    by (auto simp: validate_payload_def result_simps split: if_splits option.splits)
  show ?thesis
  proof (cases "map_of ctx IDENTITY_REFERENCE")
    case (Some r)
    with i c show ?thesis
      by (cases r) (auto simp: check_identity_def identity_named_def result_simps split: if_splits)
  qed (simp add: identity_named_def)
qed

text \<open>A payload of a kind with no rule of its own is refused only for its fields or its identity.\<close>

lemma payload_accepts:
  assumes "check_fields kind m = Inr ()" and "m \<noteq> []"
    and "kind \<noteq> ''identity''" "kind \<noteq> ''host-account''" "kind \<noteq> ''payment-card''"
    and "identity_named (map_of ctx IDENTITY_REFERENCE)"
  shows "\<exists>p. payload kind m ctx = Inr p"
proof -
  define p where "p = mk_obj [(''schema'', JStr ITEM_SCHEMA), (''kind'', JStr kind),
                 (''fields'', JObj m), (''context'', JObj ctx)]"
  have c: "jget p ''context'' = Some (JObj ctx)" by (simp add: p_def)
  have d: "declared kind \<noteq> Unknown" using assms(1) by (auto simp: check_fields_def)
  obtain ps where o: "as_object p = Some ps" and keys: "find (\<lambda>(k, v). k \<notin> set envelope_keys) ps = None"
    by (simp add: p_def mk_obj_def envelope_keys_def)
  have g: "get_str p ''schema'' = Some ITEM_SCHEMA" "get_str p ''kind'' = Some kind"
    "get_object p ''fields'' = Some m" "get_object p ''context'' = Some ctx"
    "jget p ''extensions'' = None"
    by (simp_all add: p_def)
  have r: "check_kind_rules kind p m = Inr ()"
    using assms(4,5) by (simp add: check_kind_rules_def)
  have i: "check_identity kind p = Inr ()"
    using check_identity_iff [OF c assms(3)] assms(6) by simp
  have "validate_payload p kind = Inr ()"
    unfolding validate_payload_def o ok_or_simps bindR_simps keys
    using assms(1,2) r i d by (simp add: g del: get_Some)
  then show ?thesis by (simp add: payload_def Let_def p_def)
qed

lemma stado_secret_accepts:
  assumes "identity_named (map_of ctx IDENTITY_REFERENCE)"
  shows "\<exists>p. payload ''stado-secret'' [(''value'', v)] ctx = Inr p"
proof -
  have "declared ''stado-secret'' = Open" "exact_component ''value''" by code_simp+
  then have "check_fields ''stado-secret'' [(''value'', v)] = Inr ()" by (simp add: check_fields_def)
  from payload_accepts [OF this _ _ _ _ assms] show ?thesis by simp
qed

lemma fallback_iff:
  "(\<exists>p. fallback_payload v ctx = Inr (''stado-secret'', p)) \<longleftrightarrow> identity_named (map_of ctx IDENTITY_REFERENCE)"
  using stado_secret_accepts [of ctx v] payload_identity
  by (auto simp: fallback_payload_def result_simps)


section \<open>The identity is carried over as it is\<close>

lemma map_of_fold_remove:
  "map_of (fold map_remove names m) k = (if k \<in> set names then None else map_of m k)"
  by (induction names arbitrary: m) (auto simp: map_of_map_remove)

lemma map_of_put: "map_of (put target v m) k = (if k = target then or_else v (map_of m k) else map_of m k)"
  by (auto simp: put_def or_else_def map_of_map_insert split: option.splits)

lemma map_of_put_other [simp]: "k \<noteq> target \<Longrightarrow> map_of (put target v m) k = map_of m k"
  by (simp add: map_of_put)

lemma map_of_warn [simp]: "k \<noteq> ''import_warning'' \<Longrightarrow> map_of (warn why ctx) k = map_of ctx k"
  by (simp add: warn_def map_of_map_insert)

lemma move_context_keeps:
  assumes "k \<noteq> target" "k \<notin> set aliases"
  shows "map_of (snd (move_context metadata (target, aliases) s)) k = map_of (snd s) k"
  using assms by (auto simp: move_context_def map_of_fold_remove split: prod.splits)

lemma moves_keep:
  assumes "list_all (\<lambda>(target, aliases). k \<noteq> target \<and> k \<notin> set aliases) moves"
  shows "map_of (snd (fold (move_context metadata) moves s)) k = map_of (snd s) k"
  using assms by (induction moves arbitrary: s) (auto simp: move_context_keeps)

lemma carry_keeps: "k \<noteq> name \<Longrightarrow> map_of (snd (carry metadata name s)) k = map_of (snd s) k"
  by (simp add: carry_def split: prod.splits)

lemma map_of_reversed: "distinct (map fst kvs) \<Longrightarrow> map_of (rev kvs) = map_of kvs"
  by (subst map_of_inject_set) (auto simp: rev_map [symmetric])

lemma map_of_extend:
  "distinct (map fst kvs) \<Longrightarrow>
     map_of (fold (\<lambda>(k, v). map_insert k v) kvs m) k = or_else (map_of kvs k) (map_of m k)"
  by (auto simp: jget_mk_obj_fold map_add_def map_of_reversed or_else_def split: option.splits)

text \<open>A legacy item's metadata, when it has one that is an object.\<close>

definition legacy_metadata :: "obj \<Rightarrow> obj" where
  "legacy_metadata source = (case map_of source ''metadata'' of Some (JObj metadata) \<Rightarrow> metadata | _ \<Rightarrow> [])"

definition legacy_start :: "wording \<Rightarrow> obj \<Rightarrow> obj" where
  "legacy_start W source =
     (case map_of source ''metadata'' of
        Some (JObj metadata) \<Rightarrow> []
      | Some JNull \<Rightarrow> []
      | None \<Rightarrow> []
      | Some other \<Rightarrow>
          map_insert ''legacy_metadata'' other
            (warn (''legacy metadata was not an object and was kept whole: '' @ printed W other) []))"

lemma legacy_context_unfold:
  "legacy_context W source written =
     (let metadata = legacy_metadata source
      in carry metadata ''domain'' (carry metadata ''domains''
           (fold (move_context metadata) context_moves
             (map_remove ''metadata'' source,
              map_insert ''source_kind'' (JStr written)
                (fold (\<lambda>(k, v). map_insert k v) metadata (legacy_start W source))))))"
  unfolding legacy_context_def legacy_metadata_def legacy_start_def Let_def
  by (cases "map_of source ''metadata''"; cases "the (map_of source ''metadata'')")
     (simp_all only: option.case json.case prod.case option.sel)

lemma start_identity: "map_of (legacy_start W source) IDENTITY_REFERENCE = None"
  by (auto simp: legacy_start_def IDENTITY_REFERENCE_def map_of_map_insert warn_def split: option.splits json.splits)

lemma context_identity:
  assumes "distinct (map fst (legacy_metadata source))"
  shows "map_of (snd (legacy_context W source written)) IDENTITY_REFERENCE
           = map_of (legacy_metadata source) IDENTITY_REFERENCE"
proof -
  have "list_all (\<lambda>(target, aliases). IDENTITY_REFERENCE \<noteq> target \<and> IDENTITY_REFERENCE \<notin> set aliases) context_moves"
    by code_simp
  note moves = moves_keep [OF this]
  have names: "IDENTITY_REFERENCE \<noteq> ''domain''" "IDENTITY_REFERENCE \<noteq> ''domains''"
    "IDENTITY_REFERENCE \<noteq> ''source_kind''" by (simp_all add: IDENTITY_REFERENCE_def)
  show ?thesis
    using assms names
    by (simp add: legacy_context_unfold Let_def carry_keeps moves map_of_map_insert map_of_extend start_identity)
       (simp add: or_else_def split: option.split)
qed


lemma login_keeps:
  "legacy_login source m ctx = (rest, m', ctx') \<Longrightarrow> k \<noteq> ''account_ref'' \<Longrightarrow> map_of ctx' k = map_of ctx k"
  by (auto simp: legacy_login_def Let_def map_of_map_insert split: prod.splits option.splits if_splits)

lemma put_any_keeps: "k \<noteq> target \<Longrightarrow> map_of (snd (put_any (target, aliases) s)) k = map_of (snd s) k"
  by (simp add: put_any_def split: prod.splits)

lemma puts_keep:
  "list_all (\<lambda>(target, aliases). k \<noteq> target) moves \<Longrightarrow>
     map_of (snd (fold put_any moves s)) k = map_of (snd s) k"
  by (induction moves arbitrary: s) (auto simp: put_any_keeps simp del: map_of_put_other)

lemma key_pair_keeps:
  assumes "legacy_key_pair source m ctx = (rest, m', ctx')" "k \<noteq> ''fingerprint''" "k \<noteq> ''key_type''"
  shows "map_of ctx' k = map_of ctx k"
proof -
  have "list_all (\<lambda>(target, aliases). k \<noteq> target)
          [(''fingerprint'', [''fingerprint'']), (''key_type'', [''key_type''])]"
    using assms(2,3) by simp
  note keep = puts_keep [OF this]
  show ?thesis
    using assms(1) unfolding legacy_key_pair_def case_prod_unfold prod.inject
    by (elim conjE, hypsubst_thin) (simp only: keep snd_conv)
qed

lemma move_authority_keeps:
  "k \<notin> set aliases \<Longrightarrow>
     map_of (snd (snd (move_authority (target, aliases) s))) k = map_of (snd (snd s)) k"
  by (auto simp: move_authority_def take_alias_def map_of_fold_remove split: prod.splits option.splits)

lemma authority_moves_keep:
  "list_all (\<lambda>(target, aliases). k \<notin> set aliases) moves \<Longrightarrow>
     map_of (snd (snd (fold move_authority moves s))) k = map_of (snd (snd s)) k"
  by (induction moves arbitrary: s) (auto simp: move_authority_keeps)

lemma authority_keeps:
  assumes "internal_authority source m ctx = (rest, m', ctx')"
  shows "map_of ctx' IDENTITY_REFERENCE = map_of ctx IDENTITY_REFERENCE"
proof -
  have "list_all (\<lambda>(target, aliases). IDENTITY_REFERENCE \<notin> set aliases) authority_moves" by code_simp
  from authority_moves_keep [OF this, of "(source, m, ctx)"] assms show ?thesis
    by (simp add: internal_authority_def)
qed

lemma service_keeps:
  "service_account source ctx = (v, ctx') \<Longrightarrow> k \<noteq> ''import_warning'' \<Longrightarrow> map_of ctx' k = map_of ctx k"
  by (auto simp: service_account_def Let_def split: sum.splits option.splits)

definition shape_keeps :: "obj \<Rightarrow> (string \<times> obj \<times> obj) option \<Rightarrow> bool" where
  "shape_keeps ctx shape =
     (case shape of
        Some (kind, m, ctx') \<Rightarrow> map_of ctx' IDENTITY_REFERENCE = map_of ctx IDENTITY_REFERENCE
      | None \<Rightarrow> True)"

lemma shape_keeps_if: "shape_keeps ctx x \<Longrightarrow> shape_keeps ctx y \<Longrightarrow> shape_keeps ctx (if b then x else y)"
  by simp

lemma shape_identity:
  assumes "legacy_shape written fallback w source ctx = Some (kind, m, ctx')"
  shows "map_of ctx' IDENTITY_REFERENCE = map_of ctx IDENTITY_REFERENCE"
proof -
  have names: "IDENTITY_REFERENCE \<noteq> ''account_ref''" "IDENTITY_REFERENCE \<noteq> ''fingerprint''"
    "IDENTITY_REFERENCE \<noteq> ''key_type''" "IDENTITY_REFERENCE \<noteq> ''import_warning''"
    "IDENTITY_REFERENCE \<noteq> ''profile''" by (simp_all add: IDENTITY_REFERENCE_def)
  have "shape_keeps ctx (legacy_shape written fallback w source ctx)"
    unfolding legacy_shape_def Let_def
    by (intro shape_keeps_if; simp add: shape_keeps_def names map_of_map_insert split: prod.split)
       (auto dest: login_keeps [OF _ names(1)] key_pair_keeps [OF _ names(2,3)] authority_keeps
          service_keeps [OF _ names(4)])
  with assms show ?thesis by (simp add: shape_keeps_def)
qed

lemma source_metadata: "map_of (legacy_source legacy) ''metadata'' = jget legacy ''metadata''"
proof -
  have l: "map_of (lift_metadata_secrets metadata s) ''metadata'' = map_of s ''metadata''" for metadata s
    by (simp add: lift_metadata_secrets_def lift_def)
  show ?thesis
    by (cases legacy) (auto simp: legacy_source_def Let_def l map_of_map_remove jget_def split: option.splits)
qed

lemma parts_identity:
  assumes "legacy_parts W written legacy = (source, ctx)"
    and "\<And>metadata. get_object legacy ''metadata'' = Some metadata \<Longrightarrow> distinct (map fst metadata)"
  shows "map_of ctx IDENTITY_REFERENCE = legacy_identity legacy"
proof -
  have m: "legacy_metadata (legacy_source legacy)
             = (case get_object legacy ''metadata'' of Some metadata \<Rightarrow> metadata | None \<Rightarrow> [])"
    unfolding legacy_metadata_def source_metadata get_defs
    by (cases "jget legacy ''metadata''"; cases "the (jget legacy ''metadata'')") (simp_all add: json_reads)
  then have "distinct (map fst (legacy_metadata (legacy_source legacy)))"
    using assms(2) by (simp split: option.split)
  note context_identity [OF this, of W written]
  moreover have "map_of ctx IDENTITY_REFERENCE
      = map_of (snd (legacy_context W (legacy_source legacy) written)) IDENTITY_REFERENCE"
    using assms(1) by (auto simp: legacy_parts_def IDENTITY_REFERENCE_def split: prod.splits if_splits)
  ultimately show ?thesis
    by (cases "get_object legacy ''metadata''") (simp_all add: legacy_identity_def m del: get_Some)
qed


section \<open>Taken as its kind, or kept whole\<close>

lemma fallback_kept:
  assumes "fallback_payload legacy (warn why ctx) = Inr (kind, p)"
  shows "kind = ''stado-secret''" "get_object p ''fields'' = Some [(''value'', legacy)]"
    "get_str (jindex p ''context'') ''import_warning'' \<noteq> None"
proof -
  from fallback_ok [OF assms] have k: "kind = ''stado-secret''"
    and "payload kind [(''value'', legacy)] (warn why ctx) = Inr p" by auto
  from payload_ok [OF this(2)] have "jget p ''fields'' = Some (JObj [(''value'', legacy)])"
    and "jindex p ''context'' = JObj (warn why ctx)" by (simp_all add: jindex_def)
  moreover have "map_of (warn why ctx) ''import_warning'' \<noteq> None"
    and "\<And>x. map_of (warn why ctx) ''import_warning'' = Some x \<Longrightarrow> as_str x \<noteq> None"
    by (auto simp: warn_def map_of_map_insert)
  ultimately show "kind = ''stado-secret''" "get_object p ''fields'' = Some [(''value'', legacy)]"
    "get_str (jindex p ''context'') ''import_warning'' \<noteq> None"
    by (auto simp: k get_str_def)
qed

text \<open>What the payload of a chosen kind is, when every shape keeps the identity.\<close>

lemma legacy_payload_kept_or_taken:
  assumes "\<And>kind m ctx'. shape = Some (kind, m, ctx') \<Longrightarrow>
             map_of ctx' IDENTITY_REFERENCE = map_of ctx IDENTITY_REFERENCE"
  shows "isl (legacy_payload W written legacy ctx shape) \<longleftrightarrow> \<not> identity_named (map_of ctx IDENTITY_REFERENCE)"
    and "legacy_payload W written legacy ctx shape = Inr (kind, p) \<Longrightarrow>
      (\<exists>m ctx'. shape = Some (kind, m, ctx') \<and> get_object p ''fields'' = Some m
                  \<and> get_object p ''context'' = Some ctx')
    \<or> kind = ''stado-secret'' \<and> get_object p ''fields'' = Some [(''value'', legacy)]
        \<and> get_str (jindex p ''context'') ''import_warning'' \<noteq> None"
proof -
  have names: "IDENTITY_REFERENCE \<noteq> ''import_warning''" by (simp add: IDENTITY_REFERENCE_def)
  have fb: "isl (fallback_payload legacy (warn why c)) \<longleftrightarrow> \<not> identity_named (map_of c IDENTITY_REFERENCE)" for why c
    using fallback_iff [of legacy "warn why c"] names fallback_ok [of legacy "warn why c"]
    by (cases "fallback_payload legacy (warn why c)") auto
  consider (none) "shape = None" | (kept) k m c e where "shape = Some (k, m, c)" "payload k m c = Inl e"
    | (taken) k m c q where "shape = Some (k, m, c)" "payload k m c = Inr q"
    by (metis old.sum.exhaust option.exhaust prod_cases3)
  then have "(isl (legacy_payload W written legacy ctx shape) \<longleftrightarrow> \<not> identity_named (map_of ctx IDENTITY_REFERENCE))
    \<and> (legacy_payload W written legacy ctx shape = Inr (kind, p) \<longrightarrow>
      (\<exists>m ctx'. shape = Some (kind, m, ctx') \<and> get_object p ''fields'' = Some m
                  \<and> get_object p ''context'' = Some ctx')
    \<or> kind = ''stado-secret'' \<and> get_object p ''fields'' = Some [(''value'', legacy)]
        \<and> get_str (jindex p ''context'') ''import_warning'' \<noteq> None)"
  proof cases
    case none
    show ?thesis unfolding none legacy_payload_None fb
      by (intro conjI impI disjI2 refl) (erule fallback_kept)+
  next
    case kept
    show ?thesis
      unfolding kept(1) legacy_payload_kept [OF kept(2)] fb assms [OF kept(1)]
      by (intro conjI impI disjI2 refl) (erule fallback_kept)+
  next
    case taken
    from payload_ok [OF taken(2)] have "jget q ''fields'' = Some (JObj m)" "jget q ''context'' = Some (JObj c)"
      by simp_all
    with payload_identity [OF taken(2)] assms [OF taken(1)] show ?thesis
      unfolding taken(1) legacy_payload_shaped [OF taken(2)] by auto
  qed
  then show "isl (legacy_payload W written legacy ctx shape) \<longleftrightarrow> \<not> identity_named (map_of ctx IDENTITY_REFERENCE)"
    and "legacy_payload W written legacy ctx shape = Inr (kind, p) \<Longrightarrow>
      (\<exists>m ctx'. shape = Some (kind, m, ctx') \<and> get_object p ''fields'' = Some m
                  \<and> get_object p ''context'' = Some ctx')
    \<or> kind = ''stado-secret'' \<and> get_object p ''fields'' = Some [(''value'', legacy)]
        \<and> get_str (jindex p ''context'') ''import_warning'' \<noteq> None"
    by blast+
qed

lemma login_migrated:
  "\<exists>p. migrate_legacy W ''login'' (JObj [(''note'', v), (''password'', JStr pw), (''username'', JStr u)])
          = Inr (''login'', p)
     \<and> get_object p ''fields'' = Some [(''password'', JStr pw), (''username'', JStr u)]
     \<and> get_object p ''context'' = Some [(''account_ref'', JStr u), (''source_kind'', JStr ''login'')]"
proof -
  let ?l = "JObj [(''note'', v), (''password'', JStr pw), (''username'', JStr u)]"
  have s: "legacy_source ?l = [(''note'', v), (''password'', JStr pw), (''username'', JStr u)]"
    by (simp add: legacy_source_def map_remove_def get_defs)
  have c: "legacy_parts W ''login'' ?l
             = ([(''note'', v), (''password'', JStr pw), (''username'', JStr u)], [(''source_kind'', JStr ''login'')])"
    unfolding legacy_parts_def s
    by (simp add: legacy_context_def context_moves_def carry_def move_context_def take_alias_def
        first_alias_def contains_key_def map_remove_def put_def or_else_def)
  have k: "read_kind ''login'' = LLogin" by code_simp
  have "legacy_login [(''note'', v), (''password'', JStr pw), (''username'', JStr u)] []
          [(''source_kind'', JStr ''login'')]
        = ([(''note'', v)], [(''password'', JStr pw), (''username'', JStr u)],
           [(''account_ref'', JStr u), (''source_kind'', JStr ''login'')])"
    by (simp add: legacy_login_def USERNAME_def PASSWORD_def text_alias_def take_alias_def put_any_def
        put_text_def first_alias_def contains_key_def map_remove_def put_def)
  then have sh: "legacy_shape ''login'' ?l LLogin
      [(''note'', v), (''password'', JStr pw), (''username'', JStr u)] [(''source_kind'', JStr ''login'')]
        = Some (''login'', [(''password'', JStr pw), (''username'', JStr u)],
           [(''account_ref'', JStr u), (''source_kind'', JStr ''login'')])"
    by (simp add: legacy_shape_def login_like_def has_login_field_def USERNAME_def contains_key_def)
  have d: "declared ''login'' = Fields LOGIN" by code_simp
  have "check_fields ''login'' [(''password'', JStr pw), (''username'', JStr u)] = Inr ()"
    by (simp add: check_fields_def d check_declared_def find_field_def LOGIN_def holds_def contains_key_def
        required_field_def one_of_field_def FACTOR_def)
  from payload_accepts [OF this, of "[(''account_ref'', JStr u), (''source_kind'', JStr ''login'')]"]
  obtain p where p: "payload ''login'' [(''password'', JStr pw), (''username'', JStr u)]
      [(''account_ref'', JStr u), (''source_kind'', JStr ''login'')] = Inr p"
    by (auto simp: identity_named_def IDENTITY_REFERENCE_def)
  have "get_str ?l ''schema'' \<noteq> Some ITEM_SCHEMA" by simp
  from migrate_legacy_other [OF this c] show ?thesis
    unfolding k sh legacy_payload_shaped [OF p] using payload_ok [OF p] by simp
qed

definition demo_wording :: wording where
  "demo_wording = \<lparr>printed = (\<lambda>_. ''?''), quoted = id, refused = (\<lambda>_. ''?'')\<rparr>"

text \<open>C33: an item without the item schema is refused exactly when its metadata names an identity
  that is not an id. Otherwise it becomes a payload that holds the fields and the context of the
  kind it was written as, or one that holds the whole item with a warning saying why.\<close>

theorem legacy_taken_or_kept:
  assumes "get_str legacy ''schema'' \<noteq> Some ITEM_SCHEMA"
    and "\<And>metadata. get_object legacy ''metadata'' = Some metadata \<Longrightarrow> distinct (map fst metadata)"
  shows "(isl (migrate_legacy W written legacy) \<longleftrightarrow> \<not> identity_named (legacy_identity legacy))
    \<and> (\<forall>kind p. migrate_legacy W written legacy = Inr (kind, p) \<longrightarrow>
        (\<exists>m ctx. (case legacy_parts W written legacy of (source, ctx0) \<Rightarrow>
                    legacy_shape written legacy (read_kind written) source ctx0) = Some (kind, m, ctx)
               \<and> get_object p ''fields'' = Some m \<and> get_object p ''context'' = Some ctx)
      \<or> kind = ''stado-secret'' \<and> get_object p ''fields'' = Some [(''value'', legacy)]
          \<and> get_str (jindex p ''context'') ''import_warning'' \<noteq> None)"
proof -
  obtain source ctx where parts: "legacy_parts W written legacy = (source, ctx)" by fastforce
  have i: "legacy_identity legacy = map_of ctx IDENTITY_REFERENCE"
    using parts_identity [OF parts] assms(2) by simp
  show ?thesis
    unfolding migrate_legacy_other [OF assms(1) parts] parts prod.case i
    by (intro conjI allI impI legacy_payload_kept_or_taken shape_identity)
qed

theorem legacy_taken_or_kept_witness:
  "\<not> isl (migrate_legacy demo_wording ''login'' (JStr ''x''))
   \<and> isl (migrate_legacy demo_wording ''login''
           (JObj [(''metadata'', JObj [(''identity'', JStr ''a b'')]), (''username'', JStr ''u'')]))"
proof -
  let ?b = "JObj [(''metadata'', JObj [(''identity'', JStr ''a b'')]), (''username'', JStr ''u'')]"
  have a: "legacy_identity (JStr ''x'') = None" "get_object (JStr ''x'') ''metadata'' = None"
    "get_str (JStr ''x'') ''schema'' \<noteq> Some ITEM_SCHEMA"
    by (simp_all add: legacy_identity_def get_defs jget_def)
  have b: "get_object ?b ''metadata'' = Some [(''identity'', JStr ''a b'')]"
    "get_str ?b ''schema'' \<noteq> Some ITEM_SCHEMA" by simp_all
  then have bi: "legacy_identity ?b = Some (JStr ''a b'')"
    by (simp add: legacy_identity_def IDENTITY_REFERENCE_def del: get_Some)
  have n: "identity_named None" "\<not> identity_named (Some (JStr ''a b''))" by code_simp+
  have "\<not> isl (migrate_legacy demo_wording ''login'' (JStr ''x''))"
    using legacy_taken_or_kept [OF a(3), of demo_wording "''login''"] a(1,2) n(1) by simp
  moreover have "isl (migrate_legacy demo_wording ''login'' ?b)"
    using legacy_taken_or_kept [OF b(2), of demo_wording "''login''"] b(1) bi n(2) by (simp del: get_Some)
  ultimately show ?thesis by blast
qed

text \<open>Migrating an item yields a payload that validates under the kind it is given, and
  migrating that payload again, as any kind, changes nothing.\<close>

theorem migrate_legacy_once:
  assumes "migrate_legacy W written legacy = Inr (kind, p)"
  shows "validate_payload p kind = Inr () \<and> migrate_legacy W' written' p = Inr (kind, p)"
proof -
  have v: "validate_payload p kind = Inr ()" using assms by (rule migrate_legacy_valid)
  from validate_payload_shape(2,3) [OF v] have
    "get_str p ''schema'' = Some ITEM_SCHEMA" "get_str p ''kind'' = Some kind" .
  with v show ?thesis by (simp add: migrate_legacy_canonical del: get_Some)
qed


theorem migrate_legacy_once_witness:
  "\<exists>p. migrate_legacy demo_wording ''login'' (JObj [(''note'', JNull), (''password'', JStr ''pw''), (''username'', JStr ''u'')])
          = Inr (''login'', p)
     \<and> validate_payload p ''login'' = Inr () \<and> migrate_legacy demo_wording ''env'' p = Inr (''login'', p)"
proof -
  from login_migrated [of demo_wording JNull "''pw''" "''u''"] obtain p where
    p: "migrate_legacy demo_wording ''login'' (JObj [(''note'', JNull), (''password'', JStr ''pw''), (''username'', JStr ''u'')])
          = Inr (''login'', p)" by blast
  from migrate_legacy_once [OF p, of demo_wording "''env''"] p show ?thesis by blast
qed


end
