(* ===== verification/MigrateItemProps.thy ===== *)
theory MigrateItemProps
  imports MigrateItems LegacyProps MigrateProps
begin

text \<open>
  What the migration writes passes the check that reads it back: every entry it builds validates,
  and the vault is saved validated or not at all.
\<close>

section \<open>Revisions\<close>

lemma recipient_fingerprints_fprs_for: "recipient_fingerprints v listed = fprs_for v listed"
  by (simp add: recipient_fingerprints_def fprs_for_def)

text \<open>Decryption opens what encryption sealed: what the migration needs of the two.\<close>

definition opens :: "env \<Rightarrow> bool" where
  "opens E \<longleftrightarrow> (\<forall>fprs p c. encrypt_to E fprs p = Inr c \<longrightarrow> decrypt E c = Inr p)"

lemma canonical_revision_ok:
  assumes "canonical_revision E W ciphertext written_as fprs revision stamp writer = Inr (kind, p, made)" and "opens E"
  shows "get_u64 made ''revision'' = Some revision" "get_str made ''kind'' = Some kind"
    "valid_payload E made kind = Inr ()" "\<exists>m. made = JObj m"
proof -
  from assms(1) obtain canonical where d: "decrypt_payload E W ciphertext written_as = Inr (kind, p)"
    and c: "encrypt_to E fprs p = Inr canonical"
    and r: "made = mk_obj
         [(''revision'', JUInt revision), (''kind'', JStr kind), (''created_at'', stamp),
          (''written_by'', JStr writer), (''operation_id'', json_opt id (request_id p)),
          (''ciphertext'', JStr canonical)]"
    by (auto simp: canonical_revision_def result_simps)
  from d obtain legacy where "migrate_legacy W written_as legacy = Inr (kind, p)"
    by (auto simp: decrypt_payload_def result_simps)
  then have v: "validate_payload p kind = Inr ()" by (rule migrate_legacy_valid)
  show "get_u64 made ''revision'' = Some revision" "get_str made ''kind'' = Some kind"
    by (simp_all add: r)
  have "get_str made ''ciphertext'' = Some canonical" by (simp add: r)
  with v c assms(2) show "valid_payload E made kind = Inr ()"
    by (simp add: valid_payload_def revision_payload_def opens_def result_simps del: get_Some)
  show "\<exists>m. made = JObj m" by (simp add: r mk_obj_def)
qed

lemma validate_revisions_one:
  assumes "get_u64 made ''revision'' = Some revision" "get_str made ''kind'' = Some kind"
    "valid_payload E made kind = Inr ()" "revision \<noteq> 0" "\<forall>p. previous = Some p \<longrightarrow> p < revision"
  shows "validate_revisions E ident previous [made] = Inr (Some revision)"
  using assms by (auto simp: ensureR_def split: option.splits simp del: get_Some)

text \<open>What the loop over the saved revisions keeps: they validate, numbered below the next.\<close>

definition in_order :: "env \<Rightarrow> string \<Rightarrow> json list \<times> u64 \<Rightarrow> bool" where
  "in_order E ident s \<longleftrightarrow>
     snd s \<noteq> 0 \<and> (\<exists>previous. validate_revisions E ident None (fst s) = Inr previous
       \<and> (\<forall>p. previous = Some p \<longrightarrow> p < snd s))"

lemma in_order_next:
  assumes "in_order E ident (history, revision)"
    and "get_u64 made ''revision'' = Some revision" "get_str made ''kind'' = Some kind"
    "valid_payload E made kind = Inr ()"
  shows "validate_revisions E ident None (history @ [made]) = Inr (Some revision)"
proof -
  from assms(1) obtain previous where "validate_revisions E ident None history = Inr previous"
    "\<forall>p. previous = Some p \<longrightarrow> p < revision" "revision \<noteq> 0" by (auto simp: in_order_def)
  with validate_revisions_one [OF assms(2-4)] show ?thesis
    unfolding validate_revisions_append by simp
qed

lemma history_step_in_order:
  assumes "history_step E W ident written_as fprs writer s r = Inr s'" "opens E" "in_order E ident s"
  shows "in_order E ident s' \<and> length (fst s') = length (fst s) + 1"
proof -
  obtain history revision where s: "s = (history, revision)" by fastforce
  from assms(1) [unfolded s] obtain ciphertext stamp kind p made n where
    c: "canonical_revision E W ciphertext written_as fprs revision stamp writer = Inr (kind, p, made)"
    and nx: "checked_add revision 1 = Some n" and s': "s' = (history @ [made], n)"
    by (auto simp: history_step_def result_simps)
  from nx have "revision < n" by (rule checked_add_gt) simp
  then have "n \<noteq> 0" by auto
  with in_order_next [OF assms(3) [unfolded s] canonical_revision_ok(1-3) [OF c assms(2)]] \<open>revision < n\<close>
  show ?thesis by (simp add: in_order_def s s')
qed

lemma history_in_order:
  assumes "foldR (history_step E W ident written_as fprs writer) s rs = Inr s'" "opens E" "in_order E ident s"
  shows "in_order E ident s' \<and> length (fst s') = length (fst s) + length rs"
  using assms(1,3)
proof (induction rs arbitrary: s)
  case (Cons r rs)
  then obtain s1 where "history_step E W ident written_as fprs writer s r = Inr s1"
    "foldR (history_step E W ident written_as fprs writer) s1 rs = Inr s'" by (auto simp: result_simps)
  with Cons.IH [of s1] Cons.prems(2) history_step_in_order [OF _ assms(2)] show ?case by fastforce
qed simp

section \<open>Entries\<close>

lemma management_accepted:
  assumes "jget item ''management'' = Some (mk_obj [(''mode'', JStr (mode_str mode)), (''controller'', JStr c)])"
    and "c \<noteq> []" "credential_record_kind kind \<Longrightarrow> mode = ModeManaged \<and> c = ''skarbiec-credential-lifecycle''"
  shows "validate_management ident kind item = Inr ()"
proof -
  obtain m where m: "mk_obj [(''mode'', JStr (mode_str mode)), (''controller'', JStr c)] = JObj m"
    by (simp add: mk_obj_def)
  have "get_str (JObj m) ''mode'' = Some (mode_str mode)" "get_str (JObj m) ''controller'' = Some c"
    unfolding m [symmetric] by simp_all
  moreover have "get_object item ''management'' = Some m" using assms(1) by (simp add: m)
  ultimately show ?thesis
    using assms(2,3) by (auto simp: validate_management_def mode_parse_str ensureR_def simp del: get_Some mode_str.simps)
qed

lemma legacy_management_valid:
  assumes "owner v \<noteq> []" "writer \<noteq> []" "kind \<noteq> ''credential-directory-seal''"
    and "jget item ''management'' = Some (legacy_management v kind tags writer)"
  shows "validate_management ident kind item = Inr ()"
proof -
  have k: "credential_record_kind kind \<longleftrightarrow> kind = ''credential-operation''"
    using assms(3) by (simp add: credential_record_kind_def)
  show ?thesis
    using assms(1,2,4)
    by (auto simp: legacy_management_def k simp del: mode_str.simps split: if_splits intro!: management_accepted)
qed

text \<open>The entry a migration builds, and the revision it is at.\<close>

lemma migrate_entry_ok:
  assumes "migrate_entry E W v ident entry L = Inr (item, names, count)" and "opens E"
    and "owner v \<noteq> []" "le_writer L \<noteq> []" "get_str item ''kind'' \<noteq> Some ''credential-directory-seal''"
  shows "validate_item E ident item = Inr ()"
    and "\<exists>n. count = Some n \<and> get_u64 item ''revision'' = Some (of_nat n)
           \<and> length (item_history item) = length (le_history L)"
proof -
  from assms(1) obtain history revision stamp kind p current tags state uid created gone where
    h: "foldR (history_step E W ident (le_kind L) (le_fingerprints L) (le_writer L)) ([], 1) (le_history L)
          = Inr (history, revision)"
    and c: "canonical_revision E W (le_current L) (le_kind L) (le_fingerprints L) revision stamp (le_writer L)
          = Inr (kind, p, current)"
    and item: "item = mk_obj
           [(''format'', JUInt current_envelope), (''item_uid'', JStr uid), (''kind'', JStr kind),
            (''state'', JStr state), (''revision'', JUInt revision),
            (''management'', legacy_management v kind tags (le_writer L)),
            (''created_at'', created), (''updated_at'', stamp), (''deleted_at'', gone),
            (''recipients'', JArr (map JStr (le_recipients L))), (''tags'', JArr tags),
            (''current'', current), (''history'', JArr history)]"
    and n: "count = Some (unat revision)"
    unfolding migrate_entry_def Let_def
    by (simp add: bindR_eq_Inr split_paired_Ex del: get_Some) blast
  have start: "in_order E ident ([], 1)" by (simp add: in_order_def)
  note loop = history_in_order [OF h assms(2) start]
  note rev = canonical_revision_ok [OF c assms(2)]
  obtain m where cur: "current = JObj m" using rev(4) by blast
  have g: "get_u64 item ''format'' = Some current_envelope" "get_str item ''kind'' = Some kind"
    "get_object item ''current'' = Some m" "jget item ''management'' = Some (legacy_management v kind tags (le_writer L))"
    "get_u64 item ''revision'' = Some revision" "get_array item ''history'' = Some history"
    by (simp_all add: item cur)
  have "kind \<noteq> ''credential-directory-seal''" using assms(5) g(2) by simp
  from legacy_management_valid [OF assms(3,4) this g(4)] in_order_next [OF conjunct1 [OF loop] rev(1-3)] rev(2,3)
  show "validate_item E ident item = Inr ()"
    by (simp add: validate_item_def g item_history_def cur result_simps del: get_Some)
  show "\<exists>n. count = Some n \<and> get_u64 item ''revision'' = Some (of_nat n)
           \<and> length (item_history item) = length (le_history L)"
    using loop n g(5,6) by (simp add: item_history_def del: get_Some)
qed


lemma history_counted:
  "foldR (history_step E W ident written_as fprs writer) s rs = Inr s' \<Longrightarrow>
     snd s' = snd s + of_nat (length rs)"
proof (induction rs arbitrary: s)
  case (Cons r rs)
  then obtain s1 where "history_step E W ident written_as fprs writer s r = Inr s1"
    "foldR (history_step E W ident written_as fprs writer) s1 rs = Inr s'" by (auto simp: result_simps)
  moreover from this(1) have "snd s1 = snd s + 1"
    by (auto simp: history_step_def result_simps checked_add_def split: prod.splits if_splits)
  ultimately show ?case using Cons.IH [of s1] by simp
qed simp

lemma migrate_entry_counted:
  assumes "migrate_entry E W v ident entry L = Inr (item, names, count)"
  shows "get_u64 item ''revision'' = Some (of_nat (length (le_history L)) + 1)"
proof -
  from assms obtain history revision fs where
    h: "foldR (history_step E W ident (le_kind L) (le_fingerprints L) (le_writer L)) ([], 1) (le_history L)
          = Inr (history, revision)"
    and r: "get_u64 item ''revision'' = Some revision"
    unfolding migrate_entry_def Let_def
    by (simp add: bindR_eq_Inr split_paired_Ex del: get_Some) (auto simp: get_u64_def)
  from history_counted [OF h] r show ?thesis by (simp add: add.commute)
qed

lemma read_legacy_entry_ok:
  assumes "read_legacy_entry v ident entry = Inr L"
  shows "get_array entry ''history'' = Some (le_history L)"
    and "owner v \<noteq> [] \<Longrightarrow> get_str entry ''written_by'' \<noteq> Some [] \<Longrightarrow> le_writer L \<noteq> []"
  using assms
  by (auto simp: read_legacy_entry_def entry_records_def Let_def result_simps get_defs split: option.splits)


text \<open>A legacy login with one saved revision, in a vault whose owner has a key.\<close>

definition demo_login :: json where
  "demo_login = JObj [(''password'', JStr ''pw''), (''username'', JStr ''u'')]"

definition demo_login_payload :: json where
  "demo_login_payload = mk_obj [(''schema'', JStr ITEM_SCHEMA), (''kind'', JStr ''login''),
     (''fields'', demo_login),
     (''context'', JObj [(''account_ref'', JStr ''u''), (''source_kind'', JStr ''login'')])]"

definition demo_legacy_env :: env where
  "demo_legacy_env = demo_env\<lparr>
     encrypt_to := (\<lambda>fprs p. if p = demo_login_payload then Inr ''new'' else Inl (EncryptFailed ''demo'')),
     decrypt := (\<lambda>c. Inr (if c = ''new'' then demo_login_payload else demo_login))\<rparr>"

definition demo_legacy_vault :: vault where
  "demo_legacy_vault =
     \<lparr>doc = JObj [(''recipients'', JObj [(''ada'', JObj [(''fingerprint'', JStr ''FPR'')])])],
      base_generation = None, owner = ''ada'', recovery = []\<rparr>"

definition demo_legacy_entry :: json where
  "demo_legacy_entry = JObj
     [(''created_at'', JStr ''t0''), (''current'', JStr ''old2''), (''deleted'', JBool False),
      (''deleted_at'', JNull),
      (''history'', JArr [JObj [(''at'', JStr ''t0''), (''cipher'', JStr ''old1'')]]),
      (''recipients'', JArr []), (''tags'', JArr []), (''type'', JStr ''login''), (''updated_at'', JStr ''t1'')]"

definition demo_record :: "u64 \<Rightarrow> string \<Rightarrow> json" where
  "demo_record n stamp = mk_obj
     [(''revision'', JUInt n), (''kind'', JStr ''login''), (''created_at'', JStr stamp),
      (''written_by'', JStr ''ada''), (''operation_id'', JNull), (''ciphertext'', JStr ''new'')]"

definition demo_migrated_entry :: json where
  "demo_migrated_entry = mk_obj
     [(''format'', JUInt 2), (''item_uid'', JStr ''0123456789abcdef''), (''kind'', JStr ''login''),
      (''state'', JStr ''active''), (''revision'', JUInt 2),
      (''management'', mk_obj [(''mode'', JStr ''owner''), (''controller'', JStr ''ada'')]),
      (''created_at'', JStr ''t0''), (''updated_at'', JStr ''t1''), (''deleted_at'', JNull),
      (''recipients'', JArr []), (''tags'', JArr []), (''current'', demo_record 2 ''t1''),
      (''history'', JArr [demo_record 1 ''t0''])]"

lemma demo_migrates_entry:
  "migrate_item demo_legacy_env demo_wording demo_legacy_vault ''mail'' demo_legacy_entry
     = Inr (demo_migrated_entry, [''password'', ''username''], Some 2)"
  by code_simp

lemma demo_opens: "opens demo_legacy_env"
  by (simp add: opens_def demo_legacy_env_def)


section \<open>The vault\<close>

lemma validate_v2_cong:
  assumes "jget (doc v) ''items'' = jget (doc v') ''items''" "jget (doc v) ''tokens'' = jget (doc v') ''tokens''"
  shows "validate_v2 E v = validate_v2 E v'"
  using assms by (simp add: validate_v2_def get_defs)


end
