(* ===== verification/Rewrap.thy ===== *)
theory Rewrap
  imports Managed
begin

text \<open>
  Changing who can read: \<open>rewrap_item\<close>, \<open>rotate_owner\<close> and \<open>transfer_former_owner_control\<close> of
  \<open>src/core/vault/recipients.rs\<close>, and \<open>src/core/vault/removal.rs\<close>. Every one changes the document
  in the handle step by step and saves at the end, so an operation that fails half way returns the
  handle as far as it got. \<open>seals\<close> is \<open>crypto::decrypt\<close> and \<open>crypto::encrypt_to\<close> on text.
\<close>

record seals =
  open_text :: "string \<Rightarrow> vault_error + string"
  seal_text :: "string list \<Rightarrow> string \<Rightarrow> vault_error + string"

datatype reader_error =
    ReaderVault vault_error
  | LegacyReaders string
  | VersionNotObject string
  | VersionNoCiphertext string
  | OwnerStays string
  | UnknownRecipient string
  | RecoveryStays string
  | AlreadyOwner string
  | NotAnObject string

section \<open>One item\<close>

definition rewrap :: "seals \<Rightarrow> string list \<Rightarrow> string \<Rightarrow> reader_error + string" where
  "rewrap S fprs ciphertext =
     map_err ReaderVault (bindR (open_text S ciphertext) (seal_text S fprs))"

definition rewrap_version :: "seals \<Rightarrow> string \<Rightarrow> string list \<Rightarrow> json \<Rightarrow> reader_error + json" where
  "rewrap_version S ident fprs version =
     bindR (ok_or (VersionNotObject ident) (as_object version)) (\<lambda>m.
     bindR (ok_or (VersionNoCiphertext ident) (get_str version ''ciphertext'')) (\<lambda>cipher.
     bindR (rewrap S fprs cipher) (\<lambda>rotated.
       Inr (JObj (map_insert ''ciphertext'' (JStr rotated) m)))))"

definition rewrap_item :: "seals \<Rightarrow> string \<Rightarrow> string list \<Rightarrow> vault \<Rightarrow> reader_error + vault \<times> nat" where
  "rewrap_item S ident uids v =
     (let fprs = fprs_for v uids in
      bindR (ok_or (ReaderVault (NoItem ident)) (item_entry v ident)) (\<lambda>item.
      if get_u64 item ''format'' \<noteq> Some current_envelope then Inl (LegacyReaders ident)
      else bindR (ok_or (ReaderVault NoCurrent) (get_object item ''current'')) (\<lambda>current.
      bindR (ok_or (ReaderVault NoCiphertext) (get_str (JObj current) ''ciphertext'')) (\<lambda>cipher.
      bindR (rewrap S fprs cipher) (\<lambda>rotated.
      bindR (map_err ReaderVault (stored_history ident item)) (\<lambda>history.
      bindR (mapR (rewrap_version S ident fprs) history) (\<lambda>rotated_history.
      bindR (map_err ReaderVault (edit_entry ident
               (\<lambda>e. map_insert ''recipients'' (JArr (map JStr uids))
                 (map_insert ''history'' (JArr rotated_history)
                 (map_insert ''current'' (JObj (map_insert ''ciphertext'' (JStr rotated) current)) e))) v))
        (\<lambda>v'. Inr (v', length rotated_history)))))))))"

text \<open>An item's stored readers less one, and the item rewrapped to them.\<close>

definition rewrap_without :: "seals \<Rightarrow> string \<Rightarrow> vault \<Rightarrow> string \<Rightarrow> reader_error + vault \<times> nat" where
  "rewrap_without S uid v ident =
     bindR (map_err ReaderVault (item_recipient_uids v ident)) (\<lambda>uids.
       rewrap_item S ident (filter (\<lambda>u. u \<noteq> uid) uids) v)"

text \<open>Items in turn, stopping at the first that fails; the handle keeps the ones before it.\<close>

fun rewrap_all ::
  "seals \<Rightarrow> string \<Rightarrow> string list \<Rightarrow> nat \<Rightarrow> vault \<Rightarrow> (reader_error + nat) \<times> vault" where
  "rewrap_all S uid [] versions v = (Inr versions, v)"
| "rewrap_all S uid (ident # ids) versions v =
     (case rewrap_without S uid v ident of
        Inl e \<Rightarrow> (Inl e, v)
      | Inr (v', n) \<Rightarrow> rewrap_all S uid ids (versions + n) v')"

section \<open>Removing a person\<close>

definition stored_items :: "vault \<Rightarrow> obj" where
  "stored_items v = (case get_object (doc v) ''items'' of Some m \<Rightarrow> m | None \<Rightarrow> [])"

definition lists_reader :: "string \<Rightarrow> json \<Rightarrow> bool" where
  "lists_reader uid item \<longleftrightarrow>
     (case get_array item ''recipients'' of
        Some uids \<Rightarrow> list_ex (\<lambda>u. as_str u = Some uid) uids
      | None \<Rightarrow> False)"

definition exposed_items :: "string \<Rightarrow> vault \<Rightarrow> (string \<times> string option) list" where
  "exposed_items uid v =
     map (\<lambda>(ident, item). (ident, get_str item ''state''))
       (filter (\<lambda>(ident, item). lists_reader uid item) (stored_items v))"

definition removable :: "string \<Rightarrow> vault \<Rightarrow> reader_error + string" where
  "removable uid v =
     (if uid = owner v then Inl (OwnerStays uid)
      else bindR (ok_or (UnknownRecipient uid) (recipient_fpr v uid)) (\<lambda>fpr.
        if fpr = recovery v then Inl (RecoveryStays uid)
        else bindR (mapR (\<lambda>(ident, _). map_err ReaderVault (item_recipient_uids v ident)) (stored_items v))
          (\<lambda>_. Inr fpr)))"

text \<open>The registry entry and a pending emergency grant for the uid go; whether there was one.\<close>

definition forget_recipient :: "string \<Rightarrow> vault \<Rightarrow> reader_error + bool \<times> vault" where
  "forget_recipient uid v =
     bindR (map_err ReaderVault (obj_mut (doc v) ''recipients'')) (\<lambda>recipients.
       let v1 = put_section ''recipients'' (map_remove uid recipients) v in
       case get_object (doc v1) ''emergency'' of
         None \<Rightarrow> Inr (False, v1)
       | Some grants \<Rightarrow>
           Inr (map_of grants uid \<noteq> None, put_section ''emergency'' (map_remove uid grants) v1))"

definition removal_report :: "string \<Rightarrow> string \<Rightarrow> (string \<times> string option) list \<Rightarrow> nat \<Rightarrow> bool \<Rightarrow> json" where
  "removal_report uid fpr exposed versions cancelled =
     mk_obj [(''ok'', JBool True), (''uid'', JStr uid), (''fingerprint'', JStr fpr),
             (''items_rewrapped'', JUInt (of_nat (length exposed))),
             (''historical_versions'', JUInt (of_nat versions)),
             (''emergency_grant_cancelled'', JBool cancelled),
             (''exposed'', JArr (map (\<lambda>(ident, state).
                mk_obj [(''item'', JStr ident), (''state'', json_opt JStr state)]) exposed))]"

definition remove_recipient ::
  "seals \<Rightarrow> string \<Rightarrow> vault \<Rightarrow> host \<Rightarrow> (reader_error + json) \<times> vault \<times> host" where
  "remove_recipient S uid v h =
     (case removable uid v of
        Inl e \<Rightarrow> (Inl e, v, h)
      | Inr fpr \<Rightarrow>
          (let exposed = exposed_items uid v in
           case rewrap_all S uid (map fst exposed) 0 v of
             (Inl e, v1) \<Rightarrow> (Inl e, v1, h)
           | (Inr versions, v1) \<Rightarrow>
               (case forget_recipient uid v1 of
                  Inl e \<Rightarrow> (Inl e, v1, h)
                | Inr (cancelled, v2) \<Rightarrow>
                    (case save v2 h of
                       (Inl e, v3, h') \<Rightarrow> (Inl (ReaderVault e), v3, h')
                     | (Inr _, v3, h') \<Rightarrow> (Inr (removal_report uid fpr exposed versions cancelled), v3, h')))))"

text \<open>Dropping one reader from the items named, in memory only: the ids rewrapped, their versions,
  the ids the vault no longer holds and those that do not list the reader.\<close>

record withdrawn =
  wd_rewrapped :: "string list"
  wd_versions :: nat
  wd_absent :: "string list"
  wd_not_reader :: "string list"

fun withdraw_recipient ::
  "seals \<Rightarrow> string \<Rightarrow> string list \<Rightarrow> withdrawn \<Rightarrow> vault \<Rightarrow> (reader_error + withdrawn) \<times> vault" where
  "withdraw_recipient S uid [] w v = (Inr w, v)"
| "withdraw_recipient S uid (ident # ids) w v =
     (if map_of (stored_items v) ident = None
      then withdraw_recipient S uid ids (w\<lparr>wd_absent := wd_absent w @ [ident]\<rparr>) v
      else case item_recipient_uids v ident of
             Inl e \<Rightarrow> (Inl (ReaderVault e), v)
           | Inr readers \<Rightarrow>
               if uid \<notin> set readers
               then withdraw_recipient S uid ids (w\<lparr>wd_not_reader := wd_not_reader w @ [ident]\<rparr>) v
               else (case rewrap_item S ident (filter (\<lambda>u. u \<noteq> uid) readers) v of
                       Inl e \<Rightarrow> (Inl e, v)
                     | Inr (v', n) \<Rightarrow>
                         withdraw_recipient S uid ids
                           (w\<lparr>wd_rewrapped := wd_rewrapped w @ [ident], wd_versions := wd_versions w + n\<rparr>) v'))"

section \<open>Installing an owner\<close>

definition former_owners :: "vault \<Rightarrow> reader_error + string list" where
  "former_owners v =
     (case jget (doc v) ''recipients'' of
        None \<Rightarrow> Inr []
      | Some JNull \<Rightarrow> Inr []
      | Some (JObj recipients) \<Rightarrow>
          Inr (map fst (filter (\<lambda>(uid, entry). uid \<noteq> owner v \<and> jget entry ''owner_until'' \<noteq> None) recipients))
      | Some _ \<Rightarrow> Inl (NotAnObject ''recipients''))"

text \<open>What one entry becomes: itself, or itself under the owner's control.\<close>

definition transfer_entry :: "string \<Rightarrow> string list \<Rightarrow> string \<Rightarrow> json \<Rightarrow> reader_error + json option" where
  "transfer_entry own former ident entry =
     (case get_object entry ''management'' of
        None \<Rightarrow> Inr None
      | Some management \<Rightarrow>
          (let held = (case get_str (JObj management) ''controller'' of
                         Some c \<Rightarrow> c \<in> set former | None \<Rightarrow> False);
               movable = (case mode_of entry of Some m \<Rightarrow> m \<noteq> ModeManaged | None \<Rightarrow> False)
           in bindR (map_err ReaderVault (entry_texts ident entry ''tags'')) (\<lambda>tags.
                if \<not> held \<or> \<not> movable \<or> ''managed:weles'' \<in> set tags then Inr None
                else case entry of
                       JObj e \<Rightarrow> Inr (Some (JObj (map_insert ''management'' (mk_management ModeOwner own) e)))
                     | _ \<Rightarrow> Inr None)))"

text \<open>The entries in turn; those before a refused one have already moved.\<close>

fun transfer_entries ::
  "string \<Rightarrow> string list \<Rightarrow> obj \<Rightarrow> (reader_error + string list) \<times> obj" where
  "transfer_entries own former [] = (Inr [], [])"
| "transfer_entries own former ((ident, entry) # es) =
     (case transfer_entry own former ident entry of
        Inl e \<Rightarrow> (Inl e, (ident, entry) # es)
      | Inr None \<Rightarrow> (case transfer_entries own former es of (r, es') \<Rightarrow> (r, (ident, entry) # es'))
      | Inr (Some entry') \<Rightarrow>
          (case transfer_entries own former es of
             (r, es') \<Rightarrow> (bindR r (\<lambda>moved. Inr (ident # moved)), (ident, entry') # es')))"

definition transfer_former_owner_control :: "vault \<Rightarrow> (reader_error + string list) \<times> vault" where
  "transfer_former_owner_control v =
     (case former_owners v of
        Inl e \<Rightarrow> (Inl e, v)
      | Inr former \<Rightarrow>
          (case obj_mut (doc v) ''items'' of
             Inl e \<Rightarrow> (Inl (ReaderVault e), v)
           | Inr items \<Rightarrow>
               (case transfer_entries (owner v) former items of
                  (r, items') \<Rightarrow> (r, put_section ''items'' items' v))))"

definition item_ids :: "vault \<Rightarrow> reader_error + string list" where
  "item_ids v =
     (case jget (doc v) ''items'' of
        None \<Rightarrow> Inr []
      | Some JNull \<Rightarrow> Inr []
      | Some (JObj items) \<Rightarrow> Inr (map fst items)
      | Some _ \<Rightarrow> Inl (NotAnObject ''items''))"

text \<open>The registry and the owner as the rotation writes them, before anything is rewrapped.\<close>

definition install_owner :: "env \<Rightarrow> string \<Rightarrow> string \<Rightarrow> vault \<Rightarrow> (reader_error + unit) \<times> vault" where
  "install_owner E uid fpr v =
     (case obj_mut (doc v) ''recipients'' of
        Inl e \<Rightarrow> (Inl (ReaderVault e), v)
      | Inr recipients \<Rightarrow>
          (let r1 = map_insert uid (mk_obj [(''fingerprint'', JStr fpr), (''role'', JStr ''owner''),
                      (''added_at'', JStr (now_iso E))]) recipients;
               r2 = (case Option.bind (map_of r1 (owner v)) as_object of
                       Some entry \<Rightarrow>
                         map_insert (owner v) (JObj (map_insert ''owner_until'' (JStr (now_iso E))
                           (map_insert ''role'' (JStr ''member'') entry))) r1
                     | None \<Rightarrow> r1);
               v1 = put_section ''recipients'' r2 v
           in case doc v1 of
                JObj d \<Rightarrow> (Inr (), v1\<lparr>doc := JObj (map_insert ''owner'' (JStr uid) d), owner := uid\<rparr>)
              | _ \<Rightarrow> (Inl (ReaderVault DocumentNotObject), v1)))"

definition rotate_report :: "string \<Rightarrow> string \<Rightarrow> string \<Rightarrow> nat \<Rightarrow> nat \<Rightarrow> bool \<Rightarrow> json" where
  "rotate_report uid fpr previous items versions preserved =
     mk_obj [(''ok'', JBool True), (''owner'', JStr uid), (''fingerprint'', JStr fpr),
             (''previous_owner'', JStr previous), (''items'', JUInt (of_nat items)),
             (''historical_versions'', JUInt (of_nat versions)),
             (''recovery_preserved'', JBool preserved)]"

definition rotate_owner ::
  "env \<Rightarrow> seals \<Rightarrow> string \<Rightarrow> string \<Rightarrow> vault \<Rightarrow> host \<Rightarrow> (reader_error + json) \<times> vault \<times> host" where
  "rotate_owner E S uid fpr v h =
     (if owner v = uid then (Inl (AlreadyOwner uid), v, h)
      else case install_owner E uid fpr v of
        (Inl e, v1) \<Rightarrow> (Inl e, v1, h)
      | (Inr _, v1) \<Rightarrow>
          (case transfer_former_owner_control v1 of
             (Inl e, v2) \<Rightarrow> (Inl e, v2, h)
           | (Inr _, v2) \<Rightarrow>
               (case item_ids v2 of
                  Inl e \<Rightarrow> (Inl e, v2, h)
                | Inr ids \<Rightarrow>
                    (case rewrap_all S (owner v) ids 0 v2 of
                       (Inl e, v3) \<Rightarrow> (Inl e, v3, h)
                     | (Inr versions, v3) \<Rightarrow>
                         (case save v3 h of
                            (Inl e, v4, h') \<Rightarrow> (Inl (ReaderVault e), v4, h')
                          | (Inr _, v4, h') \<Rightarrow>
                              (Inr (rotate_report uid fpr (owner v) (length ids) versions (recovery v \<noteq> [])),
                               v4, h'))))))"

end
