(* ===== verification/RewrapProps.thy ===== *)
theory RewrapProps
  imports Rewrap ManagedProps
begin

text \<open>
  What a change of readers promises: every current and historical ciphertext of the items it
  touches is sealed anew to the readers left, the owner and the recovery key, and to nobody else;
  what is staged on an item is not touched at all.
\<close>

section \<open>An entry sealed anew\<close>

definition resealed :: "seals \<Rightarrow> string list \<Rightarrow> json \<Rightarrow> json \<Rightarrow> bool" where
  "resealed S fprs r r' \<longleftrightarrow>
     (\<exists>c t c'. get_str r ''ciphertext'' = Some c \<and> open_text S c = Inr t \<and> seal_text S fprs t = Inr c'
        \<and> get_str r' ''ciphertext'' = Some c' \<and> (\<forall>k. k \<noteq> ''ciphertext'' \<longrightarrow> jget r' k = jget r k))"

definition sealed_anew :: "seals \<Rightarrow> string list \<Rightarrow> json \<Rightarrow> json \<Rightarrow> bool" where
  "sealed_anew S fprs item item' \<longleftrightarrow>
     (\<exists>current current'. jget item ''current'' = Some current \<and> jget item' ''current'' = Some current'
        \<and> resealed S fprs current current')
   \<and> (\<exists>history history'. stored_history [] item = Inr history \<and> get_array item' ''history'' = Some history'
        \<and> list_all2 (resealed S fprs) history history')
   \<and> (\<forall>k. k \<notin> {''recipients'', ''current'', ''history''} \<longrightarrow> jget item' k = jget item k)"

lemma sealed_anew_other:
  "sealed_anew S fprs item item' \<Longrightarrow> k \<notin> {''recipients'', ''current'', ''history''} \<Longrightarrow> jget item' k = jget item k"
  unfolding sealed_anew_def by blast

lemma rewrap_ok:
  "rewrap S fprs c = Inr c' \<Longrightarrow> \<exists>t. open_text S c = Inr t \<and> seal_text S fprs t = Inr c'"
  by (auto simp: rewrap_def result_simps)

lemma rewrap_version_resealed: "rewrap_version S ident fprs r = Inr r' \<Longrightarrow> resealed S fprs r r'"
  by (auto simp: rewrap_version_def resealed_def result_simps map_of_map_insert dest!: rewrap_ok)

lemma mapR_list_all2: "mapR f xs = Inr ys \<Longrightarrow> (\<And>x y. f x = Inr y \<Longrightarrow> P x y) \<Longrightarrow> list_all2 P xs ys"
  by (induction xs arbitrary: ys) (auto simp: result_simps)

lemma stored_history_name: "stored_history ident item = Inr h \<Longrightarrow> stored_history [] item = Inr h"
  by (auto simp: stored_history_def split: option.splits json.splits)

section \<open>One item\<close>

text \<open>What only edits of the items leave alone.\<close>

definition beside_items :: "vault \<Rightarrow> vault \<Rightarrow> bool" where
  "beside_items v v' \<longleftrightarrow>
     owner v' = owner v \<and> recovery v' = recovery v \<and> base_generation v' = base_generation v
   \<and> (\<forall>k. k \<noteq> ''items'' \<longrightarrow> jget (doc v') k = jget (doc v) k)"

lemma beside_items_refl [simp]: "beside_items v v"
  by (simp add: beside_items_def)

lemma beside_items_trans: "beside_items v v1 \<Longrightarrow> beside_items v1 v2 \<Longrightarrow> beside_items v v2"
  by (simp add: beside_items_def)

lemma beside_items_fpr: "beside_items v v' \<Longrightarrow> recipient_fpr v' = recipient_fpr v"
  by (simp add: beside_items_def recipient_fpr_def fun_eq_iff)

lemma push_fprs_cong: "recipient_fpr v' = recipient_fpr v \<Longrightarrow> push_fprs v' fs want = push_fprs v fs want"
  by (induction want arbitrary: fs) (simp_all split: option.splits)

lemma beside_items_fprs: "beside_items v v' \<Longrightarrow> fprs_for v' = fprs_for v"
  using push_fprs_cong [OF beside_items_fpr, of v v']
  by (simp add: fprs_for_def fun_eq_iff beside_items_def Let_def)

lemma edit_entry_beside:
  assumes "edit_entry ident f v = Inr v'"
  shows "beside_items v v'"
proof -
  from assms obtain items e where i: "get_object (doc v) ''items'' = Some items"
    and v': "v' = put_section ''items'' (map_insert ident (JObj (f e)) items) v"
    by (auto simp: edit_entry_def result_simps simp del: get_Some)
  show ?thesis using get_object_put [OF i] by (simp add: v' beside_items_def)
qed

lemma rewrap_item_ok:
  assumes "rewrap_item S ident uids v = Inr (v', n)"
  shows "beside_items v v'"
    and "\<exists>item item'. item_entry v ident = Some item \<and> item_entry v' = (item_entry v)(ident \<mapsto> item')
           \<and> sealed_anew S (fprs_for v uids) item item'
           \<and> jget item' ''recipients'' = Some (JArr (map JStr uids))"
proof -
  let ?fprs = "fprs_for v uids"
  from assms obtain item current cipher rotated history hs where
    i: "item_entry v ident = Some item" and c: "get_object item ''current'' = Some current"
    and ci: "get_str (JObj current) ''ciphertext'' = Some cipher" and r: "rewrap S ?fprs cipher = Inr rotated"
    and h: "stored_history ident item = Inr history" and m: "mapR (rewrap_version S ident ?fprs) history = Inr hs"
    and ed: "edit_entry ident
               (\<lambda>e. map_insert ''recipients'' (JArr (map JStr uids))
                 (map_insert ''history'' (JArr hs)
                 (map_insert ''current'' (JObj (map_insert ''ciphertext'' (JStr rotated) current)) e))) v = Inr v'"
    by (auto simp: rewrap_item_def Let_def result_simps split: if_splits simp del: get_Some)
  show "beside_items v v'" using ed by (rule edit_entry_beside)
  obtain e where e: "item_entry v ident = Some (JObj e)"
    "item_entry v' = (item_entry v)(ident \<mapsto>
       JObj (map_insert ''recipients'' (JArr (map JStr uids)) (map_insert ''history'' (JArr hs)
         (map_insert ''current'' (JObj (map_insert ''ciphertext'' (JStr rotated) current)) e))))"
    using edit_entry_ok [OF ed] by blast
  let ?item' = "JObj (map_insert ''recipients'' (JArr (map JStr uids)) (map_insert ''history'' (JArr hs)
         (map_insert ''current'' (JObj (map_insert ''ciphertext'' (JStr rotated) current)) e)))"
  have ie: "item = JObj e" using i e(1) by simp
  have cur: "resealed S ?fprs (JObj current) (JObj (map_insert ''ciphertext'' (JStr rotated) current))"
    using ci rewrap_ok [OF r] by (auto simp: resealed_def map_of_map_insert)
  have hist: "list_all2 (resealed S ?fprs) history hs"
    using m rewrap_version_resealed by (rule mapR_list_all2)
  have "sealed_anew S ?fprs item ?item'"
    unfolding sealed_anew_def using cur hist c stored_history_name [OF h]
    by (auto simp: ie map_of_map_insert)
  moreover have "jget ?item' ''recipients'' = Some (JArr (map JStr uids))" by (simp add: map_of_map_insert)
  ultimately show "\<exists>item item'. item_entry v ident = Some item \<and> item_entry v' = (item_entry v)(ident \<mapsto> item')
           \<and> sealed_anew S (fprs_for v uids) item item'
           \<and> jget item' ''recipients'' = Some (JArr (map JStr uids))"
    using i e(2) by blast
qed

section \<open>Items in turn\<close>

text \<open>An entry of the document after the items named were rewrapped without one reader.\<close>

definition rewrapped_to :: "seals \<Rightarrow> vault \<Rightarrow> string \<Rightarrow> string \<Rightarrow> json option \<Rightarrow> bool" where
  "rewrapped_to S v uid ident entry \<longleftrightarrow>
     (\<exists>item item' uids. item_entry v ident = Some item \<and> entry = Some item'
        \<and> item_recipient_uids v ident = Inr uids
        \<and> sealed_anew S (fprs_for v (filter (\<lambda>u. u \<noteq> uid) uids)) item item'
        \<and> jget item' ''recipients'' = Some (JArr (map JStr (filter (\<lambda>u. u \<noteq> uid) uids))))"

lemma rewrap_all_ok:
  assumes "rewrap_all S uid ids n v = (Inr m, v')" and "distinct ids"
  shows "beside_items v v'
    \<and> (\<forall>ident. if ident \<in> set ids then rewrapped_to S v uid ident (item_entry v' ident)
             else item_entry v' ident = item_entry v ident)"
  using assms
proof (induction S uid ids n v rule: rewrap_all.induct)
  case (1 S uid versions v)
  then show ?case by simp
next
  case (2 S uid ident ids versions v)
  from "2.prems"(1) obtain v1 k where step: "rewrap_without S uid v ident = Inr (v1, k)"
    and rest: "rewrap_all S uid ids (versions + k) v1 = (Inr m, v')" by (auto split: sum.splits)
  from step obtain uids where u: "item_recipient_uids v ident = Inr uids"
    and r: "rewrap_item S ident (filter (\<lambda>u. u \<noteq> uid) uids) v = Inr (v1, k)"
    by (auto simp: rewrap_without_def result_simps)
  from rewrap_item_ok [OF r] obtain item item' where b: "beside_items v v1"
    and i: "item_entry v ident = Some item" "item_entry v1 = (item_entry v)(ident \<mapsto> item')"
      "sealed_anew S (fprs_for v (filter (\<lambda>u. u \<noteq> uid) uids)) item item'"
      "jget item' ''recipients'' = Some (JArr (map JStr (filter (\<lambda>u. u \<noteq> uid) uids)))" by blast
  have IH: "beside_items v1 v'
    \<and> (\<forall>j. if j \<in> set ids then rewrapped_to S v1 uid j (item_entry v' j)
          else item_entry v' j = item_entry v1 j)"
    using "2.IH" [OF step refl rest] "2.prems"(2) by simp
  have new: "ident \<notin> set ids" using "2.prems"(2) by simp
  have here: "rewrapped_to S v uid ident (item_entry v' ident)"
    using IH new i u unfolding rewrapped_to_def by auto
  have there: "rewrapped_to S v uid j (item_entry v' j)" if "j \<in> set ids" for j
  proof -
    have j: "j \<noteq> ident" using that new by blast
    then have "item_entry v1 j = item_entry v j" by (simp add: i(2))
    moreover from this have "item_recipient_uids v1 j = item_recipient_uids v j"
      by (simp add: item_recipient_uids_def)
    moreover have "rewrapped_to S v1 uid j (item_entry v' j)" using IH that by presburger
    ultimately show ?thesis unfolding rewrapped_to_def beside_items_fprs [OF b] by simp
  qed
  show ?case
    using IH here there i(2) beside_items_trans [OF b] by auto
qed


section \<open>Who the ciphertexts are not sealed to\<close>

lemma push_fprs_only:
  "f \<in> set (push_fprs v fprs want) \<Longrightarrow> f \<in> set fprs \<or> (\<exists>u \<in> set want. recipient_fpr v u = Some f)"
  by (induction v fprs want rule: push_fprs.induct) (auto split: option.splits if_splits)

lemma fprs_for_excludes:
  assumes "\<And>u. u \<noteq> uid \<Longrightarrow> recipient_fpr v u \<noteq> Some fpr" "uid \<noteq> owner v" "fpr \<noteq> recovery v"
  shows "fpr \<notin> set (fprs_for v (filter (\<lambda>u. u \<noteq> uid) uids))"
proof
  assume "fpr \<in> set (fprs_for v (filter (\<lambda>u. u \<noteq> uid) uids))"
  with assms(3) have "fpr \<in> set (push_fprs v [] (filter (\<lambda>u. u \<noteq> uid) uids @ [owner v]))"
    by (auto simp: fprs_for_def Let_def split: if_splits)
  from push_fprs_only [OF this] assms(1,2) show False by auto
qed

lemma removable_ok:
  "removable uid v = Inr fpr \<Longrightarrow> uid \<noteq> owner v \<and> recipient_fpr v uid = Some fpr \<and> fpr \<noteq> recovery v"
  by (auto simp: removable_def result_simps split: if_splits)

lemma stored_items_entry: "map_of (stored_items v) ident = item_entry v ident"
  by (cases "doc v"; cases "jget (doc v) ''items''"; cases "the (jget (doc v) ''items'')")
     (auto simp: stored_items_def item_entry_def get_defs json_reads)

lemma exposed_ids:
  assumes "distinct (map fst (stored_items v))"
  shows "distinct (map fst (exposed_items uid v))"
    and "ident \<in> set (map fst (exposed_items uid v))
           \<longleftrightarrow> (\<exists>item. item_entry v ident = Some item \<and> lists_reader uid item)"
proof -
  have m: "map fst (exposed_items uid v) = map fst (filter (\<lambda>(ident, item). lists_reader uid item) (stored_items v))"
    by (simp add: exposed_items_def o_def case_prod_unfold)
  show "distinct (map fst (exposed_items uid v))" unfolding m using assms by (rule distinct_map_filter)
  show "ident \<in> set (map fst (exposed_items uid v))
           \<longleftrightarrow> (\<exists>item. item_entry v ident = Some item \<and> lists_reader uid item)"
    unfolding m stored_items_entry [symmetric] using assms by force
qed

lemma forget_ok:
  assumes "forget_recipient uid v = Inr (c, v')"
  shows "item_entry v' = item_entry v" and "recipient_fpr v' uid = None"
proof -
  from assms obtain recipients where r: "get_object (doc v) ''recipients'' = Some recipients"
    by (auto simp: forget_recipient_def result_simps simp del: get_Some)
  define v1 where "v1 = put_section ''recipients'' (map_remove uid recipients) v"
  have one: "item_entry v1 = item_entry v" "recipient_fpr v1 uid = None"
    using get_object_put [OF r]
    by (simp_all add: v1_def item_entry_def recipient_fpr_def fun_eq_iff map_of_map_remove)
  from assms r consider "v' = v1" | grants where "get_object (doc v1) ''emergency'' = Some grants"
      "v' = put_section ''emergency'' (map_remove uid grants) v1"
    by (auto simp: forget_recipient_def v1_def Let_def result_simps split: option.splits simp del: get_Some)
  then have "item_entry v' = item_entry v \<and> recipient_fpr v' uid = None"
  proof cases
    case 2
    from get_object_put [OF 2(1)] one show ?thesis
      by (simp add: 2(2) item_entry_def recipient_fpr_def fun_eq_iff)
  qed (use one in simp)
  then show "item_entry v' = item_entry v" "recipient_fpr v' uid = None" by blast+
qed

section \<open>Removal\<close>

lemma remove_recipient_ok:
  assumes "remove_recipient S uid v h = (Inr r, v', h')" and "distinct (map fst (stored_items v))"
  shows "\<exists>fpr. removable uid v = Inr fpr"
    and "persisted h' = Some (doc v')" and "recipient_fpr v' uid = None"
    and "if \<exists>item. item_entry v ident = Some item \<and> lists_reader uid item
         then rewrapped_to S v uid ident (item_entry v' ident)
         else item_entry v' ident = item_entry v ident"
proof -
  from assms(1) obtain fpr n v1 c v2 u where f: "removable uid v = Inr fpr"
    and all: "rewrap_all S uid (map fst (exposed_items uid v)) 0 v = (Inr n, v1)"
    and g: "forget_recipient uid v1 = Inr (c, v2)" and s: "save v2 h = (Inr u, v', h')"
    by (auto simp: remove_recipient_def Let_def split: sum.splits prod.splits)
  show "\<exists>fpr. removable uid v = Inr fpr" using f by blast
  show "persisted h' = Some (doc v')" using s by (rule save_ok_persisted)
  have "recipient_fpr v' uid = recipient_fpr v2 uid"
    using save_ok_get [OF s, of "''recipients''"] by (simp add: recipient_fpr_def)
  then show "recipient_fpr v' uid = None" using forget_ok(2) [OF g] by simp
  have "item_entry v' = item_entry v1" using item_entry_save [OF s] forget_ok(1) [OF g] by simp
  with rewrap_all_ok [OF all exposed_ids(1) [OF assms(2)]] exposed_ids(2) [OF assms(2)]
  show "if \<exists>item. item_entry v ident = Some item \<and> lists_reader uid item
         then rewrapped_to S v uid ident (item_entry v' ident)
         else item_entry v' ident = item_entry v ident" by (metis (full_types))
qed


lemma lists_none: "jget item ''recipients'' = Some (JArr (map JStr (filter (\<lambda>u. u \<noteq> uid) uids))) \<Longrightarrow> \<not> lists_reader uid item"
  by (auto simp: lists_reader_def get_defs list_ex_iff)

lemma removed_entry:
  assumes "remove_recipient S uid v h = (Inr r, v', h')" and "distinct (map fst (stored_items v))"
    and "item_entry v' ident = Some item'"
  obtains item where "item_entry v ident = Some item" "\<not> lists_reader uid item'"
    "if lists_reader uid item then \<exists>uids. sealed_anew S (fprs_for v (filter (\<lambda>u. u \<noteq> uid) uids)) item item'
     else item' = item"
proof (cases "\<exists>item. item_entry v ident = Some item \<and> lists_reader uid item")
  case True
  with remove_recipient_ok(4) [OF assms(1,2), of ident] have
    "rewrapped_to S v uid ident (item_entry v' ident)" by simp
  with True assms(3) lists_none that show ?thesis unfolding rewrapped_to_def by fastforce
next
  case False
  with remove_recipient_ok(4) [OF assms(1,2), of ident] assms(3) that [of item'] show ?thesis by auto
qed

text \<open>C6: once a person is removed, the saved vault registers no key for them and no item lists them;
  every current and saved ciphertext of an item that did is sealed anew to keys that are not
  theirs, with the same plain text, and every other item is as it was.\<close>

theorem removed_recipient_sealed_out:
  assumes "remove_recipient S uid v h = (Inr r, v', h')" and "distinct (map fst (stored_items v))"
    and "recipient_fpr v uid = Some fpr" and "\<And>u. u \<noteq> uid \<Longrightarrow> recipient_fpr v u \<noteq> Some fpr"
    and "item_entry v' ident = Some item'"
  shows "persisted h' = Some (doc v') \<and> recipient_fpr v' uid = None \<and> \<not> lists_reader uid item'
    \<and> (\<exists>item. item_entry v ident = Some item
         \<and> (if lists_reader uid item then \<exists>fprs. fpr \<notin> set fprs \<and> sealed_anew S fprs item item'
            else item' = item))"
proof -
  obtain fpr' where "removable uid v = Inr fpr'" using remove_recipient_ok(1) [OF assms(1,2)] by blast
  from removable_ok [OF this] assms(3) have "uid \<noteq> owner v" "fpr \<noteq> recovery v" by auto
  note out = fprs_for_excludes [of uid v fpr, OF assms(4) this]
  from removed_entry [OF assms(1,2,5)] obtain item where i: "item_entry v ident = Some item" "\<not> lists_reader uid item'"
    "if lists_reader uid item then \<exists>uids. sealed_anew S (fprs_for v (filter (\<lambda>u. u \<noteq> uid) uids)) item item'
     else item' = item" by blast
  then have "if lists_reader uid item then \<exists>fprs. fpr \<notin> set fprs \<and> sealed_anew S fprs item item' else item' = item"
    using out by (auto split: if_splits)
  with i remove_recipient_ok(2,3) [OF assms(1,2)] show ?thesis by blast
qed

text \<open>C7: a value staged before a person was removed is not sealed anew: activating it makes the
  ciphertext sealed while they were a reader the current one, of an item that no longer lists
  them.\<close>

theorem staged_outlives_removal:
  assumes "remove_recipient S uid v h = (Inr r, v', h')" and "distinct (map fst (stored_items v))"
    and "item_entry v ident = Some item" and "jget item ''pending'' = Some p"
    and "activate_staged_revision E ident operation fld writer v' h' = (Inr n, v2, h2)"
  shows "\<exists>item2. item_entry v2 ident = Some item2 \<and> jget item2 ''current'' = Some p
    \<and> \<not> lists_reader uid item2"
proof -
  from assms(5) obtain v1 where a: "activated E ident operation fld writer v' = Inr (n, v1)"
    and s: "\<exists>q. save v1 h' = (q, v2, h2)"
    by (auto simp: activate_staged_revision_def result_simps split: sum.splits prod.splits)
  from activated_ok [OF a] obtain e p' hs c where e: "item_entry v' ident = Some (JObj e)" "map_of e ''pending'' = Some p'"
    and v1: "item_entry v1 = (item_entry v')(ident \<mapsto> JObj (map_remove ''pending''
              (map_insert ''updated_at'' (JStr (now_iso E))
              (map_insert ''revision'' (JUInt n)
              (map_insert ''history'' (JArr (hs @ [c]))
              (map_insert ''current'' p' e))))))" by blast
  from removed_entry [OF assms(1,2) e(1)] obtain item0 where i: "item_entry v ident = Some item0"
    "\<not> lists_reader uid (JObj e)"
    "if lists_reader uid item0 then \<exists>uids. sealed_anew S (fprs_for v (filter (\<lambda>u. u \<noteq> uid) uids)) item0 (JObj e)
     else JObj e = item0" by blast
  have "jget (JObj e) ''pending'' = jget item0 ''pending''"
  proof (cases "lists_reader uid item0")
    case True
    with i(3) obtain uids where "sealed_anew S (fprs_for v (filter (\<lambda>u. u \<noteq> uid) uids)) item0 (JObj e)" by auto
    then show ?thesis by (rule sealed_anew_other) simp
  next
    case False
    with i(3) show ?thesis by simp
  qed
  then have "jget (JObj e) ''pending'' = jget item ''pending''" using assms(3) i(1) by simp
  then have "p' = p" using e(2) assms(4) by simp
  moreover have "item_entry v2 = item_entry v1" using s item_entry_save by blast
  moreover have "\<not> lists_reader uid (JObj (map_remove ''pending''
              (map_insert ''updated_at'' (JStr (now_iso E))
              (map_insert ''revision'' (JUInt n)
              (map_insert ''history'' (JArr (hs @ [c]))
              (map_insert ''current'' p e))))))"
    using i(2) by (simp add: lists_reader_def get_defs map_of_map_remove map_of_map_insert)
  ultimately show ?thesis by (simp add: v1 map_of_map_remove map_of_map_insert)
qed

section \<open>Installing an owner\<close>

lemma install_owner_ok:
  assumes "install_owner E uid fpr v = (Inr w, v1)" and "owner v \<noteq> uid"
  shows "owner v1 = uid" "recovery v1 = recovery v" "jget (doc v1) ''items'' = jget (doc v) ''items''"
    and "recipient_fpr v1 u = (if u = uid then Some fpr else recipient_fpr v u)"
proof -
  from assms(1) obtain rs where r: "get_object (doc v) ''recipients'' = Some rs"
    by (auto simp: install_owner_def split: sum.splits)
  then have "jget (doc v) ''recipients'' = Some (JObj rs)" by simp
  then obtain d where d: "doc v = JObj d" "map_of d ''recipients'' = Some (JObj rs)"
    by (cases "doc v") (simp_all add: jget_def)
  have om: "obj_mut (doc v) ''recipients'' = Inr rs" using r by simp
  define r1 where "r1 = map_insert uid (mk_obj [(''fingerprint'', JStr fpr), (''role'', JStr ''owner''),
                      (''added_at'', JStr (now_iso E))]) rs"
  define r2 where "r2 = (case Option.bind (map_of r1 (owner v)) as_object of
                       Some entry \<Rightarrow>
                         map_insert (owner v) (JObj (map_insert ''owner_until'' (JStr (now_iso E))
                           (map_insert ''role'' (JStr ''member'') entry))) r1
                     | None \<Rightarrow> r1)"
  have v1: "v1 = v\<lparr>doc := JObj (map_insert ''owner'' (JStr uid) (map_insert ''recipients'' (JObj r2) d)),
                 owner := uid\<rparr>"
    using assms(1) unfolding install_owner_def om sum.case Let_def r1_def [symmetric] r2_def [symmetric]
    by (simp add: put_section_def d(1))
  show "owner v1 = uid" "recovery v1 = recovery v" "jget (doc v1) ''items'' = jget (doc v) ''items''"
    by (simp_all add: v1 d(1) map_of_map_insert)
  have "Option.bind (map_of r2 u) (\<lambda>r. get_str r ''fingerprint'')
      = (if u = uid then Some fpr else Option.bind (map_of rs u) (\<lambda>r. get_str r ''fingerprint''))"
    using assms(2)
    by (auto simp: r2_def r1_def map_of_map_insert get_str_def bind_eq_Some_conv split: option.splits)
  then show "recipient_fpr v1 u = (if u = uid then Some fpr else recipient_fpr v u)"
    by (simp add: recipient_fpr_def v1 d map_of_map_insert)
qed

definition but_management :: "json option \<Rightarrow> json option \<Rightarrow> bool" where
  "but_management e e' \<longleftrightarrow>
     (case (e, e') of
        (None, None) \<Rightarrow> True
      | (Some x, Some x') \<Rightarrow> (\<forall>k. k \<noteq> ''management'' \<longrightarrow> jget x' k = jget x k)
      | _ \<Rightarrow> False)"

lemma transfer_entry_ok:
  "transfer_entry own former ident entry = Inr (Some entry') \<Longrightarrow> but_management (Some entry) (Some entry')"
  by (auto simp: transfer_entry_def Let_def result_simps but_management_def map_of_map_insert
      split: option.splits if_splits json.splits)

lemma transfer_entries_ok:
  "transfer_entries own former es = (r, es') \<Longrightarrow>
     map fst es' = map fst es \<and> (\<forall>ident. but_management (map_of es ident) (map_of es' ident))"
proof (induction own former es arbitrary: r es' rule: transfer_entries.induct)
  case (1 own former)
  then show ?case by (simp add: but_management_def)
next
  case (2 own former ident entry es)
  have refl: "but_management e e" for e by (simp add: but_management_def split: option.split)
  show ?case
  proof (cases "transfer_entry own former ident entry")
    case (Inl e)
    with "2.prems" refl show ?thesis by auto
  next
    case (Inr q)
    obtain r0 es0 where rest: "transfer_entries own former es = (r0, es0)" by fastforce
    show ?thesis
    proof (cases q)
      case None
      with "2.prems" Inr rest "2.IH"(1) [OF Inr None rest] refl show ?thesis by auto
    next
      case (Some entry')
      with "2.prems" Inr rest "2.IH"(2) [OF Inr Some rest] transfer_entry_ok show ?thesis by auto
    qed
  qed
qed


lemma transfer_ok:
  assumes "transfer_former_owner_control v = (r, v')"
  shows "owner v' = owner v" "recovery v' = recovery v" "recipient_fpr v' = recipient_fpr v"
    and "map fst (stored_items v') = map fst (stored_items v)"
    and "but_management (item_entry v ident) (item_entry v' ident)"
proof -
  have keep: "but_management e e" for e by (simp add: but_management_def split: option.split)
  consider (same) "v' = v" | (moved) own former items items' where "get_object (doc v) ''items'' = Some items"
      "transfer_entries own former items = (r, items')" "v' = put_section ''items'' items' v"
  proof (cases "former_owners v")
    case (Inl e)
    with assms same show ?thesis by (simp add: transfer_former_owner_control_def)
  next
    case f: (Inr former)
    show ?thesis
    proof (cases "obj_mut (doc v) ''items''")
      case (Inl e)
      with assms f same show ?thesis by (simp add: transfer_former_owner_control_def)
    next
      case i: (Inr items)
      obtain r0 items' where e: "transfer_entries (owner v) former items = (r0, items')" by fastforce
      with assms f i have "r0 = r" "v' = put_section ''items'' items' v"
        by (simp_all add: transfer_former_owner_control_def del: obj_mut_ok)
      with moved [of items "owner v" former items'] e i show ?thesis by simp
    qed
  qed
  then have "owner v' = owner v \<and> recovery v' = recovery v \<and> recipient_fpr v' = recipient_fpr v
      \<and> map fst (stored_items v') = map fst (stored_items v)
      \<and> but_management (item_entry v ident) (item_entry v' ident)"
  proof cases
    case same
    with keep show ?thesis by simp
  next
    case moved
    from get_object_put [OF moved(1)] have g: "jget (doc v') = (jget (doc v))(''items'' \<mapsto> JObj items')"
      by (simp add: moved(3))
    have i: "stored_items v = items" "stored_items v' = items'" using moved(1) g by (simp_all add: stored_items_def get_object_def)
    have "item_entry v ident = map_of items ident" "item_entry v' ident = map_of items' ident"
      using stored_items_entry [of v ident] stored_items_entry [of v' ident] i by simp_all
    with transfer_entries_ok [OF moved(2)] i g show ?thesis
      by (simp add: moved(3) recipient_fpr_def fun_eq_iff)
  qed
  then show "owner v' = owner v" "recovery v' = recovery v" "recipient_fpr v' = recipient_fpr v"
    "map fst (stored_items v') = map fst (stored_items v)" "but_management (item_entry v ident) (item_entry v' ident)" by blast+
qed

lemma item_ids_ok: "item_ids v = Inr ids \<Longrightarrow> ids = map fst (stored_items v)"
  by (auto simp: item_ids_def stored_items_def get_defs split: option.splits json.splits)

lemma rotate_owner_ok:
  assumes "rotate_owner E S uid fpr v h = (Inr r, v', h')" and "distinct (map fst (stored_items v))"
  obtains v2 where "owner v \<noteq> uid" "owner v2 = uid" "recovery v2 = recovery v"
    "\<And>u. recipient_fpr v2 u = (if u = uid then Some fpr else recipient_fpr v u)"
    "\<And>ident. but_management (item_entry v ident) (item_entry v2 ident)"
    "\<And>ident. item_entry v' ident \<noteq> None \<Longrightarrow> rewrapped_to S v2 (owner v) ident (item_entry v' ident)"
    "owner v' = uid" "persisted h' = Some (doc v')"
proof -
  have o: "owner v \<noteq> uid" using assms(1) unfolding rotate_owner_def by (cases "owner v = uid") simp_all
  note run = assms(1) [unfolded rotate_owner_def if_not_P [OF o]]
  obtain a1 v1 where p1: "install_owner E uid fpr v = (a1, v1)" by fastforce
  with run obtain w where w: "a1 = Inr w" by (cases a1) simp_all
  note io = p1 [unfolded w]
  obtain a2 v2 where p2: "transfer_former_owner_control v1 = (a2, v2)" by fastforce
  with run io obtain mv where mv: "a2 = Inr mv" by (cases a2) simp_all
  note t = p2 [unfolded mv]
  from run io t obtain ids where ids: "item_ids v2 = Inr ids" by (cases "item_ids v2") simp_all
  obtain a3 v3 where p3: "rewrap_all S (owner v) ids 0 v2 = (a3, v3)" by fastforce
  with run io t ids obtain n where n: "a3 = Inr n" by (cases a3) simp_all
  note all = p3 [unfolded n]
  obtain a4 v4 h4 where p4: "save v3 h = (a4, v4, h4)" by (metis prod_cases3)
  with run io t ids all obtain q where q: "a4 = Inr q" by (cases a4) simp_all
  from run io t ids all p4 [unfolded q] have s: "save v3 h = (Inr q, v', h')" by (simp add: p4 q)
  note inst = install_owner_ok [OF io o]
  note tr = transfer_ok [OF t]
  have "item_entry v1 = item_entry v" using inst(3) by (rule item_entry_cong)
  moreover have "stored_items v1 = stored_items v" using inst(3) by (simp add: stored_items_def get_object_def)
  ultimately have i: "map fst (stored_items v2) = map fst (stored_items v)"
    "\<And>ident. but_management (item_entry v ident) (item_entry v2 ident)" using tr(4,5) by simp_all
  have d: "distinct ids" using item_ids_ok [OF ids] i(1) assms(2) by simp
  note loop = rewrap_all_ok [OF all d]
  have e: "item_entry v' = item_entry v3" using item_entry_save [OF s] .
  have "rewrapped_to S v2 (owner v) ident (item_entry v' ident)" if "item_entry v' ident \<noteq> None" for ident
  proof (cases "ident \<in> set ids")
    case True
    with loop e show ?thesis by auto
  next
    case False
    then have "map_of (stored_items v2) ident = None"
      using item_ids_ok [OF ids] by (simp add: map_of_eq_None_iff)
    then have "item_entry v2 ident = None" by (simp add: stored_items_entry)
    with False loop e that show ?thesis by (metis (full_types))
  qed
  moreover have "owner v' = uid" using save_frame [OF s] loop tr(1) inst(1) by (simp add: beside_items_def)
  ultimately show ?thesis
    using that [of v2] o tr inst i(2) save_ok_persisted [OF s] by simp
qed

text \<open>C8: after an owner is installed every current and saved ciphertext of every item is sealed to the
  new owner's key and no longer to the old owner's, with the same plain text, and nothing else of
  the item but its readers and who controls it has changed.\<close>

theorem rotated_to_new_owner:
  assumes "rotate_owner E S uid fpr v h = (Inr r, v', h')" and "distinct (map fst (stored_items v))"
    and "recipient_fpr v (owner v) = Some old" and "old \<noteq> fpr" "old \<noteq> recovery v"
    and "\<And>u. u \<noteq> owner v \<Longrightarrow> u \<noteq> uid \<Longrightarrow> recipient_fpr v u \<noteq> Some old"
    and "item_entry v' ident = Some item'"
  shows "persisted h' = Some (doc v') \<and> owner v' = uid
    \<and> (\<exists>item moved fprs. item_entry v ident = Some item \<and> (\<forall>k. k \<noteq> ''management'' \<longrightarrow> jget moved k = jget item k)
         \<and> sealed_anew S fprs moved item' \<and> fpr \<in> set fprs \<and> old \<notin> set fprs)"
proof -
  from rotate_owner_ok [OF assms(1,2)] obtain v2 where v2: "owner v \<noteq> uid" "owner v2 = uid" "recovery v2 = recovery v"
    "\<And>u. recipient_fpr v2 u = (if u = uid then Some fpr else recipient_fpr v u)"
    "\<And>ident. but_management (item_entry v ident) (item_entry v2 ident)"
    "\<And>ident. item_entry v' ident \<noteq> None \<Longrightarrow> rewrapped_to S v2 (owner v) ident (item_entry v' ident)"
    "owner v' = uid" "persisted h' = Some (doc v')" by metis
  from v2(6) [of ident] assms(7) obtain moved uids where m: "item_entry v2 ident = Some moved"
    "sealed_anew S (fprs_for v2 (filter (\<lambda>u. u \<noteq> owner v) uids)) moved item'"
    by (auto simp: rewrapped_to_def)
  from v2(5) [of ident] m(1) obtain item where i: "item_entry v ident = Some item"
    "\<forall>k. k \<noteq> ''management'' \<longrightarrow> jget moved k = jget item k"
    by (auto simp: but_management_def split: option.splits)
  have "old \<notin> set (fprs_for v2 (filter (\<lambda>u. u \<noteq> owner v) uids))"
    using assms(4-6) v2(1-4) by (intro fprs_for_excludes) auto
  moreover have "fpr \<in> set (fprs_for v2 (filter (\<lambda>u. u \<noteq> owner v) uids))"
    using push_fprs_has [of "owner v2" "filter (\<lambda>u. u \<noteq> owner v) uids @ [owner v2]" v2 fpr] v2(2,4)
    by (auto simp: fprs_for_def Let_def)
  ultimately show ?thesis using i m(2) v2(7,8) by blast
qed


section \<open>At a concrete vault\<close>

text \<open>A seal that names the keys it is for, and an owner and a member who both read one item with a
  saved version and a staged value.\<close>

definition demo_seals :: seals where
  "demo_seals = \<lparr>
     open_text = (\<lambda>c. case split_once (CHR ''|'') c of Some (_, t) \<Rightarrow> Inr t | None \<Rightarrow> Inl (DecryptFailed c)),
     seal_text = (\<lambda>fprs t. Inr (concat (map (\<lambda>f. f @ '','') fprs) @ ''|'' @ t))\<rparr>"

definition demo_waiting :: json where
  "demo_waiting = mk_obj [(''ciphertext'', JStr ''BOB,ADA,REC,|new''), (''operation_id'', JStr ''op''),
     (''field'', JStr ''value''), (''written_by'', JStr ''w''), (''revision'', JUInt 3)]"

definition demo_shared_item :: json where
  "demo_shared_item = mk_obj
     [(''format'', JUInt 2), (''state'', JStr ''active''), (''revision'', JUInt 2),
      (''recipients'', JArr [JStr ''bob'']), (''tags'', JArr []),
      (''management'', mk_management ModeManaged ''weles''),
      (''current'', mk_obj [(''ciphertext'', JStr ''BOB,ADA,REC,|now''), (''written_by'', JStr ''w'')]),
      (''history'', JArr [mk_obj [(''ciphertext'', JStr ''BOB,ADA,REC,|old'')]]),
      (''pending'', demo_waiting)]"

definition demo_readers :: vault where
  "demo_readers =
     \<lparr>doc = mk_obj
        [(''items'', mk_obj [(''m'', demo_shared_item)]),
         (''recipients'', mk_obj [(''ada'', mk_obj [(''fingerprint'', JStr ''ADA'')]),
                                  (''bob'', mk_obj [(''fingerprint'', JStr ''BOB'')])])],
      base_generation = None, owner = ''ada'', recovery = ''REC''\<rparr>"

definition demo_disk :: host where
  "demo_disk = \<lparr>persisted = None, copy_refusal = None, write_locked = False, fence = None,
                write_refused = False\<rparr>"

definition demo_removed :: "(reader_error + json) \<times> vault \<times> host" where
  "demo_removed = remove_recipient demo_seals ''bob'' demo_readers demo_disk"

definition demo_activated :: "(vault_error + u64) \<times> vault \<times> host" where
  "demo_activated =
     activate_staged_revision demo_env ''m'' ''op'' ''value'' ''w'' (fst (snd demo_removed)) (snd (snd demo_removed))"

definition demo_rotated :: "(reader_error + json) \<times> vault \<times> host" where
  "demo_rotated = rotate_owner demo_env demo_seals ''eve'' ''EVE'' demo_readers demo_disk"

lemma demo_shared_facts:
  "distinct (map fst (stored_items demo_readers))"
  "item_entry demo_readers ''m'' = Some demo_shared_item" "jget demo_shared_item ''pending'' = Some demo_waiting"
  by code_simp+

lemma demo_shared_fpr:
  "recipient_fpr demo_readers u = (if u = ''ada'' then Some ''ADA'' else if u = ''bob'' then Some ''BOB'' else None)"
  by (simp add: recipient_fpr_def demo_readers_def)

lemma demo_runs:
  "succeeded demo_removed" "succeeded demo_activated" "succeeded demo_rotated"
  "item_entry (fst (snd demo_removed)) ''m'' \<noteq> None" "item_entry (fst (snd demo_rotated)) ''m'' \<noteq> None"
  by code_simp+

theorem removed_recipient_sealed_out_witness:
  "\<exists>r v' h' item'. remove_recipient demo_seals ''bob'' demo_readers demo_disk = (Inr r, v', h')
    \<and> item_entry v' ''m'' = Some item' \<and> recipient_fpr v' ''bob'' = None \<and> \<not> lists_reader ''bob'' item'"
proof -
  obtain r v' h' where d: "demo_removed = (Inr r, v', h')" using demo_runs(1) by (rule succeededE)
  from demo_runs(4) [unfolded d fst_conv snd_conv] obtain item' where i: "item_entry v' ''m'' = Some item'" by auto
  have run: "remove_recipient demo_seals ''bob'' demo_readers demo_disk = (Inr r, v', h')"
    using d by (simp add: demo_removed_def)
  have "recipient_fpr demo_readers ''bob'' = Some ''BOB''" "\<And>u. u \<noteq> ''bob'' \<Longrightarrow> recipient_fpr demo_readers u \<noteq> Some ''BOB''"
    by (auto simp: demo_shared_fpr)
  from removed_recipient_sealed_out [OF run demo_shared_facts(1) this i] run i show ?thesis by blast
qed

theorem staged_outlives_removal_witness:
  "\<exists>item2. item_entry (fst (snd demo_activated)) ''m'' = Some item2 \<and> jget item2 ''current'' = Some demo_waiting
    \<and> get_str demo_waiting ''ciphertext'' = Some ''BOB,ADA,REC,|new'' \<and> \<not> lists_reader ''bob'' item2"
proof -
  obtain r v' h' where d: "demo_removed = (Inr r, v', h')" using demo_runs(1) by (rule succeededE)
  obtain n v2 h2 where a: "demo_activated = (Inr n, v2, h2)" using demo_runs(2) by (rule succeededE)
  have run: "remove_recipient demo_seals ''bob'' demo_readers demo_disk = (Inr r, v', h')"
    using d by (simp add: demo_removed_def)
  have act: "activate_staged_revision demo_env ''m'' ''op'' ''value'' ''w'' v' h' = (Inr n, v2, h2)"
    using a [unfolded demo_activated_def d fst_conv snd_conv] .
  have c: "get_str demo_waiting ''ciphertext'' = Some ''BOB,ADA,REC,|new''" by (simp add: demo_waiting_def)
  from staged_outlives_removal [OF run demo_shared_facts act] a c show ?thesis unfolding a fst_conv snd_conv by blast
qed

theorem rotated_to_new_owner_witness:
  "\<exists>item' moved fprs. item_entry (fst (snd demo_rotated)) ''m'' = Some item'
    \<and> sealed_anew demo_seals fprs moved item' \<and> ''EVE'' \<in> set fprs \<and> ''ADA'' \<notin> set fprs"
proof -
  obtain r v' h' where d: "demo_rotated = (Inr r, v', h')" using demo_runs(3) by (rule succeededE)
  from demo_runs(5) [unfolded d fst_conv snd_conv] obtain item' where i: "item_entry v' ''m'' = Some item'" by auto
  have run: "rotate_owner demo_env demo_seals ''eve'' ''EVE'' demo_readers demo_disk = (Inr r, v', h')"
    using d by (simp add: demo_rotated_def)
  have o: "owner demo_readers = ''ada''" "recovery demo_readers = ''REC''" by (simp_all add: demo_readers_def)
  have f: "recipient_fpr demo_readers (owner demo_readers) = Some ''ADA''" "''ADA'' \<noteq> ''EVE''" "''ADA'' \<noteq> recovery demo_readers"
    "\<And>u. u \<noteq> owner demo_readers \<Longrightarrow> u \<noteq> ''eve'' \<Longrightarrow> recipient_fpr demo_readers u \<noteq> Some ''ADA''"
    by (auto simp: demo_shared_fpr o)
  from rotated_to_new_owner [OF run demo_shared_facts(1) f i] i show ?thesis unfolding d fst_conv snd_conv by blast
qed

end
