(* ===== verification/Spec2Isabelle.thy ===== *)
theory Spec2Isabelle
  imports VaultProps ManagedProps MigrateProps RouteProps BrokerWitness RequestWitness AcqWitness Patterns
    CryptoProps Adler ArmorProps PacketsProps MigrateGrantProps MigrateItemProps RewrapProps
begin

text \<open>
  Skarbiec is a password vault for people and for agents: one JSON document whose items are
  encrypted to registered recipients, grants that say which consumer may do what with which item,
  a broker that spends capabilities, requests that people decide, and the cryptography underneath
  (the crate \<open>crates/crypto\<close>). This development models the core of it from the Rust sources: paths
  below are under \<open>src/\<close>, the program's crate being \<open>src/src\<close>, the cryptographic one
  \<open>src/crates/crypto/src\<close>.

  Conventions. A Rust \<open>Result\<close> is a sum with the error on the left and \<open>?\<close> is \<open>bindR\<close> (\<open>Prelude\<close>);
  every error the code returns is a constructor of a datatype of its component, and an assertion or
  index the code would panic at is a constructor or \<open>None\<close>, never an unspecified value, but for the
  one case named under OCB. A \<open>str\<close> is the list of its UTF-8 bytes as \<open>char\<close>s, a byte string a list
  of \<open>8 word\<close>, machine integers whose overflow matters are words. A JSON value is the datatype of
  \<open>Json\<close>, with objects in the key order \<open>serde_json\<close> keeps. The vault handle, the request register,
  the journal and the acquisition state are records passed and returned; what an operation asks of
  the machine (the clock, randomness, files that may fail, encryption to recipients, key checks) is
  a field of an environment record, so a failure is an answer the theorems quantify over.

  The vault (\<open>core/vault\<close>, \<open>core/schema\<close>).
  \<open>Schema\<close> and \<open>Tags\<close> are the kinds, their payload validation and the tag registry. \<open>Vault\<close> is the
  document and its file: open, create, save with the generation check, recipients and readers.
  \<open>VaultItems\<close> holds item writes (envelope, history, duplicates, recipients), states, renames,
  tags and saved versions; \<open>Managed\<close> what a lifecycle controller may stage and activate; \<open>CredReads\<close>
  which value a reader meets meanwhile; \<open>Rewrap\<close> the removal of a person and the installation of an
  owner, with \<open>RewrapProps\<close> on who can open what afterwards. \<open>Migrate\<close> is the validation of the v2 format, \<open>Patterns\<close> the
  glob and field names a legacy grant may use, \<open>Legacy\<close> the reading of an item older than the
  schema, \<open>MigrateGrants\<close> and \<open>MigrateItems\<close> the migration of grants, items and the vault; their
  properties (\<open>LegacyProps\<close>, \<open>MigrateGrantProps\<close>, \<open>MigrateItemProps\<close>) are that no grant is widened,
  that what is built passes the validation, that an item becomes its kind or is kept whole, and that
  the vault is saved validated or not at all. \<open>VaultProps\<close>, \<open>ManagedProps\<close> and \<open>MigrateProps\<close> show that a
  write is read back, that a failed one leaves nothing, that no update is lost between two handles,
  that identity, creation and history are carried, that every item is encrypted to its owner and the
  recovery key, that staging and activating refine a write of one field and that validity is kept.
  \<open>Fixtures\<close> has the vaults the witnesses evaluate on.

  Grants and routes (\<open>access/grant\<close>, \<open>access/actions.rs\<close>, \<open>access/route\<close>).
  \<open>Actions\<close>, \<open>Grants\<close>, \<open>GrantRules\<close> and \<open>GrantOps\<close> are the table of actions, the lookup of grants, the
  grammar of capabilities and each change of a grant; \<open>GrantFrame\<close> and \<open>GrantParse\<close> the laws of the
  grant section and of the grammar, \<open>GrantProps\<close> what the operations guarantee. \<open>Routes\<close> and
  \<open>RouteProps\<close> are declarations, resolution and listings, and their stability under renames.

  The brokers (\<open>access/capability\<close>, \<open>access/request\<close>, \<open>access/acquisition\<close>).
  \<open>Journal\<close> is the append-only journal with every partial write, \<open>Broker\<close> one capability request from
  parsing to answer, \<open>Requests\<close> the register people decide on, \<open>Acquisition\<close> single-use bearers. Their
  \<open>Laws\<close> theories hold the state invariants, their \<open>Props\<close> the statements over every run of events
  (\<open>Traces\<close> gives the two contracts, a spending budget and a replay guard, as locales that each broker
  interprets), their \<open>Witness\<close> theories the concrete runs.

  Cryptography (\<open>crates/crypto\<close>).
  \<open>Bytes\<close>; \<open>Aes\<close> with \<open>AesField\<close> (the field laws), \<open>AesModes\<close>, \<open>AesProps\<close>; \<open>Ocb\<close>, \<open>Gcm\<close> and the locale
  of authenticated encryption in \<open>Aead\<close>; \<open>Chacha\<close> and Poly1305, whose limbs \<open>PolyLaws\<close>, \<open>PolyBytes\<close>,
  \<open>PolyProps\<close> and \<open>PolyTag\<close> prove to be RFC 8439's polynomial; \<open>Sha\<close> with the locale of a streamed hash
  in \<open>ShaProps\<close>; \<open>Hmac\<close>; the key schedule, suites and records of TLS 1.3 in \<open>Tls\<close> and \<open>TlsProps\<close>;
  \<open>CryptoProps\<close> states what callers rely on over the objects the code builds. \<open>Inflate\<close> is the reader of
  deflate and zlib streams, \<open>InflateBits\<close>, \<open>HuffmanLaws\<close> and \<open>HuffmanDecode\<close> its bits and canonical
  codes, \<open>InflateProps\<close> and \<open>Adler\<close> its safety and its checksum. \<open>Armor\<close> and \<open>Packets\<close> are the armor and
  the packets of OpenPGP, their round trips in \<open>ArmorProps\<close> and \<open>PacketsProps\<close>.

  Bounds and fuel. No definition uses fuel: the loops that are not structural (the glob, the chunks,
  the buffered hash, HKDF, the blocks of inflate, packets) are functions with a measure.
  Times and generations are \<open>64 word\<close> values with the code's checked and saturating arithmetic.
  Record sequence numbers are \<open>64 word\<close>: the theorem on records stops where the code refuses.
  OCB says nothing of messages of \<open>2^32\<close> blocks, where the code's table of offsets ends.

  What is taken as given, always as a named hypothesis of the property that needs it: that decryption
  opens what encryption sealed, that a signature check answers for the key it is asked about, and that
  hashes of different inputs met in a run differ, where a property depends on it. The failures of a
  save are those before the rename of the written file; the fence is whatever holds this write back.
  Wiping buffers and timing are not modelled.

  Not modelled. The command line, HTTP, MCP and operator surfaces parse flags and requests, call the
  operations above and print; the watchers, dialogs, importers, credential helpers, rotations, scans
  and exports under \<open>runtime\<close>, \<open>net\<close>, \<open>cli\<close>, \<open>bonds\<close> and \<open>onboarding\<close> are I/O against other programs and
  services. The lifecycle of credentials (\<open>credential\<close>) drives such services; only what it leaves in
  the vault is modelled. Of the cryptographic crate the elliptic curves, RSA, big numbers,
  certificates, the TLS handshake and the key files of gpg-agent and keyboxd are left out: their
  correctness rests on number theory the libraries at hand do not have. The reseal of stored ciphertexts from
  one message format to the other is left out with those formats.
\<close>

end
